(* ===== verification/Py_Prelude.thy ===== *)
theory Py_Prelude
  imports
    Main
    "HOL-Library.AList"
    "HOL-Library.Word"
    "HOL-Library.List_Lexorder"
    "HOL-Library.Product_Lexorder"
    "HOL-Library.Char_ord"
    "HOL-Library.Multiset"
begin

text \<open>
  Shared vocabulary of the development. Python values are represented as follows:
  \<^item> \<open>bytes\<close> is a list of 8-bit words, ordered lexicographically as Python orders
    \<open>bytes\<close>; \<open>str\<close> is \<open>string\<close>;
  \<^item> a \<open>dict\<close> is an association list with insertion order: \<open>dset\<close> overwrites a
    present key in place and appends a new one, \<open>ddel\<close> removes a key, \<open>map_of\<close>
    is \<open>dict.get\<close>;
  \<^item> a \<open>set\<close> is a HOL set; a loop over a set takes an arbitrary iteration order
    as a parameter (\<open>iter_set\<close>), so every theorem holds for each order the
    interpreter may choose;
  \<^item> the order in which the awaitables of one \<open>asyncio.gather\<close> settle is likewise
    a parameter (\<open>settle_order\<close>), guarded to be a permutation.
\<close>

named_theorems dict_simps \<open>laws of insertion-ordered dictionaries\<close>

section \<open>Bytes and hexadecimal rendering\<close>

type_synonym byte = "8 word"
type_synonym bytes = "byte list"

definition hex_digit :: "nat \<Rightarrow> char" where
  "hex_digit n = ''0123456789abcdef'' ! n"

text \<open>\<open>bytes.hex()\<close>: two lower-case digits per byte.\<close>

definition hex :: "bytes \<Rightarrow> string" where
  "hex bs = concat (map (\<lambda>b. [hex_digit (unat b div 16), hex_digit (unat b mod 16)]) bs)"

lemma hex_digit_inj: "i < 16 \<Longrightarrow> j < 16 \<Longrightarrow> hex_digit i = hex_digit j \<Longrightarrow> i = j"
proof -
  assume ij: "i < 16" "j < 16" and eq: "hex_digit i = hex_digit j"
  have "distinct (''0123456789abcdef'')" by simp
  moreover have "length ''0123456789abcdef'' = (16::nat)" by simp
  ultimately show "i = j"
    using ij eq by (metis hex_digit_def nth_eq_iff_index_eq)
qed

lemma hex_Nil [simp]: "hex [] = []"
  by (simp add: hex_def)

lemma hex_Cons [simp]:
  "hex (b # bs) = hex_digit (unat b div 16) # hex_digit (unat b mod 16) # hex bs"
  by (simp add: hex_def)

lemma unat_byte_less: "unat (b :: byte) < 256"
proof -
  have "unat b < 2 ^ LENGTH(8)" by (rule unsigned_less)
  then show ?thesis by simp
qed

lemma byte_digits_inj:
  fixes a b :: byte
  assumes "unat a div 16 = unat b div 16" "unat a mod 16 = unat b mod 16"
  shows "a = b"
proof -
  have "unat a = unat b" using assms by (metis div_mult_mod_eq)
  then show ?thesis by (simp add: word_unat_eq_iff)
qed

lemma hex_inj: "hex xs = hex ys \<Longrightarrow> xs = ys"
proof (induction xs arbitrary: ys)
  case Nil
  then show ?case by (cases ys) auto
next
  case (Cons a xs)
  then obtain b zs where ys: "ys = b # zs" by (cases ys) auto
  have d: "unat a div 16 < 16" "unat b div 16 < 16" "unat a mod 16 < 16" "unat b mod 16 < 16"
    using unat_byte_less [of a] unat_byte_less [of b] by auto
  have "unat a div 16 = unat b div 16" "unat a mod 16 = unat b mod 16"
    using Cons.prems ys d by (auto intro: hex_digit_inj)
  with Cons ys show ?case by (auto dest: byte_digits_inj)
qed

lemma hex_eq_iff [simp]: "hex xs = hex ys \<longleftrightarrow> xs = ys"
  by (auto dest: hex_inj)

section \<open>Big-endian integers\<close>

text \<open>\<open>v.to_bytes(n, "big")\<close>, with \<open>None\<close> for the \<open>OverflowError\<close> Python raises when
  the value does not fit, and \<open>int.from_bytes(bs, "big")\<close>.\<close>

fun be_bytes :: "nat \<Rightarrow> nat \<Rightarrow> bytes" where
  "be_bytes 0 v = []"
| "be_bytes (Suc n) v = be_bytes n (v div 256) @ [word_of_nat (v mod 256)]"

definition to_bytes :: "nat \<Rightarrow> int \<Rightarrow> bytes option" where
  "to_bytes n v = (if 0 \<le> v \<and> v < 256 ^ n then Some (be_bytes n (nat v)) else None)"

definition from_bytes :: "bytes \<Rightarrow> nat" where
  "from_bytes bs = foldl (\<lambda>acc b. acc * 256 + unat b) 0 bs"

lemma length_be_bytes [simp]: "length (be_bytes n v) = n"
  by (induction n arbitrary: v) auto

lemma from_bytes_snoc [simp]: "from_bytes (bs @ [b]) = from_bytes bs * 256 + unat b"
  by (simp add: from_bytes_def)

lemma from_bytes_Nil [simp]: "from_bytes [] = 0"
  by (simp add: from_bytes_def)

lemma from_be_bytes: "from_bytes (be_bytes n v) = v mod 256 ^ n"
proof (induction n arbitrary: v)
  case 0
  then show ?case by simp
next
  case (Suc n)
  have "unat (word_of_nat (v mod 256) :: byte) = v mod 256"
    by (simp add: unat_of_nat)
  then have "from_bytes (be_bytes (Suc n) v) = (v div 256 mod 256 ^ n) * 256 + v mod 256"
    by (simp add: Suc.IH)
  also have "\<dots> = v mod (256 * 256 ^ n)"
    by (simp add: mod_mult2_eq)
  finally show ?case by simp
qed

lemma from_bytes_to_bytes: "to_bytes n v = Some bs \<Longrightarrow> int (from_bytes bs) = v"
proof -
  assume "to_bytes n v = Some bs"
  then have v: "0 \<le> v" "v < 256 ^ n" and bs: "bs = be_bytes n (nat v)"
    by (auto simp: to_bytes_def split: if_splits)
  have "nat v < 256 ^ n"
    using v by (simp add: nat_less_iff)
  then show ?thesis using v by (simp add: bs from_be_bytes)
qed

lemma from_bytes_bound: "from_bytes bs < 256 ^ length bs"
proof (induction bs rule: rev_induct)
  case Nil
  then show ?case by simp
next
  case (snoc b bs)
  have "from_bytes bs * 256 + unat b < (from_bytes bs + 1) * 256"
    using unat_byte_less [of b] by simp
  also have "\<dots> \<le> 256 ^ length bs * 256"
    using snoc by (simp add: Suc_le_eq)
  finally show ?case by simp
qed

section \<open>Dictionaries\<close>

type_synonym ('k, 'v) dict = "('k \<times> 'v) list"

definition dset :: "'k \<Rightarrow> 'v \<Rightarrow> ('k, 'v) dict \<Rightarrow> ('k, 'v) dict" where
  "dset k v d = AList.update k v d"

definition ddel :: "'k \<Rightarrow> ('k, 'v) dict \<Rightarrow> ('k, 'v) dict" where
  "ddel k d = AList.delete k d"

definition dhas :: "('k, 'v) dict \<Rightarrow> 'k \<Rightarrow> bool" where
  "dhas d k = (map_of d k \<noteq> None)"

definition dget_or :: "('k, 'v) dict \<Rightarrow> 'k \<Rightarrow> 'v \<Rightarrow> 'v" where
  "dget_or d k v = (case map_of d k of None \<Rightarrow> v | Some x \<Rightarrow> x)"

definition wf_dict :: "('k, 'v) dict \<Rightarrow> bool" where
  "wf_dict d = distinct (map fst d)"

lemma map_of_dset [simp, dict_simps]: "map_of (dset k v d) = (map_of d)(k \<mapsto> v)"
  by (simp add: dset_def update_conv')

lemma map_of_ddel [simp, dict_simps]: "map_of (ddel k d) = (map_of d)(k := None)"
  by (simp add: ddel_def delete_conv')

lemma dget_or_dset [dict_simps]: "dget_or (dset k v d) k' w = (if k' = k then v else dget_or d k' w)"
  by (simp add: dget_or_def)

lemma dget_or_ddel [dict_simps]: "dget_or (ddel k d) k' w = (if k' = k then w else dget_or d k' w)"
  by (simp add: dget_or_def)

lemma dhas_dset [simp]: "dhas (dset k v d) k' = (k' = k \<or> dhas d k')"
  by (simp add: dhas_def)

lemma dhas_ddel [simp]: "dhas (ddel k d) k' = (k' \<noteq> k \<and> dhas d k')"
  by (simp add: dhas_def)

lemma dhas_Nil [simp]: "\<not> dhas [] k"
  by (simp add: dhas_def)

lemma dhas_iff_keys: "dhas d k \<longleftrightarrow> k \<in> fst ` set d"
  by (auto simp: dhas_def map_of_eq_None_iff)

lemma wf_dict_Nil [simp]: "wf_dict []"
  by (simp add: wf_dict_def)

lemma wf_dict_dset [simp, intro]: "wf_dict d \<Longrightarrow> wf_dict (dset k v d)"
  by (simp add: wf_dict_def dset_def distinct_update)

lemma wf_dict_ddel [simp, intro]: "wf_dict d \<Longrightarrow> wf_dict (ddel k d)"
  unfolding wf_dict_def ddel_def by (rule distinct_delete)

lemma wf_dict_filter [simp, intro]: "wf_dict d \<Longrightarrow> wf_dict (filter P d)"
  by (simp add: wf_dict_def distinct_map_filter)

lemma wf_dict_map_of: "wf_dict d \<Longrightarrow> map_of d k = Some v \<longleftrightarrow> (k, v) \<in> set d"
  by (simp add: wf_dict_def map_of_eq_Some_iff)

lemma keys_dset: "map fst (dset k v d) = (if dhas d k then map fst d else map fst d @ [k])"
  by (simp add: dset_def update_keys dhas_iff_keys)

lemma map_of_filter_key: "map_of (filter (\<lambda>(k, _). P k) d) k = (if P k then map_of d k else None)"
  by (induction d) auto

text \<open>Removing every key of a list, in the order of the list.\<close>

definition ddel_all :: "'k list \<Rightarrow> ('k, 'v) dict \<Rightarrow> ('k, 'v) dict" where
  "ddel_all ks d = fold ddel ks d"

lemma map_of_fold_ddel: "map_of (fold ddel ks d) k = (if k \<in> set ks then None else map_of d k)"
  by (induction ks arbitrary: d) auto

lemma map_of_ddel_all [simp, dict_simps]:
  "map_of (ddel_all ks d) k = (if k \<in> set ks then None else map_of d k)"
  by (simp add: ddel_all_def map_of_fold_ddel)

lemma wf_dict_ddel_all [simp, intro]: "wf_dict d \<Longrightarrow> wf_dict (ddel_all ks d)"
  unfolding ddel_all_def by (induction ks arbitrary: d) auto

lemma set_ddel: "set (ddel k d) = {p \<in> set d. fst p \<noteq> k}"
  by (induction d) (auto simp: ddel_def)

lemma set_dset: "wf_dict d \<Longrightarrow> set (dset k v d) = insert (k, v) {p \<in> set d. fst p \<noteq> k}"
  by (induction d) (auto simp: dset_def wf_dict_def image_iff)

text \<open>\<open>list(dict.fromkeys(xs))\<close>: each element once, in the order of first occurrence.\<close>

fun dict_fromkeys :: "'a list \<Rightarrow> 'a list" where
  "dict_fromkeys [] = []"
| "dict_fromkeys (x # xs) = x # filter (\<lambda>y. y \<noteq> x) (dict_fromkeys xs)"

lemma set_dict_fromkeys [simp]: "set (dict_fromkeys xs) = set xs"
  by (induction xs) auto

lemma distinct_dict_fromkeys [simp]: "distinct (dict_fromkeys xs)"
  by (induction xs) auto

lemma dict_fromkeys_distinct: "distinct xs \<Longrightarrow> dict_fromkeys xs = xs"
  by (induction xs) (auto simp: filter_id_conv)

section \<open>Iteration orders\<close>

text \<open>
  A loop over a Python set visits each element once in an unspecified order.
  \<open>iter_set ord S\<close> is that order: whatever \<open>ord\<close> proposes when it is an
  enumeration of \<open>S\<close>, the sorted enumeration otherwise.
\<close>

definition iter_set :: "('a::linorder set \<Rightarrow> 'a list) \<Rightarrow> 'a set \<Rightarrow> 'a list" where
  "iter_set ord S =
     (let xs = ord S in if distinct xs \<and> set xs = S then xs else sorted_list_of_set S)"

lemma iter_set_subset: "set (iter_set ord S) \<subseteq> S"
  by (cases "finite S") (auto simp: iter_set_def Let_def)

lemma in_iter_set: "x \<in> set (iter_set ord S) \<Longrightarrow> x \<in> S"
  using iter_set_subset by fast

lemma set_iter_set: "finite S \<Longrightarrow> set (iter_set ord S) = S"
  by (auto simp: iter_set_def Let_def)

lemma distinct_iter_set [simp]: "distinct (iter_set ord S)"
  by (simp add: iter_set_def Let_def)

lemma iter_set_empty [simp]: "iter_set ord {} = []"
  by (auto simp: iter_set_def Let_def)

lemma iter_set_singleton [simp]: "iter_set ord {x} = [x]"
proof -
  have "distinct xs \<Longrightarrow> set xs = {x} \<Longrightarrow> xs = [x]" for xs :: "'a list"
    by (cases xs; cases "tl xs") auto
  then show ?thesis by (auto simp: iter_set_def Let_def)
qed

definition settle_order :: "('a list \<Rightarrow> 'a list) \<Rightarrow> 'a list \<Rightarrow> 'a list" where
  "settle_order sched xs = (if mset (sched xs) = mset xs then sched xs else xs)"

lemma mset_settle_order [simp]: "mset (settle_order sched xs) = mset xs"
  by (simp add: settle_order_def)

lemma set_settle_order [simp]: "set (settle_order sched xs) = set xs"
  by (metis mset_settle_order set_mset_mset)

lemma distinct_settle_order [simp]: "distinct (settle_order sched xs) = distinct xs"
  by (metis mset_settle_order mset_eq_imp_distinct_iff)

section \<open>Folding a state transformer over a list\<close>

text \<open>
  A Python loop whose body may leave the enclosing function early: the body returns the
  new state and whether the function returned. Once it has, the rest of the list is not
  visited.
\<close>

fun for_each :: "('a \<Rightarrow> 's \<Rightarrow> 's \<times> bool) \<Rightarrow> 'a list \<Rightarrow> 's \<Rightarrow> 's \<times> bool" where
  "for_each f [] s = (s, False)"
| "for_each f (x # xs) s = (case f x s of (s', ret) \<Rightarrow> if ret then (s', True) else for_each f xs s')"

lemma for_each_append:
  "for_each f (xs @ ys) s =
     (case for_each f xs s of (s', ret) \<Rightarrow> if ret then (s', True) else for_each f ys s')"
  by (induction xs arbitrary: s) (auto split: prod.splits)

lemma fold_invariant:
  assumes "P s" and "\<And>x s. x \<in> set xs \<Longrightarrow> P s \<Longrightarrow> P (f x s)"
  shows "P (fold f xs s)"
  using assms by (induction xs arbitrary: s) auto

lemma for_each_invariant:
  assumes "P s" and "\<And>x s. x \<in> set xs \<Longrightarrow> P s \<Longrightarrow> P (fst (f x s))"
  shows "P (fst (for_each f xs s))"
  using assms
proof (induction xs arbitrary: s)
  case Nil
  then show ?case by simp
next
  case (Cons x xs)
  obtain s' ret where fx: "f x s = (s', ret)" by fastforce
  have "P (fst (f x s))" using Cons.prems by simp
  then have "P s'" by (simp add: fx)
  with Cons.prems(2) have "P (fst (for_each f xs s'))" by (intro Cons.IH) auto
  with \<open>P s'\<close> show ?case by (simp add: fx)
qed

section \<open>Building a dictionary from distinct keys\<close>

lemma in_fst_image: "r \<in> fst ` A \<longleftrightarrow> (\<exists>t. (r, t) \<in> A)"
  by force

lemma dset_fresh: "\<not> dhas d k \<Longrightarrow> dset k v d = d @ [(k, v)]"
  by (induction d) (auto simp: dset_def dhas_def split: if_splits)

lemma fold_dset_distinct:
  "distinct (map f xs) \<Longrightarrow> (\<And>x. x \<in> set xs \<Longrightarrow> \<not> dhas d (f x)) \<Longrightarrow>
   fold (\<lambda>x d. dset (f x) (g x) d) xs d = d @ map (\<lambda>x. (f x, g x)) xs"
proof (induction xs arbitrary: d)
  case (Cons x xs)
  have "fold (\<lambda>x d. dset (f x) (g x) d) xs (dset (f x) (g x) d) = dset (f x) (g x) d @ map (\<lambda>x. (f x, g x)) xs"
    using Cons.prems by (intro Cons.IH) (auto simp: image_iff)
  then show ?case using Cons.prems by (simp add: dset_fresh)
qed simp

end
