(* ===== verification/Sep_Model.thy ===== *)
theory Sep_Model
  imports Py_Prelude
begin

text \<open>
  The IEEE 2030.5 data the event engine reads: the generated bindings of
  \<open>src/src/py20305/models/sep/sep.py\<close> (only the fields the engine uses) and the CSIP-AUS
  limit elements of \<open>models/csipaus/elements.py\<close>. A \<open>DERControlBase\<close> is the dictionary
  of its present fields, by field name, with the field values kept as opaque text, and the
  list of its extension elements. The class hierarchy of the events
  (\<open>RandomizableEvent\<close> with \<open>Dercontrol1\<close> and \<open>TimeTariffInterval1\<close> below it) is
  record extension.
\<close>

section \<open>Extension elements\<close>

text \<open>A Python value of unknown type, as \<open>_int_or_none\<close> distinguishes it.\<close>

datatype raw = RNone | RBool bool | RInt int | RStr string | ROther

record child_element =
  ch_qname :: raw
  ch_text :: raw

text \<open>
  An object in \<open>other_element\<close>: a typed limit model (its \<open>Meta.name\<close>, \<open>value\<close> and
  unwrapped \<open>multiplier\<close>), a generic element (its qualified name and children), or
  anything else.
\<close>

datatype element =
    TypedLimit string raw raw
  | AnyElement raw "child_element list"
  | OtherObject

definition DOE_LIMIT_NAMES :: "string set" where
  "DOE_LIMIT_NAMES = {''opModExpLimW'', ''opModImpLimW'', ''opModGenLimW'', ''opModLoadLimW''}"

text \<open>\<open>qname.rsplit("}", 1)[-1]\<close>: what follows the last closing brace.\<close>

definition local_name :: "raw \<Rightarrow> string option" where
  "local_name q =
     (case q of RStr s \<Rightarrow> Some (rev (takeWhile (\<lambda>c. c \<noteq> CHR ''}'') (rev s))) | _ \<Rightarrow> None)"

definition doe_element_name :: "element \<Rightarrow> string option" where
  "doe_element_name e =
     (case e of
        TypedLimit n _ _ \<Rightarrow> Some n
      | AnyElement q _ \<Rightarrow> local_name q
      | OtherObject \<Rightarrow> None)"

text \<open>\<open>int(s.strip())\<close> on text: an optional sign and decimal digits, with single
  underscores allowed between digits; \<open>None\<close> is Python's \<open>ValueError\<close>.\<close>

definition py_space :: "char \<Rightarrow> bool" where
  "py_space c = (of_char c \<in> {9, 10, 11, 12, 13, 28, 29, 30, 31, 32, 133, 160 :: nat})"

definition py_strip :: "string \<Rightarrow> string" where
  "py_strip s = rev (dropWhile py_space (rev (dropWhile py_space s)))"

definition digit_value :: "char \<Rightarrow> nat option" where
  "digit_value c =
     (let n = of_char c in if 48 \<le> n \<and> n \<le> (57::nat) then Some (n - 48) else None)"

fun parse_digits :: "nat \<Rightarrow> bool \<Rightarrow> string \<Rightarrow> nat option" where
  "parse_digits acc seen [] = (if seen then Some acc else None)"
| "parse_digits acc seen (c # cs) =
     (if c = CHR ''_'' then (if seen then parse_digits acc False cs else None)
      else case digit_value c of
             None \<Rightarrow> None
           | Some d \<Rightarrow> parse_digits (10 * acc + d) True cs)"

definition py_int_of_string :: "string \<Rightarrow> int option" where
  "py_int_of_string s =
     (case s of
        [] \<Rightarrow> None
      | c # cs \<Rightarrow>
          if c = CHR ''-'' then map_option (\<lambda>n. - int n) (parse_digits 0 False cs)
          else if c = CHR ''+'' then map_option int (parse_digits 0 False cs)
          else map_option int (parse_digits 0 False s))"

definition int_or_none :: "raw \<Rightarrow> int option" where
  "int_or_none r =
     (case r of
        RBool _ \<Rightarrow> None
      | RInt i \<Rightarrow> Some i
      | RStr s \<Rightarrow> py_int_of_string (py_strip s)
      | _ \<Rightarrow> None)"

text \<open>The loop over the children of a generic element; the last parsable
  \<open>value\<close> and \<open>multiplier\<close> win.\<close>

fun scan_children :: "child_element list \<Rightarrow> int option \<Rightarrow> int \<Rightarrow> int option \<times> int" where
  "scan_children [] v m = (v, m)"
| "scan_children (c # cs) v m =
     (case int_or_none (ch_text c) of
        None \<Rightarrow> scan_children cs v m
      | Some n \<Rightarrow>
          if local_name (ch_qname c) = Some ''value'' then scan_children cs (Some n) m
          else if local_name (ch_qname c) = Some ''multiplier'' then scan_children cs v n
          else scan_children cs v m)"

definition doe_value_multiplier :: "element \<Rightarrow> (int \<times> int) option" where
  "doe_value_multiplier e =
     (case e of
        TypedLimit _ val mul \<Rightarrow>
          (case val of
             RNone \<Rightarrow> None
           | RBool _ \<Rightarrow> None
           | _ \<Rightarrow>
             (case int_or_none val of
                None \<Rightarrow> None
              | Some v \<Rightarrow> Some (v, case int_or_none mul of None \<Rightarrow> 0 | Some m \<Rightarrow> m)))
      | AnyElement _ cs \<Rightarrow>
          (case scan_children cs None 0 of
             (None, _) \<Rightarrow> None
           | (Some v, m) \<Rightarrow> Some (v, m))
      | OtherObject \<Rightarrow> None)"

section \<open>Control bases\<close>

record dercontrol_base =
  base_fields :: "(string, string) dict"
  base_other_element :: "element list"

text \<open>\<open>getattr(base, name, None)\<close> for a control field.\<close>

definition base_get :: "dercontrol_base \<Rightarrow> string \<Rightarrow> string option" where
  "base_get b n = map_of (base_fields b) n"

text \<open>\<open>DercontrolBase.model_fields\<close>, in declaration order.\<close>

definition dercontrol_base_model_fields :: "string list" where
  "dercontrol_base_model_fields =
    [''op_mod_connect'', ''op_mod_delta_var'', ''op_mod_delta_w'', ''op_mod_energize'',
     ''op_mod_fixed_pfabsorb_w'', ''op_mod_fixed_pfinject_w'', ''op_mod_fixed_v'',
     ''op_mod_fixed_var'', ''op_mod_fixed_w'', ''op_mod_freq_droop'', ''op_mod_freq_watt'',
     ''op_mod_grid_connect_permit'', ''op_mod_hfrtmay_trip'', ''op_mod_hfrtmust_trip'',
     ''op_mod_hvrtmay_trip'', ''op_mod_hvrtmomentary_cessation'', ''op_mod_hvrtmust_trip'',
     ''op_mod_island_permit'', ''op_mod_lfrtmay_trip'', ''op_mod_lfrtmust_trip'',
     ''op_mod_lvrtmay_trip'', ''op_mod_lvrtmomentary_cessation'', ''op_mod_lvrtmust_trip'',
     ''op_mod_max_lim_pct_vaabsorb'', ''op_mod_max_lim_pct_vainject'',
     ''op_mod_max_lim_pct_var_absorb'', ''op_mod_max_lim_pct_var_inject'',
     ''op_mod_max_lim_pct_wabsorb'', ''op_mod_max_lim_var_absorb'',
     ''op_mod_max_lim_var_inject'', ''op_mod_max_lim_w'', ''op_mod_max_lim_wabsorb'',
     ''op_mod_max_lim_winject'', ''op_mod_target_v'', ''op_mod_target_var'',
     ''op_mod_target_w'', ''op_mod_volt_var'', ''op_mod_volt_watt'', ''op_mod_watt_pf'',
     ''op_mod_watt_var'', ''ramp_tms'', ''dercontrol_base_r2_3'', ''other_element'',
     ''any_attributes'']"

fun doe_limits_from :: "element list \<Rightarrow> (string, int \<times> int) dict \<Rightarrow> (string, int \<times> int) dict" where
  "doe_limits_from [] out = out"
| "doe_limits_from (e # es) out =
     (case doe_element_name e of
        None \<Rightarrow> doe_limits_from es out
      | Some n \<Rightarrow>
          if n \<notin> DOE_LIMIT_NAMES then doe_limits_from es out
          else case doe_value_multiplier e of
                 None \<Rightarrow> doe_limits_from es out
               | Some p \<Rightarrow> doe_limits_from es (dset n p out))"

definition doe_limits :: "dercontrol_base \<Rightarrow> (string, int \<times> int) dict" where
  "doe_limits b = doe_limits_from (base_other_element b) []"

section \<open>Events\<close>

record EventStatus =
  current_status :: int
  status_date_time :: "int option"

text \<open>The fields \<open>RandomizableEvent\<close> has (its own and inherited) that the engine reads.\<close>

record RandomizableEvent =
  m_rid :: bytes
  reply_to :: "string option"
  response_required :: "bytes option"
  creation_time :: "int option"
  event_status :: "EventStatus option"
  interval_start :: int
  interval_duration :: int
  randomize_start :: "int option"
  randomize_duration :: "int option"

record Dercontrol1 = RandomizableEvent +
  derc_base :: dercontrol_base

record TimeTariffInterval1 = RandomizableEvent +
  cti_list_href :: "string option"
  tou_tier :: raw

record DefaultDercontrol =
  dderc_mrid :: bytes
  dderc_base :: dercontrol_base
  dderc_settings :: "(string, string) dict"

section \<open>Properties of the limit reader\<close>

lemma scan_children_append:
  "scan_children (xs @ ys) v m = (case scan_children xs v m of (v', m') \<Rightarrow> scan_children ys v' m')"
  by (induction xs v m rule: scan_children.induct) (auto split: option.splits)

lemma doe_limits_from_append:
  "doe_limits_from (xs @ ys) out = doe_limits_from ys (doe_limits_from xs out)"
  by (induction xs out rule: doe_limits_from.induct) (auto split: option.splits)

lemma wf_doe_limits_from: "wf_dict out \<Longrightarrow> wf_dict (doe_limits_from es out)"
  by (induction es out rule: doe_limits_from.induct) (auto split: option.splits)

lemma doe_limits_from_keys:
  "dhas (doe_limits_from es out) n \<Longrightarrow> dhas out n \<or> n \<in> DOE_LIMIT_NAMES"
  by (induction es out rule: doe_limits_from.induct) (auto split: option.splits if_splits)

lemma doe_limits_names: "dhas (doe_limits b) n \<Longrightarrow> n \<in> DOE_LIMIT_NAMES"
  using doe_limits_from_keys [of "base_other_element b" "[]" n] by (simp add: doe_limits_def)

lemma wf_doe_limits [simp]: "wf_dict (doe_limits b)"
  by (simp add: doe_limits_def wf_doe_limits_from)

text \<open>A typed limit and the generic element the parser yields for the same content are
  read alike.\<close>

lemma doe_typed_generic_alike:
  "doe_value_multiplier (TypedLimit n (RInt v) (RInt m)) =
   doe_value_multiplier (AnyElement q
     [\<lparr>ch_qname = RStr ''{urn:x}value'', ch_text = RInt v\<rparr>,
      \<lparr>ch_qname = RStr ''{urn:x}multiplier'', ch_text = RInt m\<rparr>])"
  by (simp add: doe_value_multiplier_def int_or_none_def local_name_def)

end
