(* ===== verification/Modes.thy ===== *)
theory Modes
  imports Sep_Model
begin

unbundle bit_operations_syntax

text \<open>
  \<open>events/modes_bitmask.py\<close>: the DERControlType bitmaps of a response and the names of the
  modes a control sets, and \<open>compared_mode_keys\<close> of \<open>events/supersession.py\<close>.
\<close>

definition FIELD_TO_BIT :: "(string, nat) dict" where
  "FIELD_TO_BIT =
    [(''op_mod_connect'', 2), (''op_mod_energize'', 3), (''op_mod_fixed_pfabsorb_w'', 4),
     (''op_mod_fixed_pfinject_w'', 5), (''op_mod_fixed_var'', 6), (''op_mod_fixed_w'', 7),
     (''op_mod_freq_droop'', 8), (''op_mod_freq_watt'', 9), (''op_mod_hfrtmay_trip'', 10),
     (''op_mod_hfrtmust_trip'', 11), (''op_mod_hvrtmay_trip'', 12),
     (''op_mod_hvrtmomentary_cessation'', 13), (''op_mod_hvrtmust_trip'', 14),
     (''op_mod_lfrtmay_trip'', 15), (''op_mod_lfrtmust_trip'', 16), (''op_mod_lvrtmay_trip'', 17),
     (''op_mod_lvrtmomentary_cessation'', 18), (''op_mod_lvrtmust_trip'', 19),
     (''op_mod_max_lim_w'', 20), (''op_mod_target_var'', 21), (''op_mod_target_w'', 22),
     (''op_mod_volt_var'', 23), (''op_mod_volt_watt'', 24), (''op_mod_watt_pf'', 25),
     (''op_mod_watt_var'', 26), (''op_mod_delta_var'', 27), (''op_mod_delta_w'', 28),
     (''op_mod_fixed_v'', 29), (''op_mod_grid_connect_permit'', 30), (''op_mod_island_permit'', 31)]"

definition FIELD_TO_BIT2 :: "(string, nat) dict" where
  "FIELD_TO_BIT2 =
    [(''op_mod_max_lim_pct_vaabsorb'', 0), (''op_mod_max_lim_pct_vainject'', 1),
     (''op_mod_max_lim_pct_var_absorb'', 2), (''op_mod_max_lim_pct_var_inject'', 3),
     (''op_mod_max_lim_pct_wabsorb'', 4), (''op_mod_max_lim_var_absorb'', 5),
     (''op_mod_max_lim_var_inject'', 6), (''op_mod_max_lim_wabsorb'', 7),
     (''op_mod_max_lim_winject'', 8), (''op_mod_target_v'', 9)]"

text \<open>The loop shared by both builders: one bit per present field.\<close>

definition mode_bits :: "(string, nat) dict \<Rightarrow> dercontrol_base \<Rightarrow> nat" where
  "mode_bits tbl base =
     fold (\<lambda>(f, p) m. if base_get base f \<noteq> None then m OR push_bit p 1 else m) tbl 0"

definition build_modes_responded2 :: "dercontrol_base \<Rightarrow> nat \<Rightarrow> bytes option" where
  "build_modes_responded2 base allowed =
     (let bitmask = mode_bits FIELD_TO_BIT2 base AND allowed
      in if bitmask = 0 then None else to_bytes 4 (int bitmask))"

text \<open>\<open>None\<close> would be an \<open>OverflowError\<close> of \<open>to_bytes\<close>; it does not occur.\<close>

definition build_modes_responded :: "dercontrol_base \<Rightarrow> bytes option" where
  "build_modes_responded base = to_bytes 4 (int (mode_bits FIELD_TO_BIT base))"

definition get_active_mode_names :: "dercontrol_base \<Rightarrow> string set" where
  "get_active_mode_names base =
     set (filter (\<lambda>f. base_get base f \<noteq> None) (map fst FIELD_TO_BIT)
          @ map fst (doe_limits base))"

definition EXCLUDED_FIELDS :: "string set" where
  "EXCLUDED_FIELDS = {''op_mod_connect'', ''op_mod_energize''}"

definition startswith :: "string \<Rightarrow> string \<Rightarrow> bool" where
  "startswith s p = (take (length p) s = p)"

definition compared_mode_keys :: "dercontrol_base \<Rightarrow> string set" where
  "compared_mode_keys base =
     set (filter (\<lambda>n. n \<notin> EXCLUDED_FIELDS
                    \<and> \<not> (startswith n ''dercontrol_base_'' \<or> startswith n ''other_element''
                          \<or> startswith n ''any_attributes'')
                    \<and> base_get base n \<noteq> None) dercontrol_base_model_fields)"

section \<open>The bitmaps name exactly the present fields\<close>

lemma bit_fold_modes:
  "bit (fold (\<lambda>(f, p) m. if base_get base f \<noteq> None then m OR push_bit p 1 else m) tbl (m0::nat)) j
     \<longleftrightarrow> bit m0 j \<or> (\<exists>f. (f, j) \<in> set tbl \<and> base_get base f \<noteq> None)"
  by (induction tbl arbitrary: m0)
    (auto simp: bit_or_iff bit_exp_iff split: prod.splits)

lemma bit_mode_bits:
  "bit (mode_bits tbl base) j \<longleftrightarrow> (\<exists>f. (f, j) \<in> set tbl \<and> base_get base f \<noteq> None)"
  unfolding mode_bits_def bit_fold_modes by simp

lemma nat_less_power_bits: "(\<And>j. n \<le> j \<Longrightarrow> \<not> bit (m::nat) j) \<Longrightarrow> m < 2 ^ n"
proof -
  assume "\<And>j. n \<le> j \<Longrightarrow> \<not> bit m j"
  then have "take_bit n m = m"
  proof -
    have "bit (take_bit n m) j = bit m j" for j
      using \<open>\<And>j. n \<le> j \<Longrightarrow> \<not> bit m j\<close> [of j] by (cases "j < n") (auto simp: bit_take_bit_iff)
    then show ?thesis by (simp add: bit_eq_iff)
  qed
  then show "m < 2 ^ n" by (metis take_bit_nat_less_exp)
qed

lemma mode_bits_bound: "(\<And>f p. (f, p) \<in> set tbl \<Longrightarrow> p < n) \<Longrightarrow> mode_bits tbl base < 2 ^ n"
  by (rule nat_less_power_bits) (auto simp: bit_mode_bits dest: not_less [THEN iffD2])

lemma FIELD_TO_BIT_range: "(f, p) \<in> set FIELD_TO_BIT \<Longrightarrow> p < 32"
  by (auto simp: FIELD_TO_BIT_def)

lemma FIELD_TO_BIT_inj: "(f, p) \<in> set FIELD_TO_BIT \<Longrightarrow> (g, p) \<in> set FIELD_TO_BIT \<Longrightarrow> f = g"
proof -
  have "distinct (map snd FIELD_TO_BIT)" by (simp add: FIELD_TO_BIT_def)
  then have "inj_on snd (set FIELD_TO_BIT)" by (simp add: distinct_map)
  then show "(f, p) \<in> set FIELD_TO_BIT \<Longrightarrow> (g, p) \<in> set FIELD_TO_BIT \<Longrightarrow> f = g"
    by (metis inj_onD prod.inject snd_conv)
qed

lemma FIELD_TO_BIT2_range: "(f, p) \<in> set FIELD_TO_BIT2 \<Longrightarrow> p < 10"
  by (auto simp: FIELD_TO_BIT2_def)

lemma to_bytes_4: "n < 2 ^ 32 \<Longrightarrow> \<exists>bs. to_bytes 4 (int n) = Some bs \<and> from_bytes bs = n"
proof -
  assume n: "n < 2 ^ 32"
  then have "to_bytes 4 (int n) = Some (be_bytes 4 n)" by (simp add: to_bytes_def)
  moreover have "from_bytes (be_bytes 4 n) = n" using n by (simp add: from_be_bytes)
  ultimately show ?thesis by blast
qed

lemma build_modes_responded_total:
  "\<exists>bs. build_modes_responded base = Some bs \<and> from_bytes bs = mode_bits FIELD_TO_BIT base"
  unfolding build_modes_responded_def
  by (rule to_bytes_4, rule mode_bits_bound) (rule FIELD_TO_BIT_range)

lemma startswith_prefixes: "startswith (p @ s) p"
  by (simp add: startswith_def)

end
