(* ===== verification/Server_Profile.thy ===== *)
theory Server_Profile
  imports Sep_Model
begin

unbundle bit_operations_syntax

text \<open>
  \<open>schema_editions.py\<close> and \<open>server_profile.py\<close>: what the 2023 schema adds to each 2018
  type, and what a server's profile lets the client send. A parsed schema (\<open>_Schema\<close>) is a
  value: its complex types and its global elements. Every definition takes the two editions'
  schemas as arguments, since the \<open>.xsd\<close> files are read at run time. An XML document and a
  bound model are trees; the binding metadata \<open>xsdata\<close> keeps per field (local name, attribute
  or element, required, wildcard) is stored with the field.
\<close>

section \<open>Schemas\<close>

type_synonym Item = "string \<times> string"

record schema_type =
  ty_base :: "string option"
  ty_elements :: "(string, string) dict"
  ty_attributes :: "string set"

record schema =
  sch_types :: "(string, schema_type) dict"
  sch_roots :: "(string, string) dict"

text \<open>\<open>key.startswith("@")\<close> selects the attributes, with the sign stripped.\<close>

definition declares :: "schema_type \<Rightarrow> string \<Rightarrow> bool" where
  "declares info key =
     (case key of
        c # name \<Rightarrow> if c = CHR ''@'' then name \<in> ty_attributes info else dhas (ty_elements info) key
      | [] \<Rightarrow> dhas (ty_elements info) key)"

function declarer_loop ::
  "(string, schema_type) dict \<Rightarrow> string \<Rightarrow> string option \<Rightarrow> string set \<Rightarrow> string option" where
  "declarer_loop types key None seen = None"
| "declarer_loop types key (Some current) seen =
     (if current = [] \<or> current \<in> seen then None
      else case map_of types current of
             None \<Rightarrow> None
           | Some info \<Rightarrow>
               if declares info key then Some current
               else declarer_loop types key (ty_base info) (insert current seen))"
  by pat_completeness auto

lemma card_unseen_less:
  assumes "map_of types c = Some info" "c \<notin> seen"
  shows "card (fst ` set types - insert c seen) < card (fst ` set types - seen)"
proof (rule psubset_card_mono)
  have "c \<in> fst ` set types" using assms by (metis map_of_SomeD fst_conv image_eqI)
  then show "fst ` set types - insert c seen \<subset> fst ` set types - seen" using assms by blast
qed simp

termination declarer_loop
  by (relation "measure (\<lambda>(types, _, _, seen). card (fst ` set types - seen))")
    (auto intro: card_unseen_less)

definition declarer :: "schema \<Rightarrow> string \<Rightarrow> string \<Rightarrow> string option" where
  "declarer s type_id key = declarer_loop (sch_types s) key (Some type_id) {}"

text \<open>\<open>elements.setdefault(name, declared)\<close> keeps what a derived type declared first.\<close>

definition setdefaults :: "(string, string) dict \<Rightarrow> (string, string) dict \<Rightarrow> (string, string) dict" where
  "setdefaults new old = fold (\<lambda>(n, d) acc. if dhas acc n then acc else dset n d acc) new old"

function effective_loop ::
  "(string, schema_type) dict \<Rightarrow> string option \<Rightarrow> string set \<Rightarrow> (string, string) dict \<Rightarrow> string set
     \<Rightarrow> (string, string) dict \<times> string set" where
  "effective_loop types None seen els ats = (els, ats)"
| "effective_loop types (Some current) seen els ats =
     (if current = [] \<or> current \<in> seen then (els, ats)
      else case map_of types current of
             None \<Rightarrow> (els, ats)
           | Some info \<Rightarrow>
               effective_loop types (ty_base info) (insert current seen)
                 (setdefaults (ty_elements info) els) (ats \<union> ty_attributes info))"
  by pat_completeness auto

termination effective_loop
  by (relation "measure (\<lambda>(types, _, seen, _, _). card (fst ` set types - seen))")
    (auto intro: card_unseen_less)

definition effective :: "schema \<Rightarrow> string \<Rightarrow> (string, string) dict \<times> string set" where
  "effective s type_id = effective_loop (sch_types s) (Some type_id) {} [] {}"

definition effective_has :: "schema \<Rightarrow> string \<Rightarrow> string \<Rightarrow> bool" where
  "effective_has s type_id key =
     (case effective s type_id of (els, ats) \<Rightarrow>
        (case key of c # name \<Rightarrow> if c = CHR ''@'' then name \<in> ats else dhas els key
                   | [] \<Rightarrow> dhas els key))"

definition new_item :: "schema \<Rightarrow> schema \<Rightarrow> string \<Rightarrow> string \<Rightarrow> Item option" where
  "new_item s2018 s2023 type_id key =
     (case declarer s2023 type_id key of
        None \<Rightarrow> None
      | Some d \<Rightarrow> if effective_has s2018 d key then None else Some (d, key))"

definition inline_id :: "string \<Rightarrow> string" where
  "inline_id name = ''<'' @ name @ ''>''"

text \<open>The roots whose inline type the schema registered; \<open>schema.types[type_id]\<close> is always
  there, because \<open>_add_type\<close> registers it before the root names it.\<close>

definition root_attributes :: "schema \<Rightarrow> string set" where
  "root_attributes s =
     \<Union> (set (map (\<lambda>(n, t). case map_of (sch_types s) t of None \<Rightarrow> {} | Some info \<Rightarrow> ty_attributes info)
              (filter (\<lambda>(n, t). t = inline_id n) (sch_roots s))))"

section \<open>Payloads\<close>

text \<open>A node of an XML document: an element with its namespace, local name, attributes and
  children, or a comment or processing instruction.\<close>

datatype xml =
    Elem "string option" string "(string, string) dict" "xml list"
  | NonElement

definition SEP_NS :: string where
  "SEP_NS = ''urn:ieee:std:2030.5:ns''"

definition attr_items :: "schema \<Rightarrow> schema \<Rightarrow> string \<Rightarrow> string set \<Rightarrow> string list \<Rightarrow> Item list" where
  "attr_items s2018 s2023 type_id ats names =
     List.map_filter (\<lambda>n. new_item s2018 s2023 type_id (CHR ''@'' # n))
       (filter (\<lambda>n. CHR ''}'' \<notin> set n \<and> n \<in> ats) names)"

fun walk :: "schema \<Rightarrow> schema \<Rightarrow> xml \<Rightarrow> string \<Rightarrow> Item list"
  and walk_children :: "schema \<Rightarrow> schema \<Rightarrow> string \<Rightarrow> xml list \<Rightarrow> Item list" where
  "walk s2018 s2023 NonElement type_id = []"
| "walk s2018 s2023 (Elem ns local atts children) type_id =
     attr_items s2018 s2023 type_id (snd (effective s2023 type_id)) (map fst atts)
     @ walk_children s2018 s2023 type_id children"
| "walk_children s2018 s2023 type_id [] = []"
| "walk_children s2018 s2023 type_id (NonElement # cs) = walk_children s2018 s2023 type_id cs"
| "walk_children s2018 s2023 type_id (Elem ns local atts children # cs) =
     (if ns \<notin> {None, Some SEP_NS} \<or> \<not> dhas (fst (effective s2023 type_id)) local
      then walk_children s2018 s2023 type_id cs
      else case new_item s2018 s2023 type_id local of
             Some item \<Rightarrow> item # walk_children s2018 s2023 type_id cs
           | None \<Rightarrow>
               (let child_type = dget_or (fst (effective s2023 type_id)) local []
                in (if child_type = [] then []
                    else walk s2018 s2023 (Elem ns local atts children) child_type))
               @ walk_children s2018 s2023 type_id cs)"

definition borrowed_items :: "schema \<Rightarrow> schema \<Rightarrow> xml \<Rightarrow> Item list" where
  "borrowed_items s2018 s2023 root =
     (case root of
        NonElement \<Rightarrow> []
      | Elem ns local atts cs \<Rightarrow>
          (case map_of (sch_roots s2023) local of
             None \<Rightarrow> []
           | Some type_id \<Rightarrow> walk s2018 s2023 root type_id))"

section \<open>Profiles\<close>

datatype Edition = E2018 | E2023

record Feature =
  ft_schema :: Edition
  ft_elements :: "Item set"
  ft_mode_bits2 :: "nat set"

definition FEATURES :: "(string, Feature) dict" where
  "FEATURES =
    [(''import_export_limits'',
      \<lparr>ft_schema = E2023,
       ft_elements = {(''DERControlBase'', ''opModMaxLimWAbsorb''),
                      (''DERControlBase'', ''opModMaxLimWInject''),
                      (''DERCapability'', ''modesSupported2''),
                      (''DERSettings'', ''modesEnabled2''),
                      (''DERControlResponse'', ''modesResponded2'')},
       ft_mode_bits2 = {7, 8}\<rparr>)]"

definition EXTENSIONS :: "(string, string) dict" where
  "EXTENSIONS = [(''csip-aus-1.2'', ''https://csipaus.org/ns''),
                 (''csip-aus-1.3'', ''https://csipaus.org/ns/v1.3'')]"

record ServerProfile =
  sp_base :: "Edition option"
  sp_features :: "string set"
  sp_extensions :: "string set option"
  missing_location_fallback :: bool
  sp_evidence :: string

text \<open>\<open>__post_init__\<close>: the constructor raises on a name it does not know.\<close>

datatype profile_error = UnknownFeature "string list" | UnknownExtension "string list"

definition check_profile :: "ServerProfile \<Rightarrow> profile_error + ServerProfile" where
  "check_profile p =
     (let unknown = sp_features p - set (map fst FEATURES);
          bad = (case sp_extensions p of None \<Rightarrow> {} | Some e \<Rightarrow> e) - set (map fst EXTENSIONS)
      in if unknown \<noteq> {} then Inl (UnknownFeature (sorted_list_of_set unknown))
         else if bad \<noteq> {} then Inl (UnknownExtension (sorted_list_of_set bad))
         else Inr p)"

definition edition :: "ServerProfile \<Rightarrow> Edition" where
  "edition p = (case sp_base p of Some e \<Rightarrow> e | None \<Rightarrow> E2018)"

definition is_2018 :: "ServerProfile \<Rightarrow> bool" where
  "is_2018 p = (edition p = E2018)"

definition resolved :: "ServerProfile \<Rightarrow> bool" where
  "resolved p = (sp_base p \<noteq> None)"

definition with_base :: "Edition \<Rightarrow> string \<Rightarrow> ServerProfile \<Rightarrow> ServerProfile" where
  "with_base b evidence p = p\<lparr>sp_base := Some b, sp_evidence := evidence\<rparr>"

text \<open>The regular expression \<open>^\s*(\d+)\.(\d+)\s*$\<close>; its classes are disjoint, so reading
  greedily from the left is the only parse.\<close>

definition is_digit :: "char \<Rightarrow> bool" where
  "is_digit c = (digit_value c \<noteq> None)"

definition match_schema_ver :: "string \<Rightarrow> (string \<times> string) option" where
  "match_schema_ver s =
     (let s1 = dropWhile py_space s; major = takeWhile is_digit s1; r1 = dropWhile is_digit s1
      in case r1 of
           [] \<Rightarrow> None
         | c # r2 \<Rightarrow>
             let minor = takeWhile is_digit r2; r3 = dropWhile is_digit r2
             in if major \<noteq> [] \<and> c = CHR ''.'' \<and> minor \<noteq> [] \<and> dropWhile py_space r3 = []
                then Some (major, minor) else None)"

definition base_from_schema_ver :: "string option \<Rightarrow> Edition" where
  "base_from_schema_ver ver =
     (case match_schema_ver (case ver of None \<Rightarrow> [] | Some v \<Rightarrow> v) of
        None \<Rightarrow> E2018
      | Some (major, minor) \<Rightarrow>
          (case (py_int_of_string major, py_int_of_string minor) of
             (Some a, Some b) \<Rightarrow> if a > 2 \<or> a = 2 \<and> b \<ge> 2 then E2023 else E2018
           | _ \<Rightarrow> E2018))"

text \<open>\<open>declared\<close> is what \<open>declared_schema_ver\<close> read off the DeviceCapability body.\<close>

definition resolve_from_device_capability :: "string option \<Rightarrow> ServerProfile \<Rightarrow> ServerProfile" where
  "resolve_from_device_capability declared p =
     (if sp_base p \<noteq> None then p
      else with_base (base_from_schema_ver declared)
             (''DeviceCapability has '' @
              (case declared of None \<Rightarrow> ''no schemaVer''
               | Some v \<Rightarrow> ''schemaVer='' @ [CHR 0x22] @ v @ [CHR 0x22])) p)"

definition declared_schema_ver :: "xml option \<Rightarrow> string option" where
  "declared_schema_ver body =
     (case body of
        Some (Elem ns local atts cs) \<Rightarrow> map_of atts ''schemaVer''
      | _ \<Rightarrow> None)"

definition schema_ver :: "ServerProfile \<Rightarrow> string option" where
  "schema_ver p = (if is_2018 p then None else Some ''2.2'')"

definition connect_status_fields :: "ServerProfile \<Rightarrow> string list" where
  "connect_status_fields p =
     (if is_2018 p then [''genConnectStatus'', ''storConnectStatus''] else [''connectStatus''])"

definition allows_multi_der :: "ServerProfile \<Rightarrow> bool" where
  "allows_multi_der p = is_2018 p"

definition RESPONSE_CODES_2018 :: "(int, int) dict" where
  "RESPONSE_CODES_2018 = [(251, 252)]"

definition wire_response_code :: "ServerProfile \<Rightarrow> int \<Rightarrow> int" where
  "wire_response_code p code = (if is_2018 p then dget_or RESPONSE_CODES_2018 code code else code)"

definition feature_of :: "string \<Rightarrow> Feature" where
  "feature_of n = dget_or FEATURES n \<lparr>ft_schema = E2023, ft_elements = {}, ft_mode_bits2 = {}\<rparr>"

definition mode_bits2 :: "ServerProfile \<Rightarrow> nat set" where
  "mode_bits2 p =
     (if \<not> is_2018 p then set [0..<10] else \<Union> ((\<lambda>n. ft_mode_bits2 (feature_of n)) ` sp_features p))"

text \<open>The loop over a frozenset of bits; the disjunction does not depend on its order.\<close>

definition allowed_mask :: "nat set \<Rightarrow> nat" where
  "allowed_mask bits = fold (\<lambda>b allowed. allowed OR push_bit b 1) (sorted_list_of_set bits) 0"

definition mask_modes2 :: "ServerProfile \<Rightarrow> nat \<Rightarrow> nat" where
  "mask_modes2 p bits = bits AND allowed_mask (mode_bits2 p)"

definition permits_item :: "ServerProfile \<Rightarrow> Item \<Rightarrow> bool" where
  "permits_item p item =
     (if \<not> is_2018 p then True else \<exists>f \<in> sp_features p. item \<in> ft_elements (feature_of f))"

definition permits :: "schema \<Rightarrow> schema \<Rightarrow> ServerProfile \<Rightarrow> string \<Rightarrow> string \<Rightarrow> bool" where
  "permits s2018 s2023 p parent name =
     (case new_item s2018 s2023 parent name of None \<Rightarrow> True | Some item \<Rightarrow> permits_item p item)"

definition sends_modes_responded :: "schema \<Rightarrow> schema \<Rightarrow> ServerProfile \<Rightarrow> bool" where
  "sends_modes_responded s2018 s2023 p = permits s2018 s2023 p ''DERControlResponse'' ''modesResponded''"

definition sends_modes_responded2 :: "schema \<Rightarrow> schema \<Rightarrow> ServerProfile \<Rightarrow> bool" where
  "sends_modes_responded2 s2018 s2023 p = permits s2018 s2023 p ''DERControlResponse'' ''modesResponded2''"

section \<open>Outbound strictness\<close>

text \<open>A bound model: scalars, lists, models with their fields in binding order, and the
  \<open>DERControlType2\<close> bitmap model with its \<open>value\<close>.\<close>

record mvar =
  var_local_name :: string
  var_is_attribute :: bool
  var_required :: bool
  var_skipped :: bool

datatype mvalue =
    VNone
  | VScalar string
  | VList "mvalue list"
  | VModes2 "bytes option"
  | VModel string "(mvar \<times> mvalue) list"

definition var_key :: "mvar \<Rightarrow> string" where
  "var_key v = (if var_is_attribute v then CHR ''@'' # var_local_name v else var_local_name v)"

definition root_attributes_2023 :: "schema \<Rightarrow> schema \<Rightarrow> string set" where
  "root_attributes_2023 s2018 s2023 = root_attributes s2023 - root_attributes s2018"

text \<open>\<open>masked.to_bytes(len(raw) or 4, "big")\<close>; masking only clears bits, so it fits.\<close>

definition restrict_modes2 :: "ServerProfile \<Rightarrow> bytes option \<Rightarrow> bytes option" where
  "restrict_modes2 p val =
     (let raw = (case val of None \<Rightarrow> [] | Some b \<Rightarrow> b);
          bits = from_bytes raw;
          masked = mask_modes2 p bits
      in if masked = bits then val
         else to_bytes (if raw = [] then 4 else length raw) (int masked))"

fun restrict_node :: "schema \<Rightarrow> schema \<Rightarrow> ServerProfile \<Rightarrow> mvalue \<Rightarrow> mvalue"
  and restrict_nodes :: "schema \<Rightarrow> schema \<Rightarrow> ServerProfile \<Rightarrow> mvalue list \<Rightarrow> mvalue list"
  and restrict_fields ::
    "schema \<Rightarrow> schema \<Rightarrow> ServerProfile \<Rightarrow> string \<Rightarrow> (mvar \<times> mvalue) list \<Rightarrow> (mvar \<times> mvalue) list" where
  "restrict_node a b p (VList xs) = VList (restrict_nodes a b p xs)"
| "restrict_node a b p (VModes2 val) = VModes2 (restrict_modes2 p val)"
| "restrict_node a b p (VModel t fs) = VModel t (restrict_fields a b p t fs)"
| "restrict_node a b p VNone = VNone"
| "restrict_node a b p (VScalar x) = VScalar x"
| "restrict_nodes a b p [] = []"
| "restrict_nodes a b p (x # xs) = restrict_node a b p x # restrict_nodes a b p xs"
| "restrict_fields a b p t [] = []"
| "restrict_fields a b p t ((v, x) # fs) =
     (v, if x = VNone \<or> var_skipped v then x
         else if var_is_attribute v \<and> var_local_name v \<in> root_attributes_2023 a b then VNone
         else if \<not> var_required v \<and> \<not> permits a b p t (var_key v)
         then (case x of VList _ \<Rightarrow> VList [] | _ \<Rightarrow> VNone)
         else restrict_node a b p x) # restrict_fields a b p t fs"

definition restrict_model :: "schema \<Rightarrow> schema \<Rightarrow> ServerProfile \<Rightarrow> mvalue \<Rightarrow> mvalue" where
  "restrict_model a b p model = (if \<not> is_2018 p then model else restrict_node a b p model)"

definition audit_payload :: "schema \<Rightarrow> schema \<Rightarrow> ServerProfile \<Rightarrow> xml \<Rightarrow> Item list" where
  "audit_payload a b p root =
     (if \<not> is_2018 p then []
      else filter (\<lambda>i. \<not> permits_item p i) (borrowed_items a b root)
           @ (case root of
                NonElement \<Rightarrow> []
              | Elem ns local atts cs \<Rightarrow>
                  map (\<lambda>n. (''(root)'', CHR ''@'' # n))
                    (filter (\<lambda>n. n \<in> root_attributes_2023 a b) (sort (map fst atts)))))"

definition borrowed_in :: "schema \<Rightarrow> schema \<Rightarrow> xml \<Rightarrow> (Item \<times> string option) list" where
  "borrowed_in a b root =
     map (\<lambda>i. (i, map_option fst (find (\<lambda>(f, feat). i \<in> ft_elements feat) FEATURES)))
       (borrowed_items a b root)"

text \<open>\<open>profile_from_legacy_flag\<close> and \<open>profile_for_constructor\<close>; \<open>None\<close> of the outer option
  is the \<open>TypeError\<close> for passing both.\<close>

definition profile_from_legacy_flag :: "bool \<Rightarrow> ServerProfile" where
  "profile_from_legacy_flag enabled =
     (if enabled
      then \<lparr>sp_base = Some E2018, sp_features = {}, sp_extensions = None,
            missing_location_fallback = True, sp_evidence = ''server_2018_compat''\<rparr>
      else \<lparr>sp_base = Some E2023, sp_features = {}, sp_extensions = None,
            missing_location_fallback = False, sp_evidence = ''server_2018_compat''\<rparr>)"

definition profile_for_constructor ::
  "ServerProfile option \<Rightarrow> bool option \<Rightarrow> ServerProfile option option" where
  "profile_for_constructor profile flag =
     (case flag of
        None \<Rightarrow> Some profile
      | Some enabled \<Rightarrow>
          if profile \<noteq> None then None else Some (Some (profile_from_legacy_flag enabled)))"

section \<open>The schema walks\<close>

text \<open>Both walks follow the same chain of base types, so a type has an item exactly when
  some type of its chain declares it.\<close>

lemma declarer_loop_Some:
  "declarer_loop types key cur seen = Some d \<Longrightarrow>
     d \<noteq> [] \<and> (\<exists>info. map_of types d = Some info \<and> declares info key)"
  by (induction types key cur seen rule: declarer_loop.induct) (auto split: if_splits option.splits)

lemma declarer_self: "declarer s t key = Some d \<Longrightarrow> declarer s d key = Some d"
  unfolding declarer_def by (drule declarer_loop_Some) auto

lemma dhas_setdefaults: "dhas (setdefaults new old) n \<longleftrightarrow> dhas new n \<or> dhas old n"
  unfolding setdefaults_def
proof (induction new arbitrary: old)
  case (Cons p new)
  have "dhas (p # new) n \<longleftrightarrow> n = fst p \<or> dhas new n" by (cases p) (simp add: dhas_def)
  with Cons show ?case by (cases p) auto
qed simp

definition pair_has :: "(string, string) dict \<times> string set \<Rightarrow> string \<Rightarrow> bool" where
  "pair_has ea key =
     (case key of c # name \<Rightarrow> if c = CHR ''@'' then name \<in> snd ea else dhas (fst ea) key
                | [] \<Rightarrow> dhas (fst ea) key)"

lemma pair_has_step:
  "pair_has (setdefaults (ty_elements info) els, ats \<union> ty_attributes info) key \<longleftrightarrow>
     pair_has (els, ats) key \<or> declares info key"
  by (auto simp: pair_has_def declares_def dhas_setdefaults split: list.splits)

lemma effective_loop_has:
  "pair_has (effective_loop types cur seen els ats) key \<longleftrightarrow>
     pair_has (els, ats) key \<or> declarer_loop types key cur seen \<noteq> None"
proof (induction types cur seen els ats rule: effective_loop.induct)
  case (2 types current seen els ats)
  then show ?case
  proof (cases "current = [] \<or> current \<in> seen \<or> map_of types current = None")
    case False
    then obtain info where info: "map_of types current = Some info" by auto
    have "effective_loop types (Some current) seen els ats =
        effective_loop types (ty_base info) (insert current seen)
          (setdefaults (ty_elements info) els) (ats \<union> ty_attributes info)"
      using False info by simp
    moreover have "(declarer_loop types key (Some current) seen \<noteq> None) =
        (declares info key \<or> declarer_loop types key (ty_base info) (insert current seen) \<noteq> None)"
      using False info by simp
    ultimately show ?thesis
      using "2.IH" [of info] False info by (auto simp del: declarer_loop.simps simp: pair_has_step)
  qed auto
qed simp

lemma effective_has_declarer: "effective_has s t key \<longleftrightarrow> declarer s t key \<noteq> None"
proof -
  have "effective_has s t key = pair_has (effective s t) key"
    by (auto simp: effective_has_def pair_has_def split: prod.splits list.splits)
  then show ?thesis
    by (simp only: effective_def declarer_def effective_loop_has)
      (auto simp: pair_has_def split: list.splits)
qed

lemma new_item_iff:
  "new_item a b t key = Some i \<longleftrightarrow>
     (\<exists>d. i = (d, key) \<and> declarer b t key = Some d \<and> declarer a d key = None)"
  by (auto simp: new_item_def effective_has_declarer split: option.splits)

lemma new_item_stable: "new_item a b t key = Some (d, k) \<Longrightarrow> new_item a b d k = Some (d, k)"
  by (auto simp: new_item_iff dest: declarer_self)

definition is_new :: "schema \<Rightarrow> schema \<Rightarrow> Item \<Rightarrow> bool" where
  "is_new a b i \<longleftrightarrow> new_item a b (fst i) (snd i) = Some i"

lemma new_item_is_new: "new_item a b t key = Some i \<Longrightarrow> is_new a b i"
  using new_item_stable by (cases i) (fastforce simp: is_new_def)

lemma attr_items_new: "i \<in> set (attr_items a b t ats names) \<Longrightarrow> is_new a b i"
  by (auto simp: attr_items_def List.map_filter_def intro: new_item_is_new)

lemma walk_new:
  "i \<in> set (walk a b x t) \<Longrightarrow> is_new a b i"
  "i \<in> set (walk_children a b t xs) \<Longrightarrow> is_new a b i"
proof (induction a b x t and a b t xs rule: walk_walk_children.induct)
  case (5 s2018 s2023 type_id ns local atts children cs)
  then show ?case
    by (auto split: if_splits option.splits simp: Let_def intro: new_item_is_new simp del: walk.simps)
qed (auto intro: attr_items_new)

section \<open>What restriction leaves\<close>

lemma bit_fold_or:
  "bit (fold (\<lambda>b allowed. allowed OR push_bit b 1) bs (m::nat)) j \<longleftrightarrow> bit m j \<or> j \<in> set bs"
  by (induction bs arbitrary: m) (auto simp: bit_or_iff bit_exp_iff)

lemma bit_allowed_mask: "finite S \<Longrightarrow> bit (allowed_mask S) j \<longleftrightarrow> j \<in> S"
  unfolding allowed_mask_def bit_fold_or by simp

lemma finite_feature_bits: "finite (ft_mode_bits2 (feature_of n))"
  by (simp add: feature_of_def FEATURES_def dget_or_def)

lemma feature_bits_bound: "j \<in> ft_mode_bits2 (feature_of n) \<Longrightarrow> j = 7 \<or> j = 8"
  by (auto simp: feature_of_def FEATURES_def dget_or_def split: if_splits)

lemma mode_bits2_bound: "j \<in> mode_bits2 p \<Longrightarrow> j < 10"
  using feature_bits_bound by (fastforce simp: mode_bits2_def split: if_splits)

lemma finite_mode_bits2: "finite (mode_bits2 p)"
  using mode_bits2_bound by (meson bounded_nat_set_is_finite)

lemma bit_mask_modes2: "bit (mask_modes2 p n) j \<longleftrightarrow> bit n j \<and> j \<in> mode_bits2 p"
  by (auto simp: mask_modes2_def bit_and_iff bit_allowed_mask finite_mode_bits2)

lemma mask_modes2_idem: "mask_modes2 p (mask_modes2 p n) = mask_modes2 p n"
  by (rule bit_eqI) (simp add: bit_mask_modes2)

lemma mask_modes2_le: "mask_modes2 p n \<le> n"
  unfolding mask_modes2_def by (metis and_nat_def nat_le_iff AND_upper1 of_nat_0_le_iff of_nat_and_eq nat_int zle_int)

text \<open>A model is compliant when every field that is present and not required is permitted,
  no global attribute of 2023 is set, and every mode bitmap has only permitted bits.\<close>

fun compliant :: "schema \<Rightarrow> schema \<Rightarrow> ServerProfile \<Rightarrow> mvalue \<Rightarrow> bool"
  and compliant_list :: "schema \<Rightarrow> schema \<Rightarrow> ServerProfile \<Rightarrow> mvalue list \<Rightarrow> bool"
  and compliant_fields :: "schema \<Rightarrow> schema \<Rightarrow> ServerProfile \<Rightarrow> string \<Rightarrow> (mvar \<times> mvalue) list \<Rightarrow> bool" where
  "compliant a b p (VList xs) = compliant_list a b p xs"
| "compliant a b p (VModes2 val) =
     (\<forall>j < 8 * length (case val of None \<Rightarrow> [] | Some r \<Rightarrow> r).
        bit (from_bytes (case val of None \<Rightarrow> [] | Some r \<Rightarrow> r)) j \<longrightarrow> j \<in> mode_bits2 p)"
| "compliant a b p (VModel t fs) = compliant_fields a b p t fs"
| "compliant a b p VNone = True"
| "compliant a b p (VScalar x) = True"
| "compliant_list a b p [] = True"
| "compliant_list a b p (x # xs) = (compliant a b p x \<and> compliant_list a b p xs)"
| "compliant_fields a b p t [] = True"
| "compliant_fields a b p t ((v, x) # fs) =
     ((x = VNone \<or> var_skipped v
       \<or> \<not> (var_is_attribute v \<and> var_local_name v \<in> root_attributes_2023 a b)
         \<and> (var_required v \<or> permits a b p t (var_key v) \<or> x = VList [])
         \<and> compliant a b p x)
      \<and> compliant_fields a b p t fs)"

lemma from_bytes_no_high_bit: "8 * length r \<le> j \<Longrightarrow> \<not> bit (from_bytes r) j"
proof -
  assume j: "8 * length r \<le> j"
  have "from_bytes r < 2 ^ (8 * length r)"
    using from_bytes_bound [of r] by (simp add: power_mult)
  also have "\<dots> \<le> (2::nat) ^ j" using j by (rule power_increasing) simp
  finally show ?thesis by (simp add: bit_iff_odd)
qed

lemma masked_iff:
  "mask_modes2 p n = n \<longleftrightarrow> (\<forall>j. bit n j \<longrightarrow> j \<in> mode_bits2 p)"
  by (auto simp: bit_eq_iff bit_mask_modes2)

lemma compliant_modes2:
  "compliant a b p (VModes2 val) \<longleftrightarrow>
     mask_modes2 p (from_bytes (case val of None \<Rightarrow> [] | Some r \<Rightarrow> r)) =
       from_bytes (case val of None \<Rightarrow> [] | Some r \<Rightarrow> r)"
  using from_bytes_no_high_bit by (auto simp: masked_iff not_less [symmetric])

lemma restrict_modes2_compliant: "compliant a b p (VModes2 (restrict_modes2 p val))"
proof -
  define raw where "raw = (case val of None \<Rightarrow> [] | Some r \<Rightarrow> r)"
  let ?m = "mask_modes2 p (from_bytes raw)"
  let ?n = "if raw = [] then 4 else length raw"
  have "from_bytes raw < 256 ^ ?n" using from_bytes_bound [of raw] by auto
  then have "?m < 256 ^ ?n" using mask_modes2_le [of p "from_bytes raw"] by linarith
  then have "int ?m < int (256 ^ ?n)" by (simp only: of_nat_less_iff)
  then have "to_bytes ?n (int ?m) = Some (be_bytes ?n ?m)" by (simp add: to_bytes_def)
  then obtain bs where bs: "to_bytes ?n (int ?m) = Some bs" by blast
  then have "from_bytes bs = ?m" using from_bytes_to_bytes by force
  then show ?thesis
    unfolding compliant_modes2
    using bs by (auto simp: restrict_modes2_def raw_def [symmetric] mask_modes2_idem Let_def)
qed

lemma restrict_compliant:
  "compliant a b p (restrict_node a b p x)"
  "compliant_list a b p (restrict_nodes a b p xs)"
  "compliant_fields a b p t (restrict_fields a b p t fs)"
proof (induction a b p x and a b p xs and a b p t fs rule: restrict_node_restrict_nodes_restrict_fields.induct)
  case (2 a b p val)
  then show ?case by (simp add: restrict_modes2_compliant del: compliant.simps)
qed (auto split: mvalue.split)

lemma compliant_restrict:
  "compliant a b p x \<Longrightarrow> restrict_node a b p x = x"
  "compliant_list a b p xs \<Longrightarrow> restrict_nodes a b p xs = xs"
  "compliant_fields a b p t fs \<Longrightarrow> restrict_fields a b p t fs = fs"
proof (induction a b p x and a b p xs and a b p t fs rule: restrict_node_restrict_nodes_restrict_fields.induct)
  case (2 a b p val)
  then show ?case unfolding compliant_modes2 by (simp add: restrict_modes2_def)
qed auto

section \<open>Properties\<close>


text \<open>
  C28. Restricting a model to the profile of a 2018 server gives a model that complies with it
  (every optional field that is set is permitted, no global attribute of 2023 is set, every
  mode bitmap has only permitted bits), and leaves untouched a model that complies, and every model under 2023.
\<close>

theorem restriction_is_exact:
  "(is_2018 p \<longrightarrow> compliant a b p (restrict_model a b p x)) \<and>
   (compliant a b p x \<or> \<not> is_2018 p \<longrightarrow> restrict_model a b p x = x)"
  by (simp add: restrict_model_def restrict_compliant compliant_restrict)

theorem restriction_is_exact_witness:
  "is_2018 (profile_from_legacy_flag True) \<and>
   compliant \<lparr>sch_types = [], sch_roots = []\<rparr> \<lparr>sch_types = [], sch_roots = []\<rparr> (profile_from_legacy_flag True)
     (restrict_model \<lparr>sch_types = [], sch_roots = []\<rparr> \<lparr>sch_types = [], sch_roots = []\<rparr> (profile_from_legacy_flag True)
       (VModes2 (Some [0, 0, 255, 255])))"
proof -
  have "is_2018 (profile_from_legacy_flag True)" by code_simp
  then show ?thesis using restriction_is_exact by blast
qed

text \<open>
  An element or attribute counts as new in 2023 exactly when the 2023 schema declares it
  on a type in the chain of the given one and the 2018 schema does not declare it there;
  the item reported names the declaring type.
\<close>

theorem new_item_exact:
  "new_item a b t key = Some i \<longleftrightarrow> (\<exists>d. i = (d, key) \<and> declarer b t key = Some d \<and> declarer a d key = None)"
  by (rule new_item_iff)

end
