(* ===== verification/Interfaces.thy ===== *)
theory Interfaces
  imports Py_Prelude
begin

text \<open>
  Contracts that several components share, as locales. Each component's theory interprets
  them on its own definitions.
  \<^item> \<open>expiring_cache\<close>: keyed entries with a \<open>prune(now)\<close> that forgets exactly the expired
    ones (\<open>EventStore.prune_expired\<close>, \<open>RandomizationCache.prune\<close>,
    \<open>ResponseTracker.prune\<close>);
  \<^item> \<open>mode_ownership\<close>: who holds which control mode on a device
    (\<open>ActiveModeTracker\<close>), as the event processor relies on it;
  \<^item> \<open>step_contract\<close>: a reflexive and transitive relation that every primitive step
    keeps, so that whole runs keep it.
\<close>

section \<open>Caches with expiry\<close>

locale expiring_cache =
  fixes lookup :: "'s \<Rightarrow> 'k \<Rightarrow> 'v option"
    and expired :: "int \<Rightarrow> 'v \<Rightarrow> bool"
    and prune :: "int \<Rightarrow> 's \<Rightarrow> 's"
    and inv :: "'s \<Rightarrow> bool"
  assumes lookup_prune: "inv s \<Longrightarrow> lookup (prune now s) k =
      (case lookup s k of None \<Rightarrow> None | Some v \<Rightarrow> if expired now v then None else Some v)"
    and inv_prune: "inv s \<Longrightarrow> inv (prune now s)"
    and expired_mono: "expired t v \<Longrightarrow> t \<le> t' \<Longrightarrow> expired t' v"
begin

lemma pruned_is_live: "inv s \<Longrightarrow> lookup (prune now s) k = Some v \<Longrightarrow> \<not> expired now v"
  by (auto simp: lookup_prune split: option.splits if_splits)

lemma live_is_kept: "inv s \<Longrightarrow> lookup s k = Some v \<Longrightarrow> \<not> expired now v \<Longrightarrow> lookup (prune now s) k = Some v"
  by (simp add: lookup_prune)

lemma prune_adds_nothing: "inv s \<Longrightarrow> lookup (prune now s) k = Some v \<Longrightarrow> lookup s k = Some v"
  by (auto simp: lookup_prune split: option.splits if_splits)

lemma prune_prune:
  "inv s \<Longrightarrow> t \<le> t' \<Longrightarrow> lookup (prune t' (prune t s)) k = lookup (prune t' s) k"
  using expired_mono [of t _ t'] by (auto simp: lookup_prune inv_prune split: option.splits)

text \<open>Every sequence of prunes at increasing times is the last prune alone.\<close>

lemma prune_run:
  "inv s \<Longrightarrow> sorted (ts @ [t]) \<Longrightarrow> lookup (prune t (fold prune ts s)) k = lookup (prune t s) k"
proof (induction ts arbitrary: s)
  case Nil
  then show ?case by simp
next
  case (Cons u ts)
  have "lookup (prune t (fold prune ts (prune u s))) k = lookup (prune t (prune u s)) k"
    using Cons by (simp add: inv_prune)
  also have "\<dots> = lookup (prune t s) k"
    using Cons.prems by (simp add: prune_prune)
  finally show ?case by simp
qed

end

section \<open>Ownership of control modes\<close>

text \<open>
  \<open>register\<close> records the modes an event holds on a device, \<open>unregister\<close> drops the event
  and answers which modes nobody holds any more. \<open>held s d e\<close> is what event \<open>e\<close> holds.
\<close>

locale mode_ownership =
  fixes held :: "'s \<Rightarrow> 'd \<Rightarrow> 'e \<Rightarrow> 'm set"
    and register :: "'d \<Rightarrow> 'e \<Rightarrow> 'm set \<Rightarrow> 's \<Rightarrow> 's"
    and unregister :: "'d \<Rightarrow> 'e \<Rightarrow> 's \<Rightarrow> 'm set \<times> 's"
    and inv :: "'s \<Rightarrow> bool"
  assumes held_register: "inv s \<Longrightarrow> held (register d e ms s) d' e' =
      (if d' = d \<and> e' = e then ms else held s d' e')"
    and held_unregister: "inv s \<Longrightarrow> held (snd (unregister d e s)) d' e' =
      (if d' = d \<and> e' = e then {} else held s d' e')"
    and released: "inv s \<Longrightarrow> fst (unregister d e s) = held s d e - (\<Union>e' \<in> - {e}. held s d e')"
    and inv_register: "inv s \<Longrightarrow> inv (register d e ms s)"
    and inv_unregister: "inv s \<Longrightarrow> inv (snd (unregister d e s))"
begin

text \<open>The modes somebody holds on a device.\<close>

definition covered_modes :: "'s \<Rightarrow> 'd \<Rightarrow> 'm set" where
  "covered_modes s d = (\<Union>e. held s d e)"

text \<open>The answer of \<open>unregister\<close> is exactly what stops being covered.\<close>

lemma released_exact:
  "inv s \<Longrightarrow> fst (unregister d e s) = covered_modes s d - covered_modes (snd (unregister d e s)) d"
  by (auto simp: covered_modes_def released held_unregister)

lemma unregister_other_device:
  "inv s \<Longrightarrow> d' \<noteq> d \<Longrightarrow> covered_modes (snd (unregister d e s)) d' = covered_modes s d'"
  by (simp add: covered_modes_def held_unregister)

text \<open>Registering and then dropping an event that held nothing returns the modes it
  brought that no other event holds, and restores every holding.\<close>

lemma register_unregister:
  assumes "inv s" "held s d e = {}"
  shows "fst (unregister d e (register d e ms s)) = ms - covered_modes s d"
    and "held (snd (unregister d e (register d e ms s))) d' e' = held s d' e'"
  using assms by (auto simp: covered_modes_def released held_unregister held_register inv_register)

end

section \<open>Relations kept by every step\<close>

locale step_contract =
  fixes R :: "'s \<Rightarrow> 's \<Rightarrow> bool"
  assumes refl [simp, intro]: "R s s"
    and trans: "R s t \<Longrightarrow> R t u \<Longrightarrow> R s u"
begin

lemma fold_step:
  assumes "\<And>x s. x \<in> set xs \<Longrightarrow> R s (f x s)"
  shows "R s (fold f xs s)"
  using assms
proof (induction xs arbitrary: s)
  case Nil
  then show ?case by simp
next
  case (Cons x xs)
  then have "R s (f x s)" and "R (f x s) (fold f xs (f x s))" by auto
  then show ?case by (simp add: trans)
qed

lemma for_each_step:
  assumes "\<And>x s. x \<in> set xs \<Longrightarrow> R s (fst (f x s))"
  shows "R s (fst (for_each f xs s))"
  using assms
proof (induction xs arbitrary: s)
  case Nil
  then show ?case by simp
next
  case (Cons x xs)
  obtain s' ret where fx: "f x s = (s', ret)" by fastforce
  have step: "R s s'" using Cons.prems [of x s] by (simp add: fx)
  have "R s' (fst (for_each f xs s'))" using Cons by simp
  with step show ?case by (simp add: fx trans)
qed

end

end
