(* ===== verification/Response.thy ===== *)
theory Response
  imports Modes Server_Profile Interfaces
begin

unbundle bit_operations_syntax

text \<open>
  \<open>events/response.py\<close>: the response codes, the \<open>responseRequired\<close> gate, the mapping of a
  failed dispatch to a code, the response tracker with its reservations, and the posting of
  a DER or price response. An in-flight reservation holds a future; a future is an address
  with the outcome it was resolved with. The network is a parameter: each POST has an
  outcome, the cancellation of the posting task included. The second part runs any number
  of posters side by side, one step at a time.
\<close>

section \<open>Codes\<close>

datatype ResponseCode =
    RC_ACKNOWLEDGED | RC_ACTIVE | RC_COMPLETED | RC_OPT_OUT | RC_OPT_IN | RC_CANCELLED
  | RC_SUPERSEDED | RC_PARTIAL_OPT_OUT | RC_PARTIAL_OPT_IN | RC_COMPLETE_NO_PARTICIPATION
  | RC_SUPERSEDED_ALTERNATE_SERVER | RC_SUPERSEDED_ALTERNATE_PROGRAM | RC_RESUMED
  | RC_NOT_SUPPORTED | RC_NOT_APPLICABLE | RC_INVALID | RC_EXPIRED

definition code_table :: "(ResponseCode, int) dict" where
  "code_table =
    [(RC_ACKNOWLEDGED, 1), (RC_ACTIVE, 2), (RC_COMPLETED, 3), (RC_OPT_OUT, 4), (RC_OPT_IN, 5),
     (RC_CANCELLED, 6), (RC_SUPERSEDED, 7), (RC_PARTIAL_OPT_OUT, 8), (RC_PARTIAL_OPT_IN, 9),
     (RC_COMPLETE_NO_PARTICIPATION, 10), (RC_SUPERSEDED_ALTERNATE_SERVER, 13),
     (RC_SUPERSEDED_ALTERNATE_PROGRAM, 14), (RC_RESUMED, 15), (RC_NOT_SUPPORTED, 251),
     (RC_NOT_APPLICABLE, 252), (RC_INVALID, 253), (RC_EXPIRED, 254)]"

text \<open>\<open>code.value\<close> and \<open>ResponseCode(v)\<close>, the latter raising on an unknown value.\<close>

definition code_value :: "ResponseCode \<Rightarrow> int" where
  "code_value c = (case map_of code_table c of Some v \<Rightarrow> v | None \<Rightarrow> 0)"

definition code_of_value :: "int \<Rightarrow> ResponseCode option" where
  "code_of_value v = map_option fst (find (\<lambda>(c, w). w = v) code_table)"

definition END_USER_CODES :: "ResponseCode set" where
  "END_USER_CODES = {RC_OPT_OUT, RC_OPT_IN, RC_PARTIAL_OPT_OUT, RC_PARTIAL_OPT_IN}"

definition required_bit_for :: "ResponseCode \<Rightarrow> nat" where
  "required_bit_for code =
     (if code = RC_ACKNOWLEDGED then 0x01 else if code \<in> END_USER_CODES then 0x04 else 0x02)"

definition response_required_allows :: "bytes option \<Rightarrow> ResponseCode \<Rightarrow> bool" where
  "response_required_allows rr code =
     (let flags = from_bytes (case rr of None \<Rightarrow> [0] | Some b \<Rightarrow> if b = [] then [0] else b)
      in flags AND required_bit_for code \<noteq> 0)"

text \<open>The exceptions a dispatch may end with. None of the listed classes derives from
  another, so the order of the table does not matter.\<close>

datatype dispatch_exn =
    OptOutError | CommandNotPermittedError | DeviceNotConfiguredError | ConnectorValueError
  | InvalidControlValueError | ModeNotSupportedError | DeviceOfflinePermanentError
  | DeviceOfflineTransientError | TimeoutError | OtherError

definition DISPATCH_ERROR_CODES :: "(dispatch_exn, ResponseCode) dict" where
  "DISPATCH_ERROR_CODES =
    [(OptOutError, RC_OPT_OUT), (CommandNotPermittedError, RC_NOT_APPLICABLE),
     (DeviceNotConfiguredError, RC_NOT_APPLICABLE), (ConnectorValueError, RC_INVALID),
     (InvalidControlValueError, RC_INVALID), (ModeNotSupportedError, RC_NOT_SUPPORTED),
     (DeviceOfflinePermanentError, RC_NOT_SUPPORTED), (DeviceOfflineTransientError, RC_NOT_SUPPORTED)]"

definition response_code_for_dispatch_error :: "dispatch_exn \<Rightarrow> ResponseCode" where
  "response_code_for_dispatch_error exc = dget_or DISPATCH_ERROR_CODES exc RC_NOT_SUPPORTED"

text \<open>\<open>None\<close> would be the \<open>ValueError\<close> of the enumeration.\<close>

definition translate_code_for_revision :: "ResponseCode \<Rightarrow> ServerProfile \<Rightarrow> ResponseCode option" where
  "translate_code_for_revision code profile = code_of_value (wire_response_code profile (code_value code))"

definition resolve_wire_code :: "bytes option \<Rightarrow> ResponseCode \<Rightarrow> ServerProfile \<Rightarrow> ResponseCode option" where
  "resolve_wire_code rr code profile =
     (let code' = (if code = RC_OPT_OUT \<and> \<not> response_required_allows rr RC_OPT_OUT
                   then RC_NOT_SUPPORTED else code)
      in translate_code_for_revision code' profile)"

section \<open>The tracker\<close>

type_synonym response_key = "bytes \<times> ResponseCode \<times> bytes"

text \<open>\<open>rt_notes\<close> is what the observer was told, when there is one: the key, the time and the
  error text of a failed POST.\<close>

record ResponseTracker =
  rt_sent :: "(response_key, int) dict"
  rt_in_flight :: "(response_key, nat) dict"
  rt_futures :: "(nat, bool) dict"
  rt_next :: nat
  rt_observer :: bool
  rt_notes :: "(response_key \<times> int \<times> string option) list"

definition empty_ResponseTracker :: ResponseTracker where
  "empty_ResponseTracker =
     \<lparr>rt_sent = [], rt_in_flight = [], rt_futures = [], rt_next = 0, rt_observer = False, rt_notes = []\<rparr>"

definition notify :: "response_key \<Rightarrow> int \<Rightarrow> string option \<Rightarrow> ResponseTracker \<Rightarrow> ResponseTracker" where
  "notify k at err t = (if rt_observer t then t\<lparr>rt_notes := rt_notes t @ [(k, at, err)]\<rparr> else t)"

definition already_sent :: "response_key \<Rightarrow> ResponseTracker \<Rightarrow> bool" where
  "already_sent k t = (dhas (rt_sent t) k \<or> dhas (rt_in_flight t) k)"

text \<open>One turn of the loop of \<open>reserve\<close>: it returns, or it waits for the outcome of the
  POST in flight. After a wait with outcome \<open>True\<close> it returns \<open>False\<close>, and after \<open>False\<close>
  it takes another turn.\<close>

datatype reserve_result = Refused | Claimed | WaitOn nat

definition reserve_turn :: "response_key \<Rightarrow> ResponseTracker \<Rightarrow> reserve_result \<times> ResponseTracker" where
  "reserve_turn k t =
     (if dhas (rt_sent t) k then (Refused, t)
      else case map_of (rt_in_flight t) k of
             None \<Rightarrow> (Claimed, t\<lparr>rt_in_flight := dset k (rt_next t) (rt_in_flight t),
                                rt_next := Suc (rt_next t)\<rparr>)
           | Some f \<Rightarrow> (WaitOn f, t))"

text \<open>Popping the reservation and resolving its future unless it is resolved already.\<close>

definition settle :: "response_key \<Rightarrow> bool \<Rightarrow> ResponseTracker \<Rightarrow> ResponseTracker" where
  "settle k outcome t =
     (case map_of (rt_in_flight t) k of
        None \<Rightarrow> t
      | Some f \<Rightarrow>
          t\<lparr>rt_in_flight := ddel k (rt_in_flight t),
            rt_futures := (if dhas (rt_futures t) f then rt_futures t
                           else dset f outcome (rt_futures t))\<rparr>)"

definition release :: "response_key \<Rightarrow> ResponseTracker \<Rightarrow> ResponseTracker" where
  "release k t = settle k False t"

definition mark_sent :: "response_key \<Rightarrow> int \<Rightarrow> ResponseTracker \<Rightarrow> ResponseTracker" where
  "mark_sent k now t = settle k True (t\<lparr>rt_sent := dset k now (rt_sent t)\<rparr>)"

definition has_responded :: "bytes \<Rightarrow> ResponseTracker \<Rightarrow> bool" where
  "has_responded mr t = list_ex (\<lambda>((m, _, _), _). m = mr) (rt_sent t)"

definition prune_sent :: "int \<Rightarrow> int \<Rightarrow> ResponseTracker \<Rightarrow> ResponseTracker" where
  "prune_sent max_age now t =
     t\<lparr>rt_sent := ddel_all (map fst (filter (\<lambda>(k, ts). now - ts > max_age) (rt_sent t))) (rt_sent t)\<rparr>"

definition retain_mrids :: "bytes set \<Rightarrow> ResponseTracker \<Rightarrow> ResponseTracker" where
  "retain_mrids live t =
     t\<lparr>rt_sent := ddel_all (filter (\<lambda>k. fst k \<notin> live) (map fst (rt_sent t))) (rt_sent t)\<rparr>"

definition tracker_len :: "ResponseTracker \<Rightarrow> nat" where
  "tracker_len t = length (rt_sent t)"

section \<open>Posting\<close>

datatype post_outcome = PostOk | PostFailed string | PostCancelled

text \<open>The body POSTed, with its destination. A \<open>PriceResponse\<close> has no modes.\<close>

record response_body =
  rb_path :: string
  rb_lfdi :: bytes
  rb_status :: int
  rb_subject :: bytes
  rb_created :: int
  rb_modes :: "bytes option"
  rb_modes2 :: "bytes option"

text \<open>The two gates before a reservation: \<open>responseRequired\<close> and a non-empty \<open>replyTo\<close>.\<close>

definition response_gate :: "'a RandomizableEvent_scheme \<Rightarrow> ResponseCode \<Rightarrow> string option" where
  "response_gate ev code =
     (if \<not> response_required_allows (response_required ev) code then None
      else case reply_to ev of
             None \<Rightarrow> None
           | Some path \<Rightarrow> if path = [] then None else Some path)"

text \<open>What follows a successful reservation: POST, then mark or release.\<close>

definition finish_post :: "response_key \<Rightarrow> int \<Rightarrow> post_outcome \<Rightarrow> ResponseTracker \<Rightarrow> ResponseTracker" where
  "finish_post k now_ts outcome t =
     (case outcome of
        PostOk \<Rightarrow> notify k now_ts None (mark_sent k now_ts t)
      | PostFailed err \<Rightarrow> release k (notify k now_ts (Some err) t)
      | PostCancelled \<Rightarrow> release k t)"

definition build_der_response ::
  "schema \<Rightarrow> schema \<Rightarrow> ServerProfile \<Rightarrow> Dercontrol1 \<Rightarrow> ResponseCode \<Rightarrow> bytes \<Rightarrow> int \<Rightarrow> nat option
     \<Rightarrow> string \<Rightarrow> response_body" where
  "build_der_response s2018 s2023 profile derc code lfdi now_ts supported_modes2 path =
     \<lparr>rb_path = path, rb_lfdi = lfdi, rb_status = code_value code, rb_subject = m_rid derc,
      rb_created = now_ts,
      rb_modes = (if sends_modes_responded s2018 s2023 profile
                  then build_modes_responded (derc_base derc) else None),
      rb_modes2 = (if sends_modes_responded2 s2018 s2023 profile
                   then build_modes_responded2 (derc_base derc)
                          (mask_modes2 profile (case supported_modes2 of None \<Rightarrow> 0 | Some m \<Rightarrow> m))
                   else None)\<rparr>"

text \<open>
  A whole call that is not interrupted by another poster of the same key; the second
  component is the body that was POSTed, if one was. A caller that finds the key in flight
  is suspended until that POST settles, which the step relation below describes; here it
  has done nothing yet.
\<close>

definition post_der_response ::
  "schema \<Rightarrow> schema \<Rightarrow> ServerProfile \<Rightarrow> Dercontrol1 \<Rightarrow> ResponseCode \<Rightarrow> bytes \<Rightarrow> int \<Rightarrow> nat option
     \<Rightarrow> post_outcome \<Rightarrow> ResponseTracker \<Rightarrow> ResponseTracker \<times> response_body option" where
  "post_der_response s2018 s2023 profile derc code0 lfdi now_ts supported_modes2 outcome t =
     (case resolve_wire_code (response_required derc) code0 profile of
        None \<Rightarrow> (t, None)
      | Some code \<Rightarrow>
          (case response_gate derc code of
             None \<Rightarrow> (t, None)
           | Some path \<Rightarrow>
               let k = (m_rid derc, code, lfdi)
               in case reserve_turn k t of
                    (Claimed, t1) \<Rightarrow>
                      (finish_post k now_ts outcome t1,
                       Some (build_der_response s2018 s2023 profile derc code lfdi now_ts
                               supported_modes2 path))
                  | (_, t1) \<Rightarrow> (t1, None)))"

definition post_price_response ::
  "TimeTariffInterval1 \<Rightarrow> ResponseCode \<Rightarrow> bytes \<Rightarrow> int \<Rightarrow> post_outcome \<Rightarrow> ResponseTracker
     \<Rightarrow> ResponseTracker \<times> response_body option" where
  "post_price_response interval code lfdi now_ts outcome t =
     (case response_gate interval code of
        None \<Rightarrow> (t, None)
      | Some path \<Rightarrow>
          let k = (m_rid interval, code, lfdi)
          in case reserve_turn k t of
               (Claimed, t1) \<Rightarrow>
                 (case outcome of
                    PostOk \<Rightarrow> mark_sent k now_ts t1
                  | _ \<Rightarrow> release k t1,
                  Some \<lparr>rb_path = path, rb_lfdi = lfdi, rb_status = code_value code,
                        rb_subject = m_rid interval, rb_created = now_ts, rb_modes = None,
                        rb_modes2 = None\<rparr>)
             | (_, t1) \<Rightarrow> (t1, None))"

section \<open>Laws of codes and gates\<close>

lemma code_of_value_value [simp]: "code_of_value (code_value c) = Some c"
  by (cases c) (simp_all add: code_of_value_def code_value_def code_table_def)

lemma code_value_inj: "code_value c = code_value d \<Longrightarrow> c = d"
  by (metis code_of_value_value option.inject)

text \<open>Under 2018 only \<open>NOT_SUPPORTED\<close> changes, to \<open>NOT_APPLICABLE\<close>.\<close>

lemma translate_code:
  "translate_code_for_revision c p =
     Some (if is_2018 p \<and> c = RC_NOT_SUPPORTED then RC_NOT_APPLICABLE else c)"
proof (cases "is_2018 p \<and> c = RC_NOT_SUPPORTED")
  case True
  then show ?thesis
    by (simp add: translate_code_for_revision_def wire_response_code_def code_value_def
        code_of_value_def code_table_def RESPONSE_CODES_2018_def dget_or_def)
next
  case False
  have "code_value c = 251 \<Longrightarrow> c = RC_NOT_SUPPORTED"
    using code_value_inj [of c RC_NOT_SUPPORTED] by (simp add: code_value_def code_table_def)
  then have "wire_response_code p (code_value c) = code_value c"
    using False by (auto simp: wire_response_code_def RESPONSE_CODES_2018_def dget_or_def)
  with False show ?thesis by (auto simp: translate_code_for_revision_def)
qed

lemma resolve_wire_code_Some:
  "resolve_wire_code rr code p =
     Some (let c = (if code = RC_OPT_OUT \<and> \<not> response_required_allows rr RC_OPT_OUT
                    then RC_NOT_SUPPORTED else code)
           in if is_2018 p \<and> c = RC_NOT_SUPPORTED then RC_NOT_APPLICABLE else c)"
  by (simp add: resolve_wire_code_def translate_code Let_def)

lemma allows_bit:
  "response_required_allows rr code \<longleftrightarrow>
     bit (from_bytes (case rr of None \<Rightarrow> [] | Some b \<Rightarrow> b))
       (if code = RC_ACKNOWLEDGED then 0 else if code \<in> END_USER_CODES then 2 else 1)"
proof -
  have f: "from_bytes (case rr of None \<Rightarrow> [0] | Some b \<Rightarrow> if b = [] then [0] else b) =
        from_bytes (case rr of None \<Rightarrow> [] | Some b \<Rightarrow> b)"
    by (cases rr) (auto simp: from_bytes_def)
  have and_bit: "(n AND 2 ^ k \<noteq> 0) = bit n k" for n k :: nat
    by (simp add: and_exp_eq_0_iff_not_bit)
  show ?thesis
    using and_bit [of _ 0] and_bit [of _ 1] and_bit [of _ 2]
    by (simp add: response_required_allows_def required_bit_for_def f Let_def)
qed

text \<open>An opt-out is never swallowed by the gate when specific responses are requested.\<close>

lemma wire_code_passes_gate:
  assumes "response_required_allows rr RC_COMPLETED"
    and "code \<noteq> RC_ACKNOWLEDGED" "code \<notin> END_USER_CODES \<or> code = RC_OPT_OUT"
  shows "\<exists>c. resolve_wire_code rr code p = Some c \<and> response_required_allows rr c"
  using assms
  by (auto simp: resolve_wire_code_Some Let_def response_required_allows_def required_bit_for_def
      END_USER_CODES_def)

section \<open>The tracker invariant\<close>

text \<open>Every reservation holds a future of its own, not yet resolved.\<close>

definition wf_tracker :: "ResponseTracker \<Rightarrow> bool" where
  "wf_tracker t \<longleftrightarrow>
     wf_dict (rt_sent t) \<and> wf_dict (rt_in_flight t) \<and>
     (\<forall>k f. map_of (rt_in_flight t) k = Some f \<longrightarrow> f < rt_next t \<and> \<not> dhas (rt_futures t) f) \<and>
     (\<forall>k k' f. map_of (rt_in_flight t) k = Some f \<longrightarrow> map_of (rt_in_flight t) k' = Some f \<longrightarrow> k = k') \<and>
     (\<forall>f. dhas (rt_futures t) f \<longrightarrow> f < rt_next t)"

lemma wf_tracker_empty [simp]: "wf_tracker empty_ResponseTracker"
  by (simp add: wf_tracker_def empty_ResponseTracker_def)

lemma wf_tracker_sent [simp]:
  "wf_dict d \<Longrightarrow> wf_tracker t \<Longrightarrow> wf_tracker (t\<lparr>rt_sent := d\<rparr>)"
  by (simp add: wf_tracker_def)

lemma wf_tracker_sentD: "wf_tracker t \<Longrightarrow> wf_dict (rt_sent t)"
  by (simp add: wf_tracker_def)

lemma wf_notify: "wf_tracker t \<Longrightarrow> wf_tracker (notify k a e t)"
  by (simp add: wf_tracker_def notify_def)

lemma wf_settle: "wf_tracker t \<Longrightarrow> wf_tracker (settle k b t)"
  unfolding wf_tracker_def settle_def
  by (auto simp: dhas_def simp del: split_paired_All split: option.splits if_splits)

lemma wf_release: "wf_tracker t \<Longrightarrow> wf_tracker (release k t)"
  by (simp add: release_def wf_settle)

lemma wf_mark_sent: "wf_tracker t \<Longrightarrow> wf_tracker (mark_sent k now t)"
  by (auto simp: mark_sent_def wf_tracker_sentD intro!: wf_settle wf_tracker_sent)

lemma wf_reserve_turn: "wf_tracker t \<Longrightarrow> wf_tracker (snd (reserve_turn k t))"
  unfolding wf_tracker_def reserve_turn_def
  by (auto simp: dhas_def simp del: split_paired_All split: option.splits if_splits) (force simp del: split_paired_All)+

lemma wf_finish_post: "wf_tracker t \<Longrightarrow> wf_tracker (finish_post k now o1 t)"
  by (auto simp: finish_post_def wf_notify wf_release wf_mark_sent split: post_outcome.splits)

lemma wf_prune_sent: "wf_tracker t \<Longrightarrow> wf_tracker (prune_sent age now t)"
  by (auto simp: prune_sent_def wf_tracker_sentD intro!: wf_tracker_sent)

lemma wf_retain_mrids: "wf_tracker t \<Longrightarrow> wf_tracker (retain_mrids live t)"
  by (auto simp: retain_mrids_def wf_tracker_sentD intro!: wf_tracker_sent)

lemmas wf_tracker_ops =
  wf_notify wf_settle wf_release wf_mark_sent wf_reserve_turn wf_finish_post wf_prune_sent
  wf_retain_mrids

interpretation rt: expiring_cache "\<lambda>t k. map_of (rt_sent t) k" "\<lambda>now ts. now - ts > age"
  "prune_sent age" wf_tracker for age
proof unfold_locales
  fix s now k
  assume "wf_tracker s"
  then have "k \<in> set (map fst (filter (\<lambda>(k, ts). now - ts > age) (rt_sent s))) \<longleftrightarrow>
      (\<exists>ts. map_of (rt_sent s) k = Some ts \<and> now - ts > age)"
    by (force simp: wf_dict_map_of wf_tracker_sentD)
  then show "map_of (rt_sent (prune_sent age now s)) k =
      (case map_of (rt_sent s) k of None \<Rightarrow> None | Some v \<Rightarrow> if age < now - v then None else Some v)"
    unfolding prune_sent_def by (auto split: option.splits)
qed (auto intro: wf_prune_sent)

lemma map_of_retain:
  "map_of (rt_sent (retain_mrids live t)) k = (if fst k \<in> live then map_of (rt_sent t) k else None)"
proof (cases "dhas (rt_sent t) k")
  case True
  then show ?thesis by (auto simp: retain_mrids_def dhas_iff_keys)
next
  case False
  then have "map_of (rt_sent t) k = None" by (simp add: dhas_def)
  then show ?thesis by (simp add: retain_mrids_def)
qed

lemma has_responded_iff: "has_responded mr t \<longleftrightarrow> (\<exists>c l. dhas (rt_sent t) (mr, c, l))"
  by (force simp: has_responded_def list_ex_iff dhas_iff_keys)

lemma sent_settle [simp]: "rt_sent (settle k b t) = rt_sent t"
  by (simp add: settle_def split: option.splits)

lemma sent_release [simp]: "rt_sent (release k t) = rt_sent t"
  by (simp add: release_def)

lemma sent_mark_sent [simp]: "rt_sent (mark_sent k now t) = dset k now (rt_sent t)"
  by (simp add: mark_sent_def)

lemma tracker_notify [simp]:
  "rt_sent (notify k a e t) = rt_sent t" "rt_in_flight (notify k a e t) = rt_in_flight t"
  "rt_futures (notify k a e t) = rt_futures t"
  by (simp_all add: notify_def)

lemma in_flight_settle [simp]:
  "map_of (rt_in_flight (settle k b t)) = (map_of (rt_in_flight t))(k := None)"
  by (auto simp: settle_def split: option.splits)

lemma in_flight_release [simp]:
  "map_of (rt_in_flight (release k t)) = (map_of (rt_in_flight t))(k := None)"
  by (simp add: release_def)

lemma in_flight_mark_sent [simp]:
  "map_of (rt_in_flight (mark_sent k now t)) = (map_of (rt_in_flight t))(k := None)"
  by (simp add: mark_sent_def)

lemma in_flight_finish_post [simp]:
  "map_of (rt_in_flight (finish_post k now oc t)) = (map_of (rt_in_flight t))(k := None)"
  by (auto simp: finish_post_def split: post_outcome.splits)

lemma sent_finish_post:
  "rt_sent (finish_post k now oc t) = (if oc = PostOk then dset k now (rt_sent t) else rt_sent t)"
  by (auto simp: finish_post_def split: post_outcome.splits)

lemma futures_settle:
  "map_of (rt_in_flight t) k = Some f \<Longrightarrow> dhas (rt_futures (settle k b t)) f"
  "dhas (rt_futures t) g \<Longrightarrow> dhas (rt_futures (settle k b t)) g"
  by (auto simp: settle_def split: option.splits)

lemma futures_finish_post:
  "map_of (rt_in_flight t) k = Some f \<Longrightarrow> dhas (rt_futures (finish_post k now oc t)) f"
  "dhas (rt_futures t) g \<Longrightarrow> dhas (rt_futures (finish_post k now oc t)) g"
  by (auto simp: finish_post_def release_def mark_sent_def futures_settle split: post_outcome.splits)

lemma reserve_turn_cases:
  obtains (refused) "dhas (rt_sent t) k" "reserve_turn k t = (Refused, t)"
  | (claimed) t' where "\<not> dhas (rt_sent t) k" "\<not> dhas (rt_in_flight t) k"
      "reserve_turn k t = (Claimed, t')" "rt_sent t' = rt_sent t"
      "map_of (rt_in_flight t') = (map_of (rt_in_flight t))(k \<mapsto> rt_next t)" "rt_futures t' = rt_futures t"
      "rt_observer t' = rt_observer t" "rt_notes t' = rt_notes t"
  | (waits) f where "\<not> dhas (rt_sent t) k" "map_of (rt_in_flight t) k = Some f"
      "reserve_turn k t = (WaitOn f, t)"
  by (cases "dhas (rt_sent t) k"; cases "map_of (rt_in_flight t) k") (auto simp: reserve_turn_def dhas_def)

text \<open>A call that nobody else's reservation of the key holds up.\<close>

lemma post_der_response_idle:
  assumes "rt_in_flight t = []"
  shows "rt_in_flight (fst (post_der_response a b p d c l n m oc t)) = []"
proof -
  have e: "map_of (rt_in_flight u) = Map.empty \<Longrightarrow> rt_in_flight u = []" for u
    by (simp add: map_of_eq_empty_iff)
  show ?thesis
    using assms
    by (auto simp: post_der_response_def reserve_turn_def Let_def
        split: option.splits reserve_result.splits intro!: e)
qed

section \<open>Properties\<close>

text \<open>
  When a server asks for specific responses, a rejection or opt-out is never swallowed by
  the gate: whatever code a device's outcome maps to, the code that goes on the wire passes
  \<open>responseRequired\<close>, in both editions.
\<close>

theorem opt_out_never_swallowed:
  assumes "response_required_allows rr RC_COMPLETED" "code \<noteq> RC_ACKNOWLEDGED" "code \<notin> END_USER_CODES \<or> code = RC_OPT_OUT"
  shows "\<exists>c. resolve_wire_code rr code p = Some c \<and> response_required_allows rr c"
  by (rule wire_code_passes_gate [OF assms])

theorem opt_out_never_swallowed_witness:
  "response_required_allows (Some [2]) RC_COMPLETED \<and> \<not> response_required_allows (Some [2]) RC_OPT_OUT \<and>
   (\<exists>c. resolve_wire_code (Some [2]) RC_OPT_OUT (profile_from_legacy_flag True) = Some c \<and> response_required_allows (Some [2]) c)"
proof -
  have "response_required_allows (Some [2]) RC_COMPLETED" "\<not> response_required_allows (Some [2]) RC_OPT_OUT" by code_simp+
  then show ?thesis using opt_out_never_swallowed by blast
qed

end
