(* ===== verification/Randomization.thy ===== *)
theory Randomization
  imports Sep_Model Interfaces
begin

text \<open>
  \<open>events/randomization.py\<close>: the randomized start and duration offsets of an event, drawn
  once per mRID. The random source is a parameter: \<open>rnd n m\<close> is the value the \<open>n\<close>-th call
  \<open>random.randint(0, m)\<close> returns, and \<open>randint_ok rnd\<close> states what the standard library
  documents of it. The cache counts its draws, so that two draws may differ.
\<close>

type_synonym random_source = "nat \<Rightarrow> int \<Rightarrow> int"

definition randint_ok :: "random_source \<Rightarrow> bool" where
  "randint_ok rnd \<longleftrightarrow> (\<forall>n m. 0 \<le> m \<longrightarrow> 0 \<le> rnd n m \<and> rnd n m \<le> m)"

record RandomizationCache =
  rc_cache :: "(bytes, int \<times> int) dict"
  rc_expiry :: "(bytes, int) dict"
  rc_draws :: nat

definition empty_RandomizationCache :: RandomizationCache where
  "empty_RandomizationCache = \<lparr>rc_cache = [], rc_expiry = [], rc_draws = 0\<rparr>"

definition compute_offset :: "random_source \<Rightarrow> int option \<Rightarrow> nat \<Rightarrow> int \<times> nat" where
  "compute_offset rnd val n =
     (case val of
        None \<Rightarrow> (0, n)
      | Some raw \<Rightarrow>
          if raw = 0 then (0, n)
          else let magnitude = \<bar>raw\<bar>; sign = (if raw > 0 then 1 else -1)
               in (sign * rnd n magnitude, Suc n))"

definition get_offsets ::
  "random_source \<Rightarrow> 'a RandomizableEvent_scheme \<Rightarrow> int \<Rightarrow> int \<Rightarrow> RandomizationCache
    \<Rightarrow> (int \<times> int) \<times> RandomizationCache" where
  "get_offsets rnd event start duration c =
     (let mr = m_rid event
      in case map_of (rc_cache c) mr of
           Some offs \<Rightarrow> (offs, c)
         | None \<Rightarrow>
             let (start_offset, n1) = compute_offset rnd (randomize_start event) (rc_draws c);
                 (dur_offset, n2) = compute_offset rnd (randomize_duration event) n1
             in ((start_offset, dur_offset),
                 \<lparr>rc_cache = dset mr (start_offset, dur_offset) (rc_cache c),
                  rc_expiry = dset mr (start + start_offset + duration + dur_offset) (rc_expiry c),
                  rc_draws = n2\<rparr>))"

definition prune_offsets :: "int \<Rightarrow> int \<Rightarrow> RandomizationCache \<Rightarrow> RandomizationCache" where
  "prune_offsets grace now c =
     (let gone = map fst (filter (\<lambda>(mr, e). e + grace < now) (rc_expiry c))
      in c\<lparr>rc_cache := ddel_all gone (rc_cache c), rc_expiry := ddel_all gone (rc_expiry c)\<rparr>)"

definition override_start_offset ::
  "bytes \<Rightarrow> int \<Rightarrow> int \<Rightarrow> int \<Rightarrow> RandomizationCache \<Rightarrow> RandomizationCache" where
  "override_start_offset mr new_start_offset raw_start raw_duration c =
     (case map_of (rc_cache c) mr of
        None \<Rightarrow> c
      | Some (_, dur_offset) \<Rightarrow>
          c\<lparr>rc_cache := dset mr (new_start_offset, dur_offset) (rc_cache c),
            rc_expiry := dset mr (raw_start + new_start_offset + raw_duration + dur_offset) (rc_expiry c)\<rparr>)"

definition rand_len :: "RandomizationCache \<Rightarrow> nat" where
  "rand_len c = length (rc_cache c)"

section \<open>The cache invariant\<close>

text \<open>The two dictionaries have the same keys, so the two \<open>del\<close> statements of \<open>prune\<close>
  never miss one.\<close>

definition wf_rand :: "RandomizationCache \<Rightarrow> bool" where
  "wf_rand c \<longleftrightarrow> wf_dict (rc_cache c) \<and> wf_dict (rc_expiry c) \<and>
     (\<forall>mr. dhas (rc_cache c) mr = dhas (rc_expiry c) mr)"

lemma wf_rand_empty [simp]: "wf_rand empty_RandomizationCache"
  by (simp add: wf_rand_def empty_RandomizationCache_def)

lemma wf_rand_get_offsets: "wf_rand c \<Longrightarrow> wf_rand (snd (get_offsets rnd e s d c))"
  by (auto simp: wf_rand_def get_offsets_def Let_def split: option.splits prod.splits)

lemma dhas_ddel_all [simp]: "dhas (ddel_all ks d) k = (k \<notin> set ks \<and> dhas d k)"
  by (simp add: dhas_def)

lemma wf_rand_prune: "wf_rand c \<Longrightarrow> wf_rand (prune_offsets grace now c)"
  by (simp add: wf_rand_def prune_offsets_def Let_def)

lemma wf_rand_override: "wf_rand c \<Longrightarrow> wf_rand (override_start_offset mr o1 s d c)"
  by (auto simp: wf_rand_def override_start_offset_def dhas_def split: option.splits)

definition rand_lookup :: "RandomizationCache \<Rightarrow> bytes \<Rightarrow> ((int \<times> int) \<times> int) option" where
  "rand_lookup c mr =
     (case (map_of (rc_cache c) mr, map_of (rc_expiry c) mr) of
        (Some offs, Some e) \<Rightarrow> Some (offs, e)
      | _ \<Rightarrow> None)"

lemma prune_offsets_keys:
  assumes "wf_rand c"
  shows "map_of (rc_cache (prune_offsets grace now c)) mr =
           (case map_of (rc_expiry c) mr of
              Some e \<Rightarrow> if e + grace < now then None else map_of (rc_cache c) mr
            | None \<Rightarrow> map_of (rc_cache c) mr)"
    and "map_of (rc_expiry (prune_offsets grace now c)) mr =
           (case map_of (rc_expiry c) mr of
              Some e \<Rightarrow> if e + grace < now then None else Some e
            | None \<Rightarrow> None)"
proof -
  have gone: "mr \<in> set (map fst (filter (\<lambda>(mr, e). e + grace < now) (rc_expiry c))) \<longleftrightarrow>
      (\<exists>e. map_of (rc_expiry c) mr = Some e \<and> e + grace < now)"
    using assms by (force simp: wf_rand_def wf_dict_map_of)
  show "map_of (rc_cache (prune_offsets grace now c)) mr =
           (case map_of (rc_expiry c) mr of
              Some e \<Rightarrow> if e + grace < now then None else map_of (rc_cache c) mr
            | None \<Rightarrow> map_of (rc_cache c) mr)"
    and "map_of (rc_expiry (prune_offsets grace now c)) mr =
           (case map_of (rc_expiry c) mr of
              Some e \<Rightarrow> if e + grace < now then None else Some e
            | None \<Rightarrow> None)"
    using gone by (auto simp: prune_offsets_def Let_def split: option.splits)
qed

interpretation rand_cache: expiring_cache rand_lookup "\<lambda>now v. snd v + grace < now"
  "prune_offsets grace" wf_rand for grace :: int
proof
  fix s :: RandomizationCache and now :: int and k
  assume "wf_rand s"
  then show "rand_lookup (prune_offsets grace now s) k =
      (case rand_lookup s k of None \<Rightarrow> None | Some v \<Rightarrow> if snd v + grace < now then None else Some v)"
    by (auto simp: rand_lookup_def prune_offsets_keys split: option.splits)
qed (auto intro: wf_rand_prune)

section \<open>Offsets\<close>

lemma get_offsets_cached:
  "get_offsets rnd e s d (snd (get_offsets rnd e s d c)) =
     (fst (get_offsets rnd e s d c), snd (get_offsets rnd e s d c))"
  by (auto simp: get_offsets_def Let_def split: option.splits prod.splits)

lemma get_offsets_lookup:
  "map_of (rc_cache (snd (get_offsets rnd e s d c))) (m_rid e) = Some (fst (get_offsets rnd e s d c))"
  by (auto simp: get_offsets_def Let_def split: option.splits prod.splits)

lemma compute_offset_bounds:
  assumes "randint_ok rnd"
  shows "\<bar>fst (compute_offset rnd val n)\<bar> \<le> (case val of None \<Rightarrow> 0 | Some raw \<Rightarrow> \<bar>raw\<bar>)"
    and "val = Some raw \<Longrightarrow> 0 \<le> raw * fst (compute_offset rnd val n)"
proof -
  have r: "0 \<le> rnd n \<bar>raw\<bar> \<and> rnd n \<bar>raw\<bar> \<le> \<bar>raw\<bar>" for raw
    using assms by (simp add: randint_ok_def)
  show "\<bar>fst (compute_offset rnd val n)\<bar> \<le> (case val of None \<Rightarrow> 0 | Some raw \<Rightarrow> \<bar>raw\<bar>)"
  proof (cases val)
    case None
    then show ?thesis by (simp add: compute_offset_def)
  next
    case (Some a)
    have "\<bar>rnd n \<bar>a\<bar>\<bar> \<le> \<bar>a\<bar>" using r [of a] by simp
    then show ?thesis using Some by (auto simp: compute_offset_def Let_def abs_mult simp del: abs_of_pos abs_of_neg)
  qed
  show "val = Some raw \<Longrightarrow> 0 \<le> raw * fst (compute_offset rnd val n)"
    using r [of raw] by (auto simp: compute_offset_def Let_def mult_nonpos_nonneg)
qed

end
