(* ===== verification/Trackers.thy ===== *)
theory Trackers
  imports Sep_Model Interfaces
begin

text \<open>
  The bookkeeping of the event engine: which event holds which mode on a device
  (\<open>events/active_modes.py\<close>), which default control was applied where
  (\<open>events/dderc.py\<close>), and which modes were dispatched to a device
  (\<open>events/current_controls.py\<close>).
\<close>

section \<open>Active modes\<close>

type_synonym ActiveModeTracker = "(string, (bytes, string set) dict) dict"

definition amt_register :: "string \<Rightarrow> bytes \<Rightarrow> string set \<Rightarrow> ActiveModeTracker \<Rightarrow> ActiveModeTracker" where
  "amt_register dev mr modes t = dset dev (dset mr modes (dget_or t dev [])) t"

definition amt_unregister :: "string \<Rightarrow> bytes \<Rightarrow> ActiveModeTracker \<Rightarrow> string set \<times> ActiveModeTracker" where
  "amt_unregister dev mr t =
     (case map_of t dev of
        None \<Rightarrow> ({}, t)
      | Some device_events \<Rightarrow>
          let owned = dget_or device_events mr {};
              rest = ddel mr device_events;
              t' = dset dev rest t
          in if owned = {} then ({}, t')
             else (owned - \<Union> (set (map snd rest)), t'))"

definition amt_covered :: "string \<Rightarrow> bytes option \<Rightarrow> ActiveModeTracker \<Rightarrow> string set" where
  "amt_covered dev excluding t =
     \<Union> (set (map snd (filter (\<lambda>(mr, _). Some mr \<noteq> excluding) (dget_or t dev []))))"

definition amt_covered_among :: "string \<Rightarrow> bytes set \<Rightarrow> ActiveModeTracker \<Rightarrow> string set" where
  "amt_covered_among dev mrids t =
     \<Union> (set (map snd (filter (\<lambda>(mr, _). mr \<in> mrids) (dget_or t dev []))))"

definition amt_clear :: "ActiveModeTracker \<Rightarrow> ActiveModeTracker" where
  "amt_clear t = []"

definition wf_modes :: "ActiveModeTracker \<Rightarrow> bool" where
  "wf_modes t \<longleftrightarrow> wf_dict t \<and> (\<forall>dev evs. map_of t dev = Some evs \<longrightarrow> wf_dict evs)"

definition amt_held :: "ActiveModeTracker \<Rightarrow> string \<Rightarrow> bytes \<Rightarrow> string set" where
  "amt_held t dev mr = dget_or (dget_or t dev []) mr {}"

lemma wf_modes_Nil [simp]: "wf_modes []"
  by (simp add: wf_modes_def)

lemma wf_modes_inner: "wf_modes t \<Longrightarrow> wf_dict (dget_or t dev [])"
  by (auto simp: wf_modes_def dget_or_def split: option.splits)

lemma wf_modes_register: "wf_modes t \<Longrightarrow> wf_modes (amt_register dev mr ms t)"
  using wf_modes_inner [of t dev] by (auto simp: wf_modes_def amt_register_def)

lemma wf_modes_unregister: "wf_modes t \<Longrightarrow> wf_modes (snd (amt_unregister dev mr t))"
  by (auto simp: wf_modes_def amt_unregister_def Let_def split: option.splits)

lemma mem_dget_or:
  assumes "wf_dict d"
  shows "x \<in> dget_or d k {} \<longleftrightarrow> (\<exists>v. (k, v) \<in> set d \<and> x \<in> v)"
proof -
  have "(k, v) \<in> set d \<longleftrightarrow> map_of d k = Some v" for v
    by (rule wf_dict_map_of [OF assms, symmetric])
  then show ?thesis by (cases "map_of d k") (auto simp: dget_or_def)
qed

lemma union_values: "wf_dict d \<Longrightarrow> \<Union> (set (map snd d)) = (\<Union>k. dget_or d k {})"
  by (auto simp: mem_dget_or image_iff) (blast, force)

interpretation amt: mode_ownership amt_held amt_register amt_unregister wf_modes
proof
  fix s :: ActiveModeTracker and d e ms d' e'
  assume wf: "wf_modes s"
  show "amt_held (amt_register d e ms s) d' e' = (if d' = d \<and> e' = e then ms else amt_held s d' e')"
    by (auto simp: amt_held_def amt_register_def dict_simps)
  show "amt_held (snd (amt_unregister d e s)) d' e' = (if d' = d \<and> e' = e then {} else amt_held s d' e')"
    by (auto simp: amt_held_def amt_unregister_def Let_def dict_simps split: option.splits)
      (auto simp: dget_or_def)
  show "fst (amt_unregister d e s) = amt_held s d e - (\<Union>e' \<in> - {e}. amt_held s d e')"
  proof (cases "map_of s d")
    case None
    then show ?thesis by (simp add: amt_unregister_def amt_held_def dget_or_def)
  next
    case (Some evs)
    have "wf_dict (ddel e evs)" using wf Some by (auto simp: wf_modes_def)
    then have "\<Union> (set (map snd (ddel e evs))) = (\<Union>k. dget_or (ddel e evs) k {})"
      by (rule union_values)
    also have "\<dots> = (\<Union>e' \<in> - {e}. dget_or evs e' {})"
      by (auto simp: dict_simps split: if_splits)
    finally show ?thesis
      using Some by (auto simp: amt_unregister_def amt_held_def Let_def dget_or_def)
  qed
qed (auto intro: wf_modes_register wf_modes_unregister)

lemma amt_covered_held:
  assumes "wf_modes t"
  shows "amt_covered dev excl t = (\<Union>mr \<in> {mr. Some mr \<noteq> excl}. amt_held t dev mr)"
  using wf_modes_inner [OF assms, of dev]
  by (auto simp: amt_covered_def amt_held_def mem_dget_or) blast+

lemma amt_covered_among_held:
  assumes "wf_modes t"
  shows "amt_covered_among dev ms t = (\<Union>mr \<in> ms. amt_held t dev mr)"
  using wf_modes_inner [OF assms, of dev]
  by (auto simp: amt_covered_among_def amt_held_def mem_dget_or) blast+

section \<open>Applied defaults\<close>

record DdercEntry =
  de_mrid :: bytes
  de_primacy :: int

type_synonym DdercTracker = "(bytes \<times> string, DdercEntry) dict"

definition should_apply :: "bytes \<Rightarrow> string \<Rightarrow> int \<Rightarrow> DdercTracker \<Rightarrow> bool" where
  "should_apply lfdi derp_path primacy t =
     (case map_of t (lfdi, derp_path) of
        None \<Rightarrow> True
      | Some existing \<Rightarrow> primacy \<le> de_primacy existing)"

definition should_apply_initial :: "bytes \<Rightarrow> string \<Rightarrow> bytes \<Rightarrow> int \<Rightarrow> DdercTracker \<Rightarrow> bool" where
  "should_apply_initial lfdi derp_path mr primacy t =
     (if list_ex (\<lambda>((other_lfdi, other_path), other).
           other_lfdi = lfdi \<and> other_path \<noteq> derp_path \<and> de_primacy other < primacy) t
      then False
      else case map_of t (lfdi, derp_path) of
             None \<Rightarrow> True
           | Some existing \<Rightarrow>
               if primacy < de_primacy existing then True
               else primacy = de_primacy existing \<and> mr \<noteq> de_mrid existing)"

definition record_application :: "bytes \<Rightarrow> string \<Rightarrow> bytes \<Rightarrow> int \<Rightarrow> DdercTracker \<Rightarrow> DdercTracker" where
  "record_application lfdi derp_path mr primacy t =
     dset (lfdi, derp_path) \<lparr>de_mrid = mr, de_primacy = primacy\<rparr> t"

definition clear_devices :: "bytes set \<Rightarrow> DdercTracker \<Rightarrow> DdercTracker" where
  "clear_devices lfdis t = ddel_all (filter (\<lambda>k. fst k \<in> lfdis) (map fst t)) t"

definition dderc_clear :: "DdercTracker \<Rightarrow> DdercTracker" where
  "dderc_clear t = []"

lemma map_of_clear_devices:
  "map_of (clear_devices lfdis t) (l, p) = (if l \<in> lfdis then None else map_of t (l, p))"
proof (cases "l \<in> lfdis \<and> (l, p) \<notin> fst ` set t")
  case True
  then have "map_of t (l, p) = None" by (simp add: map_of_eq_None_iff)
  then show ?thesis by (auto simp: clear_devices_def)
next
  case False
  then show ?thesis by (auto simp: clear_devices_def)
qed

lemma wf_clear_devices: "wf_dict t \<Longrightarrow> wf_dict (clear_devices lfdis t)"
  by (simp add: clear_devices_def)

lemma should_apply_initial_spec:
  assumes "wf_dict t"
  shows "should_apply_initial l p mr prim t \<longleftrightarrow>
    (\<forall>q e. q \<noteq> p \<longrightarrow> map_of t (l, q) = Some e \<longrightarrow> prim \<le> de_primacy e) \<and>
    (\<forall>e. map_of t (l, p) = Some e \<longrightarrow>
       prim < de_primacy e \<or> prim = de_primacy e \<and> mr \<noteq> de_mrid e)"
proof -
  have "list_ex (\<lambda>((ol, op), oth). ol = l \<and> op \<noteq> p \<and> de_primacy oth < prim) t \<longleftrightarrow>
      (\<exists>q e. q \<noteq> p \<and> map_of t (l, q) = Some e \<and> de_primacy e < prim)"
    unfolding wf_dict_map_of [OF assms] list_ex_iff by (auto intro: bexI [rotated])
  then show ?thesis
    by (auto simp: should_apply_initial_def not_less split: option.splits)
qed

section \<open>Currently dispatched modes\<close>

type_synonym CurrentControls = "(string, (string, string) dict) dict"

definition cc_update :: "string \<Rightarrow> (string \<times> string) list \<Rightarrow> CurrentControls \<Rightarrow> CurrentControls" where
  "cc_update dev dispatched st =
     dset dev (fold (\<lambda>(m, p) d. dset m p d) dispatched (dget_or st dev [])) st"

text \<open>\<open>m in k\<close> on strings.\<close>

definition str_in :: "string \<Rightarrow> string \<Rightarrow> bool" where
  "str_in m k = list_ex (\<lambda>i. take (length m) (drop i k) = m) [0..<Suc (length k)]"

definition cc_clear_modes :: "string \<Rightarrow> string set \<Rightarrow> CurrentControls \<Rightarrow> CurrentControls" where
  "cc_clear_modes dev mode_names st =
     (case map_of st dev of
        None \<Rightarrow> st
      | Some d \<Rightarrow> dset dev (ddel_all (filter (\<lambda>k. \<exists>m \<in> mode_names. str_in m k) (map fst d)) d) st)"

definition cc_clear_device :: "string \<Rightarrow> CurrentControls \<Rightarrow> CurrentControls" where
  "cc_clear_device dev st = ddel dev st"

definition cc_get_active_modes :: "string \<Rightarrow> CurrentControls \<Rightarrow> (string, string) dict" where
  "cc_get_active_modes dev st = dget_or st dev []"

definition cc_has_changes :: "string \<Rightarrow> CurrentControls \<Rightarrow> bool" where
  "cc_has_changes dev st = (dget_or st dev [] \<noteq> [])"

definition cc_clear :: "CurrentControls \<Rightarrow> CurrentControls" where
  "cc_clear st = []"

lemma map_of_fold_dset:
  "map_of (fold (\<lambda>(m, p) d. dset m p d) xs d) k =
     (case map_of (rev xs) k of None \<Rightarrow> map_of d k | Some p \<Rightarrow> Some p)"
  by (induction xs arbitrary: d) (auto simp: map_add_def split: option.splits)

lemma map_of_cc_clear_modes:
  "map_of (dget_or (cc_clear_modes dev ms st) dev []) k =
     (if \<exists>m \<in> ms. str_in m k then None else map_of (dget_or st dev []) k)"
proof (cases "map_of st dev")
  case None
  then show ?thesis by (simp add: cc_clear_modes_def dget_or_def)
next
  case (Some d)
  have "k \<notin> fst ` set d \<Longrightarrow> map_of d k = None" by (simp add: map_of_eq_None_iff)
  then show ?thesis using Some by (auto simp: cc_clear_modes_def dget_or_def)
qed

section \<open>Properties\<close>

text \<open>
  Releasing an event on a device gives back exactly the modes nobody holds there any
  more, and leaves what every other event holds, on every device, as it was.
\<close>

theorem release_is_exact:
  assumes "wf_modes t"
  shows "fst (amt_unregister dev mr t) = amt_covered dev None t - amt_covered dev None (snd (amt_unregister dev mr t))
    \<and> amt_held (snd (amt_unregister dev mr t)) = (\<lambda>d m. if d = dev \<and> m = mr then {} else amt_held t d m)"
  using amt.released_exact [OF assms, of dev mr] amt.held_unregister [OF assms, of dev mr] wf_modes_unregister [OF assms, of dev mr]
  by (auto simp: amt_covered_held assms amt.covered_modes_def fun_eq_iff)

theorem release_is_exact_witness:
  "fst (amt_unregister ''d'' [1] [(''d'', [([1], {''x'', ''y''}), ([2], {''y''})])]) = {''x''}"
proof -
  have "wf_modes [(''d'', [([1], {''x'', ''y''}), ([2], {''y''})])]" by (simp add: wf_modes_def wf_dict_def)
  from release_is_exact [OF this, of "''d''" "[1]"] have
    "fst (amt_unregister ''d'' [1] [(''d'', [([1], {''x'', ''y''}), ([2], {''y''})])]) =
      amt_covered ''d'' None [(''d'', [([1], {''x'', ''y''}), ([2], {''y''})])] -
      amt_covered ''d'' None (snd (amt_unregister ''d'' [1] [(''d'', [([1], {''x'', ''y''}), ([2], {''y''})])]))" by blast
  also have "\<dots> = {''x''}" by code_simp
  finally show ?thesis .
qed

end
