(* ===== verification/State_Machine.thy ===== *)
theory State_Machine
  imports Sep_Model Interfaces
begin

text \<open>
  \<open>events/state_machine.py\<close>: the event states, the mutable event record and the event
  store keyed by mRID. Python holds records by reference: the store, the pending timers and
  the running handlers share one object. So a record is an address into a heap of records
  and the store maps an mRID to an address; a record the store has dropped stays on the
  heap for whoever still holds it.
\<close>

section \<open>States and records\<close>

datatype EventState = SCHEDULED | ACTIVE | COMPLETED | CANCELLED | SUPERSEDED

fun state_value :: "EventState \<Rightarrow> string" where
  "state_value SCHEDULED = ''scheduled''"
| "state_value ACTIVE = ''active''"
| "state_value COMPLETED = ''completed''"
| "state_value CANCELLED = ''cancelled''"
| "state_value SUPERSEDED = ''superseded''"

record EventRecord =
  ev_mrid :: bytes
  ev_derc :: Dercontrol1
  ev_program_href :: string
  ev_primacy :: int
  ev_state :: EventState
  ev_start :: int
  ev_duration :: int
  ev_server_status_time :: int
  ev_creation_time :: int
  ev_superseded_devices :: "string set"
  ev_superseded_modes :: "(string, string set) dict"
  ev_rejected_devices :: "string set"
  ev_applied_devices :: "string set"
  ev_applied_local :: "string set"
  ev_rejected_local :: "string set"
  ev_opted_out :: bool

definition ev_end :: "EventRecord \<Rightarrow> int" where
  "ev_end r = ev_start r + ev_duration r"

text \<open>The constructor call \<open>EventRecord(mrid=..., ..., creation_time=...)\<close> with every
  other field at its default.\<close>

definition new_EventRecord ::
  "bytes \<Rightarrow> Dercontrol1 \<Rightarrow> string \<Rightarrow> int \<Rightarrow> EventState \<Rightarrow> int \<Rightarrow> int \<Rightarrow> int \<Rightarrow> int \<Rightarrow> EventRecord" where
  "new_EventRecord mr d prog prim st start dur sst ct =
     \<lparr>ev_mrid = mr, ev_derc = d, ev_program_href = prog, ev_primacy = prim, ev_state = st,
      ev_start = start, ev_duration = dur, ev_server_status_time = sst, ev_creation_time = ct,
      ev_superseded_devices = {}, ev_superseded_modes = [], ev_rejected_devices = {},
      ev_applied_devices = {}, ev_applied_local = {}, ev_rejected_local = {},
      ev_opted_out = False\<rparr>"

definition terminal :: "EventState \<Rightarrow> bool" where
  "terminal st = (st = CANCELLED \<or> st = SUPERSEDED \<or> st = COMPLETED)"

section \<open>The store\<close>

record EventStore =
  es_heap :: "nat \<Rightarrow> EventRecord"
  es_next :: nat
  es_events :: "(bytes, nat) dict"

definition empty_store :: "EventRecord \<Rightarrow> EventStore" where
  "empty_store r0 = \<lparr>es_heap = (\<lambda>_. r0), es_next = 0, es_events = []\<rparr>"

text \<open>Object creation: a fresh address for the record.\<close>

definition alloc :: "EventRecord \<Rightarrow> EventStore \<Rightarrow> nat \<times> EventStore" where
  "alloc r st = (es_next st, st\<lparr>es_heap := (es_heap st)(es_next st := r), es_next := Suc (es_next st)\<rparr>)"

definition upd_record :: "nat \<Rightarrow> (EventRecord \<Rightarrow> EventRecord) \<Rightarrow> EventStore \<Rightarrow> EventStore" where
  "upd_record a f st = st\<lparr>es_heap := (es_heap st)(a := f (es_heap st a))\<rparr>"

definition upsert :: "nat \<Rightarrow> EventStore \<Rightarrow> EventStore" where
  "upsert a st = st\<lparr>es_events := dset (ev_mrid (es_heap st a)) a (es_events st)\<rparr>"

definition get_event :: "EventStore \<Rightarrow> bytes \<Rightarrow> nat option" where
  "get_event st mr = map_of (es_events st) mr"

definition by_state :: "EventStore \<Rightarrow> EventState \<Rightarrow> nat list" where
  "by_state st s = filter (\<lambda>a. ev_state (es_heap st a) = s) (map snd (es_events st))"

definition all_active_states :: "EventStore \<Rightarrow> nat list" where
  "all_active_states st =
     filter (\<lambda>a. ev_state (es_heap st a) \<in> {SCHEDULED, ACTIVE}) (map snd (es_events st))"

datatype store_error = KeyError

definition transition :: "bytes \<Rightarrow> EventState \<Rightarrow> EventStore \<Rightarrow> store_error + EventStore" where
  "transition mr new_state st =
     (case map_of (es_events st) mr of
        None \<Rightarrow> Inl KeyError
      | Some a \<Rightarrow> Inr (upd_record a (\<lambda>r. r\<lparr>ev_state := new_state\<rparr>) st))"

text \<open>The loop of \<open>prune_expired\<close> over a copy of the items.\<close>

fun prune_loop :: "int \<Rightarrow> int \<Rightarrow> (bytes \<times> nat) list \<Rightarrow> bytes list \<Rightarrow> EventStore \<Rightarrow> bytes list \<times> EventStore" where
  "prune_loop now grace [] expired st = (expired, st)"
| "prune_loop now grace ((mr, a) # items) expired st =
     (if ev_end (es_heap st a) + grace < now
      then prune_loop now grace items (expired @ [mr]) (st\<lparr>es_events := ddel mr (es_events st)\<rparr>)
      else prune_loop now grace items expired st)"

definition prune_expired :: "int \<Rightarrow> int \<Rightarrow> EventStore \<Rightarrow> bytes list \<times> EventStore" where
  "prune_expired now grace st = prune_loop now grace (es_events st) [] st"

definition store_len :: "EventStore \<Rightarrow> nat" where
  "store_len st = length (es_events st)"

definition store_contains :: "EventStore \<Rightarrow> bytes \<Rightarrow> bool" where
  "store_contains st mr = dhas (es_events st) mr"

section \<open>Well-formedness and abstraction\<close>

text \<open>
  Every stored address is allocated and holds the record of its key; keys are distinct,
  and so, by the first fact, are addresses.
\<close>

definition wf_store :: "EventStore \<Rightarrow> bool" where
  "wf_store st \<longleftrightarrow>
     wf_dict (es_events st) \<and>
     (\<forall>(mr, a) \<in> set (es_events st). a < es_next st \<and> ev_mrid (es_heap st a) = mr)"

text \<open>What the store promises: a finite map from mRIDs to records.\<close>

definition store_map :: "EventStore \<Rightarrow> bytes \<rightharpoonup> EventRecord" where
  "store_map st mr = map_option (es_heap st) (map_of (es_events st) mr)"

lemma wf_storeD:
  assumes "wf_store st" "map_of (es_events st) mr = Some a"
  shows "a < es_next st" "ev_mrid (es_heap st a) = mr"
  using assms by (auto simp: wf_store_def dest: map_of_SomeD)

lemma wf_store_empty [simp]: "wf_store (empty_store r0)"
  by (simp add: wf_store_def empty_store_def)

lemma wf_store_alloc: "wf_store st \<Longrightarrow> wf_store (snd (alloc r st))"
  by (fastforce simp: wf_store_def alloc_def)

lemma wf_store_upd_record:
  "wf_store st \<Longrightarrow> (\<And>r. ev_mrid (f r) = ev_mrid r) \<Longrightarrow> wf_store (upd_record a f st)"
  by (auto simp: wf_store_def upd_record_def split: if_splits)

lemma wf_store_upsert: "wf_store st \<Longrightarrow> a < es_next st \<Longrightarrow> wf_store (upsert a st)"
  by (auto simp: wf_store_def upsert_def set_dset)

lemma wf_store_events: "wf_store st \<Longrightarrow> wf_dict (es_events st)"
  by (simp add: wf_store_def)

lemma prune_loop_spec:
  assumes "wf_store st" "set items \<subseteq> set (es_events st)" "distinct (map fst items)"
  shows "snd (prune_loop now grace items expired st) =
           st\<lparr>es_events := ddel_all
             (map fst (filter (\<lambda>(mr, a). ev_end (es_heap st a) + grace < now) items)) (es_events st)\<rparr>
       \<and> fst (prune_loop now grace items expired st) =
           expired @ map fst (filter (\<lambda>(mr, a). ev_end (es_heap st a) + grace < now) items)"
  using assms
proof (induction items arbitrary: expired st)
  case Nil
  then show ?case by (simp add: ddel_all_def)
next
  case (Cons it items)
  obtain mr a where it: "it = (mr, a)" by fastforce
  show ?case
  proof (cases "ev_end (es_heap st a) + grace < now")
    case True
    let ?st = "st\<lparr>es_events := ddel mr (es_events st)\<rparr>"
    have "wf_store ?st" using Cons.prems by (auto simp: wf_store_def set_ddel)
    moreover have "set items \<subseteq> set (es_events ?st)"
      using Cons.prems it by (auto simp: set_ddel image_iff)
    ultimately show ?thesis
      using Cons.IH [of ?st "expired @ [mr]"] Cons.prems it True
      by (simp add: ddel_all_def)
  next
    case False
    then show ?thesis using Cons it by simp
  qed
qed

lemma prune_expired_store:
  assumes "wf_store st"
  shows "snd (prune_expired now grace st) =
           st\<lparr>es_events := ddel_all
             (map fst (filter (\<lambda>(mr, a). ev_end (es_heap st a) + grace < now) (es_events st)))
             (es_events st)\<rparr>"
    and "fst (prune_expired now grace st) =
           map fst (filter (\<lambda>(mr, a). ev_end (es_heap st a) + grace < now) (es_events st))"
  using prune_loop_spec [OF assms, of "es_events st" now grace "[]"] assms
  by (simp_all add: prune_expired_def wf_store_def wf_dict_def)

lemma set_ddel_all: "set (ddel_all ks d) = {p \<in> set d. fst p \<notin> set ks}"
  unfolding ddel_all_def by (induction ks arbitrary: d) (auto simp: set_ddel)

lemma wf_store_prune: "wf_store st \<Longrightarrow> wf_store (snd (prune_expired now grace st))"
  by (auto simp: prune_expired_store wf_store_def set_ddel_all)

lemma in_pruned_keys:
  assumes "wf_store st"
  shows "mr \<in> set (fst (prune_expired now grace st)) \<longleftrightarrow>
           (\<exists>r. store_map st mr = Some r \<and> ev_end r + grace < now)"
proof -
  have "mr \<in> set (fst (prune_expired now grace st)) \<longleftrightarrow>
          (\<exists>a. (mr, a) \<in> set (es_events st) \<and> ev_end (es_heap st a) + grace < now)"
    by (force simp: prune_expired_store(2) [OF assms])
  also have "\<dots> \<longleftrightarrow> (\<exists>a. map_of (es_events st) mr = Some a \<and> ev_end (es_heap st a) + grace < now)"
    by (simp add: wf_dict_map_of [OF wf_store_events [OF assms]])
  finally show ?thesis by (auto simp: store_map_def)
qed

lemma store_map_prune:
  assumes "wf_store st"
  shows "store_map (snd (prune_expired now grace st)) mr =
           (case store_map st mr of
              None \<Rightarrow> None
            | Some r \<Rightarrow> if ev_end r + grace < now then None else Some r)"
proof -
  have "mr \<in> set (fst (prune_expired now grace st)) \<longleftrightarrow>
          (\<exists>r. store_map st mr = Some r \<and> ev_end r + grace < now)"
    by (rule in_pruned_keys [OF assms])
  then show ?thesis
    by (auto simp: prune_expired_store [OF assms] store_map_def split: option.splits)
qed

lemma store_map_upsert:
  "store_map (upsert a st) = (store_map st)(ev_mrid (es_heap st a) \<mapsto> es_heap st a)"
  by (auto simp: store_map_def upsert_def fun_eq_iff)

lemma store_map_transition:
  assumes "wf_store st" "transition mr ns st = Inr st'"
  shows "store_map st' = (store_map st)(mr := map_option (\<lambda>r. r\<lparr>ev_state := ns\<rparr>) (store_map st mr))"
proof
  fix k
  from assms(2) obtain a where a: "map_of (es_events st) mr = Some a"
    and st': "st' = upd_record a (\<lambda>r. r\<lparr>ev_state := ns\<rparr>) st"
    by (auto simp: transition_def split: option.splits)
  have uniq: "b \<noteq> a" if "map_of (es_events st) k = Some b" "k \<noteq> mr" for b
    using wf_storeD(2) [OF assms(1)] a that by metis
  show "store_map st' k =
    ((store_map st)(mr := map_option (\<lambda>r. r\<lparr>ev_state := ns\<rparr>) (store_map st mr))) k"
    using a uniq by (cases "map_of (es_events st) k") (auto simp: st' store_map_def upd_record_def)
qed

lemma transition_error: "transition mr ns st = Inl KeyError \<longleftrightarrow> store_map st mr = None"
  by (auto simp: transition_def store_map_def split: option.splits)

text \<open>The store is an expiring cache: a record is forgotten once its grace period is over.\<close>

interpretation es: expiring_cache store_map "\<lambda>now r. ev_end r + grace < now"
  "\<lambda>now st. snd (prune_expired now grace st)" wf_store for grace
proof unfold_locales
  fix st now mr
  assume "wf_store st"
  then show "store_map (snd (prune_expired now grace st)) mr =
      (case store_map st mr of None \<Rightarrow> None
       | Some r \<Rightarrow> if ev_end r + grace < now then None else Some r)"
    by (rule store_map_prune)
qed (auto intro: wf_store_prune)

section \<open>Properties\<close>

definition ex_one_event :: EventStore where
  "ex_one_event = (let r = new_EventRecord [1] \<lparr>m_rid = [1], reply_to = None, response_required = None,
       creation_time = None, event_status = None, interval_start = 50, interval_duration = 40,
       randomize_start = None, randomize_duration = None,
       derc_base = \<lparr>base_fields = [], base_other_element = []\<rparr>\<rparr> ''/derp'' 1 ACTIVE 50 40 0 0
     in upsert 0 (snd (alloc r (empty_store r))))"

lemma wf_ex_one_event: "wf_store ex_one_event"
  unfolding ex_one_event_def Let_def
  by (rule wf_store_upsert [OF wf_store_alloc [OF wf_store_empty]]) (simp add: alloc_def empty_store_def)


text \<open>
  C27. The store implements a map from mRIDs to records: pruning removes exactly the records
  whose end lies more than the grace period back and reports exactly their mRIDs, and moving
  an event changes the state of its own record only.
\<close>

theorem store_refines_map:
  assumes "wf_store st"
  shows "store_map (snd (prune_expired now grace st)) =
      (\<lambda>mr. case store_map st mr of None \<Rightarrow> None | Some r \<Rightarrow> if ev_end r + grace < now then None else Some r)
    \<and> set (fst (prune_expired now grace st)) = {mr. \<exists>r. store_map st mr = Some r \<and> ev_end r + grace < now}
    \<and> (\<forall>mr ns st'. transition mr ns st = Inr st' \<longrightarrow>
         store_map st' = (store_map st)(mr := map_option (\<lambda>r. r\<lparr>ev_state := ns\<rparr>) (store_map st mr)))"
  using assms by (auto simp: store_map_prune in_pruned_keys store_map_transition fun_eq_iff)

theorem store_refines_map_witness:
  "set (fst (prune_expired 200 60 ex_one_event)) = {mr. \<exists>r. store_map ex_one_event mr = Some r \<and> ev_end r + 60 < 200}"
  using store_refines_map [OF wf_ex_one_event, of 200 60] by blast

text \<open>Moving an event fails with \<open>KeyError\<close> exactly when the event is not in the store.\<close>

theorem transition_error_exactly:
  "transition mr ns st = Inl KeyError \<longleftrightarrow> get_event st mr = None"
  using transition_error [of mr ns st] by (simp add: store_map_def get_event_def)

end
