(* ===== verification/Supersession.thy ===== *)
theory Supersession
  imports State_Machine Modes
begin

text \<open>
  \<open>events/supersession.py\<close>: which of the scheduled and active events supersede which. The
  code indexes events by program and only compares events whose programs reach a common
  device; \<open>all_pairs_supersession\<close> is the reference that compares every pair. Python sets
  are iterated in an unspecified order, the parameter \<open>ord\<close>.
\<close>

record SupersessionResult =
  superseded_mrid :: bytes
  superseding_mrid :: bytes
  affected_devices :: "string set"
  superseded_program_href :: string
  superseding_program_href :: string
  affected_modes :: "string set"

definition time_overlaps :: "EventRecord \<Rightarrow> EventRecord \<Rightarrow> bool" where
  "time_overlaps a b \<longleftrightarrow> ev_start a < ev_end b \<and> ev_start b < ev_end a"

type_synonym program_devices = "(string, string set) dict"

definition devices_of :: "program_devices \<Rightarrow> string \<Rightarrow> string set" where
  "devices_of p2d prog = dget_or p2d prog {}"

text \<open>\<open>programs_on\<close> and \<open>programs_sharing\<close>: the programs that reach a device, and the
  programs that reach some device of a program.\<close>

definition programs_on :: "program_devices \<Rightarrow> string \<Rightarrow> string set" where
  "programs_on p2d dev = set (map fst (filter (\<lambda>(p, ds). dev \<in> ds) p2d))"

definition programs_sharing :: "program_devices \<Rightarrow> string \<Rightarrow> string set" where
  "programs_sharing p2d prog = (\<Union>dev \<in> devices_of p2d prog. programs_on p2d dev)"

definition indices_of :: "EventRecord list \<Rightarrow> string \<Rightarrow> nat list" where
  "indices_of events prog = filter (\<lambda>i. ev_program_href (events ! i) = prog) [0..<length events]"

text \<open>\<open>bisect.bisect_right\<close> on an ascending list: the number of leading elements that are
  at most the given one.\<close>

definition bisect_right :: "nat list \<Rightarrow> nat \<Rightarrow> nat" where
  "bisect_right xs i = length (takeWhile (\<lambda>x. x \<le> i) xs)"

definition later_indices ::
  "(string set \<Rightarrow> string list) \<Rightarrow> program_devices \<Rightarrow> EventRecord list \<Rightarrow> nat \<Rightarrow> nat list" where
  "later_indices ord p2d events i =
     sort (concat (map (\<lambda>prog. let indices = indices_of events prog
                               in drop (bisect_right indices i) indices)
       (iter_set ord (programs_sharing p2d (ev_program_href (events ! i))))))"

text \<open>\<open>a.creation_time or a.server_status_time\<close>.\<close>

definition tie_time :: "EventRecord \<Rightarrow> int" where
  "tie_time r = (if ev_creation_time r \<noteq> 0 then ev_creation_time r else ev_server_status_time r)"

definition winner_loser :: "EventRecord \<Rightarrow> EventRecord \<Rightarrow> EventRecord \<times> EventRecord" where
  "winner_loser a b =
     (if ev_primacy a < ev_primacy b then (a, b)
      else if ev_primacy b < ev_primacy a then (b, a)
      else if tie_time a \<ge> tie_time b then (a, b) else (b, a))"

text \<open>The body of the inner loop, after the check for a pair already compared.\<close>

definition compare_pair :: "program_devices \<Rightarrow> EventRecord \<Rightarrow> EventRecord \<Rightarrow> SupersessionResult option" where
  "compare_pair p2d a b =
     (if \<not> time_overlaps a b then None
      else
        let params_a = compared_mode_keys (derc_base (ev_derc a));
            params_b = compared_mode_keys (derc_base (ev_derc b));
            overlap = params_a \<inter> params_b
        in if params_a \<noteq> params_b \<and> overlap = {} then None
           else
             let (winner, loser) = winner_loser a b;
                 affected = devices_of p2d (ev_program_href winner) \<inter> devices_of p2d (ev_program_href loser)
             in if affected = {} then None
                else Some \<lparr>superseded_mrid = ev_mrid loser, superseding_mrid = ev_mrid winner,
                           affected_devices = affected,
                           superseded_program_href = ev_program_href loser,
                           superseding_program_href = ev_program_href winner,
                           affected_modes = overlap\<rparr>)"

definition pair_key :: "EventRecord \<Rightarrow> EventRecord \<Rightarrow> bytes \<times> bytes" where
  "pair_key a b = (min (ev_mrid a) (ev_mrid b), max (ev_mrid a) (ev_mrid b))"

fun compare_later ::
  "program_devices \<Rightarrow> EventRecord list \<Rightarrow> EventRecord \<Rightarrow> nat list
    \<Rightarrow> (bytes \<times> bytes) set \<times> SupersessionResult list \<Rightarrow> (bytes \<times> bytes) set \<times> SupersessionResult list" where
  "compare_later p2d events a [] acc = acc"
| "compare_later p2d events a (j # js) (checked, results) =
     (let b = events ! j; key = pair_key a b
      in if key \<in> checked then compare_later p2d events a js (checked, results)
         else compare_later p2d events a js
                (insert key checked,
                 case compare_pair p2d a b of None \<Rightarrow> results | Some r \<Rightarrow> results @ [r]))"

definition compute_supersession ::
  "(string set \<Rightarrow> string list) \<Rightarrow> EventRecord list \<Rightarrow> program_devices \<Rightarrow> SupersessionResult list" where
  "compute_supersession ord events p2d =
     snd (fold (\<lambda>i. compare_later p2d events (events ! i) (later_indices ord p2d events i))
            [0..<length events] ({}, []))"

section \<open>The reference: every pair\<close>

definition all_pairs_supersession :: "EventRecord list \<Rightarrow> program_devices \<Rightarrow> SupersessionResult list" where
  "all_pairs_supersession events p2d =
     concat (map (\<lambda>i. List.map_filter (\<lambda>j. compare_pair p2d (events ! i) (events ! j))
                        [Suc i..<length events])
       [0..<length events])"

section \<open>The indexed comparison visits what matters\<close>

lemma finite_programs_sharing: "finite (programs_sharing p2d prog)"
proof -
  have "programs_sharing p2d prog \<subseteq> fst ` set p2d"
    by (auto simp: programs_sharing_def programs_on_def)
  then show ?thesis by (rule finite_subset) simp
qed

lemma devices_of_programs_on: "dev \<in> devices_of p2d prog \<Longrightarrow> prog \<in> programs_on p2d dev"
  by (force simp: devices_of_def dget_or_def programs_on_def split: option.splits dest: map_of_SomeD)

lemma sharing_if_common_device:
  "devices_of p2d p \<inter> devices_of p2d q \<noteq> {} \<Longrightarrow> q \<in> programs_sharing p2d p"
  by (auto simp: programs_sharing_def dest: devices_of_programs_on)

lemma compare_pair_devices:
  assumes "compare_pair p2d a b = Some r"
  shows "affected_devices r = devices_of p2d (ev_program_href a) \<inter> devices_of p2d (ev_program_href b)"
    and "affected_devices r \<noteq> {}"
  using assms by (auto simp: compare_pair_def winner_loser_def Let_def split: if_splits)

lemma compare_pair_sharing:
  "compare_pair p2d a b = Some r \<Longrightarrow> ev_program_href b \<in> programs_sharing p2d (ev_program_href a)"
  by (rule sharing_if_common_device) (use compare_pair_devices in force)

lemma bisect_drop: "sorted xs \<Longrightarrow> drop (bisect_right xs i) xs = filter (\<lambda>x. i < x) xs"
proof (induction xs)
  case Nil
  then show ?case by (simp add: bisect_right_def)
next
  case (Cons x xs)
  show ?case
  proof (cases "x \<le> i")
    case True
    with Cons show ?thesis by (simp add: bisect_right_def)
  next
    case False
    with Cons.prems have "filter (\<lambda>x. i < x) xs = xs" by (auto simp: filter_id_conv)
    with False show ?thesis by (simp add: bisect_right_def)
  qed
qed

lemma sorted_indices_of: "sorted (indices_of events prog)"
  by (simp add: indices_of_def sorted_wrt_filter)

lemma later_indices_eq:
  "later_indices ord p2d events i =
     filter (\<lambda>j. ev_program_href (events ! j) \<in> programs_sharing p2d (ev_program_href (events ! i)))
       [Suc i..<length events]"
proof -
  let ?S = "programs_sharing p2d (ev_program_href (events ! i))"
  let ?f = "\<lambda>prog. filter (\<lambda>x. i < x) (indices_of events prog)"
  let ?xs = "concat (map ?f (iter_set ord ?S))"
  have later: "later_indices ord p2d events i = sort ?xs"
    by (simp add: later_indices_def bisect_drop sorted_indices_of Let_def)
  have set_xs: "set ?xs = {j. i < j \<and> j < length events \<and> ev_program_href (events ! j) \<in> ?S}"
    by (auto simp: set_iter_set [OF finite_programs_sharing] indices_of_def)
  have dist_f: "distinct (concat (map ?f ps))" if "distinct ps" for ps
    using that by (induction ps) (auto simp: indices_of_def)
  have "distinct ?xs" by (rule dist_f) simp
  then have "sort ?xs = sorted_list_of_set (set ?xs)"
    by (simp only: sorted_list_of_set_sort_remdups distinct_remdups_id)
  also have "\<dots> = filter (\<lambda>j. ev_program_href (events ! j) \<in> ?S) [Suc i..<length events]"
  proof (rule sorted_distinct_set_unique)
    show "set (sorted_list_of_set (set ?xs)) =
        set (filter (\<lambda>j. ev_program_href (events ! j) \<in> ?S) [Suc i..<length events])"
      unfolding set_sorted_list_of_set [OF finite_set] set_xs by auto
  qed (simp_all add: sorted_wrt_filter)
  finally show ?thesis by (simp add: later)
qed

lemma mrid_nth_eq:
  "distinct (map ev_mrid events) \<Longrightarrow> i < length events \<Longrightarrow> j < length events \<Longrightarrow>
     ev_mrid (events ! i) = ev_mrid (events ! j) \<longleftrightarrow> i = j"
  using nth_eq_iff_index_eq [of "map ev_mrid events" i j] by simp

lemma pair_key_inj:
  "pair_key a b = pair_key c d \<longleftrightarrow>
     (ev_mrid a = ev_mrid c \<and> ev_mrid b = ev_mrid d) \<or> (ev_mrid a = ev_mrid d \<and> ev_mrid b = ev_mrid c)"
  by (auto simp: pair_key_def min_def max_def split: if_splits)

text \<open>With distinct mRIDs no pair is met twice, so the inner loop collects the result of
  every later index.\<close>

lemma compare_later_distinct:
  assumes "distinct (map ev_mrid events)" "i < length events"
    and "\<forall>j \<in> set js. j < length events"
    and "distinct js" "\<forall>j \<in> set js. pair_key (events ! i) (events ! j) \<notin> checked"
  shows "compare_later p2d events (events ! i) js (checked, results) =
           (checked \<union> (\<lambda>j. pair_key (events ! i) (events ! j)) ` set js,
            results @ List.map_filter (\<lambda>j. compare_pair p2d (events ! i) (events ! j)) js)"
  using assms
proof (induction js arbitrary: checked results)
  case Nil
  then show ?case by (simp add: List.map_filter_simps)
next
  case (Cons j js)
  have fresh: "pair_key (events ! i) (events ! k) \<noteq> pair_key (events ! i) (events ! j)"
    if "k \<in> set js" for k
  proof -
    have "ev_mrid (events ! k) \<noteq> ev_mrid (events ! j)"
      using that Cons.prems by (auto simp: mrid_nth_eq)
    then show ?thesis by (auto simp: pair_key_inj)
  qed
  let ?c = "insert (pair_key (events ! i) (events ! j)) checked"
  let ?r = "case compare_pair p2d (events ! i) (events ! j) of None \<Rightarrow> results | Some r \<Rightarrow> results @ [r]"
  have "compare_later p2d events (events ! i) (j # js) (checked, results) =
          compare_later p2d events (events ! i) js (?c, ?r)"
    using Cons.prems by (simp add: Let_def)
  also have "\<dots> = (?c \<union> (\<lambda>j. pair_key (events ! i) (events ! j)) ` set js,
      ?r @ List.map_filter (\<lambda>j. compare_pair p2d (events ! i) (events ! j)) js)"
    by (rule Cons.IH) (use Cons.prems fresh in auto)
  finally show ?case
    by (auto simp: List.map_filter_simps split: option.splits)
qed

lemma map_filter_filter:
  "(\<And>x y. x \<in> set xs \<Longrightarrow> f x = Some y \<Longrightarrow> P x) \<Longrightarrow> List.map_filter f (filter P xs) = List.map_filter f xs"
  by (induction xs) (auto simp: List.map_filter_simps split: option.splits)

lemma fold_compare_later:
  assumes "distinct (map ev_mrid events)" "n \<le> length events"
  shows "fold (\<lambda>i. compare_later p2d events (events ! i) (later_indices ord p2d events i)) [0..<n] ({}, []) =
    (\<Union>i \<in> {0..<n}. (\<lambda>j. pair_key (events ! i) (events ! j)) ` set (later_indices ord p2d events i),
     concat (map (\<lambda>i. List.map_filter (\<lambda>j. compare_pair p2d (events ! i) (events ! j))
        [Suc i..<length events]) [0..<n]))"
  using assms(2)
proof (induction n)
  case 0
  then show ?case by simp
next
  case (Suc n)
  let ?L = "later_indices ord p2d events"
  let ?C = "\<Union>i \<in> {0..<n}. (\<lambda>j. pair_key (events ! i) (events ! j)) ` set (?L i)"
  have fresh: "pair_key (events ! n) (events ! j) \<notin> ?C" if "j \<in> set (?L n)" for j
    using that Suc.prems assms(1)
    by (auto simp: pair_key_inj later_indices_eq mrid_nth_eq)
  have "compare_later p2d events (events ! n) (?L n) (?C, rs) =
      (?C \<union> (\<lambda>j. pair_key (events ! n) (events ! j)) ` set (?L n),
       rs @ List.map_filter (\<lambda>j. compare_pair p2d (events ! n) (events ! j)) (?L n))" for rs
    by (rule compare_later_distinct) (use assms Suc.prems fresh in \<open>auto simp: later_indices_eq\<close>)
  moreover have "List.map_filter (\<lambda>j. compare_pair p2d (events ! n) (events ! j)) (?L n) =
      List.map_filter (\<lambda>j. compare_pair p2d (events ! n) (events ! j)) [Suc n..<length events]"
    unfolding later_indices_eq by (rule map_filter_filter) (rule compare_pair_sharing)
  ultimately show ?case
    using Suc by (simp add: atLeast0_lessThan_Suc Un_commute)
qed

lemma compute_supersession_all_pairs:
  "distinct (map ev_mrid events) \<Longrightarrow>
     compute_supersession ord events p2d = all_pairs_supersession events p2d"
  by (simp add: compute_supersession_def all_pairs_supersession_def fold_compare_later)

section \<open>What a result means\<close>

text \<open>
  The precedence of an event: lower primacy first, then the newer creation time, then the
  earlier position in the list, as a key compared lexicographically.
\<close>

definition precedence :: "EventRecord list \<Rightarrow> nat \<Rightarrow> int \<times> int \<times> nat" where
  "precedence events i = (ev_primacy (events ! i), - tie_time (events ! i), i)"

definition modes_meet :: "EventRecord \<Rightarrow> EventRecord \<Rightarrow> bool" where
  "modes_meet a b \<longleftrightarrow>
     compared_mode_keys (derc_base (ev_derc a)) = compared_mode_keys (derc_base (ev_derc b)) \<or>
     compared_mode_keys (derc_base (ev_derc a)) \<inter> compared_mode_keys (derc_base (ev_derc b)) \<noteq> {}"

lemma time_overlaps_sym: "time_overlaps a b = time_overlaps b a"
  by (auto simp: time_overlaps_def)

lemma modes_meet_sym: "modes_meet a b = modes_meet b a"
  by (auto simp: modes_meet_def)

lemma compare_pair_iff:
  "(\<exists>r. compare_pair p2d a b = Some r \<and> superseding_mrid r = x \<and> superseded_mrid r = y) \<longleftrightarrow>
     time_overlaps a b \<and> modes_meet a b \<and>
     devices_of p2d (ev_program_href a) \<inter> devices_of p2d (ev_program_href b) \<noteq> {} \<and>
     x = ev_mrid (fst (winner_loser a b)) \<and> y = ev_mrid (snd (winner_loser a b))"
  by (auto simp: compare_pair_def modes_meet_def winner_loser_def Let_def Int_commute split: if_splits)

lemma winner_loser_precedence:
  "i < j \<Longrightarrow> winner_loser (events ! i) (events ! j) =
     (if precedence events i < precedence events j then (events ! i, events ! j)
      else (events ! j, events ! i))"
  by (auto simp: winner_loser_def precedence_def less_prod_def)

lemma in_all_pairs:
  "r \<in> set (all_pairs_supersession events p2d) \<longleftrightarrow>
     (\<exists>i j. i < j \<and> j < length events \<and> compare_pair p2d (events ! i) (events ! j) = Some r)"
proof -
  have mf: "x \<in> set (List.map_filter f xs) \<longleftrightarrow> (\<exists>y \<in> set xs. f y = Some x)" for f x and xs :: "nat list"
    by (induction xs) (auto simp: List.map_filter_simps split: option.splits)
  have "r \<in> set (all_pairs_supersession events p2d) \<longleftrightarrow>
      (\<exists>i < length events. \<exists>j \<in> {Suc i..<length events}. compare_pair p2d (events ! i) (events ! j) = Some r)"
    by (simp add: all_pairs_supersession_def mf Bex_def)
  also have "\<dots> \<longleftrightarrow>
      (\<exists>i j. i < j \<and> j < length events \<and> compare_pair p2d (events ! i) (events ! j) = Some r)"
    by (meson Suc_le_eq atLeastLessThan_iff less_trans)
  finally show ?thesis .
qed

lemma ordered_pair_choice:
  fixes P :: "nat \<Rightarrow> 'a::linorder"
  assumes "\<And>k l. S k l = S l k" "\<And>k l. P k = P l \<longleftrightarrow> k = l" "i < n" "j < n"
  shows "(\<exists>k l. k < l \<and> l < n \<and> S k l \<and> (if P k < P l then i = k \<and> j = l else i = l \<and> j = k)) \<longleftrightarrow>
           S i j \<and> P i < P j" (is "?L \<longleftrightarrow> ?R")
proof
  assume ?L
  then obtain k l where kl: "k < l" "S k l" "if P k < P l then i = k \<and> j = l else i = l \<and> j = k"
    by blast
  moreover have "P k < P l \<or> P l < P k"
    using kl(1) assms(2) [of k l] by (metis less_irrefl neq_iff)
  ultimately show ?R using assms(1) [of k l] by (auto split: if_splits)
next
  assume r: ?R
  then have "i \<noteq> j" by auto
  show ?L
  proof (cases "i < j")
    case True
    with r assms show ?thesis by (intro exI [of _ i] exI [of _ j]) simp
  next
    case False
    with \<open>i \<noteq> j\<close> r assms show ?thesis
      by (intro exI [of _ j] exI [of _ i]) (auto simp: not_less)
  qed
qed

text \<open>An event at position \<open>i\<close> supersedes one at position \<open>j\<close> exactly when they overlap in
  time, meet in a mode, reach a common device and \<open>i\<close> takes precedence.\<close>

lemma all_pairs_supersedes_iff:
  assumes d: "distinct (map ev_mrid events)" and i: "i < length events" and j: "j < length events"
  shows "(\<exists>r \<in> set (all_pairs_supersession events p2d).
            superseding_mrid r = ev_mrid (events ! i) \<and> superseded_mrid r = ev_mrid (events ! j)) \<longleftrightarrow>
         time_overlaps (events ! i) (events ! j) \<and> modes_meet (events ! i) (events ! j) \<and>
         devices_of p2d (ev_program_href (events ! i)) \<inter> devices_of p2d (ev_program_href (events ! j)) \<noteq> {} \<and>
         precedence events i < precedence events j"
    (is "?L \<longleftrightarrow> ?R")
proof -
  let ?S = "\<lambda>k l. time_overlaps (events ! k) (events ! l) \<and> modes_meet (events ! k) (events ! l) \<and>
      devices_of p2d (ev_program_href (events ! k)) \<inter> devices_of p2d (ev_program_href (events ! l)) \<noteq> {}"
  let ?W = "\<lambda>k l. winner_loser (events ! k) (events ! l)"
  have "?L \<longleftrightarrow> (\<exists>k l. k < l \<and> l < length events \<and> ?S k l \<and>
      ev_mrid (events ! i) = ev_mrid (fst (?W k l)) \<and> ev_mrid (events ! j) = ev_mrid (snd (?W k l)))"
    unfolding Bex_def in_all_pairs
    using compare_pair_iff [of p2d _ _ "ev_mrid (events ! i)" "ev_mrid (events ! j)"] by blast
  also have "\<dots> \<longleftrightarrow> (\<exists>k l. k < l \<and> l < length events \<and> ?S k l \<and>
      (if precedence events k < precedence events l then i = k \<and> j = l else i = l \<and> j = k))"
    by (intro ex_cong1 conj_cong refl) (use assms in \<open>auto simp: winner_loser_precedence mrid_nth_eq\<close>)
  also have "\<dots> \<longleftrightarrow> ?S i j \<and> precedence events i < precedence events j"
  proof (rule ordered_pair_choice [OF _ _ i j])
    show "?S k l = ?S l k" for k l
      by (simp add: time_overlaps_sym [of "events ! k"] modes_meet_sym [of "events ! k"] Int_commute)
  qed (auto simp: precedence_def)
  finally show ?thesis by simp
qed

lemma result_indices:
  assumes "r \<in> set (all_pairs_supersession events p2d)"
  obtains i j where "i < length events" "j < length events"
    "superseding_mrid r = ev_mrid (events ! i)" "superseded_mrid r = ev_mrid (events ! j)"
proof -
  from assms obtain i j where ij: "i < j" "j < length events"
    and r: "compare_pair p2d (events ! i) (events ! j) = Some r"
    by (auto simp: in_all_pairs)
  show ?thesis
    using compare_pair_iff [of p2d "events ! i" "events ! j" "superseding_mrid r" "superseded_mrid r"] r ij
      that [of i j] that [of j i]
    by (auto simp: winner_loser_def split: if_splits)
qed

lemma acyclic_by_key:
  fixes f :: "'a \<Rightarrow> 'b::order"
  assumes "\<And>x y. (x, y) \<in> R \<Longrightarrow> f x < f y"
  shows "acyclic R"
proof -
  have "f x < f y" if "(x, y) \<in> R\<^sup>+" for x y
    using that by (induction) (auto dest: assms intro: less_trans)
  then show ?thesis unfolding acyclic_def by (metis less_irrefl)
qed

text \<open>Superseding is acyclic, so some event is never superseded.\<close>

lemma all_pairs_acyclic:
  assumes d: "distinct (map ev_mrid events)"
  shows "acyclic {(superseding_mrid r, superseded_mrid r) | r. r \<in> set (all_pairs_supersession events p2d)}"
proof -
  define idx where "idx m = (THE i. i < length events \<and> ev_mrid (events ! i) = m)" for m
  have idx: "idx (ev_mrid (events ! i)) = i" if "i < length events" for i
    unfolding idx_def by (rule the_equality) (use that d mrid_nth_eq in auto)
  show ?thesis
  proof (rule acyclic_by_key [where f = "\<lambda>m. precedence events (idx m)"])
    fix x y
    assume "(x, y) \<in> {(superseding_mrid r, superseded_mrid r) | r. r \<in> set (all_pairs_supersession events p2d)}"
    then obtain r where r: "r \<in> set (all_pairs_supersession events p2d)"
      and x: "x = superseding_mrid r" and y: "y = superseded_mrid r" by blast
    from r obtain i j where ij: "i < length events" "j < length events"
      and m: "superseding_mrid r = ev_mrid (events ! i)" "superseded_mrid r = ev_mrid (events ! j)"
      by (rule result_indices)
    have "precedence events i < precedence events j"
      using all_pairs_supersedes_iff [OF d ij, of p2d] r m by blast
    then show "precedence events (idx x) < precedence events (idx y)"
      by (simp add: x y m idx ij)
  qed
qed

section \<open>Properties\<close>

definition ex_event :: "bytes \<Rightarrow> string \<Rightarrow> int \<Rightarrow> int \<Rightarrow> EventRecord" where
  "ex_event mr prog prim created =
     new_EventRecord mr \<lparr>m_rid = mr, reply_to = None, response_required = None, creation_time = Some created,
        event_status = None, interval_start = 100, interval_duration = 60, randomize_start = None,
        randomize_duration = None,
        derc_base = \<lparr>base_fields = [(''op_mod_max_lim_w'', ''50'')], base_other_element = []\<rparr>\<rparr>
      prog prim SCHEDULED 100 60 0 created"

definition ex_events :: "EventRecord list" where
  "ex_events = [ex_event [1] ''/a'' 2 10, ex_event [2] ''/b'' 1 10, ex_event [3] ''/b'' 1 20]"

definition ex_groups :: program_devices where
  "ex_groups = [(''/a'', {''/edev/1'', ''/edev/2''}), (''/b'', {''/edev/2''})]"

lemma ex_events_distinct: "distinct (map ev_mrid ex_events)"
  by code_simp

text \<open>
  C10. The indexed search over programs that share devices, with its set of pairs already
  checked, finds exactly what comparing every pair of events finds, in the same order,
  whatever order the sets are iterated in.
\<close>

theorem supersession_matches_all_pairs:
  "distinct (map ev_mrid events) \<Longrightarrow> compute_supersession ord events p2d = all_pairs_supersession events p2d"
  by (rule compute_supersession_all_pairs)

theorem supersession_matches_all_pairs_witness:
  "compute_supersession sorted_list_of_set ex_events ex_groups = all_pairs_supersession ex_events ex_groups"
  by (rule supersession_matches_all_pairs [OF ex_events_distinct])

text \<open>
  C11. One event supersedes another exactly when their effective periods overlap, their modes
  meet, their programs share a device, and it comes first in the order by primacy, then by
  creation time (newest first), then by position.
\<close>

theorem supersession_order:
  assumes "distinct (map ev_mrid events)" "i < length events" "j < length events"
  shows "(\<exists>r \<in> set (compute_supersession ord events p2d).
            superseding_mrid r = ev_mrid (events ! i) \<and> superseded_mrid r = ev_mrid (events ! j)) \<longleftrightarrow>
         time_overlaps (events ! i) (events ! j) \<and> modes_meet (events ! i) (events ! j) \<and>
         devices_of p2d (ev_program_href (events ! i)) \<inter> devices_of p2d (ev_program_href (events ! j)) \<noteq> {} \<and>
         precedence events i < precedence events j"
  using all_pairs_supersedes_iff [OF assms] compute_supersession_all_pairs [OF assms(1)] by simp

theorem supersession_order_witness:
  "\<exists>r \<in> set (compute_supersession sorted_list_of_set ex_events ex_groups). superseding_mrid r = [3] \<and> superseded_mrid r = [2]"
proof -
  have "time_overlaps (ex_events ! 2) (ex_events ! 1)" "modes_meet (ex_events ! 2) (ex_events ! 1)"
    "devices_of ex_groups (ev_program_href (ex_events ! 2)) \<inter> devices_of ex_groups (ev_program_href (ex_events ! 1)) \<noteq> {}"
    "precedence ex_events 2 < precedence ex_events 1" "length ex_events = 3" "ev_mrid (ex_events ! 2) = [3]" "ev_mrid (ex_events ! 1) = [2]"
    by code_simp+
  then show ?thesis using supersession_order [OF ex_events_distinct, of 2 1 sorted_list_of_set ex_groups] by simp
qed

text \<open>C6. No event supersedes itself, directly or through a chain of others.\<close>

theorem supersession_acyclic:
  assumes "distinct (map ev_mrid events)"
  shows "acyclic {(superseding_mrid r, superseded_mrid r) | r. r \<in> set (compute_supersession ord events p2d)}"
  using all_pairs_acyclic [OF assms] compute_supersession_all_pairs [OF assms] by simp

theorem supersession_acyclic_witness:
  "acyclic {(superseding_mrid r, superseded_mrid r) | r. r \<in> set (compute_supersession sorted_list_of_set ex_events ex_groups)}"
  by (rule supersession_acyclic [OF ex_events_distinct])

end
