(* ===== verification/Timers.thy ===== *)
theory Timers
  imports State_Machine
begin

text \<open>
  \<open>events/timers.py\<close>: the table of timer tasks and the adaptive wait of one task. A task is
  an address; its callback is one of the three handlers the event processor passes. A task
  holds the address of its record, so it sees the record's current state when it fires.
  Time inside the wait is in milliseconds and the clock a task reads, whole seconds like
  \<open>int(time.time())\<close>, is a function of it.
\<close>

section \<open>The task table\<close>

datatype callback = OnActivation | OnCompletion | ApplyDdercFallback

text \<open>\<open>LocalClock\<close> is \<open>_local_now\<close>, \<open>ServerClock\<close> the server-timebase clock of a scope.\<close>

datatype clock_ref = LocalClock | ServerClock "string option"

datatype task_status = Pending | Cancelled | Finished

record timer_task =
  tt_mrid :: bytes
  tt_record :: nat
  tt_target :: int
  tt_callback :: callback
  tt_clock :: clock_ref
  tt_status :: task_status

record EventTimerManager =
  tm_tasks :: "(bytes, nat list) dict"
  tm_heap :: "nat \<Rightarrow> timer_task"
  tm_next :: nat

definition ACTIVATION_LEAD :: int where "ACTIVATION_LEAD = 0"
definition COMPLETION_LEAD :: int where "COMPLETION_LEAD = 0"

text \<open>\<open>create_task\<close> and \<open>self._tasks.setdefault(record.mrid, []).append(task)\<close>.\<close>

definition start_task :: "timer_task \<Rightarrow> EventTimerManager \<Rightarrow> EventTimerManager" where
  "start_task tk m =
     m\<lparr>tm_heap := (tm_heap m)(tm_next m := tk),
       tm_tasks := dset (tt_mrid tk) (dget_or (tm_tasks m) (tt_mrid tk) [] @ [tm_next m]) (tm_tasks m),
       tm_next := Suc (tm_next m)\<rparr>"

definition schedule_activation :: "nat \<Rightarrow> EventRecord \<Rightarrow> clock_ref \<Rightarrow> EventTimerManager \<Rightarrow> EventTimerManager" where
  "schedule_activation a r clk =
     start_task \<lparr>tt_mrid = ev_mrid r, tt_record = a, tt_target = ev_start r - ACTIVATION_LEAD,
                 tt_callback = OnActivation, tt_clock = clk, tt_status = Pending\<rparr>"

definition schedule_completion :: "nat \<Rightarrow> EventRecord \<Rightarrow> clock_ref \<Rightarrow> EventTimerManager \<Rightarrow> EventTimerManager" where
  "schedule_completion a r clk =
     start_task \<lparr>tt_mrid = ev_mrid r, tt_record = a, tt_target = ev_end r - COMPLETION_LEAD,
                 tt_callback = OnCompletion, tt_clock = clk, tt_status = Pending\<rparr>"

text \<open>The target of a delayed callback is anchored to the local clock.\<close>

definition schedule_delayed_callback ::
  "nat \<Rightarrow> EventRecord \<Rightarrow> int \<Rightarrow> int \<Rightarrow> callback \<Rightarrow> EventTimerManager \<Rightarrow> EventTimerManager" where
  "schedule_delayed_callback a r local_now delay_seconds cb =
     start_task \<lparr>tt_mrid = ev_mrid r, tt_record = a, tt_target = local_now + delay_seconds,
                 tt_callback = cb, tt_clock = LocalClock, tt_status = Pending\<rparr>"

definition has_pending :: "bytes \<Rightarrow> EventTimerManager \<Rightarrow> bool" where
  "has_pending mr m = dhas (tm_tasks m) mr"

text \<open>\<open>task.cancel()\<close> on a task that is asleep; a finished task stays finished.\<close>

definition cancel_task :: "nat \<Rightarrow> EventTimerManager \<Rightarrow> EventTimerManager" where
  "cancel_task i m =
     (if tt_status (tm_heap m i) = Pending
      then m\<lparr>tm_heap := (tm_heap m)(i := (tm_heap m i)\<lparr>tt_status := Cancelled\<rparr>)\<rparr> else m)"

text \<open>\<open>current\<close> is the running task when a timer callback calls \<open>cancel\<close>.\<close>

definition cancel_timers :: "nat option \<Rightarrow> bytes \<Rightarrow> EventTimerManager \<Rightarrow> EventTimerManager" where
  "cancel_timers current mr m =
     (let tasks = dget_or (tm_tasks m) mr []
      in fold (\<lambda>i. if Some i \<noteq> current then cancel_task i else id) tasks
           (m\<lparr>tm_tasks := ddel mr (tm_tasks m)\<rparr>))"

definition cancel_all_timers :: "EventTimerManager \<Rightarrow> EventTimerManager" where
  "cancel_all_timers m = fold cancel_task (concat (map snd (tm_tasks m))) (m\<lparr>tm_tasks := []\<rparr>)"

text \<open>What a task does when it wakes up: the two shutdown checks, the due check and the
  state check of \<open>_wait_and_fire\<close>.\<close>

datatype wake = Sleep int | Return | Fire

definition sleep_time :: "int \<Rightarrow> int" where
  "sleep_time remaining = (if remaining > 10 then 1000 else if remaining > 1 then 100 else 20)"

definition wait_and_fire_wake :: "bool \<Rightarrow> int \<Rightarrow> EventState \<Rightarrow> timer_task \<Rightarrow> wake" where
  "wait_and_fire_wake shutdown now state tk =
     (if shutdown then Return
      else let remaining = tt_target tk - now
           in if remaining > 0 then Sleep (sleep_time remaining)
              else if terminal state then Return
              else Fire)"

section \<open>The adaptive wait\<close>

datatype wait_result = Due int | Stopped

text \<open>
  The loop of \<open>_wait_and_fire\<close> from time \<open>t\<close>. \<open>clock\<close> is \<open>now_fn\<close>, \<open>shutdown\<close> the time
  the shutdown event is set, if ever, and \<open>late t\<close> how much later than asked the sleep that
  starts at \<open>t\<close> ends.
\<close>

definition is_set :: "int option \<Rightarrow> int \<Rightarrow> bool" where
  "is_set shutdown t = (case shutdown of None \<Rightarrow> False | Some s \<Rightarrow> s \<le> t)"

partial_function (option) wait_loop ::
  "(int \<Rightarrow> int) \<Rightarrow> int option \<Rightarrow> (int \<Rightarrow> int) \<Rightarrow> int \<Rightarrow> int \<Rightarrow> wait_result option" where
  "wait_loop clock shutdown late target t =
     (if is_set shutdown t then Some Stopped
      else if target - clock t \<le> 0 then Some (Due t)
      else if is_set shutdown (t + sleep_time (target - clock t)) then Some Stopped
      else wait_loop clock shutdown late target (t + sleep_time (target - clock t) + late t))"

lemma wait_loop_never_early:
  "wait_loop clock shutdown late target t = Some r \<Longrightarrow>
     (case r of Due u \<Rightarrow> target \<le> clock u \<and> \<not> is_set shutdown u | Stopped \<Rightarrow> True)"
proof (induction arbitrary: t rule: wait_loop.raw_induct [rotated, consumes 1])
  case (1 wl clock shutdown late target t r)
  then show ?case by (auto split: if_splits)
qed

text \<open>On a clock that runs at the rate of real time the wait ends, and it ends within one
  fine sleep (and its delay) of the target.\<close>

definition steady_clock :: "int \<Rightarrow> int \<Rightarrow> int" where
  "steady_clock offset t = (t + offset) div 1000"

lemma sleep_time_pos: "0 < sleep_time r"
  by (simp add: sleep_time_def)

lemma steady_due: "target \<le> steady_clock off t \<longleftrightarrow> 1000 * target \<le> t + off"
  unfolding steady_clock_def by linarith

lemma sleep_no_overshoot:
  assumes "t + off < 1000 * target"
  shows "t + off + sleep_time (target - steady_clock off t) < 1000 * target + 20"
proof -
  define q where "q = steady_clock off t"
  have q: "1000 * q \<le> t + off" "t + off < 1000 * q + 1000"
    unfolding q_def steady_clock_def by linarith+
  show ?thesis unfolding q_def [symmetric] sleep_time_def using q assms by auto
qed

lemma wait_loop_fires:
  assumes late: "\<And>u. 0 \<le> late u \<and> late u \<le> J" and t: "t + off < 1000 * target + 20 + J"
  shows "\<exists>u \<ge> t. wait_loop (steady_clock off) None late target t = Some (Due u)
           \<and> 1000 * target \<le> u + off \<and> u + off < 1000 * target + 20 + J"
  using t
proof (induction "nat (1000 * target - (t + off))" arbitrary: t rule: less_induct)
  case less
  show ?case
  proof (cases "1000 * target \<le> t + off")
    case True
    then have "wait_loop (steady_clock off) None late target t = Some (Due t)"
      by (subst wait_loop.simps) (simp add: is_set_def steady_due)
    with True less.prems show ?thesis by blast
  next
    case False
    define t' where "t' = t + sleep_time (target - steady_clock off t) + late t"
    have step: "wait_loop (steady_clock off) None late target t =
        wait_loop (steady_clock off) None late target t'"
      using False by (subst wait_loop.simps) (simp add: is_set_def steady_due t'_def)
    have adv: "t < t'" using late [of t] sleep_time_pos [of "target - steady_clock off t"] by (simp add: t'_def)
    have "t' + off < 1000 * target + 20 + J"
      using sleep_no_overshoot [of t off target] False late [of t] by (simp add: t'_def)
    then obtain u where "u \<ge> t'" "wait_loop (steady_clock off) None late target t' = Some (Due u)"
        "1000 * target \<le> u + off" "u + off < 1000 * target + 20 + J"
      using less.hyps [of t'] adv False by auto
    with adv step show ?thesis by (intro exI [of _ u]) auto
  qed
qed

section \<open>Laws of the table\<close>

definition wf_timers :: "EventTimerManager \<Rightarrow> bool" where
  "wf_timers m \<longleftrightarrow> wf_dict (tm_tasks m) \<and>
     (\<forall>mr ids. map_of (tm_tasks m) mr = Some ids \<longrightarrow>
        ids \<noteq> [] \<and> (\<forall>i \<in> set ids. i < tm_next m \<and> tt_mrid (tm_heap m i) = mr))"

definition pending_task :: "EventTimerManager \<Rightarrow> nat \<Rightarrow> bool" where
  "pending_task m i \<longleftrightarrow> i < tm_next m \<and> tt_status (tm_heap m i) = Pending"

lemma wf_timers_start: "wf_timers m \<Longrightarrow> wf_timers (start_task tk m)"
  unfolding wf_timers_def start_task_def
  by (auto simp: dget_or_def less_Suc_eq split: option.splits if_splits)
    (metis less_irrefl_nat, metis less_irrefl_nat)?

lemma cancel_task_heap:
  "tm_heap (cancel_task i m) j =
     (if j = i \<and> tt_status (tm_heap m i) = Pending then (tm_heap m i)\<lparr>tt_status := Cancelled\<rparr> else tm_heap m j)"
  "tm_next (cancel_task i m) = tm_next m" "tm_tasks (cancel_task i m) = tm_tasks m"
  by (auto simp: cancel_task_def)

lemma fold_cancel_heap:
  "tm_heap (fold (\<lambda>i. if P i then cancel_task i else id) ids m) j =
     (if j \<in> set ids \<and> P j \<and> tt_status (tm_heap m j) = Pending
      then (tm_heap m j)\<lparr>tt_status := Cancelled\<rparr> else tm_heap m j)"
  "tm_next (fold (\<lambda>i. if P i then cancel_task i else id) ids m) = tm_next m"
  "tm_tasks (fold (\<lambda>i. if P i then cancel_task i else id) ids m) = tm_tasks m"
  by (induction ids arbitrary: m) (auto simp: cancel_task_heap)

lemma cancel_timers_heap:
  "tm_heap (cancel_timers cur mr m) j =
     (if j \<in> set (dget_or (tm_tasks m) mr []) \<and> Some j \<noteq> cur \<and> tt_status (tm_heap m j) = Pending
      then (tm_heap m j)\<lparr>tt_status := Cancelled\<rparr> else tm_heap m j)"
  "tm_next (cancel_timers cur mr m) = tm_next m"
  "tm_tasks (cancel_timers cur mr m) = ddel mr (tm_tasks m)"
  by (simp_all add: cancel_timers_def fold_cancel_heap)

lemma fold_cancel_all: "fold cancel_task ids m = fold (\<lambda>i. if True then cancel_task i else id) ids m"
  by simp

lemma cancel_all_heap:
  "tm_heap (cancel_all_timers m) j =
     (if j \<in> set (concat (map snd (tm_tasks m))) \<and> tt_status (tm_heap m j) = Pending
      then (tm_heap m j)\<lparr>tt_status := Cancelled\<rparr> else tm_heap m j)"
  "tm_next (cancel_all_timers m) = tm_next m" "tm_tasks (cancel_all_timers m) = []"
  unfolding cancel_all_timers_def fold_cancel_all fold_cancel_heap by simp_all

lemma wf_timers_cancel: "wf_timers m \<Longrightarrow> wf_timers (cancel_timers cur mr m)"
  unfolding wf_timers_def cancel_timers_heap by auto

lemma wf_timers_cancel_all: "wf_timers m \<Longrightarrow> wf_timers (cancel_all_timers m)"
  unfolding wf_timers_def cancel_all_heap by simp

lemma has_pending_start: "has_pending mr (start_task tk m) \<longleftrightarrow> mr = tt_mrid tk \<or> has_pending mr m"
  by (simp add: has_pending_def start_task_def)

lemma has_pending_cancel: "has_pending mr (cancel_timers cur mr' m) \<longleftrightarrow> mr \<noteq> mr' \<and> has_pending mr m"
  by (simp add: has_pending_def cancel_timers_heap)

section \<open>Properties\<close>

text \<open>
  C26. A timer never fires early and fires on time: against a steady clock, with a scheduler
  that wakes a sleeper at most \<open>J\<close> milliseconds late, the waiting loop ends, and it ends
  within 20 ms plus that lateness of the target instant, never before it.
\<close>

theorem timer_fires_on_time:
  assumes "\<And>u. 0 \<le> late u \<and> late u \<le> J" "t + off < 1000 * target + 20 + J"
  shows "\<exists>u \<ge> t. wait_loop (steady_clock off) None late target t = Some (Due u)
           \<and> 1000 * target \<le> u + off \<and> u + off < 1000 * target + 20 + J"
  by (rule wait_loop_fires [OF assms])

theorem timer_fires_on_time_witness:
  "\<exists>u \<ge> 0. wait_loop (steady_clock 0) None (\<lambda>_. 3) 40 0 = Some (Due u) \<and> 40000 \<le> u \<and> u < 40025"
  using timer_fires_on_time [of "\<lambda>_. 3" 5 0 0 40] by simp

end
