(* ===== verification/Discovered_State.thy ===== *)
theory Discovered_State
  imports Sep_Model
begin

text \<open>
  \<open>client/state.py\<close>: what discovery found on the server, as the event engine reads it: the
  end devices with their LFDIs, the DER programs with their controls and default, and the
  bidirectional mapping between programs and devices. Resources the engine never looks into
  are kept as their href or as opaque text.
\<close>

section \<open>Containers\<close>

text \<open>\<open>ed_fsa_list_link\<close> is the href of the device's \<open>function_set_assignments_list_link\<close>, and
  \<open>ed_program_list_links\<close> that of \<open>derprogram_list_link\<close> of each entry of its \<open>fsa_list\<close>.\<close>

record EndDeviceState =
  ed_href :: string
  ed_lfdi :: bytes
  ed_fsa_hrefs :: "string list"
  ed_fsa_list_link :: "string option"
  ed_program_list_links :: "string option list"
  ed_subscription_list_href :: "string option"
  ed_fsa_list_subscribable :: bool
  ed_derp_list_subscribable :: bool

text \<open>\<open>dp_controls_link\<close> and \<open>dp_default_link\<close> are the hrefs of the program's
  \<open>dercontrol_list_link\<close> and \<open>default_dercontrol_link\<close>.\<close>

record DerProgramState =
  dp_href :: string
  dp_primacy :: int
  dp_controls_link :: "string option"
  dp_default_link :: "string option"
  default_dercontrol :: "DefaultDercontrol option"
  der_controls :: "Dercontrol1 list"
  der_curves :: "string list"
  discovered_from_fsa_href :: "string option"
  derc_list_subscribable :: bool
  dderc_subscribable :: bool
  der_controls_complete :: bool

text \<open>A \<open>TariffProfile\<close>, by the two fields the tariff processor reads.\<close>

record TariffProfile1 =
  tpf_currency :: raw
  tpf_price_multiplier :: raw

record TariffRateComponentState =
  rc_href :: string
  time_tariff_intervals :: "TimeTariffInterval1 list"
  tti_list_subscribable :: bool
  tti_list_href :: "string option"

record TariffProfileState =
  tps_profile :: TariffProfile1
  tps_href :: string
  tps_primacy :: int
  rate_components :: "TariffRateComponentState list"
  tps_discovered_from_fsa_href :: "string option"

text \<open>A Time resource, by its \<open>currentTime\<close> and \<open>quality\<close>, \<open>None\<close> when it has none.\<close>

record TimeResource =
  tr_current_time :: "int option"
  tr_quality :: "int option"

record DeviceMapping =
  program_to_devices :: "(string, string list) dict"
  device_to_programs :: "(string, string list) dict"

text \<open>A \<open>DeviceCapability\<close>, by the hrefs of the links the client reads.\<close>

record DeviceCapability =
  dc_end_device_list_link :: "string option"
  dc_mirror_usage_point_list_link :: "string option"

record DiscoveredState =
  ds_dcap :: "DeviceCapability option"
  ds_time :: "TimeResource option"
  ds_time_href :: "string option"
  ds_mup_list_href :: "string option"
  ds_self_device :: "string option"
  end_devices :: "(string, EndDeviceState) dict"
  der_programs :: "(string, DerProgramState) dict"
  device_mapping :: DeviceMapping
  poll_rates :: "(string, int option) dict"
  csip_aus_mode :: bool
  pricing_enabled :: bool
  tariff_profiles :: "(string, TariffProfileState) dict"
  fsa_time :: "(string, string \<times> TimeResource) dict"
  fsa_time_hrefs :: "(string, string) dict"
  previous_fsa_hrefs :: "(string, string set) dict"

section \<open>The device mapping\<close>

definition empty_DeviceMapping :: DeviceMapping where
  "empty_DeviceMapping = \<lparr>program_to_devices = [], device_to_programs = []\<rparr>"

definition dm_add :: "string \<Rightarrow> string \<Rightarrow> DeviceMapping \<Rightarrow> DeviceMapping" where
  "dm_add program_href device_href m =
     (let programs = dget_or (device_to_programs m) device_href [];
          m1 = m\<lparr>device_to_programs := (if dhas (device_to_programs m) device_href
                   then device_to_programs m else dset device_href [] (device_to_programs m))\<rparr>
      in if program_href \<in> set programs then m1
         else m1\<lparr>device_to_programs := dset device_href (programs @ [program_href]) (device_to_programs m1),
                 program_to_devices := dset program_href
                   (dget_or (program_to_devices m) program_href [] @ [device_href])
                   (program_to_devices m)\<rparr>)"

text \<open>\<open>progs.remove(program_href)\<close> removes the first occurrence; its \<open>ValueError\<close> when there
  is none is suppressed.\<close>

definition dm_remove_program :: "string \<Rightarrow> DeviceMapping \<Rightarrow> DeviceMapping" where
  "dm_remove_program program_href m =
     (let devices = dget_or (program_to_devices m) program_href []
      in \<lparr>program_to_devices = ddel program_href (program_to_devices m),
          device_to_programs = fold (\<lambda>d t. case map_of t d of
              None \<Rightarrow> t
            | Some progs \<Rightarrow> dset d (remove1 program_href progs) t) devices (device_to_programs m)\<rparr>)"

section \<open>The version cache\<close>

type_synonym ResourceVersionCache = "(string, bytes \<times> int) dict"

definition is_unchanged :: "string \<Rightarrow> bytes \<Rightarrow> int \<Rightarrow> ResourceVersionCache \<Rightarrow> bool \<times> ResourceVersionCache" where
  "is_unchanged path mr version c =
     (case map_of c path of
        Some cached \<Rightarrow>
          if cached = (mr, version) then (True, c) else (False, dset path (mr, version) c)
      | None \<Rightarrow> (False, dset path (mr, version) c))"

section \<open>Operations of the discovered state\<close>

definition clear_state :: "DiscoveredState \<Rightarrow> DiscoveredState" where
  "clear_state s =
     s\<lparr>ds_dcap := None, ds_time := None, ds_time_href := None, ds_mup_list_href := None,
       ds_self_device := None, end_devices := [], der_programs := [], tariff_profiles := [],
       device_mapping := empty_DeviceMapping, poll_rates := [], csip_aus_mode := False,
       fsa_time := [], fsa_time_hrefs := [], previous_fsa_hrefs := []\<rparr>"

definition programs_from_fsa :: "string \<Rightarrow> DiscoveredState \<Rightarrow> string list" where
  "programs_from_fsa fsa_href s =
     map fst (filter (\<lambda>(_, ps). discovered_from_fsa_href ps = Some fsa_href) (der_programs s))"

definition get_fsa_time_for_program :: "string \<Rightarrow> DiscoveredState \<Rightarrow> TimeResource option" where
  "get_fsa_time_for_program program_href s =
     (case map_of (der_programs s) program_href of
        None \<Rightarrow> None
      | Some ps \<Rightarrow>
          (case discovered_from_fsa_href ps of
             None \<Rightarrow> None
           | Some fsa \<Rightarrow> map_option snd (map_of (fsa_time s) fsa)))"

definition link_is :: "string option \<Rightarrow> string \<Rightarrow> bool" where
  "link_is link href = (case link of None \<Rightarrow> False | Some l \<Rightarrow> l \<noteq> [] \<and> l = href)"

definition find_program_for_resource :: "string \<Rightarrow> DiscoveredState \<Rightarrow> string option" where
  "find_program_for_resource resource_href s =
     map_option fst (find (\<lambda>(_, ps). link_is (dp_controls_link ps) resource_href
                                  \<or> link_is (dp_default_link ps) resource_href) (der_programs s))"

section \<open>The mapping stays bidirectional\<close>

definition pairs :: "(string, string list) dict \<Rightarrow> string \<Rightarrow> string list" where
  "pairs d k = dget_or d k []"

definition wf_mapping :: "DeviceMapping \<Rightarrow> bool" where
  "wf_mapping m \<longleftrightarrow>
     wf_dict (program_to_devices m) \<and> wf_dict (device_to_programs m) \<and>
     (\<forall>p. distinct (pairs (program_to_devices m) p)) \<and>
     (\<forall>d. distinct (pairs (device_to_programs m) d)) \<and>
     (\<forall>p d. d \<in> set (pairs (program_to_devices m) p) \<longleftrightarrow> p \<in> set (pairs (device_to_programs m) d))"

lemma pairs_dset: "pairs (dset k v d) k' = (if k' = k then v else pairs d k')"
  by (simp add: pairs_def dict_simps)

lemma wf_mapping_empty [simp]: "wf_mapping empty_DeviceMapping"
  by (simp add: wf_mapping_def empty_DeviceMapping_def pairs_def dget_or_def)

lemma dm_add_pairs:
  "pairs (device_to_programs (dm_add p d m)) d' =
     (if d' = d \<and> p \<notin> set (pairs (device_to_programs m) d)
      then pairs (device_to_programs m) d @ [p] else pairs (device_to_programs m) d')"
  "pairs (program_to_devices (dm_add p d m)) p' =
     (if p' = p \<and> p \<notin> set (pairs (device_to_programs m) d)
      then pairs (program_to_devices m) p @ [d] else pairs (program_to_devices m) p')"
  by (auto simp: dm_add_def Let_def pairs_dset) (auto simp: pairs_def dget_or_def dhas_def split: option.splits)

lemma wf_mapping_add: "wf_mapping m \<Longrightarrow> wf_mapping (dm_add p d m)"
  unfolding wf_mapping_def dm_add_pairs by (auto simp: dm_add_def Let_def)

lemma fold_remove_pairs:
  "distinct ds \<Longrightarrow>
   pairs (fold (\<lambda>d t. case map_of t d of None \<Rightarrow> t | Some progs \<Rightarrow> dset d (remove1 p progs) t) ds t) d' =
     (if d' \<in> set ds then remove1 p (pairs t d') else pairs t d')"
proof (induction ds arbitrary: t)
  case (Cons d ds)
  then show ?case by (cases "map_of t d") (auto simp: pairs_dset, auto simp: pairs_def dget_or_def)
qed simp

lemma wf_fold_remove:
  "wf_dict t \<Longrightarrow>
   wf_dict (fold (\<lambda>d t. case map_of t d of None \<Rightarrow> t | Some progs \<Rightarrow> dset d (remove1 p progs) t) ds t)"
  by (induction ds arbitrary: t) (auto split: option.splits)

lemma dm_remove_pairs:
  assumes "wf_mapping m"
  shows "pairs (program_to_devices (dm_remove_program p m)) p' =
           (if p' = p then [] else pairs (program_to_devices m) p')"
    and "set (pairs (device_to_programs (dm_remove_program p m)) d) =
           set (pairs (device_to_programs m) d) - {p}"
    and "distinct (pairs (device_to_programs (dm_remove_program p m)) d)"
proof -
  have dist: "distinct (pairs (program_to_devices m) p)" "distinct (pairs (device_to_programs m) d)"
    and sym: "d \<in> set (pairs (program_to_devices m) p) \<longleftrightarrow> p \<in> set (pairs (device_to_programs m) d)"
    using assms by (auto simp: wf_mapping_def)
  have d2p: "pairs (device_to_programs (dm_remove_program p m)) d =
      (if d \<in> set (pairs (program_to_devices m) p) then remove1 p (pairs (device_to_programs m) d)
       else pairs (device_to_programs m) d)"
    using fold_remove_pairs [OF dist(1), of p "device_to_programs m" d]
    by (simp add: dm_remove_program_def Let_def pairs_def [of "program_to_devices m"])
  show "pairs (program_to_devices (dm_remove_program p m)) p' =
           (if p' = p then [] else pairs (program_to_devices m) p')"
    by (simp add: dm_remove_program_def Let_def pairs_def dict_simps)
  show "set (pairs (device_to_programs (dm_remove_program p m)) d) =
           set (pairs (device_to_programs m) d) - {p}"
    using dist sym unfolding d2p by (auto simp: set_remove1_eq)
  show "distinct (pairs (device_to_programs (dm_remove_program p m)) d)"
    using dist unfolding d2p by simp
qed

lemma wf_mapping_remove: "wf_mapping m \<Longrightarrow> wf_mapping (dm_remove_program p m)"
proof -
  assume wf: "wf_mapping m"
  have "wf_dict (program_to_devices (dm_remove_program p m))"
    "wf_dict (device_to_programs (dm_remove_program p m))"
    using wf by (auto simp: wf_mapping_def dm_remove_program_def Let_def intro: wf_fold_remove)
  then show ?thesis
    using wf unfolding wf_mapping_def by (auto simp: dm_remove_pairs [OF wf])
qed

lemma find_program_sound:
  "find_program_for_resource href s = Some p \<Longrightarrow>
     \<exists>ps. (p, ps) \<in> set (der_programs s) \<and>
       (dp_controls_link ps = Some href \<or> dp_default_link ps = Some href)"
  by (auto simp: find_program_for_resource_def find_Some_iff link_is_def split: option.splits)
    (metis nth_mem)+

section \<open>Properties\<close>

text \<open>
  The two directions of the device mapping always agree, without duplicates, after any
  sequence of additions and removals of programs.
\<close>

theorem mapping_stays_symmetric:
  "wf_mapping m \<Longrightarrow> wf_mapping (dm_add p d m) \<and> wf_mapping (dm_remove_program p m)"
  by (simp add: wf_mapping_add wf_mapping_remove)

theorem mapping_stays_symmetric_witness:
  "wf_mapping (dm_remove_program ''/p'' (dm_add ''/p'' ''/d'' empty_DeviceMapping))"
  using mapping_stays_symmetric [OF wf_mapping_add [OF wf_mapping_empty]] by blast

end
