(* ===== verification/Processor_State.thy ===== *)
theory Processor_State
  imports Response Randomization Trackers Supersession Timers Discovered_State
begin

text \<open>
  \<open>events/processor.py\<close>, first part: the state of \<open>EventProcessor\<close>, its environment, what
  it can do to the outside, and the helpers that only read state, relay a notification or
  write an audit record.

  The environment \<open>env\<close> is what the processor is configured with or cannot influence: the
  clocks, the network, the connectors, the random source, the iteration orders. Everything
  that happens at an await is indexed by a counter (\<open>p_tick\<close>) that each await advances, so
  every call may have a different outcome and every theorem holds for all of them. A handler
  runs without another handler interleaving, except that the processor may be shut down at
  any await (\<open>env_close\<close>).
\<close>

section \<open>Effects\<close>

datatype target = ByHref string | ByLfdi string

datatype CommandOrigin = ORIGIN_IEEE2030_5 | ORIGIN_DDERC_REAPPLY | ORIGIN_COMMS_LOSS | ORIGIN_EVENT_END

text \<open>\<open>value * 10**multiplier\<close>: an int, or the fraction \<open>value / 10^k\<close> when it is not whole.\<close>

datatype watts = WInt int | WFraction int nat

type_synonym doe_envelope = "(string, int \<times> int \<times> watts) dict"

datatype notification_payload =
    PControl Dercontrol1
  | PDoe doe_envelope
  | PDefault DefaultDercontrol

record ScheduleNotification =
  n_stream :: string
  n_transition :: string
  n_status :: "string option"
  n_current_status :: "int option"
  n_mrid :: string
  n_program_href :: string
  n_primacy :: int
  n_start :: "int option"
  n_duration :: "int option"
  n_end :: "int option"
  n_affected_lfdis :: "string list"
  n_randomization :: "int option \<times> int option"
  n_payload :: notification_payload

datatype audit_details =
    NoDetails
  | Outcomes "string list" "string list"
  | SupersededBy bytes
  | PartlySuperseded bytes "string list" "(string \<times> string list) list"

record audit_record =
  au_mrid :: bytes
  au_program_href :: string
  au_from_state :: "string option"
  au_to_state :: string
  au_start :: int
  au_duration :: int
  au_primacy :: int
  au_lfdis :: "string list"
  au_at :: int
  au_control :: "Dercontrol1 option"
  au_details :: audit_details

datatype effect =
    Posted response_body bool
  | ApplyControl target bytes "string list" "dispatch_exn option"
  | ApplyDefault target DefaultDercontrol "string list" CommandOrigin "bytes option" "dispatch_exn option"
  | DisableModes target "string set" bytes
  | ClearControl target bytes
  | Relayed "string list" ScheduleNotification
  | Audited audit_record
  | LateDispatch bytes string "dispatch_exn option"

section \<open>Environment and state\<close>

record env =
  env_now :: "string option \<Rightarrow> nat \<Rightarrow> int"
  env_local_now :: "nat \<Rightarrow> int"
  env_post :: "nat \<Rightarrow> string option"
  env_dispatch :: "nat \<Rightarrow> dispatch_exn option"
  env_close :: "nat \<Rightarrow> bool"
  env_order :: "string set \<Rightarrow> string list"
  env_sched :: "nat \<Rightarrow> string list \<Rightarrow> string list"
  env_rnd :: random_source
  env_group_lookup :: "(string \<Rightarrow> string list option) option"
  env_takes_controls :: "(string \<Rightarrow> bool) option"
  env_supported_modes2 :: "(string \<Rightarrow> nat option) option"
  env_profile :: ServerProfile
  env_s2018 :: schema
  env_s2023 :: schema
  env_audit_enabled :: bool
  env_audit_history :: bool
  env_wire_name :: "string \<Rightarrow> string"
  env_json :: "dercontrol_base \<Rightarrow> string"

text \<open>The rendering of the control base in a content signature: JSON text of a control base, or
  the sorted envelope of a \<open>doe\<close> notification.\<close>

datatype signature_body = SigBase string | SigDoe "(string \<times> int \<times> int \<times> watts) list"

type_synonym content_signature =
  "string \<times> string option \<times> int option \<times> int option \<times> string list \<times> (int option \<times> int option) \<times> signature_body"

record proc =
  p_state :: DiscoveredState
  p_store :: EventStore
  p_rand :: RandomizationCache
  p_tracker :: ResponseTracker
  p_dderc :: DdercTracker
  p_timers :: EventTimerManager
  p_modes :: ActiveModeTracker
  p_closed :: bool
  p_snapshots :: "(string \<times> string, content_signature) dict"
  p_unstored_seen :: "(bytes, string) dict"
  p_comms_active :: bool
  p_resume_after :: "int option"
  p_late :: "(nat \<times> string) list"
  p_tick :: nat
  p_trace :: "effect list"

definition emit :: "effect \<Rightarrow> proc \<Rightarrow> proc" where
  "emit e s = s\<lparr>p_trace := p_trace s @ [e]\<rparr>"

definition record_of :: "proc \<Rightarrow> nat \<Rightarrow> EventRecord" where
  "record_of s a = es_heap (p_store s) a"

definition upd_rec :: "nat \<Rightarrow> (EventRecord \<Rightarrow> EventRecord) \<Rightarrow> proc \<Rightarrow> proc" where
  "upd_rec a f s = s\<lparr>p_store := upd_record a f (p_store s)\<rparr>"

text \<open>\<open>shutdown()\<close>: closed, every timer cancelled, dispatches still running cancelled.\<close>

definition shutdown :: "proc \<Rightarrow> proc" where
  "shutdown s = s\<lparr>p_closed := True, p_timers := cancel_all_timers (p_timers s), p_late := []\<rparr>"

text \<open>An await: time goes on, and a shutdown may come in. The handler then goes on under the closed flag,
  as a poll does in the code; a timer callback, whose task \<open>cancel_all\<close> cancels, would end at this await
  (the result \<open>PostCancelled\<close> of a POST is not produced). What is shown of callbacks under a
  shutdown is therefore shown of a longer run of them.\<close>

definition await_point :: "env \<Rightarrow> proc \<Rightarrow> proc" where
  "await_point env s =
     (let s1 = s\<lparr>p_tick := Suc (p_tick s)\<rparr> in if env_close env (p_tick s) then shutdown s1 else s1)"

section \<open>Reading the discovered state\<close>

definition program_devices_list :: "proc \<Rightarrow> string \<Rightarrow> string list" where
  "program_devices_list s prog = dget_or (program_to_devices (device_mapping (p_state s))) prog []"

definition unique_devices :: "proc \<Rightarrow> string \<Rightarrow> string list" where
  "unique_devices s prog = dict_fromkeys (program_devices_list s prog)"

definition get_device_lfdi :: "proc \<Rightarrow> string \<Rightarrow> bytes option" where
  "get_device_lfdi s dev = map_option ed_lfdi (map_of (end_devices (p_state s)) dev)"

definition get_any_lfdi :: "proc \<Rightarrow> bytes option" where
  "get_any_lfdi s = (case end_devices (p_state s) of [] \<Rightarrow> None | (_, e) # _ \<Rightarrow> Some (ed_lfdi e))"

definition fsa_scope :: "proc \<Rightarrow> string \<Rightarrow> string option" where
  "fsa_scope s prog =
     (case map_of (der_programs (p_state s)) prog of None \<Rightarrow> None | Some ps \<Rightarrow> discovered_from_fsa_href ps)"

definition build_program_device_map :: "proc \<Rightarrow> program_devices" where
  "build_program_device_map s = map (\<lambda>(p, ds). (p, set ds)) (program_to_devices (device_mapping (p_state s)))"

definition now_of :: "env \<Rightarrow> string option \<Rightarrow> proc \<Rightarrow> int" where
  "now_of env scope s = env_now env scope (p_tick s)"

definition now_fn_for :: "proc \<Rightarrow> string \<Rightarrow> clock_ref" where
  "now_fn_for s prog = ServerClock (fsa_scope s prog)"

definition group_local_lfdis :: "env \<Rightarrow> string \<Rightarrow> string list option" where
  "group_local_lfdis env prog =
     (case env_group_lookup env of
        None \<Rightarrow> None
      | Some lookup \<Rightarrow>
          (case lookup prog of
             None \<Rightarrow> None
           | Some lfdis \<Rightarrow>
               if lfdis = [] then None
               else case env_takes_controls env of
                      None \<Rightarrow> Some lfdis
                    | Some takes \<Rightarrow> Some (filter takes lfdis)))"

definition affected_lfdis_for_program :: "env \<Rightarrow> proc \<Rightarrow> string \<Rightarrow> string set \<Rightarrow> string list" where
  "affected_lfdis_for_program env s prog exclude =
     (case group_local_lfdis env prog of
        Some local \<Rightarrow> local
      | None \<Rightarrow>
          map hex (List.map_filter (get_device_lfdi s)
            (filter (\<lambda>d. d \<notin> exclude) (program_devices_list s prog))))"

definition lfdi_or_href :: "proc \<Rightarrow> string \<Rightarrow> string" where
  "lfdi_or_href s dev = (case get_device_lfdi s dev of Some l \<Rightarrow> hex l | None \<Rightarrow> dev)"

definition lfdis_for_hrefs :: "env \<Rightarrow> proc \<Rightarrow> string set \<Rightarrow> string list" where
  "lfdis_for_hrefs env s hrefs = map (lfdi_or_href s) (iter_set (env_order env) hrefs)"

definition supported_modes2 :: "env \<Rightarrow> bytes \<Rightarrow> nat option" where
  "supported_modes2 env lfdi =
     (if \<not> sends_modes_responded2 (env_s2018 env) (env_s2023 env) (env_profile env) then None
      else case env_supported_modes2 env of None \<Rightarrow> None | Some f \<Rightarrow> f (hex lfdi))"

definition is_server_cancelled :: "Dercontrol1 \<Rightarrow> bool" where
  "is_server_cancelled d = (case event_status d of None \<Rightarrow> False | Some es \<Rightarrow> current_status es = 2)"

definition find_successive_predecessor :: "proc \<Rightarrow> string \<Rightarrow> int \<Rightarrow> nat option" where
  "find_successive_predecessor s prog raw_start =
     find (\<lambda>a. let r = record_of s a
               in ev_program_href r = prog
                \<and> interval_start (ev_derc r) + interval_duration (ev_derc r) = raw_start)
       (all_active_states (p_store s))"

definition cancellation_wind_down :: "EventRecord \<Rightarrow> int" where
  "cancellation_wind_down r =
     (let rs = (case randomize_start (ev_derc r) of None \<Rightarrow> 0 | Some v \<Rightarrow> \<bar>v\<bar>);
          rd = (case randomize_duration (ev_derc r) of None \<Rightarrow> 0 | Some v \<Rightarrow> \<bar>v\<bar>)
      in max rs rd)"

section \<open>Relaying notifications\<close>

definition resolve_watts :: "int \<Rightarrow> int \<Rightarrow> watts" where
  "resolve_watts value mul =
     (if mul \<ge> 0 then WInt (value * 10 ^ nat mul)
      else let d = 10 ^ nat (- mul)
           in if d dvd value then WInt (value div d) else WFraction value (nat (- mul)))"

definition extract_doe_envelope :: "dercontrol_base \<Rightarrow> doe_envelope" where
  "extract_doe_envelope base = map (\<lambda>(n, v, m). (n, v, m, resolve_watts v m)) (doe_limits base)"

definition signature_body_of :: "env \<Rightarrow> notification_payload \<Rightarrow> signature_body" where
  "signature_body_of env p =
     (case p of
        PControl d \<Rightarrow> SigBase (env_json env (derc_base d))
      | PDefault d \<Rightarrow> SigBase (env_json env (dderc_base d))
      | PDoe e \<Rightarrow> SigDoe (sort_key fst e))"

definition content_sig :: "env \<Rightarrow> ScheduleNotification \<Rightarrow> content_signature" where
  "content_sig env n =
     (n_mrid n, n_status n, n_start n, n_duration n, sort (n_affected_lfdis n), n_randomization n,
      signature_body_of env (n_payload n))"

definition emit_relay ::
  "env \<Rightarrow> ScheduleNotification \<Rightarrow> bool \<Rightarrow> (string \<times> string) option \<Rightarrow> proc \<Rightarrow> proc" where
  "emit_relay env n dedup dedup_key s =
     (let sig = content_sig env n;
          key = (case dedup_key of Some k \<Rightarrow> k | None \<Rightarrow> (n_stream n, n_mrid n))
      in if dedup \<and> map_of (p_snapshots s) key = Some sig then s
         else emit (Relayed (n_affected_lfdis n) n) (s\<lparr>p_snapshots := dset key sig (p_snapshots s)\<rparr>))"

definition control_notification :: "env \<Rightarrow> proc \<Rightarrow> EventRecord \<Rightarrow> string \<Rightarrow> ScheduleNotification" where
  "control_notification env s r trans_name =
     \<lparr>n_stream = ''control'', n_transition = trans_name, n_status = Some (state_value (ev_state r)),
      n_current_status = map_option current_status (event_status (ev_derc r)),
      n_mrid = hex (ev_mrid r), n_program_href = ev_program_href r, n_primacy = ev_primacy r,
      n_start = Some (ev_start r), n_duration = Some (ev_duration r), n_end = Some (ev_end r),
      n_affected_lfdis = affected_lfdis_for_program env s (ev_program_href r) (ev_superseded_devices r),
      n_randomization = (randomize_start (ev_derc r), randomize_duration (ev_derc r)),
      n_payload = PControl (ev_derc r)\<rparr>"

definition relay_control_event :: "env \<Rightarrow> nat \<Rightarrow> string \<Rightarrow> proc \<Rightarrow> proc" where
  "relay_control_event env a trans_name s =
     (let r = record_of s a;
          notification = control_notification env s r trans_name;
          dedup = (trans_name = ''updated'');
          s1 = emit_relay env notification dedup None s;
          envelope = extract_doe_envelope (derc_base (ev_derc r))
      in if envelope = [] then s1
         else emit_relay env (notification\<lparr>n_stream := ''doe'', n_payload := PDoe envelope\<rparr>) dedup None s1)"

definition relay_default_baseline :: "env \<Rightarrow> string \<Rightarrow> DerProgramState \<Rightarrow> proc \<Rightarrow> proc" where
  "relay_default_baseline env prog derp s =
     (case default_dercontrol derp of
        None \<Rightarrow> s
      | Some dderc \<Rightarrow>
          let key = (''default_baseline'', prog);
              trans_name = (if dhas (p_snapshots s) key then ''default_updated'' else ''default_added'')
          in emit_relay env
               \<lparr>n_stream = ''default_baseline'', n_transition = trans_name, n_status = None,
                n_current_status = None, n_mrid = hex (dderc_mrid dderc), n_program_href = prog,
                n_primacy = dp_primacy derp, n_start = None, n_duration = None, n_end = None,
                n_affected_lfdis = affected_lfdis_for_program env s prog {},
                n_randomization = (None, None), n_payload = PDefault dderc\<rparr>
               True (Some key) s)"

section \<open>The audit trail\<close>

text \<open>\<open>details\<close> is evaluated where the record is built. Building it cannot fail here, so the
  handler for a failing build has no counterpart.\<close>

definition audit_transition_rec ::
  "env \<Rightarrow> EventRecord \<Rightarrow> string option \<Rightarrow> string \<Rightarrow> audit_details \<Rightarrow> proc \<Rightarrow> proc" where
  "audit_transition_rec env r from_state to_state details s =
     (if \<not> env_audit_enabled env then s
      else let from_state' = (if ev_opted_out r \<and> to_state \<noteq> ''opted_out'' then Some ''opted_out'' else from_state)
           in emit (Audited
                \<lparr>au_mrid = ev_mrid r, au_program_href = ev_program_href r, au_from_state = from_state',
                 au_to_state = to_state, au_start = ev_start r, au_duration = ev_duration r,
                 au_primacy = ev_primacy r,
                 au_lfdis = affected_lfdis_for_program env s (ev_program_href r) {},
                 au_at = now_of env (fsa_scope s (ev_program_href r)) s,
                 au_control = (if from_state' = None \<and> env_audit_history env then Some (ev_derc r) else None),
                 au_details = details\<rparr>) s)"

definition audit_transition ::
  "env \<Rightarrow> nat \<Rightarrow> string option \<Rightarrow> string \<Rightarrow> audit_details \<Rightarrow> proc \<Rightarrow> proc" where
  "audit_transition env a from_state to_state details s =
     audit_transition_rec env (record_of s a) from_state to_state details s"

definition activation_outcomes :: "env \<Rightarrow> proc \<Rightarrow> EventRecord \<Rightarrow> audit_details" where
  "activation_outcomes env s r =
     (if ev_applied_local r \<noteq> {} \<or> ev_rejected_local r \<noteq> {}
      then Outcomes (iter_set (env_order env) (ev_applied_local r)) (iter_set (env_order env) (ev_rejected_local r))
      else Outcomes (lfdis_for_hrefs env s (ev_applied_devices r)) (lfdis_for_hrefs env s (ev_rejected_devices r)))"

definition audit_activation :: "env \<Rightarrow> nat \<Rightarrow> string option \<Rightarrow> proc \<Rightarrow> proc" where
  "audit_activation env a from_state s =
     audit_transition env a from_state ''active'' (activation_outcomes env s (record_of s a)) s"

definition wire_mode_names :: "env \<Rightarrow> string set \<Rightarrow> string list" where
  "wire_mode_names env modes = sort (map (env_wire_name env) (iter_set (env_order env) modes))"

definition audit_supersession :: "env \<Rightarrow> proc \<Rightarrow> EventRecord \<Rightarrow> bytes \<Rightarrow> bool \<Rightarrow> audit_details" where
  "audit_supersession env s r superseded_by part =
     (if \<not> part then SupersededBy superseded_by
      else case group_local_lfdis env (ev_program_href r) of
             None \<Rightarrow>
               PartlySuperseded superseded_by (lfdis_for_hrefs env s (ev_superseded_devices r))
                 (map (\<lambda>(dev, modes). (lfdi_or_href s dev, wire_mode_names env modes)) (ev_superseded_modes r))
           | Some local \<Rightarrow>
               let modes = \<Union> (set (map snd (ev_superseded_modes r)))
               in PartlySuperseded superseded_by local
                    (if modes = {} then [] else map (\<lambda>l. (l, wire_mode_names env modes)) local))"

definition audit_unstored ::
  "env \<Rightarrow> Dercontrol1 \<Rightarrow> string \<Rightarrow> int \<Rightarrow> int \<Rightarrow> int \<Rightarrow> string \<Rightarrow> proc \<Rightarrow> proc" where
  "audit_unstored env derc prog primacy start duration to_state s =
     (if \<not> env_audit_enabled env then s
      else if dhas (p_unstored_seen s) (m_rid derc) then s
      else audit_transition_rec env
             (new_EventRecord (m_rid derc) derc prog primacy CANCELLED start duration 0 0)
             None to_state NoDetails
             (s\<lparr>p_unstored_seen := dset (m_rid derc) prog (p_unstored_seen s)\<rparr>))"

definition forget_unstored_no_longer_served :: "string \<Rightarrow> proc \<Rightarrow> proc" where
  "forget_unstored_no_longer_served prog s =
     (case map_of (der_programs (p_state s)) prog of
        None \<Rightarrow> s
      | Some derp \<Rightarrow>
          if \<not> der_controls_complete derp then s
          else s\<lparr>p_unstored_seen := filter (\<lambda>(mr, p). \<not> (p = prog \<and> mr \<notin> set (map m_rid (der_controls derp))))
                   (p_unstored_seen s)\<rparr>)"

text \<open>\<open>_log_late_dispatch\<close>: a dispatch that outran the ceiling has finished.\<close>

definition log_late_dispatch :: "env \<Rightarrow> nat \<Rightarrow> string \<Rightarrow> dispatch_exn option \<Rightarrow> proc \<Rightarrow> proc" where
  "log_late_dispatch env a label exc s =
     (let s1 = s\<lparr>p_late := remove1 (a, label) (p_late s)\<rparr>
      in if env_audit_enabled env
         then emit (LateDispatch (ev_mrid (record_of s a)) (lfdi_or_href s label) exc) s1 else s1)"

end
