(* ===== verification/Processor.thy ===== *)
theory Processor
  imports Processor_State
begin

text \<open>
  \<open>events/processor.py\<close>, second part: the handlers of \<open>EventProcessor\<close>, in terms of the
  address \<open>a\<close> of the record they work on. \<open>cur\<close> is the timer task a handler runs in, if it
  is a timer callback. A handler that raises (\<open>KeyError\<close> of \<open>transition\<close>) stops there.
\<close>

section \<open>Posting responses\<close>

definition post_one :: "env \<Rightarrow> Dercontrol1 \<Rightarrow> ResponseCode \<Rightarrow> bytes \<Rightarrow> proc \<Rightarrow> proc" where
  "post_one env derc code lfdi s =
     (let outcome = (case env_post env (p_tick s) of None \<Rightarrow> PostOk | Some err \<Rightarrow> PostFailed err);
          (t, body) = post_der_response (env_s2018 env) (env_s2023 env) (env_profile env) derc code lfdi
                        (now_of env None s) (supported_modes2 env lfdi) outcome (p_tracker s);
          s1 = s\<lparr>p_tracker := t\<rparr>
      in await_point env (case body of None \<Rightarrow> s1 | Some b \<Rightarrow> emit (Posted b (outcome = PostOk)) s1))"

definition post_device :: "env \<Rightarrow> Dercontrol1 \<Rightarrow> ResponseCode \<Rightarrow> string \<Rightarrow> proc \<Rightarrow> proc" where
  "post_device env derc code dev s =
     (case get_device_lfdi s dev of None \<Rightarrow> s | Some lfdi \<Rightarrow> post_one env derc code lfdi s)"

text \<open>An absent and an empty exclusion set are alike to the code.\<close>

definition post_response :: "env \<Rightarrow> Dercontrol1 \<Rightarrow> ResponseCode \<Rightarrow> string \<Rightarrow> string set \<Rightarrow> proc \<Rightarrow> proc" where
  "post_response env derc code prog exclude s =
     (let devices = (if prog = [] then [] else program_devices_list s prog)
      in if devices = []
         then (if exclude \<noteq> {} then s
               else case get_any_lfdi s of None \<Rightarrow> s | Some lfdi \<Rightarrow> post_one env derc code lfdi s)
         else fold (\<lambda>dev s. if dev \<in> exclude then s else post_device env derc code dev s) devices s)"

definition post_response_for_devices ::
  "env \<Rightarrow> Dercontrol1 \<Rightarrow> ResponseCode \<Rightarrow> string set \<Rightarrow> proc \<Rightarrow> proc" where
  "post_response_for_devices env derc code devs s =
     fold (post_device env derc code) (iter_set (env_order env) devs) s"

definition post_started_device_lifecycle :: "env \<Rightarrow> nat \<Rightarrow> ResponseCode \<Rightarrow> proc \<Rightarrow> proc" where
  "post_started_device_lifecycle env a code s =
     (let r = record_of s a
      in if ev_applied_devices r = {} \<and> ev_rejected_devices r = {}
         then post_response env (ev_derc r) code (ev_program_href r) (ev_superseded_devices r) s
         else let audience = ev_applied_devices r - ev_superseded_devices r
              in if audience = {} then s else post_response_for_devices env (ev_derc r) code audience s)"

section \<open>Dispatching a control\<close>

text \<open>One awaited write to a device, with the outcome the environment gives it.\<close>

definition dispatch_write ::
  "env \<Rightarrow> (dispatch_exn option \<Rightarrow> effect) \<Rightarrow> proc \<Rightarrow> dispatch_exn option \<times> proc" where
  "dispatch_write env mk s =
     (let outcome = env_dispatch env (p_tick s) in (outcome, await_point env (emit (mk outcome) s)))"

text \<open>\<open>asyncio.gather\<close> over writes: the results come back in the order of the arguments.\<close>

fun gather_writes ::
  "env \<Rightarrow> (dispatch_exn option \<Rightarrow> effect) list \<Rightarrow> proc \<Rightarrow> dispatch_exn option list \<times> proc" where
  "gather_writes env [] s = ([], s)"
| "gather_writes env (w # ws) s =
     (let (r, s1) = dispatch_write env w s; (rs, s2) = gather_writes env ws s1 in (r # rs, s2))"

text \<open>\<open>_dispatch_one\<close>: a write that outran the ceiling stays running and is remembered.\<close>

definition dispatch_one :: "env \<Rightarrow> nat \<Rightarrow> target \<Rightarrow> string list \<Rightarrow> proc \<Rightarrow> dispatch_exn option \<times> proc" where
  "dispatch_one env a tgt curves s =
     (let label = (case tgt of ByHref h \<Rightarrow> h | ByLfdi l \<Rightarrow> l);
          outcome = env_dispatch env (p_tick s);
          s1 = (if outcome = Some TimeoutError then s\<lparr>p_late := p_late s @ [(a, label)]\<rparr> else s)
      in (outcome, await_point env (emit (ApplyControl tgt (ev_mrid (record_of s a)) curves outcome) s1)))"

definition respond :: "env \<Rightarrow> nat \<Rightarrow> string \<Rightarrow> dispatch_exn option \<Rightarrow> proc \<Rightarrow> proc" where
  "respond env a dev failure s =
     (case failure of
        None \<Rightarrow>
          let s1 = upd_rec a (\<lambda>r. r\<lparr>ev_applied_devices := insert dev (ev_applied_devices r)\<rparr>) s
          in post_response_for_devices env (ev_derc (record_of s1 a)) RC_ACTIVE {dev} s1
      | Some exc \<Rightarrow>
          let s1 = upd_rec a (\<lambda>r. r\<lparr>ev_rejected_devices := insert dev (ev_rejected_devices r)\<rparr>) s;
              s2 = s1\<lparr>p_modes := snd (amt_unregister dev (ev_mrid (record_of s1 a)) (p_modes s1))\<rparr>
          in post_response_for_devices env (ev_derc (record_of s2 a))
               (response_code_for_dispatch_error exc) {dev} s2)"

fun dispatch_and_report ::
  "env \<Rightarrow> nat \<Rightarrow> string list \<Rightarrow> string list \<Rightarrow> proc \<Rightarrow> (string, dispatch_exn option) dict \<times> proc" where
  "dispatch_and_report env a curves [] s = ([], s)"
| "dispatch_and_report env a curves (dev # devs) s =
     (let (failure, s1) = dispatch_one env a (ByHref dev) curves s;
          (rest, s2) = dispatch_and_report env a curves devs (respond env a dev failure s1)
      in ((dev, failure) # rest, s2))"

fun dispatch_group :: "env \<Rightarrow> nat \<Rightarrow> string list \<Rightarrow> string list \<Rightarrow> proc \<Rightarrow> dispatch_exn option list \<times> proc" where
  "dispatch_group env a curves [] s = ([], s)"
| "dispatch_group env a curves (l # ls) s =
     (let (failure, s1) = dispatch_one env a (ByLfdi l) curves s;
          (rest, s2) = dispatch_group env a curves ls s1
      in (failure # rest, s2))"

definition aggregate_failure :: "string list \<Rightarrow> dispatch_exn option list \<Rightarrow> dispatch_exn option" where
  "aggregate_failure local_lfdis failures =
     (let failed = filter (\<lambda>f. f \<noteq> None) failures
      in if local_lfdis = [] then Some DeviceNotConfiguredError
         else if failed \<noteq> [] \<and> length failed = length failures then hd failed else None)"

definition add_local :: "string \<Rightarrow> dispatch_exn option \<Rightarrow> EventRecord \<Rightarrow> EventRecord" where
  "add_local l failure r =
     (if failure = None then r\<lparr>ev_applied_local := insert l (ev_applied_local r)\<rparr>
      else r\<lparr>ev_rejected_local := insert l (ev_rejected_local r)\<rparr>)"

definition dispatch_by_lfdi_group ::
  "env \<Rightarrow> nat \<Rightarrow> string list \<Rightarrow> string list \<Rightarrow> string list \<Rightarrow> proc \<Rightarrow> (string, dispatch_exn option) dict \<times> proc" where
  "dispatch_by_lfdi_group env a local_lfdis targets curves s =
     (let (failures, s1) = dispatch_group env a curves local_lfdis s;
          s2 = fold (\<lambda>(l, f) s. upd_rec a (add_local l f) s) (zip local_lfdis failures) s1;
          aggregate = aggregate_failure local_lfdis failures;
          s3 = fold (\<lambda>dev s. respond env a dev aggregate s) targets s2
      in (map (\<lambda>dev. (dev, aggregate)) targets, s3))"

definition curves_of :: "proc \<Rightarrow> string \<Rightarrow> string list" where
  "curves_of s prog = (case map_of (der_programs (p_state s)) prog of None \<Rightarrow> [] | Some ps \<Rightarrow> der_curves ps)"

definition control_targets :: "proc \<Rightarrow> nat \<Rightarrow> string list" where
  "control_targets s a =
     filter (\<lambda>d. d \<notin> ev_superseded_devices (record_of s a)) (unique_devices s (ev_program_href (record_of s a)))"

definition register_modes :: "nat \<Rightarrow> string list \<Rightarrow> proc \<Rightarrow> proc" where
  "register_modes a targets s =
     (let r = record_of s a; active_modes = get_active_mode_names (derc_base (ev_derc r))
      in fold (\<lambda>dev s. s\<lparr>p_modes := amt_register dev (ev_mrid r) active_modes (p_modes s)\<rparr>) targets s)"

definition apply_control_to_devices :: "env \<Rightarrow> nat \<Rightarrow> proc \<Rightarrow> (string, dispatch_exn option) dict \<times> proc" where
  "apply_control_to_devices env a s =
     (let prog = ev_program_href (record_of s a);
          curves = curves_of s prog;
          targets = control_targets s a
      in if targets = [] then ([], s)
         else let s1 = register_modes a targets s
              in case group_local_lfdis env prog of
                   Some local_lfdis \<Rightarrow> dispatch_by_lfdi_group env a local_lfdis targets curves s1
                 | None \<Rightarrow>
                     dispatch_and_report env a curves (settle_order (env_sched env (p_tick s1)) targets) s1)"

definition apply_and_respond :: "env \<Rightarrow> nat \<Rightarrow> proc \<Rightarrow> proc" where
  "apply_and_respond env a s =
     (let (outcomes, s1) = apply_control_to_devices env a s
      in if outcomes \<noteq> [] then s1
         else let r = record_of s1 a
              in post_response env (ev_derc r) RC_ACTIVE (ev_program_href r) (ev_superseded_devices r) s1)"

section \<open>Defaults\<close>

definition device_has_other_active :: "proc \<Rightarrow> string \<Rightarrow> bytes \<Rightarrow> nat list \<Rightarrow> bool" where
  "device_has_other_active s dev exclude_mrid active =
     list_ex (\<lambda>b. let r = record_of s b
                  in ev_mrid r \<noteq> exclude_mrid
                   \<and> dev \<in> set (program_devices_list s (ev_program_href r))
                   \<and> dev \<notin> ev_superseded_devices r \<and> dev \<notin> ev_rejected_devices r) active"

definition best_dderc_program_for_device :: "proc \<Rightarrow> string \<Rightarrow> DerProgramState option" where
  "best_dderc_program_for_device s dev =
     fold (\<lambda>(prog, devs) best.
         if dev \<notin> set devs then best
         else case map_of (der_programs (p_state s)) prog of
                None \<Rightarrow> best
              | Some derp \<Rightarrow>
                  if default_dercontrol derp = None then best
                  else case best of
                         None \<Rightarrow> Some derp
                       | Some b \<Rightarrow> if dp_primacy derp < dp_primacy b then Some derp else best)
       (program_to_devices (device_mapping (p_state s))) None"

definition reach_of :: "env \<Rightarrow> string \<Rightarrow> string list \<Rightarrow> string set" where
  "reach_of env prog devices =
     (case group_local_lfdis env prog of
        Some lfdis \<Rightarrow> set (map (\<lambda>l. ''lfdi:'' @ l) lfdis)
      | None \<Rightarrow> set (map (\<lambda>d. ''href:'' @ d) devices))"

definition event_modes_in :: "env \<Rightarrow> string set \<Rightarrow> proc \<Rightarrow> nat \<Rightarrow> string set" where
  "event_modes_in env reach s b =
     (let r = record_of s b;
          devices = program_devices_list s (ev_program_href r);
          grouped = (group_local_lfdis env (ev_program_href r) \<noteq> None)
      in if reach \<inter> reach_of env (ev_program_href r) devices = {} then {}
         else \<Union> (set (map (\<lambda>dev. amt_covered_among dev {ev_mrid r} (p_modes s))
                (filter (\<lambda>dev. grouped \<or> ''href:'' @ dev \<in> reach) devices))))"

definition modes_running_in :: "env \<Rightarrow> string set \<Rightarrow> nat list \<Rightarrow> proc \<Rightarrow> string set" where
  "modes_running_in env reach active s = \<Union> (set (map (event_modes_in env reach s) active))"

definition default_without :: "DefaultDercontrol \<Rightarrow> string set \<Rightarrow> DefaultDercontrol" where
  "default_without dderc modes =
     (let base = dderc_base dderc;
          fields = filter (\<lambda>(n, _). \<not> (n \<in> modes \<and> n \<in> set dercontrol_base_model_fields)) (base_fields base);
          kept = filter (\<lambda>e. case doe_element_name e of None \<Rightarrow> True | Some n \<Rightarrow> n \<notin> modes)
                   (base_other_element base);
          others = (if length kept = length (base_other_element base) \<and> ''other_element'' \<in> modes then [] else kept)
      in dderc\<lparr>dderc_base := base\<lparr>base_fields := fields, base_other_element := others\<rparr>\<rparr>)"

definition running_events :: "proc \<Rightarrow> nat list" where
  "running_events s = filter (\<lambda>b. \<not> ev_opted_out (record_of s b)) (by_state (p_store s) ACTIVE)"

text \<open>The first loop of \<open>_apply_dderc_fallback\<close>: release the event's modes on every device and
  collect the devices that need something done.\<close>

definition release_device ::
  "nat \<Rightarrow> nat list \<Rightarrow> string \<Rightarrow> string list \<times> (string, string set) dict \<times> proc
     \<Rightarrow> string list \<times> (string, string set) dict \<times> proc" where
  "release_device a active dev acc =
     (case acc of (needs, released_modes, s) \<Rightarrow>
        let r = record_of s a;
            owned = compared_mode_keys (derc_base (ev_derc r));
            (released, modes) = amt_unregister dev (ev_mrid r) (p_modes s);
            s1 = s\<lparr>p_modes := modes\<rparr>;
            other = device_has_other_active s1 dev (ev_mrid r) active;
            taken_over = (dev \<in> ev_superseded_devices r
                          \<and> owned \<subseteq> dget_or (ev_superseded_modes r) dev {} \<and> other)
        in (if \<not> taken_over \<and> (released \<noteq> {} \<or> \<not> other) then needs @ [dev] else needs,
            dset dev released released_modes, s1))"

record fallback_plan =
  fp_defaults :: "(string \<times> bytes \<times> DerProgramState \<times> DefaultDercontrol \<times> bool) list"
  fp_withdraw :: "(string \<times> string set) list"
  fp_clear :: "string list"
  fp_default_modes :: "string set"

text \<open>The second loop: what each of these devices falls back to.\<close>

definition plan_device ::
  "env \<Rightarrow> bool \<Rightarrow> nat list \<Rightarrow> (string, string set) dict \<Rightarrow> proc \<Rightarrow> string \<Rightarrow> fallback_plan \<Rightarrow> fallback_plan" where
  "plan_device env clear_if_no_dderc active released_modes s dev fp =
     (case get_device_lfdi s dev of
        None \<Rightarrow> fp
      | Some lfdi \<Rightarrow>
          let released = dget_or released_modes dev {}
          in case best_dderc_program_for_device s dev of
               None \<Rightarrow>
                 if clear_if_no_dderc then fp\<lparr>fp_clear := fp_clear fp @ [dev]\<rparr>
                 else if released \<noteq> {} then fp\<lparr>fp_withdraw := fp_withdraw fp @ [(dev, released)]\<rparr>
                 else fp
             | Some best \<Rightarrow>
                 (case default_dercontrol best of
                    None \<Rightarrow> fp
                  | Some dderc \<Rightarrow>
                      let carried = get_active_mode_names (dderc_base dderc);
                          held = modes_running_in env (reach_of env (dp_href best) [dev]) active s;
                          taken = carried \<inter> held;
                          effective = (if taken \<noteq> {} then default_without dderc taken else dderc);
                          written = carried - taken;
                          uncovered = released - written;
                          emptied = (carried \<noteq> {} \<and> written = {});
                          apply_it = (\<not> emptied \<and> should_apply lfdi (dp_href best) (dp_primacy best) (p_dderc s))
                      in fp\<lparr>fp_default_modes := fp_default_modes fp \<union> written,
                            fp_withdraw := (if uncovered \<noteq> {} then fp_withdraw fp @ [(dev, uncovered)] else fp_withdraw fp),
                            fp_defaults := (if apply_it then fp_defaults fp @ [(dev, lfdi, best, effective, taken \<noteq> {})]
                                            else fp_defaults fp)\<rparr>))"

definition default_writes ::
  "(string \<times> string list option \<times> DefaultDercontrol) list \<Rightarrow> string list \<Rightarrow> CommandOrigin \<Rightarrow> bytes option
     \<Rightarrow> (dispatch_exn option \<Rightarrow> effect) list" where
  "default_writes plans curves origin cause =
     concat (map (\<lambda>(dev, local_lfdis, dderc).
         case local_lfdis of
           Some ls \<Rightarrow> map (\<lambda>l. ApplyDefault (ByLfdi l) dderc curves origin cause) ls
         | None \<Rightarrow> [ApplyDefault (ByHref dev) dderc curves origin cause]) plans)"

definition fan_out :: "string list option \<Rightarrow> nat" where
  "fan_out local_lfdis = (case local_lfdis of Some ls \<Rightarrow> length ls | None \<Rightarrow> 1)"

text \<open>Attributing the results back to the targets, one slice each.\<close>

fun attribute_results ::
  "(string list option \<times> bytes \<times> string \<times> bytes \<times> int \<times> bool) list \<Rightarrow> dispatch_exn option list
     \<Rightarrow> DdercTracker \<Rightarrow> DdercTracker" where
  "attribute_results [] results t = t"
| "attribute_results ((local_lfdis, lfdi, prog, mr, primacy, partial) # plans) results t =
     (let n = fan_out local_lfdis; mine = take n results
      in attribute_results plans (drop n results)
           (if list_ex (\<lambda>r. r \<noteq> None) mine \<or> partial then t else record_application lfdi prog mr primacy t))"

definition send_defaults ::
  "env \<Rightarrow> bytes \<Rightarrow> (string \<times> bytes \<times> DerProgramState \<times> DefaultDercontrol \<times> bool) list \<Rightarrow> proc \<Rightarrow> proc" where
  "send_defaults env cause targets s =
     (if targets = [] then s
      else let origin = (if p_comms_active s then ORIGIN_COMMS_LOSS else ORIGIN_DDERC_REAPPLY);
               writes = concat (map (\<lambda>(dev, lfdi, best, dderc, partial).
                   default_writes [(dev, group_local_lfdis env (dp_href best), dderc)] (der_curves best)
                     origin (Some cause)) targets);
               (results, s1) = gather_writes env writes s
           in s1\<lparr>p_dderc := attribute_results
                   (map (\<lambda>(dev, lfdi, best, dderc, partial).
                      (group_local_lfdis env (dp_href best), lfdi, dp_href best, dderc_mrid dderc,
                       dp_primacy best, partial)) targets) results (p_dderc s1)\<rparr>)"

definition withdraw_writes ::
  "env \<Rightarrow> nat \<Rightarrow> string list \<Rightarrow> fallback_plan \<Rightarrow> proc \<Rightarrow> (dispatch_exn option \<Rightarrow> effect) list" where
  "withdraw_writes env a all_devices fp s =
     (let r = record_of s a
      in case group_local_lfdis env (ev_program_href r) of
           Some local_lfdis \<Rightarrow>
             let still_needed = fp_default_modes fp
                   \<union> \<Union> (set (map (\<lambda>dev. amt_covered dev (Some (ev_mrid r)) (p_modes s)) all_devices));
                 modes = \<Union> (set (map snd (fp_withdraw fp))) - still_needed
             in if modes = {} then []
                else map (\<lambda>l _. DisableModes (ByLfdi l) modes (ev_mrid r)) (dict_fromkeys local_lfdis)
         | None \<Rightarrow> map (\<lambda>(dev, modes) _. DisableModes (ByHref dev) modes (ev_mrid r)) (fp_withdraw fp))"

definition clear_writes :: "env \<Rightarrow> nat \<Rightarrow> fallback_plan \<Rightarrow> proc \<Rightarrow> (dispatch_exn option \<Rightarrow> effect) list" where
  "clear_writes env a fp s =
     (let r = record_of s a
      in case group_local_lfdis env (ev_program_href r) of
           Some local_lfdis \<Rightarrow> map (\<lambda>l _. ClearControl (ByLfdi l) (ev_mrid r)) (dict_fromkeys local_lfdis)
         | None \<Rightarrow> map (\<lambda>dev _. ClearControl (ByHref dev) (ev_mrid r)) (dict_fromkeys (fp_clear fp)))"

definition empty_plan :: fallback_plan where
  "empty_plan = \<lparr>fp_defaults = [], fp_withdraw = [], fp_clear = [], fp_default_modes = {}\<rparr>"

definition apply_dderc_fallback :: "env \<Rightarrow> nat \<Rightarrow> bool \<Rightarrow> proc \<Rightarrow> proc" where
  "apply_dderc_fallback env a clear_if_no_dderc s =
     (let r = record_of s a;
          all_devices = unique_devices s (ev_program_href r);
          active = running_events s;
          (needs, released_modes, s1) = fold (release_device a active) all_devices ([], [], s)
      in if needs = [] then s1
         else let fp = fold (plan_device env clear_if_no_dderc active released_modes s1) needs empty_plan;
                  s2 = send_defaults env (ev_mrid r) (fp_defaults fp) s1;
                  s3 = (if fp_withdraw fp = [] then s2
                        else snd (gather_writes env (withdraw_writes env a all_devices fp s2) s2));
                  s4 = (if fp_clear fp = [] then s3
                        else snd (gather_writes env (clear_writes env a fp s3) s3))
              in s4)"

definition active_devices :: "proc \<Rightarrow> nat list \<Rightarrow> string set" where
  "active_devices s active =
     \<Union> (set (map (\<lambda>b. let r = record_of s b
                        in set (program_devices_list s (ev_program_href r))
                           - ev_superseded_devices r - ev_rejected_devices r) active))"

definition initial_targets :: "proc \<Rightarrow> string \<Rightarrow> DerProgramState \<Rightarrow> DefaultDercontrol \<Rightarrow> (string \<times> bytes) list" where
  "initial_targets s prog derp dderc =
     List.map_filter (\<lambda>dev.
         if dev \<in> active_devices s (running_events s) then None
         else case get_device_lfdi s dev of
                None \<Rightarrow> None
              | Some lfdi \<Rightarrow>
                  if should_apply_initial lfdi prog (dderc_mrid dderc) (dp_primacy derp) (p_dderc s)
                  then Some (dev, lfdi) else None)
       (unique_devices s prog)"

definition wind_down_pending :: "proc \<Rightarrow> string \<Rightarrow> bool" where
  "wind_down_pending s prog =
     list_ex (\<lambda>b. ev_program_href (record_of s b) = prog \<and> has_pending (ev_mrid (record_of s b)) (p_timers s))
       (by_state (p_store s) CANCELLED)"

definition apply_initial_dderc :: "env \<Rightarrow> string \<Rightarrow> proc \<Rightarrow> proc" where
  "apply_initial_dderc env prog s =
     (case map_of (der_programs (p_state s)) prog of
        None \<Rightarrow> s
      | Some derp \<Rightarrow>
          (case default_dercontrol derp of
             None \<Rightarrow> s
           | Some default_ctl \<Rightarrow>
               if wind_down_pending s prog \<or> unique_devices s prog = [] then s
               else
                 let targets = initial_targets s prog derp default_ctl
                 in if targets = [] then s
                    else
                      let held = modes_running_in env (reach_of env prog (map fst targets)) (running_events s) s;
                          carried = get_active_mode_names (dderc_base default_ctl);
                          taken = carried \<inter> held
                      in if carried \<noteq> {} \<and> carried - taken = {} then s
                         else
                           let dderc = (if taken \<noteq> {} then default_without default_ctl taken else default_ctl);
                               local_lfdis = group_local_lfdis env prog;
                               writes = default_writes (map (\<lambda>(dev, _). (dev, local_lfdis, dderc)) targets)
                                          (der_curves derp) ORIGIN_DDERC_REAPPLY None;
                               (results, s1) = gather_writes env writes s
                           in s1\<lparr>p_dderc := attribute_results
                                   (map (\<lambda>(dev, lfdi). (local_lfdis, lfdi, prog, dderc_mrid default_ctl,
                                      dp_primacy derp, False)) targets) results (p_dderc s1)\<rparr>))"

section \<open>Lifecycle handlers\<close>

definition transition_to :: "bytes \<Rightarrow> EventState \<Rightarrow> proc \<Rightarrow> proc option" where
  "transition_to mr st s =
     (case transition mr st (p_store s) of Inl KeyError \<Rightarrow> None | Inr store \<Rightarrow> Some (s\<lparr>p_store := store\<rparr>))"

definition cancel_event_timers :: "nat option \<Rightarrow> bytes \<Rightarrow> proc \<Rightarrow> proc" where
  "cancel_event_timers cur mr s = s\<lparr>p_timers := cancel_timers cur mr (p_timers s)\<rparr>"

definition raise_boundary :: "int \<Rightarrow> proc \<Rightarrow> proc" where
  "raise_boundary e s =
     s\<lparr>p_resume_after := Some (max (case p_resume_after s of None \<Rightarrow> 0 | Some b \<Rightarrow> b) e)\<rparr>"

definition opt_out_event :: "env \<Rightarrow> nat option \<Rightarrow> nat \<Rightarrow> string option \<Rightarrow> proc \<Rightarrow> proc" where
  "opt_out_event env cur a from_state s =
     (let s1 = upd_rec a (\<lambda>r. r\<lparr>ev_opted_out := True\<rparr>) s;
          s2 = audit_transition env a from_state ''opted_out'' NoDetails s1;
          s3 = raise_boundary (ev_end (record_of s2 a)) s2;
          s4 = cancel_event_timers cur (ev_mrid (record_of s3 a)) s3
      in apply_dderc_fallback env a True s4)"

definition enter_comms_loss :: "env \<Rightarrow> nat option \<Rightarrow> proc \<Rightarrow> proc" where
  "enter_comms_loss env cur s =
     (let active = running_events s
      in if active = [] then s
         else let s1 = raise_boundary (Max (set (map (\<lambda>a. ev_end (record_of s a)) active))) s;
                  s2 = fold (\<lambda>a s.
                      let s' = upd_rec a (\<lambda>r. r\<lparr>ev_opted_out := True\<rparr>) s;
                          s'' = cancel_event_timers cur (ev_mrid (record_of s' a)) s'
                      in audit_transition env a (Some ''active'') ''opted_out'' NoDetails s'') active s1
              in fold (\<lambda>a s. apply_dderc_fallback env a True s) active s2)"

definition handle_cancellation :: "env \<Rightarrow> nat option \<Rightarrow> nat \<Rightarrow> proc \<Rightarrow> proc" where
  "handle_cancellation env cur a s =
     (let r = record_of s a; was_active = (ev_state r = ACTIVE)
      in case transition_to (ev_mrid r) CANCELLED s of
           None \<Rightarrow> s
         | Some s1 \<Rightarrow>
             let s2 = cancel_event_timers cur (ev_mrid r) s1;
                 s3 = relay_control_event env a ''cancelled'' s2;
                 s4 = audit_transition env a (Some (state_value (ev_state r))) ''cancelled'' NoDetails s3;
                 s5 = post_started_device_lifecycle env a RC_CANCELLED s4;
                 wind_down = cancellation_wind_down (record_of s5 a)
             in if \<not> was_active then s5
                else if wind_down > 0
                then s5\<lparr>p_timers := schedule_delayed_callback a (record_of s5 a)
                          (env_local_now env (p_tick s5)) wind_down ApplyDdercFallback (p_timers s5)\<rparr>
                else apply_dderc_fallback env a False s5)"

text \<open>The body of the loop of \<open>_run_supersession\<close>, in three parts: who is taken over and who is
  told, whether the event is taken over everywhere, and its end if so.\<close>

definition mark_superseded :: "env \<Rightarrow> SupersessionResult \<Rightarrow> nat \<Rightarrow> proc \<Rightarrow> proc" where
  "mark_superseded env res a s =
     (let newly = affected_devices res - ev_superseded_devices (record_of s a);
          s1 = upd_rec a (\<lambda>r. r\<lparr>ev_superseded_devices := ev_superseded_devices r \<union> affected_devices res\<rparr>) s;
          announce = newly - ev_rejected_devices (record_of s1 a);
          s2 = (if announce = {} then s1
                else post_response_for_devices env (ev_derc (record_of s1 a)) RC_SUPERSEDED announce s1)
      in if affected_modes res = {} then s2
         else fold (\<lambda>dev. upd_rec a (\<lambda>r. r\<lparr>ev_superseded_modes :=
                dset dev (dget_or (ev_superseded_modes r) dev {} \<union> affected_modes res)
                  (ev_superseded_modes r)\<rparr>))
              (iter_set (env_order env) (affected_devices res)) s2)"

definition fully_superseded :: "program_devices \<Rightarrow> EventRecord \<Rightarrow> bool" where
  "fully_superseded device_map r =
     (let program_devices = devices_of device_map (ev_program_href r)
      in program_devices \<noteq> {} \<and> program_devices \<subseteq> ev_superseded_devices r)"

definition finish_superseded :: "env \<Rightarrow> nat option \<Rightarrow> bytes \<Rightarrow> nat \<Rightarrow> proc \<Rightarrow> proc" where
  "finish_superseded env cur superseded_by a s =
     (let r = record_of s a; was_active = (ev_state r = ACTIVE)
      in case transition_to (ev_mrid r) SUPERSEDED s of
           None \<Rightarrow> s
         | Some s1 \<Rightarrow>
             let s2 = cancel_event_timers cur (ev_mrid r) s1;
                 s3 = relay_control_event env a ''superseded'' s2;
                 s4 = audit_transition env a (Some (state_value (ev_state r))) ''superseded''
                        (audit_supersession env s3 (record_of s3 a) superseded_by False) s3
             in if was_active then apply_dderc_fallback env a False s4 else s4)"

definition apply_supersession ::
  "env \<Rightarrow> nat option \<Rightarrow> program_devices \<Rightarrow> SupersessionResult \<Rightarrow> proc \<Rightarrow> proc" where
  "apply_supersession env cur device_map res s =
     (case (get_event (p_store s) (superseded_mrid res), get_event (p_store s) (superseding_mrid res)) of
        (Some a, Some b) \<Rightarrow>
          let r = record_of s a
          in if terminal (ev_state r) then s
             else if ev_state (record_of s b) = SCHEDULED \<and> ev_state r = ACTIVE then s
             else
               let newly = affected_devices res - ev_superseded_devices r;
                   s1 = mark_superseded env res a s;
                   r1 = record_of s1 a;
                   fully = fully_superseded device_map r1;
                   current = (if ev_opted_out r1 then ''opted_out'' else state_value (ev_state r1));
                   s2 = (if newly \<noteq> {} \<and> \<not> fully
                         then audit_transition env a (Some current) current
                                (audit_supersession env s1 r1 (superseding_mrid res) True) s1
                         else s1)
               in if fully then finish_superseded env cur (superseding_mrid res) a s2 else s2
      | _ \<Rightarrow> s)"

definition run_supersession :: "env \<Rightarrow> nat option \<Rightarrow> proc \<Rightarrow> proc" where
  "run_supersession env cur s =
     (let events = all_active_states (p_store s)
      in if length events < 2 then s
         else let device_map = build_program_device_map s;
                  results = compute_supersession (env_order env) (map (record_of s) events) device_map
              in fold (apply_supersession env cur device_map) results s)"

definition handle_new_scheduled :: "env \<Rightarrow> nat \<Rightarrow> proc \<Rightarrow> proc" where
  "handle_new_scheduled env a s =
     (let r = record_of s a;
          s1 = post_response env (ev_derc r) RC_ACKNOWLEDGED (ev_program_href r) {} s
      in if p_closed s1 then s1
         else let s2 = s1\<lparr>p_timers := schedule_activation a (record_of s1 a)
                          (now_fn_for s1 (ev_program_href r)) (p_timers s1)\<rparr>;
                  s3 = relay_control_event env a ''scheduled'' s2
              in audit_transition env a None ''scheduled'' NoDetails s3)"

definition start_running :: "env \<Rightarrow> nat option \<Rightarrow> nat \<Rightarrow> string option \<Rightarrow> proc \<Rightarrow> proc" where
  "start_running env cur a from_state s =
     (let s1 = run_supersession env cur s
      in if p_closed s1 then s1
         else let s2 = apply_and_respond env a s1
              in if p_closed s2 then s2
                 else let s3 = relay_control_event env a ''active'' s2;
                          s4 = audit_activation env a from_state s3
                      in s4\<lparr>p_timers := schedule_completion a (record_of s4 a)
                              (now_fn_for s4 (ev_program_href (record_of s4 a))) (p_timers s4)\<rparr>)"

definition handle_late_discovery :: "env \<Rightarrow> nat option \<Rightarrow> nat \<Rightarrow> proc \<Rightarrow> proc" where
  "handle_late_discovery env cur a s =
     (if p_comms_active s then opt_out_event env cur a None s
      else let r = record_of s a;
               s1 = post_response env (ev_derc r) RC_ACKNOWLEDGED (ev_program_href r) {} s
           in if p_closed s1 then s1 else start_running env cur a None s1)"

definition on_activation :: "env \<Rightarrow> nat option \<Rightarrow> nat \<Rightarrow> proc \<Rightarrow> proc" where
  "on_activation env cur a s =
     (let r = record_of s a
      in if ev_state r \<noteq> SCHEDULED then s
         else case transition_to (ev_mrid r) ACTIVE s of
                None \<Rightarrow> s
              | Some s1 \<Rightarrow>
                  if p_comms_active s1 then opt_out_event env cur a (Some ''scheduled'') s1
                  else start_running env cur a (Some ''scheduled'') s1)"

definition on_completion :: "env \<Rightarrow> nat \<Rightarrow> proc \<Rightarrow> proc" where
  "on_completion env a s =
     (let r = record_of s a
      in if ev_state r \<noteq> ACTIVE then s
         else case transition_to (ev_mrid r) COMPLETED s of
                None \<Rightarrow> s
              | Some s1 \<Rightarrow>
                  let s2 = relay_control_event env a ''completed'' s1;
                      s3 = audit_transition env a (Some ''active'') ''completed'' NoDetails s2;
                      s4 = post_started_device_lifecycle env a RC_COMPLETED s3
                  in apply_dderc_fallback env a False s4)"

definition cancel_program :: "env \<Rightarrow> nat option \<Rightarrow> string \<Rightarrow> proc \<Rightarrow> proc" where
  "cancel_program env cur prog s =
     (let s1 = fold (\<lambda>a s.
            let r = record_of s a
            in if ev_program_href r \<noteq> prog then s
               else case transition_to (ev_mrid r) CANCELLED s of
                      None \<Rightarrow> s
                    | Some s' \<Rightarrow>
                        let s'' = audit_transition env a (Some (state_value (ev_state r))) ''cancelled'' NoDetails s'
                        in relay_control_event env a ''cancelled'' (cancel_event_timers cur (ev_mrid r) s''))
          (all_active_states (p_store s)) s
      in s1\<lparr>p_snapshots := ddel (''default_baseline'', prog) (p_snapshots s1),
            p_unstored_seen := filter (\<lambda>(_, p). p \<noteq> prog) (p_unstored_seen s1)\<rparr>)"

section \<open>Processing a program's controls\<close>

definition server_status_time_of :: "Dercontrol1 \<Rightarrow> int" where
  "server_status_time_of d =
     (case event_status d of
        None \<Rightarrow> 0
      | Some es \<Rightarrow> (case status_date_time es of None \<Rightarrow> 0 | Some t \<Rightarrow> t))"

text \<open>Randomized timing, with rule m) for an event that follows another without a gap.\<close>

definition effective_timing :: "env \<Rightarrow> string \<Rightarrow> Dercontrol1 \<Rightarrow> proc \<Rightarrow> int \<times> int \<times> proc" where
  "effective_timing env prog derc s =
     (let raw_start = interval_start derc; raw_duration = interval_duration derc;
          ((start_off, dur_off), rc) = get_offsets (env_rnd env) derc raw_start raw_duration (p_rand s);
          s1 = s\<lparr>p_rand := rc\<rparr>
      in case find_successive_predecessor s1 prog raw_start of
           None \<Rightarrow> (raw_start + start_off, raw_duration + dur_off, s1)
         | Some b \<Rightarrow>
             let new_start_off = ev_end (record_of s1 b) - raw_start;
                 s2 = (if new_start_off \<noteq> start_off
                       then s1\<lparr>p_rand := override_start_offset (m_rid derc) new_start_off raw_start raw_duration (p_rand s1)\<rparr>
                       else s1)
             in (raw_start + new_start_off, raw_duration + dur_off, s2))"

definition refresh_existing :: "env \<Rightarrow> nat option \<Rightarrow> nat \<Rightarrow> Dercontrol1 \<Rightarrow> proc \<Rightarrow> proc \<times> bool" where
  "refresh_existing env cur a derc s =
     (let s1 = upd_rec a (\<lambda>r. r\<lparr>ev_derc := derc, ev_server_status_time := server_status_time_of derc,
                 ev_creation_time := (case creation_time derc of None \<Rightarrow> ev_creation_time r | Some t \<Rightarrow> t)\<rparr>) s
      in if is_server_cancelled derc \<and> ev_state (record_of s1 a) \<in> {SCHEDULED, ACTIVE}
         then let s2 = handle_cancellation env cur a s1 in (s2, p_closed s2)
         else (relay_control_event env a ''updated'' s1, False))"

definition clear_stale_defaults :: "string \<Rightarrow> proc \<Rightarrow> proc" where
  "clear_stale_defaults prog s =
     (let lfdis = set (List.map_filter (get_device_lfdi s) (program_devices_list s prog))
      in if lfdis = {} then s else s\<lparr>p_dderc := clear_devices lfdis (p_dderc s)\<rparr>)"

definition store_new :: "EventRecord \<Rightarrow> proc \<Rightarrow> nat \<times> proc" where
  "store_new r s = (case alloc r (p_store s) of (a, st) \<Rightarrow> (a, s\<lparr>p_store := upsert a st\<rparr>))"

definition admit_new ::
  "env \<Rightarrow> nat option \<Rightarrow> string \<Rightarrow> DerProgramState \<Rightarrow> int \<Rightarrow> Dercontrol1 \<Rightarrow> int \<Rightarrow> int \<Rightarrow> proc \<Rightarrow> proc \<times> bool" where
  "admit_new env cur prog derp now derc eff_start eff_duration s =
     (let state = (if now \<ge> eff_start then ACTIVE else SCHEDULED);
          ct = (case creation_time derc of None \<Rightarrow> 0 | Some t \<Rightarrow> t);
          r = new_EventRecord (m_rid derc) derc prog (dp_primacy derp) state eff_start eff_duration
                (server_status_time_of derc) ct
      in if is_server_cancelled derc
         then let (a, s1) = store_new (r\<lparr>ev_state := CANCELLED\<rparr>) s;
                  s2 = audit_transition env a None ''cancelled'' NoDetails s1;
                  s3 = relay_control_event env a ''cancelled'' s2;
                  s4 = post_response env derc RC_CANCELLED prog {} s3
              in (s4, p_closed s4)
         else let (a, s1) = store_new r s;
                  s2 = clear_stale_defaults prog s1;
                  s3 = (if state = SCHEDULED then handle_new_scheduled env a s2
                        else handle_late_discovery env cur a s2)
              in (s3, p_closed s3))"

definition process_one ::
  "env \<Rightarrow> nat option \<Rightarrow> string \<Rightarrow> DerProgramState \<Rightarrow> int \<Rightarrow> Dercontrol1 \<Rightarrow> proc \<Rightarrow> proc \<times> bool" where
  "process_one env cur prog derp now derc s0 =
     (let (eff_start, eff_duration, s) = effective_timing env prog derc s0;
          eff_end = eff_start + eff_duration
      in case get_event (p_store s) (m_rid derc) of
           Some a \<Rightarrow> refresh_existing env cur a derc s
         | None \<Rightarrow>
             if (case p_resume_after s of None \<Rightarrow> False | Some b \<Rightarrow> eff_start \<le> b)
             then (audit_unstored env derc prog (dp_primacy derp) eff_start eff_duration ''skipped'' s, False)
             else if now > eff_end
             then (if has_responded (m_rid derc) (p_tracker s) then (s, False)
                   else let s1 = audit_unstored env derc prog (dp_primacy derp) eff_start eff_duration ''expired'' s;
                            s2 = post_response env derc RC_EXPIRED prog {} s1
                        in (s2, p_closed s2))
             else admit_new env cur prog derp now derc eff_start eff_duration s)"

text \<open>Rule p): an event the server no longer serves is cancelled, unless it is over.\<close>

definition reconcile_one :: "env \<Rightarrow> nat option \<Rightarrow> string \<Rightarrow> int \<Rightarrow> bytes set \<Rightarrow> nat \<Rightarrow> proc \<Rightarrow> proc \<times> bool" where
  "reconcile_one env cur prog now served a s =
     (let r = record_of s a
      in if ev_program_href r \<noteq> prog \<or> ev_mrid r \<in> served \<or> now \<ge> ev_end r then (s, False)
         else let s1 = handle_cancellation env cur a s in (s1, p_closed s1))"

definition reconcile_removed :: "env \<Rightarrow> nat option \<Rightarrow> string \<Rightarrow> DerProgramState \<Rightarrow> int \<Rightarrow> proc \<Rightarrow> proc \<times> bool" where
  "reconcile_removed env cur prog derp now s =
     (if der_controls_complete derp
      then for_each (reconcile_one env cur prog now (set (map m_rid (der_controls derp))))
             (all_active_states (p_store s)) s
      else (s, False))"

definition STORE_GRACE :: int where "STORE_GRACE = 60"
definition RAND_GRACE :: int where "RAND_GRACE = 10"
definition RESPONSE_MAX_AGE :: int where "RESPONSE_MAX_AGE = 7200"

definition prune_all :: "string \<Rightarrow> int \<Rightarrow> proc \<Rightarrow> proc" where
  "prune_all prog now s =
     (let (expired, store) = prune_expired now STORE_GRACE (p_store s);
          s1 = s\<lparr>p_store := store,
                 p_snapshots := ddel_all (concat (map (\<lambda>mr. [(''control'', hex mr), (''doe'', hex mr)]) expired))
                   (p_snapshots s),
                 p_rand := prune_offsets RAND_GRACE now (p_rand s)\<rparr>;
          s2 = forget_unstored_no_longer_served prog s1
      in s2\<lparr>p_tracker := prune_sent RESPONSE_MAX_AGE now (p_tracker s2)\<rparr>)"

definition process_controls :: "env \<Rightarrow> nat option \<Rightarrow> string \<Rightarrow> proc \<Rightarrow> proc" where
  "process_controls env cur prog s =
     (if p_closed s then s
      else case map_of (der_programs (p_state s)) prog of
             None \<Rightarrow> s
           | Some derp \<Rightarrow>
               let s1 = relay_default_baseline env prog derp s;
                   now = now_of env (fsa_scope s1 prog) s1;
                   (s2, returned) = for_each (process_one env cur prog derp now) (der_controls derp) s1
               in if returned then s2
                  else let (s3, returned) = reconcile_removed env cur prog derp now s2
                       in if returned then s3
                          else let s4 = run_supersession env cur s3
                               in if p_closed s4 then s4
                                  else apply_initial_dderc env prog (prune_all prog now s4))"

section \<open>Timers firing\<close>

text \<open>Task \<open>i\<close> wakes up: it goes back to sleep, ends, or runs its callback.\<close>

definition clock_now :: "env \<Rightarrow> clock_ref \<Rightarrow> proc \<Rightarrow> int" where
  "clock_now env c s = (case c of LocalClock \<Rightarrow> env_local_now env (p_tick s) | ServerClock scope \<Rightarrow> now_of env scope s)"

definition finish_task :: "nat \<Rightarrow> proc \<Rightarrow> proc" where
  "finish_task i s =
     s\<lparr>p_timers := (p_timers s)\<lparr>tm_heap := (tm_heap (p_timers s))(i := (tm_heap (p_timers s) i)\<lparr>tt_status := Finished\<rparr>)\<rparr>\<rparr>"

definition run_callback :: "env \<Rightarrow> nat \<Rightarrow> proc \<Rightarrow> proc" where
  "run_callback env i s =
     (let tk = tm_heap (p_timers s) i
      in case tt_callback tk of
           OnActivation \<Rightarrow> on_activation env (Some i) (tt_record tk) s
         | OnCompletion \<Rightarrow> on_completion env (tt_record tk) s
         | ApplyDdercFallback \<Rightarrow> apply_dderc_fallback env (tt_record tk) False s)"

definition wake_task :: "env \<Rightarrow> nat \<Rightarrow> proc \<Rightarrow> proc" where
  "wake_task env i s =
     (let tk = tm_heap (p_timers s) i
      in if \<not> pending_task (p_timers s) i then s
         else case wait_and_fire_wake (p_closed s) (clock_now env (tt_clock tk) s)
                     (ev_state (record_of s (tt_record tk))) tk of
                Sleep _ \<Rightarrow> s
              | Return \<Rightarrow> finish_task i s
              | Fire \<Rightarrow> run_callback env i (finish_task i s))"

end
