(* ===== verification/Processor_Contract.thy ===== *)
theory Processor_Contract
  imports Processor Interfaces
begin

text \<open>
  What every handler of the event processor keeps, as three contracts stacked on
  \<open>step_contract\<close>. \<open>quiet_steps\<close> is for the parts that neither post a response nor touch the
  event store (relays, audit records, defaults); \<open>posting_steps\<close> adds the response posts;
  \<open>event_steps\<close> adds the changes of the store. A relation that the primitive steps keep is
  kept by every handler; the interpretations at the end of this theory and in
  \<open>Processor_Props\<close> name the relations.
\<close>

definition is_post :: "effect \<Rightarrow> bool" where
  "is_post e = (case e of Posted _ _ \<Rightarrow> True | _ \<Rightarrow> False)"

text \<open>The resume boundary of a loss of communications, which handlers only raise.\<close>

definition boundary_le :: "int option \<Rightarrow> int option \<Rightarrow> bool" where
  "boundary_le x y = (case x of None \<Rightarrow> True | Some b \<Rightarrow> (case y of None \<Rightarrow> False | Some c \<Rightarrow> b \<le> c))"

lemma boundary_le_refl [simp]: "boundary_le x x"
  by (simp add: boundary_le_def split: option.splits)

lemma boundary_le_trans: "boundary_le x y \<Longrightarrow> boundary_le y z \<Longrightarrow> boundary_le x z"
  by (auto simp: boundary_le_def split: option.splits)

definition same_core :: "proc \<Rightarrow> proc \<Rightarrow> bool" where
  "same_core s s' \<longleftrightarrow> p_store s' = p_store s \<and> p_trace s' = p_trace s \<and> p_state s' = p_state s
     \<and> p_tracker s' = p_tracker s \<and> p_closed s' = p_closed s \<and> p_comms_active s' = p_comms_active s
     \<and> boundary_le (p_resume_after s) (p_resume_after s')"

section \<open>Steps that post nothing\<close>

locale quiet_steps = step_contract R for R :: "proc \<Rightarrow> proc \<Rightarrow> bool" +
  assumes frame: "same_core s s' \<Longrightarrow> R s s'"
    and emit_quiet: "\<not> is_post e \<Longrightarrow> R s (emit e s)"
    and close: "R s (shutdown s)"
begin

lemma await_step: "R s (await_point env s)"
proof -
  have "R s (s\<lparr>p_tick := Suc (p_tick s)\<rparr>)" by (rule frame) (simp add: same_core_def)
  then show ?thesis by (auto simp: await_point_def Let_def intro: trans close)
qed

lemma then_frame: "R s t \<Longrightarrow> same_core t u \<Longrightarrow> R s u"
  using frame trans by blast

lemma then_emit: "R s t \<Longrightarrow> \<not> is_post e \<Longrightarrow> R s (emit e t)"
  using emit_quiet trans by blast

lemma frame_emit: "same_core s t \<Longrightarrow> \<not> is_post e \<Longrightarrow> R s (emit e t)"
  using frame then_emit by blast

lemma then_await: "R s t \<Longrightarrow> R s (await_point env t)"
  using await_step trans by blast

lemma emit_relay_step: "R s (emit_relay env n dd k s)"
  unfolding emit_relay_def Let_def
  by (simp split: if_split, intro conjI impI frame_emit) (simp_all add: same_core_def is_post_def)

lemma relay_control_step: "R s (relay_control_event env a tr s)"
  by (auto simp: relay_control_event_def Let_def intro: trans emit_relay_step)

lemma relay_baseline_step: "R s (relay_default_baseline env prog derp s)"
  by (auto simp: relay_default_baseline_def Let_def split: option.splits intro: emit_relay_step)

lemma audit_rec_step: "R s (audit_transition_rec env r f t d s)"
  by (auto simp: audit_transition_rec_def Let_def is_post_def intro: emit_quiet)

lemma audit_step: "R s (audit_transition env a f t d s)"
  by (simp add: audit_transition_def audit_rec_step)

lemma audit_activation_step: "R s (audit_activation env a f s)"
  by (simp add: audit_activation_def audit_step)

lemma audit_unstored_step: "R s (audit_unstored env derc prog prim st dur t s)"
proof -
  have "R s (s\<lparr>p_unstored_seen := u\<rparr>)" for u by (rule frame) (simp add: same_core_def)
  then show ?thesis by (auto simp: audit_unstored_def intro: trans audit_rec_step)
qed

lemma forget_step: "R s (forget_unstored_no_longer_served prog s)"
  by (auto simp: forget_unstored_no_longer_served_def same_core_def split: option.splits intro: frame)

lemma cancel_timers_step: "R s (cancel_event_timers cur mr s)"
  by (rule frame) (simp add: same_core_def cancel_event_timers_def)

lemma boundary_step: "R s (raise_boundary e s)"
  by (rule frame) (simp add: same_core_def raise_boundary_def boundary_le_def split: option.splits)

lemma finish_task_step: "R s (finish_task i s)"
  by (rule frame) (simp add: same_core_def finish_task_def)

lemma late_step: "R s (log_late_dispatch env a l exc s)"
  unfolding log_late_dispatch_def Let_def
  by (simp split: if_split, intro conjI impI frame_emit frame) (simp_all add: same_core_def is_post_def)

lemma dispatch_write_step: "(\<And>oc. \<not> is_post (mk oc)) \<Longrightarrow> R s (snd (dispatch_write env mk s))"
  by (auto simp: dispatch_write_def Let_def intro: then_await emit_quiet)

lemma gather_step:
  "(\<And>w oc. w \<in> set ws \<Longrightarrow> \<not> is_post (w oc)) \<Longrightarrow> R s (snd (gather_writes env ws s))"
proof (induction ws arbitrary: s)
  case (Cons w ws)
  obtain r s1 where w: "dispatch_write env w s = (r, s1)" by fastforce
  have "R s s1" using dispatch_write_step [of w s env] Cons.prems w by simp
  moreover have "R s1 (snd (gather_writes env ws s1))" using Cons by simp
  ultimately show ?case by (simp add: w case_prod_beta trans)
qed simp

lemma default_writes_quiet: "w \<in> set (default_writes ps cs org cause) \<Longrightarrow> \<not> is_post (w oc)"
  by (auto simp: default_writes_def is_post_def split: option.splits)

lemma send_defaults_step: "R s (send_defaults env cause ts s)"
proof (cases "ts = []")
  case False
  define ws where "ws = concat (map (\<lambda>(dev, lfdi, best, dderc, partial).
      default_writes [(dev, group_local_lfdis env (dp_href best), dderc)] (der_curves best)
        (if p_comms_active s then ORIGIN_COMMS_LOSS else ORIGIN_DDERC_REAPPLY) (Some cause)) ts)"
  have "R s (snd (gather_writes env ws s))"
    by (rule gather_step) (auto simp: ws_def dest: default_writes_quiet)
  with False show ?thesis
    by (auto simp: send_defaults_def Let_def ws_def [symmetric] case_prod_beta same_core_def intro: then_frame)
qed (simp add: send_defaults_def)

lemma release_step: "R s (snd (snd (release_device a act dev (n, rm, s))))"
  by (rule frame) (simp add: release_device_def Let_def case_prod_beta same_core_def)

lemma release_fold_step: "R s (snd (snd (fold (release_device a act) devs (n, rm, s))))"
proof (induction devs arbitrary: n rm s)
  case (Cons d devs)
  obtain n' rm' s' where r: "release_device a act d (n, rm, s) = (n', rm', s')" by (metis prod_cases3)
  then have "R s s'" using release_step [of s a act d n rm] by simp
  with Cons.IH [of s' n' rm'] show ?case by (simp add: r trans)
qed simp

lemma withdraw_step: "R s (snd (gather_writes env (withdraw_writes env a ds fp t) s))"
  by (rule gather_step) (auto simp: withdraw_writes_def Let_def is_post_def split: option.splits if_splits)

lemma clear_step: "R s (snd (gather_writes env (clear_writes env a fp t) s))"
  by (rule gather_step) (auto simp: clear_writes_def Let_def is_post_def split: option.splits)

lemma fallback_step: "R s (apply_dderc_fallback env a cl s)"
proof -
  obtain n rm s1 where f: "fold (release_device a (running_events s))
      (unique_devices s (ev_program_href (record_of s a))) ([], [], s) = (n, rm, s1)" by (metis prod_cases3)
  have "R s s1" using release_fold_step [of s a "running_events s" "unique_devices s (ev_program_href (record_of s a))" "[]" "[]"] f
    by simp
  have ite: "R s x \<Longrightarrow> R s y \<Longrightarrow> R s (if c then x else y)" for c x y by simp
  have w: "R s t \<Longrightarrow> R s (snd (gather_writes env (withdraw_writes env a ds fp t) t))" for ds fp t
    using withdraw_step trans by blast
  have c: "R s t \<Longrightarrow> R s (snd (gather_writes env (clear_writes env a fp t) t))" for fp t
    using clear_step trans by blast
  show ?thesis
    unfolding apply_dderc_fallback_def Let_def f prod.case
    by (intro ite w c trans [OF \<open>R s s1\<close> send_defaults_step] \<open>R s s1\<close>)
qed

lemma initial_step: "R s (apply_initial_dderc env prog s)"
proof -
  have g: "R s ((snd (gather_writes env (default_writes ps cs org cause) s))\<lparr>p_dderc := d\<rparr>)" for ps cs org cause d
    by (rule then_frame [OF gather_step]) (auto simp: same_core_def dest: default_writes_quiet)
  then show ?thesis
    by (auto simp: apply_initial_dderc_def Let_def case_prod_beta split: option.splits)
qed

lemma clear_stale_step: "R s (clear_stale_defaults prog s)"
  by (auto simp: clear_stale_defaults_def Let_def same_core_def intro: frame)

end

section \<open>Steps that may post\<close>

locale posting_steps = quiet_steps R for R :: "proc \<Rightarrow> proc \<Rightarrow> bool" +
  fixes env :: env
  assumes post_one_step: "R s (post_one env derc code lfdi s)"
begin

lemma post_device_step: "R s (post_device env derc code dev s)"
  by (auto simp: post_device_def post_one_step split: option.splits)

lemma post_response_step: "R s (post_response env derc code prog ex s)"
proof -
  have "R s (fold (\<lambda>dev s. if dev \<in> ex then s else post_device env derc code dev s) ds s)" for ds
    by (rule fold_step) (simp add: post_device_step)
  then show ?thesis
    by (auto simp: post_response_def Let_def post_one_step split: option.splits)
qed

lemma post_devices_step: "R s (post_response_for_devices env derc code devs s)"
  unfolding post_response_for_devices_def by (rule fold_step) (rule post_device_step)

lemma lifecycle_post_step: "R s (post_started_device_lifecycle env a code s)"
  by (auto simp: post_started_device_lifecycle_def Let_def post_response_step post_devices_step)

lemma dispatch_one_step: "R s (snd (dispatch_one env a tgt cs s))"
  unfolding dispatch_one_def Let_def snd_conv
  by (intro then_await frame_emit) (simp_all add: same_core_def is_post_def)

lemma dispatch_group_step: "R s (snd (dispatch_group env a cs ls s))"
proof (induction ls arbitrary: s)
  case (Cons l ls)
  obtain f s1 where d: "dispatch_one env a (ByLfdi l) cs s = (f, s1)" by fastforce
  have "R s s1" using dispatch_one_step [of s a "ByLfdi l" cs] d by simp
  with Cons.IH [of s1] show ?case by (simp add: d case_prod_beta trans)
qed simp

lemma register_step: "R s (register_modes a ts s)"
  unfolding register_modes_def Let_def
  by (rule fold_step) (rule frame, simp add: same_core_def)

lemma new_scheduled_step: "R s (handle_new_scheduled env a s)"
proof -
  have f: "R s t \<Longrightarrow> R s (t\<lparr>p_timers := x\<rparr>)" for t x
    by (erule then_frame) (simp add: same_core_def)
  show ?thesis
    by (auto simp: handle_new_scheduled_def Let_def intro!: trans [OF _ audit_step] trans [OF _ relay_control_step] f post_response_step)
qed

end

section \<open>The store and the discovered state across quiet and posting steps\<close>

definition keeps_store :: "proc \<Rightarrow> proc \<Rightarrow> bool" where
  "keeps_store s s' \<longleftrightarrow> p_store s' = p_store s \<and> p_state s' = p_state s"

lemma core_emit [simp]: "p_store (emit e s) = p_store s" "p_state (emit e s) = p_state s"
  "p_closed (emit e s) = p_closed s" "p_tracker (emit e s) = p_tracker s"
  "p_trace (emit e s) = p_trace s @ [e]" "p_modes (emit e s) = p_modes s" "p_dderc (emit e s) = p_dderc s"
  by (simp_all add: emit_def)

lemma core_shutdown [simp]: "p_store (shutdown s) = p_store s" "p_state (shutdown s) = p_state s"
  "p_closed (shutdown s)" "p_tracker (shutdown s) = p_tracker s" "p_trace (shutdown s) = p_trace s"
  "p_modes (shutdown s) = p_modes s" "p_dderc (shutdown s) = p_dderc s"
  by (simp_all add: shutdown_def)

lemma core_await [simp]: "p_store (await_point env s) = p_store s" "p_state (await_point env s) = p_state s"
  "p_tracker (await_point env s) = p_tracker s" "p_trace (await_point env s) = p_trace s"
  "p_modes (await_point env s) = p_modes s" "p_dderc (await_point env s) = p_dderc s"
  "p_closed s \<Longrightarrow> p_closed (await_point env s)"
  by (simp_all add: await_point_def Let_def)

interpretation ks: posting_steps keeps_store env for env
proof unfold_locales
  fix s derc code lfdi
  show "keeps_store s (post_one env derc code lfdi s)"
    by (auto simp: keeps_store_def post_one_def Let_def case_prod_beta split: option.splits)
qed (auto simp: keeps_store_def same_core_def)

text \<open>The parts that post nothing leave the tracker alone and add no response to the trace.\<close>

definition posts_nothing :: "proc \<Rightarrow> proc \<Rightarrow> bool" where
  "posts_nothing s s' \<longleftrightarrow> p_tracker s' = p_tracker s \<and>
     (\<exists>es. p_trace s' = p_trace s @ es \<and> (\<forall>e \<in> set es. \<not> is_post e))"

interpretation pn: quiet_steps posts_nothing
proof unfold_locales
  fix s t u
  assume "posts_nothing s t" "posts_nothing t u"
  then show "posts_nothing s u" by (fastforce simp: posts_nothing_def)
qed (auto simp: posts_nothing_def same_core_def)

lemma store_frames [simp]:
  "p_store (relay_control_event env a tr s) = p_store s"
  "p_store (audit_transition env a f t d s) = p_store s"
  "p_store (audit_activation env a f s) = p_store s"
  "p_store (audit_unstored env derc prog prim st dur t s) = p_store s"
  "p_store (post_response env derc code prog ex s) = p_store s"
  "p_store (post_response_for_devices env derc code devs s) = p_store s"
  "p_store (post_started_device_lifecycle env a code s) = p_store s"
  "p_store (apply_dderc_fallback env a cl s) = p_store s"
  "p_store (apply_initial_dderc env prog s) = p_store s"
  "p_store (cancel_event_timers cur mr s) = p_store s"
  "p_store (raise_boundary e s) = p_store s"
  "p_store (snd (dispatch_one env a tgt cs s)) = p_store s"
  "p_store (register_modes a ts s) = p_store s"
  "p_store (finish_task i s) = p_store s"
  "p_store (clear_stale_defaults prog s) = p_store s"
  "p_store (forget_unstored_no_longer_served prog s) = p_store s"
  "p_store (relay_default_baseline env prog derp s) = p_store s"
  using ks.relay_control_step ks.audit_step ks.audit_activation_step ks.audit_unstored_step
    ks.post_response_step ks.post_devices_step ks.lifecycle_post_step ks.fallback_step ks.initial_step
    ks.cancel_timers_step ks.boundary_step ks.dispatch_one_step ks.register_step ks.finish_task_step
    ks.clear_stale_step ks.forget_step ks.relay_baseline_step
  by (simp_all add: keeps_store_def)

lemma record_frame: "p_store s' = p_store s \<Longrightarrow> record_of s' a = record_of s a"
  by (simp add: record_of_def)

section \<open>Stored records\<close>

definition stored :: "proc \<Rightarrow> nat \<Rightarrow> bool" where
  "stored s a \<longleftrightarrow> get_event (p_store s) (ev_mrid (record_of s a)) = Some a"

definition live :: "proc \<Rightarrow> nat \<Rightarrow> bool" where
  "live s a \<longleftrightarrow> stored s a \<and> \<not> terminal (ev_state (record_of s a))"

definition keeps_identity :: "(EventRecord \<Rightarrow> EventRecord) \<Rightarrow> bool" where
  "keeps_identity f \<longleftrightarrow> (\<forall>r. ev_mrid (f r) = ev_mrid r \<and> ev_program_href (f r) = ev_program_href r \<and>
     ev_primacy (f r) = ev_primacy r \<and> ev_state (f r) = ev_state r \<and> ev_start (f r) = ev_start r \<and>
     ev_duration (f r) = ev_duration r)"

text \<open>The moves a handler makes, and their closure.\<close>

fun lifecycle_step :: "EventState \<Rightarrow> EventState \<Rightarrow> bool" where
  "lifecycle_step SCHEDULED st = (st = ACTIVE \<or> st = CANCELLED \<or> st = SUPERSEDED)"
| "lifecycle_step ACTIVE st = (st = COMPLETED \<or> st = CANCELLED \<or> st = SUPERSEDED)"
| "lifecycle_step _ st = False"

lemma lifecycle_cancel: "\<not> terminal st \<Longrightarrow> lifecycle_step st CANCELLED \<and> lifecycle_step st SUPERSEDED"
  by (cases st) (auto simp: terminal_def)

lemma get_event_stored: "wf_store (p_store s) \<Longrightarrow> get_event (p_store s) mr = Some a \<Longrightarrow> stored s a \<and> ev_mrid (record_of s a) = mr"
  by (auto simp: stored_def get_event_def record_of_def dest: wf_storeD)

lemma stored_addresses:
  assumes "wf_store (p_store s)" "a \<in> snd ` set (es_events (p_store s))"
  shows "stored s a"
proof -
  obtain mr where "(mr, a) \<in> set (es_events (p_store s))" using assms(2) by force
  then have "map_of (es_events (p_store s)) mr = Some a"
    using assms(1) by (simp add: wf_store_def wf_dict_map_of)
  then show ?thesis using get_event_stored [OF assms(1)] by (simp add: get_event_def)
qed

lemma distinct_addresses: "wf_store st \<Longrightarrow> distinct (map snd (es_events st))"
proof -
  assume wf: "wf_store st"
  have "inj_on snd (set (es_events st))"
  proof (rule inj_onI)
    fix x y assume xy: "x \<in> set (es_events st)" "y \<in> set (es_events st)" "snd x = snd y"
    have "fst x = ev_mrid (es_heap st (snd x))" "fst y = ev_mrid (es_heap st (snd y))"
      using wf xy by (auto simp: wf_store_def)
    with xy(3) show "x = y" by (simp add: prod_eq_iff)
  qed
  moreover have "distinct (es_events st)"
    using wf by (simp add: wf_store_def wf_dict_def distinct_map)
  ultimately show ?thesis by (simp add: distinct_map)
qed

lemma active_live:
  assumes "wf_store (p_store s)" "a \<in> set (all_active_states (p_store s))"
  shows "live s a"
  using assms stored_addresses [OF assms(1), of a]
  by (auto simp: all_active_states_def live_def record_of_def terminal_def)

lemma distinct_active: "wf_store st \<Longrightarrow> distinct (all_active_states st)"
  by (simp add: all_active_states_def distinct_addresses)

lemma transition_to_Some:
  "transition_to mr st s = Some s' \<longleftrightarrow>
     (\<exists>a. get_event (p_store s) mr = Some a \<and> s' = upd_rec a (\<lambda>r. r\<lparr>ev_state := st\<rparr>) s)"
  by (auto simp: transition_to_def transition_def get_event_def upd_rec_def split: option.splits sum.splits store_error.splits)

lemma upd_rec_store [simp]: "p_store (upd_rec a f s) = upd_record a f (p_store s)"
  by (simp add: upd_rec_def)

lemma record_upd [simp]: "record_of (upd_rec a f s) b = (if b = a then f (record_of s a) else record_of s b)"
  by (simp add: record_of_def upd_rec_def upd_record_def)

lemma events_upd [simp]: "get_event (upd_record a f st) = get_event st" "es_events (upd_record a f st) = es_events st"
  by (simp_all add: get_event_def upd_record_def fun_eq_iff)

lemma handle_cancellation_store:
  "stored s a \<Longrightarrow> p_store (handle_cancellation env cur a s) =
     upd_record a (\<lambda>r. r\<lparr>ev_state := CANCELLED\<rparr>) (p_store s)"
  unfolding handle_cancellation_def Let_def
  by (auto simp: transition_to_def transition_def stored_def get_event_def split: option.splits)

lemma live_other:
  assumes "live s b" "b \<noteq> a" "p_store s' = upd_record a (\<lambda>r. r\<lparr>ev_state := st\<rparr>) (p_store s)"
  shows "live s' b"
  using assms by (auto simp: live_def stored_def record_of_def upd_record_def get_event_def)

section \<open>Steps that change the store\<close>

locale event_steps = posting_steps R env for R :: "proc \<Rightarrow> proc \<Rightarrow> bool" and env :: env +
  assumes wf_step: "R s s' \<Longrightarrow> wf_store (p_store s) \<Longrightarrow> wf_store (p_store s')"
    and upd: "keeps_identity f \<Longrightarrow> R s (upd_rec a f s)"
    and move: "wf_store (p_store s) \<Longrightarrow> stored s a \<Longrightarrow> lifecycle_step (ev_state (record_of s a)) st
      \<Longrightarrow> R s (upd_rec a (\<lambda>r. r\<lparr>ev_state := st\<rparr>) s)"
    and admit: "get_event (p_store s) (ev_mrid r) = None \<Longrightarrow> R s (snd (store_new r s))"
    and prune_store: "R s (s\<lparr>p_store := snd (prune_expired now g (p_store s))\<rparr>)"
    and prune_tracker: "R s (s\<lparr>p_tracker := prune_sent age now (p_tracker s)\<rparr>)"
begin

lemma fold_wf:
  assumes "\<And>x t. x \<in> set xs \<Longrightarrow> wf_store (p_store t) \<Longrightarrow> R t (f x t)" "wf_store (p_store s)"
  shows "R s (fold f xs s)"
  using assms
proof (induction xs arbitrary: s)
  case (Cons x xs)
  have "R s (f x s)" using Cons.prems by simp
  moreover have "R (f x s) (fold f xs (f x s))"
    using Cons.prems wf_step [OF \<open>R s (f x s)\<close>] by (intro Cons.IH) auto
  ultimately show ?case by (simp add: trans)
qed simp

lemma for_each_wf:
  assumes "\<And>x t. x \<in> set xs \<Longrightarrow> wf_store (p_store t) \<Longrightarrow> R t (fst (f x t))" "wf_store (p_store s)"
  shows "R s (fst (for_each f xs s))"
  using assms
proof (induction xs arbitrary: s)
  case (Cons x xs)
  obtain s' ret where fx: "f x s = (s', ret)" by fastforce
  have st: "R s s'" using Cons.prems(1) [of x s] Cons.prems(2) by (simp add: fx)
  have "R s' (fst (for_each f xs s'))"
    using Cons.prems wf_step [OF st] by (intro Cons.IH) auto
  with st show ?case by (simp add: fx trans)
qed simp

lemma respond_step: "R s (respond env a dev failure s)"
proof -
  have k: "keeps_identity (\<lambda>r. r\<lparr>ev_applied_devices := insert dev (ev_applied_devices r)\<rparr>)"
    "keeps_identity (\<lambda>r. r\<lparr>ev_rejected_devices := insert dev (ev_rejected_devices r)\<rparr>)"
    by (simp_all add: keeps_identity_def)
  have m: "R s t \<Longrightarrow> R s (t\<lparr>p_modes := x\<rparr>)" for t x
    by (erule then_frame) (simp add: same_core_def)
  show ?thesis
    unfolding respond_def Let_def
    by (cases failure) (auto intro!: trans [OF _ post_devices_step] m upd k)
qed

lemma report_step: "R s (snd (dispatch_and_report env a cs devs s))"
proof (induction devs arbitrary: s)
  case (Cons d devs)
  obtain f s1 where d: "dispatch_one env a (ByHref d) cs s = (f, s1)" by fastforce
  have "R s s1" using dispatch_one_step [of s a "ByHref d" cs] d by simp
  then have "R s (respond env a d f s1)" using respond_step trans by blast
  with Cons.IH [of "respond env a d f s1"] show ?case by (simp add: d case_prod_beta trans)
qed simp

lemma group_step: "R s (snd (dispatch_by_lfdi_group env a ls ts cs s))"
proof -
  obtain fs s1 where g: "dispatch_group env a cs ls s = (fs, s1)" by fastforce
  have 1: "R s s1" using dispatch_group_step [of s a cs ls] g by simp
  have k: "keeps_identity (add_local l f)" for l f by (simp add: keeps_identity_def add_local_def)
  have 2: "R t (fold (\<lambda>(l, f) s. upd_rec a (add_local l f) s) xs t)" for xs t
    by (rule fold_step) (auto intro: upd k)
  have 3: "R t (fold (\<lambda>dev s. respond env a dev ag s) ts t)" for ag t
    by (rule fold_step) (rule respond_step)
  show ?thesis
    unfolding dispatch_by_lfdi_group_def Let_def g prod.case snd_conv
    by (rule trans [OF trans [OF 1 2] 3])
qed

lemma apply_control_step: "R s (snd (apply_control_to_devices env a s))"
  unfolding apply_control_to_devices_def Let_def
  by (auto split: option.split intro: trans [OF register_step] group_step report_step)

lemma apply_and_respond_step: "R s (apply_and_respond env a s)"
proof -
  obtain oc s1 where d: "apply_control_to_devices env a s = (oc, s1)" by fastforce
  have "R s s1" using apply_control_step [of s a] d by simp
  then show ?thesis by (auto simp: apply_and_respond_def d Let_def intro: trans post_response_step)
qed

lemma opted_out_identity: "keeps_identity (\<lambda>r. r\<lparr>ev_opted_out := True\<rparr>)"
  by (simp add: keeps_identity_def)

lemma opt_out_step: "R s (opt_out_event env cur a f s)"
  unfolding opt_out_event_def Let_def
  by (rule trans [OF _ fallback_step], rule trans [OF _ cancel_timers_step], rule trans [OF _ boundary_step],
      rule trans [OF _ audit_step], rule upd, rule opted_out_identity)

lemma comms_loss_step: "R s (enter_comms_loss env cur s)"
proof -
  have 1: "R t (fold (\<lambda>a s. audit_transition env a (Some ''active'') ''opted_out'' NoDetails
      (cancel_event_timers cur (ev_mrid (record_of (upd_rec a (\<lambda>r. r\<lparr>ev_opted_out := True\<rparr>) s) a))
        (upd_rec a (\<lambda>r. r\<lparr>ev_opted_out := True\<rparr>) s))) as t)" for as t
    by (rule fold_step, rule trans [OF _ audit_step], rule trans [OF _ cancel_timers_step], rule upd, rule opted_out_identity)
  have 2: "R t (fold (\<lambda>a s. apply_dderc_fallback env a True s) as t)" for as t
    by (rule fold_step) (rule fallback_step)
  show ?thesis
  proof (cases "running_events s = []")
    case False
    show ?thesis
      unfolding enter_comms_loss_def Let_def if_not_P [OF False]
      by (rule trans [OF trans [OF boundary_step 1] 2])
  qed (simp add: enter_comms_loss_def)
qed

lemma cancellation_step:
  assumes "wf_store (p_store s)" "live s a"
  shows "R s (handle_cancellation env cur a s)"
proof -
  let ?s1 = "upd_rec a (\<lambda>r. r\<lparr>ev_state := CANCELLED\<rparr>) s"
  have tr: "transition_to (ev_mrid (record_of s a)) CANCELLED s = Some ?s1"
    using assms(2) by (auto simp: transition_to_Some live_def stored_def)
  have mv: "R s ?s1" using assms by (intro move) (auto simp: live_def lifecycle_cancel)
  have tm: "R s t \<Longrightarrow> R s (t\<lparr>p_timers := x\<rparr>)" for t x
    by (erule then_frame) (simp add: same_core_def)
  have "R s (post_started_device_lifecycle env a RC_CANCELLED (audit_transition env a f tt d
      (relay_control_event env a tr (cancel_event_timers cur mr ?s1))))" for f tt d tr mr
    by (rule trans [OF _ lifecycle_post_step], rule trans [OF _ audit_step],
        rule trans [OF _ relay_control_step], rule trans [OF mv cancel_timers_step])
  then show ?thesis
    unfolding handle_cancellation_def Let_def tr option.case
    by (auto intro: tm trans [OF _ fallback_step])
qed

lemma supersession_bookkeeping_step:
  "R s (upd_rec a (\<lambda>r. r\<lparr>ev_superseded_devices := ev_superseded_devices r \<union> X\<rparr>) s)"
  "R s (fold (\<lambda>dev. upd_rec a (\<lambda>r. r\<lparr>ev_superseded_modes :=
      dset dev (dget_or (ev_superseded_modes r) dev {} \<union> M) (ev_superseded_modes r)\<rparr>)) ds s)"
  by (rule upd, simp add: keeps_identity_def)
    (rule fold_step, rule upd, simp add: keeps_identity_def)

text \<open>The state of an event across the bookkeeping of its own supersession.\<close>

lemma record_fold_upd:
  assumes "\<And>x r. ev_mrid (f x r) = ev_mrid r \<and> ev_state (f x r) = ev_state r"
  shows "ev_mrid (record_of (fold (\<lambda>x. upd_rec a (f x)) xs s) b) = ev_mrid (record_of s b) \<and>
    ev_state (record_of (fold (\<lambda>x. upd_rec a (f x)) xs s) b) = ev_state (record_of s b) \<and>
    get_event (p_store (fold (\<lambda>x. upd_rec a (f x)) xs s)) = get_event (p_store s)"
  by (induction xs arbitrary: s) (auto simp: assms)

lemma mark_superseded_live: "live s a \<Longrightarrow> live (mark_superseded env res a s) a"
proof -
  assume live: "live s a"
  define s1 where "s1 = upd_rec a (\<lambda>r. r\<lparr>ev_superseded_devices := ev_superseded_devices r \<union> affected_devices res\<rparr>) s"
  define s2 where "s2 = (let announce = affected_devices res - ev_superseded_devices (record_of s a) - ev_rejected_devices (record_of s1 a)
      in if announce = {} then s1
         else post_response_for_devices env (ev_derc (record_of s1 a)) RC_SUPERSEDED announce s1)"
  have p2: "p_store s2 = p_store s1" by (simp add: s2_def Let_def)
  have "live s1 a" using live by (simp add: s1_def live_def stored_def)
  then have "live s2 a" unfolding live_def stored_def record_frame [OF p2] p2 .
  moreover have "mark_superseded env res a s = (if affected_modes res = {} then s2
      else fold (\<lambda>dev. upd_rec a (\<lambda>r. r\<lparr>ev_superseded_modes :=
             dset dev (dget_or (ev_superseded_modes r) dev {} \<union> affected_modes res) (ev_superseded_modes r)\<rparr>))
           (iter_set (env_order env) (affected_devices res)) s2)"
    by (simp only: mark_superseded_def Let_def s1_def s2_def)
  ultimately show ?thesis
    by (simp add: live_def stored_def record_fold_upd)
qed

lemma mark_superseded_step: "R s (mark_superseded env res a s)"
proof -
  have ite: "R s x \<Longrightarrow> R s y \<Longrightarrow> R s (if c then x else y)" for c x y by simp
  show ?thesis
    unfolding mark_superseded_def Let_def
    by (intro ite trans [OF _ supersession_bookkeeping_step(2)] trans [OF _ post_devices_step]
        supersession_bookkeeping_step(1))
qed

lemma finish_superseded_step:
  assumes "wf_store (p_store s)" "live s a"
  shows "R s (finish_superseded env cur win a s)"
proof -
  let ?s1 = "upd_rec a (\<lambda>r. r\<lparr>ev_state := SUPERSEDED\<rparr>) s"
  have tr: "transition_to (ev_mrid (record_of s a)) SUPERSEDED s = Some ?s1"
    using assms(2) by (auto simp: transition_to_Some live_def stored_def)
  have mv: "R s ?s1" using assms by (intro move) (auto simp: live_def lifecycle_cancel)
  have "R s (audit_transition env a f ''superseded'' d (relay_control_event env a ''superseded''
      (cancel_event_timers cur mr ?s1)))" for d f mr
    by (rule trans [OF _ audit_step], rule trans [OF _ relay_control_step], rule trans [OF mv cancel_timers_step])
  then show ?thesis
    unfolding finish_superseded_def tr Let_def option.case by (auto intro: trans [OF _ fallback_step])
qed

lemma live_store: "p_store s' = p_store s \<Longrightarrow> live s' a = live s a"
  by (simp add: live_def stored_def record_of_def)

lemma apply_supersession_step:
  assumes wf: "wf_store (p_store s)"
  shows "R s (apply_supersession env cur dm res s)"
proof -
  have fin: "R s (if fully then finish_superseded env cur win a s2 else s2)"
    if "live s a" "s2 = mark_superseded env res a s \<or>
      s2 = audit_transition env a f f' d (mark_superseded env res a s)" for a fully win s2 f f' d
  proof -
    have 2: "R s s2" using that(2) mark_superseded_step trans [OF mark_superseded_step audit_step] by metis
    have "live s2 a"
      using that mark_superseded_live [OF that(1)] live_store [of s2 "mark_superseded env res a s"] by auto
    then show ?thesis using 2 trans [OF 2 finish_superseded_step [OF wf_step [OF 2 wf]]] by simp
  qed
  have body: "R s (if terminal (ev_state (record_of s a)) then s else if c then s
      else if fully then finish_superseded env cur win a
             (if p then audit_transition env a f f' d (mark_superseded env res a s) else mark_superseded env res a s)
           else if p then audit_transition env a f f' d (mark_superseded env res a s) else mark_superseded env res a s)"
    if "get_event (p_store s) (superseded_mrid res) = Some a" for a c fully win p f f' d
    using get_event_stored [OF wf that] fin [where a = a and fully = fully and win = win and f = f and f' = f' and d = d]
    by (auto simp: live_def)
  show ?thesis
    unfolding apply_supersession_def Let_def
    by (cases "get_event (p_store s) (superseded_mrid res)"; cases "get_event (p_store s) (superseding_mrid res)";
        simp only: option.case prod.case refl) (rule body)
qed

lemma run_supersession_step: "wf_store (p_store s) \<Longrightarrow> R s (run_supersession env cur s)"
  unfolding run_supersession_def Let_def
  by (simp split: if_split, intro impI fold_wf apply_supersession_step)

lemma then_timers: "R s t \<Longrightarrow> R s (t\<lparr>p_timers := x\<rparr>)"
  by (erule then_frame) (simp add: same_core_def)

lemma start_running_step:
  assumes "wf_store (p_store s)"
  shows "R s (start_running env cur a f s)"
proof -
  have 1: "R s (run_supersession env cur s)" by (rule run_supersession_step [OF assms])
  then have 2: "R s (apply_and_respond env a (run_supersession env cur s))"
    by (rule trans) (rule apply_and_respond_step)
  then have "R s (audit_activation env a f (relay_control_event env a ''active''
      (apply_and_respond env a (run_supersession env cur s))))"
    by (intro trans [OF _ audit_activation_step] trans [OF _ relay_control_step])
  with 1 2 show ?thesis
    unfolding start_running_def Let_def by (simp add: then_timers split: if_split)
qed

lemma late_discovery_step:
  assumes "wf_store (p_store s)"
  shows "R s (handle_late_discovery env cur a s)"
proof -
  have 1: "R s (post_response env d c p x s)" for d c p x by (rule post_response_step)
  have 2: "R s (start_running env cur a f (post_response env d c p x s))" for d c p x f
    by (rule trans [OF 1 start_running_step]) (simp add: assms)
  show ?thesis
    unfolding handle_late_discovery_def Let_def by (simp add: opt_out_step 1 2 split: if_split)
qed

lemma on_activation_step:
  assumes "wf_store (p_store s)" "stored s a"
  shows "R s (on_activation env cur a s)"
proof (cases "ev_state (record_of s a) = SCHEDULED")
  case True
  let ?s1 = "upd_rec a (\<lambda>r. r\<lparr>ev_state := ACTIVE\<rparr>) s"
  have tr: "transition_to (ev_mrid (record_of s a)) ACTIVE s = Some ?s1"
    using assms(2) by (auto simp: transition_to_Some stored_def)
  have mv: "R s ?s1" using assms True by (intro move) auto
  have "R s (opt_out_event env cur a f ?s1)" "R s (start_running env cur a f ?s1)" for f
    using trans [OF mv opt_out_step] trans [OF mv start_running_step [OF wf_step [OF mv assms(1)]]] by auto
  then show ?thesis unfolding on_activation_def Let_def tr option.case by simp
qed (simp add: on_activation_def)

lemma on_completion_step:
  assumes "wf_store (p_store s)" "stored s a"
  shows "R s (on_completion env a s)"
proof (cases "ev_state (record_of s a) = ACTIVE")
  case True
  let ?s1 = "upd_rec a (\<lambda>r. r\<lparr>ev_state := COMPLETED\<rparr>) s"
  have tr: "transition_to (ev_mrid (record_of s a)) COMPLETED s = Some ?s1"
    using assms(2) by (auto simp: transition_to_Some stored_def)
  have mv: "R s ?s1" using assms True by (intro move) auto
  have "R s (apply_dderc_fallback env a False (post_started_device_lifecycle env a RC_COMPLETED
      (audit_transition env a (Some ''active'') ''completed'' NoDetails (relay_control_event env a ''completed'' ?s1))))"
    by (intro trans [OF _ fallback_step] trans [OF _ lifecycle_post_step] trans [OF _ audit_step]
        trans [OF _ relay_control_step] mv)
  with True show ?thesis unfolding on_completion_def Let_def tr option.case by simp
qed (simp add: on_completion_def)

lemma callback_step:
  assumes "wf_store (p_store s)" "stored s (tt_record (tm_heap (p_timers s) i))"
  shows "R s (run_callback env i s)"
  unfolding run_callback_def Let_def
  by (auto split: callback.split intro: on_activation_step on_completion_step fallback_step assms)

lemma wake_step:
  assumes "wf_store (p_store s)" "stored s (tt_record (tm_heap (p_timers s) i))"
  shows "R s (wake_task env i s)"
proof -
  have fin: "R s (finish_task i s)" by (rule finish_task_step)
  have rec: "tt_record (tm_heap (p_timers (finish_task i s)) i) = tt_record (tm_heap (p_timers s) i)"
    by (simp add: finish_task_def)
  have "stored (finish_task i s) (tt_record (tm_heap (p_timers (finish_task i s)) i))"
    unfolding rec using assms(2) by (simp add: stored_def record_of_def)
  then have "R s (run_callback env i (finish_task i s))"
    using trans [OF fin callback_step [of "finish_task i s" i]] assms(1) by simp
  with fin show ?thesis unfolding wake_task_def Let_def by (auto split: wake.split)
qed

lemma timing_step: "R s (snd (snd (effective_timing env prog derc s)))"
  by (rule frame) (simp add: effective_timing_def Let_def case_prod_beta same_core_def split: option.split)

lemma timing_store [simp]: "p_store (snd (snd (effective_timing env prog derc s))) = p_store s"
  by (simp add: effective_timing_def Let_def case_prod_beta split: option.split)

lemma refresh_step:
  assumes wf: "wf_store (p_store s)" and st: "stored s a"
  shows "R s (fst (refresh_existing env cur a derc s))"
proof -
  define f where "f = (\<lambda>r :: EventRecord. r\<lparr>ev_derc := derc, ev_server_status_time := server_status_time_of derc,
      ev_creation_time := (case creation_time derc of None \<Rightarrow> ev_creation_time r | Some t \<Rightarrow> t)\<rparr>)"
  have 1: "R s (upd_rec a f s)" by (rule upd) (simp add: keeps_identity_def f_def)
  have st1: "stored (upd_rec a f s) a" using st by (simp add: stored_def f_def)
  have "R s (handle_cancellation env cur a (upd_rec a f s))"
    if "ev_state (record_of (upd_rec a f s) a) \<in> {SCHEDULED, ACTIVE}"
    using that by (intro trans [OF 1] cancellation_step wf_step [OF 1 wf])
      (auto simp: live_def st1 terminal_def)
  moreover have "R s (relay_control_event env a t (upd_rec a f s))" for t
    by (rule trans [OF 1 relay_control_step])
  ultimately show ?thesis
    unfolding refresh_existing_def Let_def f_def [symmetric] by simp
qed

lemma admit_step:
  assumes wf: "wf_store (p_store s)" and new: "get_event (p_store s) (m_rid derc) = None"
  shows "R s (fst (admit_new env cur prog derp now derc es ed s))"
proof -
  define r where "r = new_EventRecord (m_rid derc) derc prog (dp_primacy derp)
      (if now \<ge> es then ACTIVE else SCHEDULED) es ed (server_status_time_of derc)
      (case creation_time derc of None \<Rightarrow> 0 | Some t \<Rightarrow> t)"
  have adm: "R s (snd (store_new (r\<lparr>ev_state := st\<rparr>) s))" "R s (snd (store_new r s))" for st
    using new by (auto intro!: admit simp: r_def new_EventRecord_def)
  have can: "R s (post_response env derc RC_CANCELLED prog {} (relay_control_event env a t
      (audit_transition env a f t' d (snd (store_new (r\<lparr>ev_state := st\<rparr>) s)))))" for st a t t' f d
    by (intro trans [OF _ post_response_step] trans [OF _ relay_control_step] trans [OF _ audit_step] adm)
  have cl: "R s (clear_stale_defaults prog (snd (store_new r s)))"
    by (rule trans [OF adm(2) clear_stale_step])
  have "R s (handle_new_scheduled env a (clear_stale_defaults prog (snd (store_new r s))))"
    "R s (handle_late_discovery env cur a (clear_stale_defaults prog (snd (store_new r s))))" for a
    using trans [OF cl new_scheduled_step] trans [OF cl late_discovery_step [OF wf_step [OF cl wf]]] by auto
  with can show ?thesis
    unfolding admit_new_def Let_def r_def [symmetric] case_prod_beta by simp
qed

lemma process_one_step:
  assumes wf: "wf_store (p_store s)"
  shows "R s (fst (process_one env cur prog derp now derc s))"
proof -
  obtain es ed t where t: "effective_timing env prog derc s = (es, ed, t)" by (metis prod_cases3)
  have 1: "R s t" and p: "p_store t = p_store s"
    using timing_step [of s prog derc] timing_store [of prog derc s] t by auto
  have wf1: "wf_store (p_store t)" using wf p by simp
  have ex: "R s (fst (refresh_existing env cur a derc t))" if "get_event (p_store t) (m_rid derc) = Some a" for a
    using trans [OF 1 refresh_step [OF wf1]] get_event_stored [OF wf1 that] by blast
  have un: "R s (audit_unstored env derc prog p1 es ed k t)" for p1 k
    by (rule trans [OF 1 audit_unstored_step])
  have exp: "R s (post_response env derc c prog {} (audit_unstored env derc prog p1 es ed k t))" for p1 k c
    by (rule trans [OF un post_response_step])
  have ad: "R s (fst (admit_new env cur prog derp now derc es ed t))" if "get_event (p_store t) (m_rid derc) = None"
    by (rule trans [OF 1 admit_step [OF wf1 that]])
  show ?thesis
    unfolding process_one_def Let_def t prod.case
    using 1 ex un exp ad by (cases "get_event (p_store t) (m_rid derc)") (auto simp: Let_def split: option.split)
qed

text \<open>The two loops over the live events: handling one leaves the others as they were.\<close>

lemma reconcile_one_facts:
  assumes "wf_store (p_store s)" "live s a"
  shows "R s (fst (reconcile_one env cur prog now served a s))"
    and "live s b \<Longrightarrow> b \<noteq> a \<Longrightarrow> live (fst (reconcile_one env cur prog now served a s)) b"
proof -
  have c: "R s (handle_cancellation env cur a s)" by (rule cancellation_step [OF assms])
  then show "R s (fst (reconcile_one env cur prog now served a s))"
    by (simp add: reconcile_one_def Let_def)
  have "p_store (handle_cancellation env cur a s) = upd_record a (\<lambda>r. r\<lparr>ev_state := CANCELLED\<rparr>) (p_store s)"
    using assms(2) by (intro handle_cancellation_store) (simp add: live_def)
  then show "live s b \<Longrightarrow> b \<noteq> a \<Longrightarrow> live (fst (reconcile_one env cur prog now served a s)) b"
    by (auto simp: reconcile_one_def Let_def intro: live_other)
qed

lemma reconcile_loop:
  assumes "wf_store (p_store s)" "distinct as" "\<And>a. a \<in> set as \<Longrightarrow> live s a"
  shows "R s (fst (for_each (reconcile_one env cur prog now served) as s))"
  using assms
proof (induction as arbitrary: s)
  case (Cons a as)
  obtain s' ret where r: "reconcile_one env cur prog now served a s = (s', ret)" by fastforce
  have la: "live s a" using Cons.prems by simp
  have 1: "R s s'" using reconcile_one_facts(1) [OF Cons.prems(1) la, of cur prog now served] r by simp
  have "live s' b" if "b \<in> set as" for b
    using reconcile_one_facts(2) [OF Cons.prems(1) la, of b cur prog now served] Cons.prems that r by auto
  then have "R s' (fst (for_each (reconcile_one env cur prog now served) as s'))"
    using Cons.prems wf_step [OF 1] by (intro Cons.IH) auto
  with 1 show ?case by (simp add: r trans)
qed simp

lemma reconcile_step: "wf_store (p_store s) \<Longrightarrow> R s (fst (reconcile_removed env cur prog derp now s))"
  unfolding reconcile_removed_def
  by (simp split: if_split, intro impI reconcile_loop) (auto intro: distinct_active active_live)

lemma prune_all_step: "R s (prune_all prog now s)"
proof -
  have 1: "R s (s\<lparr>p_store := snd (prune_expired now STORE_GRACE (p_store s)), p_snapshots := x, p_rand := y\<rparr>)" for x y
    by (rule then_frame [OF prune_store]) (simp add: same_core_def)
  show ?thesis
    unfolding prune_all_def Let_def case_prod_beta
    by (rule trans [OF trans [OF 1 forget_step] prune_tracker])
qed

lemma process_controls_step:
  assumes wf: "wf_store (p_store s)"
  shows "R s (process_controls env cur prog s)"
proof (cases "p_closed s \<or> map_of (der_programs (p_state s)) prog = None")
  case False
  then obtain derp where derp: "map_of (der_programs (p_state s)) prog = Some derp" by auto
  define s1 where "s1 = relay_default_baseline env prog derp s"
  define now where "now = now_of env (fsa_scope s1 prog) s1"
  obtain s2 r2 where s2: "for_each (process_one env cur prog derp now) (der_controls derp) s1 = (s2, r2)" by fastforce
  obtain s3 r3 where s3: "reconcile_removed env cur prog derp now s2 = (s3, r3)" by fastforce
  have 1: "R s s1" by (simp add: s1_def relay_baseline_step)
  have "R s1 s2"
    using for_each_wf [of "der_controls derp" "process_one env cur prog derp now" s1] process_one_step wf s2
    by (simp add: s1_def)
  with 1 have 2: "R s s2" by (rule trans)
  then have 3: "R s s3" using reconcile_step [OF wf_step [OF 2 wf], of cur prog derp now] s3 trans by auto
  then have 4: "R s (run_supersession env cur s3)"
    by (rule trans) (rule run_supersession_step [OF wf_step [OF 3 wf]])
  then have 5: "R s (apply_initial_dderc env prog (prune_all prog now (run_supersession env cur s3)))"
    by (intro trans [OF _ initial_step] trans [OF _ prune_all_step])
  show ?thesis
    using False 2 3 4 5
    by (simp add: process_controls_def derp Let_def s1_def [symmetric] now_def [symmetric] s2 s3)
qed (auto simp: process_controls_def)

lemma cancel_program_loop:
  assumes "wf_store (p_store s)" "distinct as" "\<And>a. a \<in> set as \<Longrightarrow> live s a"
  shows "R s (fold (\<lambda>a s.
            let r = record_of s a
            in if ev_program_href r \<noteq> prog then s
               else case transition_to (ev_mrid r) CANCELLED s of
                      None \<Rightarrow> s
                    | Some s' \<Rightarrow>
                        let s'' = audit_transition env a (Some (state_value (ev_state r))) ''cancelled'' NoDetails s'
                        in relay_control_event env a ''cancelled'' (cancel_event_timers cur (ev_mrid r) s'')) as s)"
    (is "R s (fold ?f as s)")
  using assms
proof (induction as arbitrary: s)
  case (Cons a as)
  let ?s1 = "upd_rec a (\<lambda>r. r\<lparr>ev_state := CANCELLED\<rparr>) s"
  have la: "live s a" using Cons.prems by simp
  have tr: "transition_to (ev_mrid (record_of s a)) CANCELLED s = Some ?s1"
    using la by (auto simp: transition_to_Some live_def stored_def)
  have mv: "R s ?s1" using la Cons.prems by (intro move) (auto simp: live_def lifecycle_cancel)
  have 1: "R s (?f a s)"
    unfolding Let_def tr option.case
    by (simp split: if_split) (intro impI trans [OF _ relay_control_step] trans [OF _ cancel_timers_step] trans [OF _ audit_step] mv)
  have "p_store (?f a s) = upd_record a (\<lambda>r. r\<lparr>ev_state := CANCELLED\<rparr>) (p_store s) \<or> p_store (?f a s) = p_store s"
    unfolding Let_def tr option.case by simp
  then have other: "live (?f a s) b" if "live s b" "b \<noteq> a" for b
    by (rule disjE) (erule live_other [OF that], drule live_store, erule iffD2, rule that)
  have "live (?f a s) b" if "b \<in> set as" for b
  proof (rule other)
    show "live s b" "b \<noteq> a" using Cons.prems(2,3) that by auto
  qed
  then have "R (?f a s) (fold ?f as (?f a s))"
    using Cons.prems(2) by (intro Cons.IH wf_step [OF 1 Cons.prems(1)]) simp_all
  from trans [OF 1 this] show ?case unfolding fold_Cons o_apply .
qed simp

lemma cancel_program_step:
  assumes "wf_store (p_store s)"
  shows "R s (cancel_program env cur prog s)"
  unfolding cancel_program_def Let_def
  by (rule then_frame [OF cancel_program_loop
        [where cur = cur and prog = prog, unfolded Let_def, OF assms distinct_active [OF assms] active_live [OF assms]]])
    (simp_all add: same_core_def)

end

end
