(* ===== verification/Processor_Props.thy ===== *)
theory Processor_Props
  imports Processor_Contract
begin

text \<open>
  The contracts of \<open>Processor_Contract\<close> at work: the lifecycle of an event record, the
  responses that reach the network, and shutdown, each as a relation every handler keeps;
  the runs of the processor as a step relation; and the behaviour of single handlers.
\<close>

section \<open>The store stays well formed\<close>

definition wf_kept :: "proc \<Rightarrow> proc \<Rightarrow> bool" where
  "wf_kept s s' \<longleftrightarrow> (wf_store (p_store s) \<longrightarrow> wf_store (p_store s'))"

lemma wf_upd: "keeps_identity f \<Longrightarrow> wf_kept s (upd_rec a f s)"
  by (auto simp: wf_kept_def keeps_identity_def intro: wf_store_upd_record)

lemma wf_move: "wf_kept s (upd_rec a (\<lambda>r. r\<lparr>ev_state := st\<rparr>) s)"
  by (auto simp: wf_kept_def intro: wf_store_upd_record)

lemma wf_store_new: "wf_kept s (snd (store_new r s))"
  unfolding wf_kept_def store_new_def
  by (auto simp: alloc_def intro!: wf_store_upsert dest: wf_store_alloc [of _ r] simp: case_prod_beta)

lemma wf_prune_proc: "wf_kept s (s\<lparr>p_store := snd (prune_expired now g (p_store s))\<rparr>)"
  by (simp add: wf_kept_def wf_store_prune)

lemma wf_same_store: "p_store s' = p_store s \<Longrightarrow> wf_kept s s'"
  by (simp add: wf_kept_def)

lemma store_post_one [simp]: "p_store (post_one env d c l s) = p_store s" "p_state (post_one env d c l s) = p_state s"
  using ks.post_one_step [of s env d c l] by (simp_all add: keeps_store_def)

section \<open>The lifecycle of a record\<close>

definition lifecycle :: "EventState \<Rightarrow> EventState \<Rightarrow> bool" where
  "lifecycle st st' \<longleftrightarrow> st' = st \<or> st = SCHEDULED \<or> (st = ACTIVE \<and> terminal st')"

lemma lifecycle_trans: "lifecycle a b \<Longrightarrow> lifecycle b c \<Longrightarrow> lifecycle a c"
  by (auto simp: lifecycle_def terminal_def)

lemma lifecycle_of_step: "lifecycle_step a b \<Longrightarrow> lifecycle a b"
  by (cases a) (auto simp: lifecycle_def terminal_def)

lemma lifecycle_is_closure: "lifecycle a b \<longleftrightarrow> lifecycle_step\<^sup>*\<^sup>* a b"
proof
  assume l: "lifecycle a b"
  have sa: "lifecycle_step\<^sup>*\<^sup>* SCHEDULED ACTIVE" by (rule r_into_rtranclp) simp
  have "lifecycle_step\<^sup>*\<^sup>* ACTIVE c" if "terminal c" for c
    by (rule r_into_rtranclp) (use that in \<open>auto simp: terminal_def\<close>)
  then show "lifecycle_step\<^sup>*\<^sup>* a b"
    using l rtranclp_trans [OF sa] sa by (cases b) (auto simp: lifecycle_def terminal_def)
next
  assume "lifecycle_step\<^sup>*\<^sup>* a b"
  then show "lifecycle a b"
    by (induction rule: rtranclp_induct) (auto simp: lifecycle_def [of a a] intro: lifecycle_trans lifecycle_of_step)
qed

definition same_event :: "EventRecord \<Rightarrow> EventRecord \<Rightarrow> bool" where
  "same_event r r' \<longleftrightarrow> ev_mrid r' = ev_mrid r \<and> ev_program_href r' = ev_program_href r \<and>
     ev_primacy r' = ev_primacy r \<and> ev_start r' = ev_start r \<and> ev_duration r' = ev_duration r"

definition evolves :: "proc \<Rightarrow> proc \<Rightarrow> bool" where
  "evolves s s' \<longleftrightarrow> wf_kept s s' \<and> es_next (p_store s) \<le> es_next (p_store s') \<and>
     (\<forall>a < es_next (p_store s). same_event (record_of s a) (record_of s' a) \<and>
        lifecycle (ev_state (record_of s a)) (ev_state (record_of s' a)))"

lemma evolves_same_store: "p_store s' = p_store s \<Longrightarrow> evolves s s'"
  by (simp add: evolves_def wf_kept_def record_of_def same_event_def lifecycle_def)

lemma evolves_trans:
  assumes "evolves s t" "evolves t u"
  shows "evolves s u"
  unfolding evolves_def
proof (intro conjI allI impI)
  show "wf_kept s u" "es_next (p_store s) \<le> es_next (p_store u)"
    using assms by (auto simp: evolves_def wf_kept_def)
  fix a assume a: "a < es_next (p_store s)"
  then have b: "a < es_next (p_store t)" using assms by (simp add: evolves_def)
  show "same_event (record_of s a) (record_of u a)"
    using assms a b by (simp add: evolves_def same_event_def)
  show "lifecycle (ev_state (record_of s a)) (ev_state (record_of u a))"
    using assms a b lifecycle_trans unfolding evolves_def by blast
qed

lemma next_upd [simp]: "es_next (upd_record a f st) = es_next st"
  by (simp add: upd_record_def)

interpretation ev: event_steps evolves env for env
proof unfold_locales
  fix s t u
  show "evolves s s" by (rule evolves_same_store) simp
  show "evolves s t \<Longrightarrow> evolves t u \<Longrightarrow> evolves s u" by (rule evolves_trans)
  show "same_core s t \<Longrightarrow> evolves s t" by (rule evolves_same_store) (simp add: same_core_def)
  show "evolves s (emit e s)" for e by (rule evolves_same_store) simp
  show "evolves s (shutdown s)" by (rule evolves_same_store) simp
  show "evolves s (post_one env d c l s)" for d c l by (rule evolves_same_store) simp
  show "evolves s t \<Longrightarrow> wf_store (p_store s) \<Longrightarrow> wf_store (p_store t)" by (simp add: evolves_def wf_kept_def)
  show "evolves s (upd_rec a f s)" if "keeps_identity f" for f a
    using that wf_upd [OF that] by (auto simp: evolves_def keeps_identity_def same_event_def lifecycle_def)
  show "evolves s (upd_rec a (\<lambda>r. r\<lparr>ev_state := st\<rparr>) s)"
    if "lifecycle_step (ev_state (record_of s a)) st" for a st
    using that wf_move by (auto simp: evolves_def same_event_def intro: lifecycle_of_step)
      (simp add: lifecycle_def)
  show "evolves s (snd (store_new r s))" for r
    using wf_store_new [of s r]
    by (auto simp: evolves_def store_new_def alloc_def upsert_def record_of_def same_event_def lifecycle_def)
  show "evolves s (s\<lparr>p_store := snd (prune_expired now g (p_store s))\<rparr>)" for now g
  proof -
    have "es_next (snd (prune_loop n g is ex st)) = es_next st \<and> es_heap (snd (prune_loop n g is ex st)) = es_heap st"
      for n g "is" ex st
      by (induction n g "is" ex st rule: prune_loop.induct) auto
    then show ?thesis
      using wf_prune_proc by (simp add: evolves_def prune_expired_def record_of_def same_event_def lifecycle_def)
  qed
  show "evolves s (s\<lparr>p_tracker := prune_sent age now (p_tracker s)\<rparr>)" for age now
    by (rule evolves_same_store) simp
qed

section \<open>What reaches the network\<close>

text \<open>A POSTed body carries a status of the code table; the 2018 edition never gets 251.\<close>

definition legal_status :: "ServerProfile \<Rightarrow> int \<Rightarrow> bool" where
  "legal_status p v \<longleftrightarrow> (\<exists>c. v = code_value c) \<and> (is_2018 p \<longrightarrow> v \<noteq> 251)"

definition legal_effect :: "env \<Rightarrow> effect \<Rightarrow> bool" where
  "legal_effect env e \<longleftrightarrow> (case e of
       Posted b _ \<Rightarrow> legal_status (env_profile env) (rb_status b) \<and> rb_path b \<noteq> []
     | _ \<Rightarrow> True)"

definition posts_legally :: "env \<Rightarrow> proc \<Rightarrow> proc \<Rightarrow> bool" where
  "posts_legally env s s' \<longleftrightarrow> wf_kept s s' \<and>
     (\<exists>es. p_trace s' = p_trace s @ es \<and> (\<forall>e \<in> set es. legal_effect env e))"

lemma post_der_response_body:
  assumes "snd (post_der_response a b p derc code lfdi now m oc t) = Some body"
  shows "\<exists>c. resolve_wire_code (response_required derc) code p = Some c \<and> rb_status body = code_value c
      \<and> response_required_allows (response_required derc) c \<and> reply_to derc = Some (rb_path body)
      \<and> rb_path body \<noteq> [] \<and> rb_lfdi body = lfdi \<and> rb_subject body = m_rid derc"
  using assms
  by (auto simp: post_der_response_def Let_def response_gate_def build_der_response_def
      split: option.splits prod.splits reserve_result.splits if_splits)

lemma legal_wire_status:
  assumes "resolve_wire_code rr code p = Some c"
  shows "legal_status p (code_value c)"
proof -
  have "c \<noteq> RC_NOT_SUPPORTED" if "is_2018 p"
    using assms that by (auto simp: resolve_wire_code_Some Let_def split: if_splits)
  moreover have "code_value c = 251 \<Longrightarrow> c = RC_NOT_SUPPORTED"
    using code_value_inj [of c RC_NOT_SUPPORTED] by (simp add: code_value_def code_table_def)
  ultimately show ?thesis by (auto simp: legal_status_def)
qed

lemma posts_legally_trans: "posts_legally env s t \<Longrightarrow> posts_legally env t u \<Longrightarrow> posts_legally env s u"
  by (fastforce simp: posts_legally_def wf_kept_def)

lemma posts_legally_same:
  "p_trace s' = p_trace s \<Longrightarrow> wf_kept s s' \<Longrightarrow> posts_legally env s s'"
  by (simp add: posts_legally_def)

lemma posts_legally_post: "posts_legally env s (post_one env d c l s)"
proof -
  obtain t body where p: "post_der_response (env_s2018 env) (env_s2023 env) (env_profile env) d c l
      (now_of env None s) (supported_modes2 env l)
      (case env_post env (p_tick s) of None \<Rightarrow> PostOk | Some err \<Rightarrow> PostFailed err) (p_tracker s) = (t, body)"
    by fastforce
  have tr: "p_trace (post_one env d c l s) = p_trace s @ (case body of None \<Rightarrow> [] | Some b \<Rightarrow>
      [Posted b ((case env_post env (p_tick s) of None \<Rightarrow> PostOk | Some err \<Rightarrow> PostFailed err) = PostOk)])"
    unfolding post_one_def Let_def p prod.case by (simp split: option.split)
  have "legal_status (env_profile env) (rb_status b) \<and> rb_path b \<noteq> []" if "body = Some b" for b
    using post_der_response_body [of "env_s2018 env" "env_s2023 env" "env_profile env" d c l] p that legal_wire_status
    by (metis snd_conv)
  then show ?thesis
    unfolding posts_legally_def tr by (auto simp: wf_same_store legal_effect_def split: option.split)
qed

interpretation pl: event_steps "posts_legally env" env for env
proof unfold_locales
  fix s t u
  show "posts_legally env s s" by (rule posts_legally_same) (simp_all add: wf_kept_def)
  show "posts_legally env s t \<Longrightarrow> posts_legally env t u \<Longrightarrow> posts_legally env s u" by (rule posts_legally_trans)
  show "same_core s t \<Longrightarrow> posts_legally env s t" by (simp add: posts_legally_def same_core_def wf_kept_def)
  show "\<not> is_post e \<Longrightarrow> posts_legally env s (emit e s)" for e
    by (auto simp: posts_legally_def wf_kept_def is_post_def legal_effect_def split: effect.splits)
  show "posts_legally env s (shutdown s)" by (rule posts_legally_same) (simp_all add: wf_kept_def)
  show "posts_legally env s (post_one env d c l s)" for d c l by (rule posts_legally_post)
  show "posts_legally env s t \<Longrightarrow> wf_store (p_store s) \<Longrightarrow> wf_store (p_store t)"
    by (simp add: posts_legally_def wf_kept_def)
  show "keeps_identity f \<Longrightarrow> posts_legally env s (upd_rec a f s)" for f a
    by (rule posts_legally_same [OF _ wf_upd]) (simp_all add: upd_rec_def)
  show "posts_legally env s (upd_rec a (\<lambda>r. r\<lparr>ev_state := st\<rparr>) s)" for a st
    by (rule posts_legally_same [OF _ wf_move]) (simp add: upd_rec_def)
  show "posts_legally env s (snd (store_new r s))" for r
    by (rule posts_legally_same [OF _ wf_store_new]) (simp add: store_new_def case_prod_beta)
  show "posts_legally env s (s\<lparr>p_store := snd (prune_expired now g (p_store s))\<rparr>)" for now g
    by (rule posts_legally_same [OF _ wf_prune_proc]) simp
  show "posts_legally env s (s\<lparr>p_tracker := prune_sent age now (p_tracker s)\<rparr>)" for age now
    by (rule posts_legally_same) (simp_all add: wf_kept_def)
qed

section \<open>Shutdown is final\<close>

definition stays_closed :: "proc \<Rightarrow> proc \<Rightarrow> bool" where
  "stays_closed s s' \<longleftrightarrow> wf_kept s s' \<and> (p_closed s \<longrightarrow> p_closed s') \<and> p_state s' = p_state s"

lemma closed_post_one: "p_closed s \<Longrightarrow> p_closed (post_one env d c l s)"
  by (auto simp: post_one_def Let_def case_prod_beta split: option.split)

interpretation sc: event_steps stays_closed env for env
proof unfold_locales
  fix s t u
  show "stays_closed s t \<Longrightarrow> stays_closed t u \<Longrightarrow> stays_closed s u" by (auto simp: stays_closed_def wf_kept_def)
  show "stays_closed s (post_one env d c l s)" for d c l
    by (simp add: stays_closed_def wf_same_store closed_post_one)
  show "keeps_identity f \<Longrightarrow> stays_closed s (upd_rec a f s)" for f a
    using wf_upd by (simp add: stays_closed_def upd_rec_def)
  show "stays_closed s (upd_rec a (\<lambda>r. r\<lparr>ev_state := st\<rparr>) s)" for a st
    using wf_move by (simp add: stays_closed_def upd_rec_def)
  show "stays_closed s (snd (store_new r s))" for r
    using wf_store_new by (simp add: stays_closed_def store_new_def case_prod_beta)
  show "stays_closed s (s\<lparr>p_store := snd (prune_expired now g (p_store s))\<rparr>)" for now g
    using wf_prune_proc by (simp add: stays_closed_def)
qed (auto simp: stays_closed_def wf_kept_def same_core_def)

section \<open>Runs\<close>

text \<open>
  A timer's record is displaced when another record has taken its mRID in the store, which
  takes a prune of the record while its timer is still asleep and the same event served
  again. Everything else the processor is asked to do: a poll of a program, a removed
  program, a loss of communications, a shutdown, a late dispatch coming in, and what the
  client changes around it (the discovered state, the comms-loss flag and boundary, time).
  A handler is one step: it is carried through before the next begins, and of the other
  handlers only shutdown comes in at its awaits. Where the code lets a timer fire inside a
  handler, see \<open>overtaken_completion\<close> in the root theory.
\<close>

definition displaced :: "proc \<Rightarrow> nat \<Rightarrow> bool" where
  "displaced s a \<longleftrightarrow> (\<exists>b. b \<noteq> a \<and> get_event (p_store s) (ev_mrid (record_of s a)) = Some b)"

inductive proc_step :: "env \<Rightarrow> proc \<Rightarrow> proc \<Rightarrow> bool" for env where
  Poll: "proc_step env s (process_controls env None prog s)"
| TimerWakes: "\<not> displaced s (tt_record (tm_heap (p_timers s) i)) \<Longrightarrow> proc_step env s (wake_task env i s)"
| ProgramRemoved: "proc_step env s (cancel_program env None prog s)"
| CommsLost: "proc_step env s (enter_comms_loss env None s)"
| Shutdown: "proc_step env s (shutdown s)"
| LateDispatch: "(a, l) \<in> set (p_late s) \<Longrightarrow> proc_step env s (log_late_dispatch env a l exc s)"
| Rediscovered: "proc_step env s (s\<lparr>p_state := d\<rparr>)"
| CommsState: "proc_step env s (s\<lparr>p_comms_active := b, p_resume_after := x\<rparr>)"
| Time: "proc_step env s (s\<lparr>p_tick := Suc (p_tick s)\<rparr>)"

inductive_cases proc_step_cases: "proc_step env s s'"

lemma transition_to_absent: "get_event (p_store s) mr = None \<Longrightarrow> transition_to mr st s = None"
  by (simp add: transition_to_def transition_def get_event_def split: option.splits)

lemma wake_absent_cases:
  assumes "get_event (p_store s) (ev_mrid (record_of s (tt_record (tm_heap (p_timers s) i)))) = None"
  shows "wake_task env i s = s \<or> wake_task env i s = finish_task i s \<or>
    wake_task env i s = apply_dderc_fallback env (tt_record (tm_heap (p_timers s) i)) False (finish_task i s)"
proof -
  let ?a = "tt_record (tm_heap (p_timers s) i)" and ?f = "finish_task i s"
  have rec: "tt_record (tm_heap (p_timers ?f) i) = ?a" "record_of ?f b = record_of s b" for b
    by (simp_all add: finish_task_def record_of_def)
  have none: "transition_to (ev_mrid (record_of ?f ?a)) st ?f = None" for st
    using assms by (intro transition_to_absent) (simp add: rec)
  have run: "run_callback env i ?f = ?f \<or> run_callback env i ?f = apply_dderc_fallback env ?a False ?f"
    unfolding run_callback_def Let_def rec on_activation_def on_completion_def
    using none by (auto split: callback.split simp: rec)
  then show ?thesis unfolding wake_task_def Let_def by (auto split: wake.split)
qed

lemma wake_absent:
  assumes "get_event (p_store s) (ev_mrid (record_of s (tt_record (tm_heap (p_timers s) i)))) = None"
  shows "evolves s (wake_task env i s)" "posts_legally env s (wake_task env i s)"
proof -
  let ?a = "tt_record (tm_heap (p_timers s) i)" and ?f = "finish_task i s"
  note w = wake_absent_cases [OF assms, of env]
  have "evolves s ?f" "evolves s (apply_dderc_fallback env ?a False ?f)"
    using ev.finish_task_step ev.trans [OF ev.finish_task_step ev.fallback_step] by auto
  with w show "evolves s (wake_task env i s)" by (metis ev.refl)
  have "posts_legally env s ?f" "posts_legally env s (apply_dderc_fallback env ?a False ?f)"
    using pl.finish_task_step pl.trans [OF pl.finish_task_step pl.fallback_step] by auto
  with w show "posts_legally env s (wake_task env i s)" by (metis pl.refl)
qed

lemma stored_or_absent: "\<not> displaced s a \<Longrightarrow> stored s a \<or> get_event (p_store s) (ev_mrid (record_of s a)) = None"
  by (cases "get_event (p_store s) (ev_mrid (record_of s a))") (auto simp: displaced_def stored_def)

lemma proc_step_evolves:
  assumes "proc_step env s s'" "wf_store (p_store s)"
  shows "evolves s s'"
  using assms
proof (cases rule: proc_step.cases)
  case (TimerWakes i)
  then show ?thesis
    using stored_or_absent ev.wake_step [OF assms(2)] wake_absent(1) by blast
qed (use assms(2) in \<open>auto intro: ev.process_controls_step ev.cancel_program_step ev.comms_loss_step
      ev.close ev.late_step evolves_same_store\<close>)

lemma proc_step_legal:
  assumes "proc_step env s s'" "wf_store (p_store s)"
  shows "posts_legally env s s'"
  using assms
proof (cases rule: proc_step.cases)
  case (TimerWakes i)
  then show ?thesis
    using stored_or_absent pl.wake_step [OF assms(2)] wake_absent(2) by blast
qed (use assms(2) in \<open>auto intro: pl.process_controls_step pl.cancel_program_step pl.comms_loss_step
      pl.close pl.late_step posts_legally_same simp: wf_kept_def\<close>)

lemma run_evolves:
  assumes "(proc_step env)\<^sup>*\<^sup>* s s'" "wf_store (p_store s)"
  shows "evolves s s'"
  using assms
proof (induction rule: rtranclp_induct)
  case (step t u)
  then show ?case using proc_step_evolves ev.wf_step ev.trans by blast
qed simp

lemma run_legal:
  assumes "(proc_step env)\<^sup>*\<^sup>* s s'" "wf_store (p_store s)"
  shows "posts_legally env s s'"
  using assms
proof (induction rule: rtranclp_induct)
  case (step t u)
  then show ?case using proc_step_legal pl.wf_step pl.trans by blast
qed simp

end
