(* ===== verification/Processor_Behaviour.thy ===== *)
theory Processor_Behaviour
  imports Processor_Props
begin

text \<open>
  What single handlers of the event processor do: which modes a default may write, who is
  told about the end of an event, what a loss of communications and a removed event lead to,
  and what a timer finds when it fires. The properties rest on the lemmas of this theory.
\<close>

section \<open>A default without the modes another event holds\<close>

lemma dhas_doe_limits_from:
  "dhas (doe_limits_from es out) n \<longleftrightarrow> dhas out n \<or>
     (\<exists>e \<in> set es. doe_element_name e = Some n \<and> n \<in> DOE_LIMIT_NAMES \<and> doe_value_multiplier e \<noteq> None)"
  by (induction es out rule: doe_limits_from.induct) (auto split: option.splits)

lemma active_names:
  "n \<in> get_active_mode_names base \<longleftrightarrow>
     (n \<in> fst ` set FIELD_TO_BIT \<and> base_get base n \<noteq> None) \<or>
     (\<exists>e \<in> set (base_other_element base). doe_element_name e = Some n \<and> n \<in> DOE_LIMIT_NAMES \<and> doe_value_multiplier e \<noteq> None)"
proof -
  have "n \<in> fst ` set (doe_limits base) \<longleftrightarrow> dhas (doe_limits base) n" by (simp add: dhas_iff_keys)
  then show ?thesis
    unfolding get_active_mode_names_def by (auto simp: doe_limits_def dhas_doe_limits_from)
qed

lemma field_names_known: "n \<in> fst ` set FIELD_TO_BIT \<Longrightarrow> n \<in> set dercontrol_base_model_fields"
proof -
  have "fst ` set FIELD_TO_BIT \<subseteq> set dercontrol_base_model_fields"
    by (simp add: FIELD_TO_BIT_def dercontrol_base_model_fields_def)
  then show "n \<in> fst ` set FIELD_TO_BIT \<Longrightarrow> n \<in> set dercontrol_base_model_fields" by blast
qed

lemma other_element_no_mode: "''other_element'' \<notin> get_active_mode_names base"
  by (simp add: active_names FIELD_TO_BIT_def DOE_LIMIT_NAMES_def)

lemma default_without_names:
  assumes "''other_element'' \<notin> M"
  shows "get_active_mode_names (dderc_base (default_without d M)) = get_active_mode_names (dderc_base d) - M"
proof -
  have bg: "base_get (dderc_base (default_without d M)) n =
      (if n \<in> M \<and> n \<in> set dercontrol_base_model_fields then None else base_get (dderc_base d) n)" for n
    using map_of_filter_key [of "\<lambda>n. \<not> (n \<in> M \<and> n \<in> set dercontrol_base_model_fields)" "base_fields (dderc_base d)" n]
    by (simp add: default_without_def base_get_def Let_def)
  have oe: "set (base_other_element (dderc_base (default_without d M))) =
      {e \<in> set (base_other_element (dderc_base d)). case doe_element_name e of None \<Rightarrow> True | Some n \<Rightarrow> n \<notin> M}"
    using assms by (auto simp: default_without_def Let_def)
  have "n \<in> get_active_mode_names (dderc_base (default_without d M)) \<longleftrightarrow>
      n \<in> get_active_mode_names (dderc_base d) \<and> n \<notin> M" for n
    unfolding active_names bg oe using field_names_known [of n] by (auto split: option.splits)
  then show ?thesis by blast
qed

lemma default_masked:
  "get_active_mode_names (dderc_base (default_without d (get_active_mode_names (dderc_base d) \<inter> H))) =
     get_active_mode_names (dderc_base d) - H"
proof -
  have "''other_element'' \<notin> get_active_mode_names (dderc_base d) \<inter> H"
    using other_element_no_mode by simp
  then show ?thesis by (auto simp: default_without_names)
qed

section \<open>What a handler adds to the trace\<close>

definition adds :: "(effect \<Rightarrow> bool) \<Rightarrow> proc \<Rightarrow> proc \<Rightarrow> bool" where
  "adds P s s' \<longleftrightarrow> (\<exists>es. p_trace s' = p_trace s @ es \<and> (\<forall>e \<in> set es. P e))"

lemma adds_same: "p_trace s' = p_trace s \<Longrightarrow> adds P s s'"
  by (simp add: adds_def)

lemma adds_trans: "adds P s t \<Longrightarrow> adds P t u \<Longrightarrow> adds P s u"
  by (fastforce simp: adds_def)

lemma adds_mono: "adds P s t \<Longrightarrow> (\<And>e. P e \<Longrightarrow> Q e) \<Longrightarrow> adds Q s t"
  by (fastforce simp: adds_def)

lemma addsD: "adds P s s' \<Longrightarrow> p_trace s' = p_trace s @ es \<Longrightarrow> e \<in> set es \<Longrightarrow> P e"
  by (auto simp: adds_def)

lemma adds_emit: "P e \<Longrightarrow> adds P s (emit e s)"
  by (simp add: adds_def)

lemma adds_gather: "(\<And>w oc. w \<in> set ws \<Longrightarrow> P (w oc)) \<Longrightarrow> adds P s (snd (gather_writes env ws s))"
proof (induction ws arbitrary: s)
  case (Cons w ws)
  obtain r s1 where w: "dispatch_write env w s = (r, s1)" by fastforce
  have "p_trace s1 = p_trace s @ [w r]" using w by (auto simp: dispatch_write_def Let_def)
  then have "adds P s s1" using Cons.prems by (simp add: adds_def)
  then have "adds P s (snd (gather_writes env ws s1))" by (rule adds_trans) (use Cons in auto)
  then show ?case by (simp add: w case_prod_beta)
qed (simp add: adds_same)

section \<open>Defaults never write a mode another running event holds\<close>

text \<open>A write reaches the device it names; the masks are computed over what it reaches.\<close>

fun tag :: "target \<Rightarrow> string" where
  "tag (ByHref h) = ''href:'' @ h"
| "tag (ByLfdi l) = ''lfdi:'' @ l"

definition default_ok :: "env \<Rightarrow> nat list \<Rightarrow> proc \<Rightarrow> effect \<Rightarrow> bool" where
  "default_ok env active s e = (case e of
       ApplyDefault tgt d _ _ _ _ \<Rightarrow>
         \<exists>prog devs. tag tgt \<in> reach_of env prog devs \<and>
           get_active_mode_names (dderc_base d) \<inter> modes_running_in env (reach_of env prog devs) active s = {}
     | _ \<Rightarrow> True)"

lemma masked_default_disjoint:
  "get_active_mode_names (dderc_base
     (if get_active_mode_names (dderc_base d) \<inter> H \<noteq> {}
      then default_without d (get_active_mode_names (dderc_base d) \<inter> H) else d)) \<inter> H = {}"
  by (auto simp: default_masked)

definition plan_ok :: "env \<Rightarrow> nat list \<Rightarrow> proc \<Rightarrow> fallback_plan \<Rightarrow> bool" where
  "plan_ok env active s fp \<longleftrightarrow> (\<forall>(dev, lfdi, best, d, partial) \<in> set (fp_defaults fp).
     get_active_mode_names (dderc_base d) \<inter> modes_running_in env (reach_of env (dp_href best) [dev]) active s = {})"

lemma plan_device_ok:
  assumes "plan_ok env active s fp"
  shows "plan_ok env active s (plan_device env cl active rel s dev fp)"
  using assms masked_default_disjoint unfolding plan_ok_def plan_device_def Let_def
  by (auto split: option.split)

lemma plan_fold_ok: "plan_ok env active s (fold (plan_device env cl active rel s) devs empty_plan)"
proof (rule fold_invariant)
  show "plan_ok env active s empty_plan" by (simp add: plan_ok_def empty_plan_def)
qed (rule plan_device_ok)

lemma default_writes_ok:
  assumes "get_active_mode_names (dderc_base d) \<inter> modes_running_in env (reach_of env prog devs) active s = {}"
    and "w \<in> set (default_writes [(dev, group_local_lfdis env prog, d)] cs org cause)" "dev \<in> set devs"
  shows "default_ok env active s (w oc)"
proof -
  have "\<exists>tgt. w = ApplyDefault tgt d cs org cause \<and> tag tgt \<in> reach_of env prog devs"
    using assms(2,3) by (cases "group_local_lfdis env prog") (auto simp: default_writes_def reach_of_def)
  then obtain tgt where tgt: "w = ApplyDefault tgt d cs org cause" "tag tgt \<in> reach_of env prog devs" by blast
  show ?thesis
    unfolding default_ok_def tgt(1) effect.case using tgt(2) assms(1) by blast
qed

lemma send_defaults_ok:
  assumes "plan_ok env active t fp"
  shows "adds (default_ok env active t) s (send_defaults env cause (fp_defaults fp) s)"
proof (cases "fp_defaults fp = []")
  case False
  define ws where "ws = concat (map (\<lambda>(dev, lfdi, best, dderc, partial).
      default_writes [(dev, group_local_lfdis env (dp_href best), dderc)] (der_curves best)
        (if p_comms_active s then ORIGIN_COMMS_LOSS else ORIGIN_DDERC_REAPPLY) (Some cause)) (fp_defaults fp))"
  have "default_ok env active t (w oc)" if "w \<in> set ws" for w oc
  proof -
    from that obtain dev lfdi best d partial where m: "(dev, lfdi, best, d, partial) \<in> set (fp_defaults fp)"
        "w \<in> set (default_writes [(dev, group_local_lfdis env (dp_href best), d)] (der_curves best)
          (if p_comms_active s then ORIGIN_COMMS_LOSS else ORIGIN_DDERC_REAPPLY) (Some cause))"
      unfolding ws_def by auto
    have "get_active_mode_names (dderc_base d) \<inter> modes_running_in env (reach_of env (dp_href best) [dev]) active t = {}"
      using assms m(1) unfolding plan_ok_def by blast
    from default_writes_ok [OF this m(2)] show ?thesis by simp
  qed
  then have "adds (default_ok env active t) s (snd (gather_writes env ws s))" by (rule adds_gather)
  with False show ?thesis
    by (auto simp: send_defaults_def Let_def ws_def [symmetric] case_prod_beta adds_def)
qed (simp add: send_defaults_def adds_same)

text \<open>Releasing an event's modes leaves the holdings of every other event.\<close>

definition others_held :: "bytes \<Rightarrow> proc \<Rightarrow> proc \<Rightarrow> bool" where
  "others_held mr s s' \<longleftrightarrow> keeps_store s s' \<and> p_trace s' = p_trace s \<and> (wf_modes (p_modes s) \<longrightarrow>
     wf_modes (p_modes s') \<and> (\<forall>d m. m \<noteq> mr \<longrightarrow> amt_held (p_modes s') d m = amt_held (p_modes s) d m))"

lemma release_device_held:
  "others_held (ev_mrid (record_of s a)) s (snd (snd (release_device a act dev (n, rm, s))))"
  using amt.held_unregister [of "p_modes s"] wf_modes_unregister [of "p_modes s"]
  by (auto simp: others_held_def keeps_store_def release_device_def Let_def case_prod_beta)

lemma release_fold_held:
  "others_held (ev_mrid (record_of s a)) s (snd (snd (fold (release_device a act) devs (n, rm, s))))"
proof (induction devs arbitrary: n rm s)
  case (Cons dev devs)
  obtain n' rm' s' where r: "release_device a act dev (n, rm, s) = (n', rm', s')" by (metis prod_cases3)
  have 1: "others_held (ev_mrid (record_of s a)) s s'"
    using release_device_held [where s = s and a = a and act = act and dev = dev and n = n and rm = rm] r by simp
  then have "record_of s' a = record_of s a" by (simp add: others_held_def keeps_store_def record_of_def)
  with Cons.IH [where s = s' and n = n' and rm = rm'] 1 show ?case
    by (auto simp: r others_held_def keeps_store_def)
qed (simp add: others_held_def keeps_store_def)

lemma fallback_defaults_ok:
  "\<exists>t. others_held (ev_mrid (record_of s a)) s t \<and>
     adds (default_ok env (running_events s) t) s (apply_dderc_fallback env a cl s)"
proof -
  let ?act = "running_events s" and ?devs = "unique_devices s (ev_program_href (record_of s a))"
  obtain n rm t where f: "fold (release_device a ?act) ?devs ([], [], s) = (n, rm, t)" by (metis prod_cases3)
  have o: "others_held (ev_mrid (record_of s a)) s t"
    using release_fold_held [where s = s and a = a and act = ?act and devs = ?devs and n = "[]" and rm = "[]"] f by simp
  define fp where "fp = fold (plan_device env cl ?act rm t) n empty_plan"
  let ?P = "default_ok env ?act t"
  have 1: "adds ?P s (send_defaults env m (fp_defaults fp) t)" for m
  proof (rule adds_trans [OF adds_same send_defaults_ok])
    show "p_trace t = p_trace s" using o by (simp add: others_held_def)
    show "plan_ok env ?act t fp" unfolding fp_def by (rule plan_fold_ok)
  qed
  have w: "adds ?P s u \<Longrightarrow> adds ?P s (snd (gather_writes env (withdraw_writes env a ds fp u) u))" for u ds
    by (erule adds_trans, rule adds_gather)
      (auto simp: withdraw_writes_def Let_def default_ok_def split: option.splits if_splits)
  have c: "adds ?P s u \<Longrightarrow> adds ?P s (snd (gather_writes env (clear_writes env a fp u) u))" for u
    by (erule adds_trans, rule adds_gather)
      (auto simp: clear_writes_def Let_def default_ok_def split: option.splits)
  have ite: "adds ?P s x \<Longrightarrow> adds ?P s y \<Longrightarrow> adds ?P s (if q then x else y)" for q x y by simp
  have "adds ?P s t" using o by (intro adds_same) (simp add: others_held_def)
  then have "adds ?P s (apply_dderc_fallback env a cl s)"
    unfolding apply_dderc_fallback_def Let_def f prod.case fp_def [symmetric] by (intro ite w c 1)
  with o show ?thesis by blast
qed

text \<open>What a running event holds at a place a write reaches is among the modes that are
  masked there.\<close>

lemma held_in_reach:
  assumes "wf_modes (p_modes s)" "b \<in> set active" "tg \<in> reach"
    and "tg \<in> reach_of env (ev_program_href (record_of s b)) (program_devices_list s (ev_program_href (record_of s b)))"
    and "dev \<in> set (program_devices_list s (ev_program_href (record_of s b)))"
    and "group_local_lfdis env (ev_program_href (record_of s b)) \<noteq> None \<or> tg = ''href:'' @ dev"
  shows "amt_held (p_modes s) dev (ev_mrid (record_of s b)) \<subseteq> modes_running_in env reach active s"
proof -
  have "amt_covered_among dev {ev_mrid (record_of s b)} (p_modes s) = amt_held (p_modes s) dev (ev_mrid (record_of s b))"
    by (simp add: amt_covered_among_held [OF assms(1)])
  then have "amt_held (p_modes s) dev (ev_mrid (record_of s b)) \<subseteq> event_modes_in env reach s b"
    using assms(3-6) by (auto simp: event_modes_in_def Let_def)
  with assms(2) show ?thesis by (auto simp: modes_running_in_def)
qed

lemma fallback_respects_others:
  assumes wf: "wf_modes (p_modes s)"
    and tr: "p_trace (apply_dderc_fallback env a cl s) = p_trace s @ es" "ApplyDefault tgt d cs org c oc \<in> set es"
    and b: "b \<in> set (running_events s)" "ev_mrid (record_of s b) \<noteq> ev_mrid (record_of s a)"
    and reach: "tag tgt \<in> reach_of env (ev_program_href (record_of s b)) (program_devices_list s (ev_program_href (record_of s b)))"
    and dev: "dev \<in> set (program_devices_list s (ev_program_href (record_of s b)))"
      "group_local_lfdis env (ev_program_href (record_of s b)) \<noteq> None \<or> tag tgt = ''href:'' @ dev"
  shows "get_active_mode_names (dderc_base d) \<inter> amt_held (p_modes s) dev (ev_mrid (record_of s b)) = {}"
proof -
  obtain t where t: "others_held (ev_mrid (record_of s a)) s t"
      "adds (default_ok env (running_events s) t) s (apply_dderc_fallback env a cl s)"
    using fallback_defaults_ok by blast
  have same: "record_of t b = record_of s b" "program_devices_list t p = program_devices_list s p" for p
    using t(1) by (auto simp: others_held_def keeps_store_def record_of_def program_devices_list_def)
  have held: "wf_modes (p_modes t)"
    "amt_held (p_modes t) dev (ev_mrid (record_of s b)) = amt_held (p_modes s) dev (ev_mrid (record_of s b))"
    using t(1) wf b(2) by (auto simp: others_held_def)
  from addsD [OF t(2) tr] obtain prog devs where pd: "tag tgt \<in> reach_of env prog devs"
      "get_active_mode_names (dderc_base d) \<inter> modes_running_in env (reach_of env prog devs) (running_events s) t = {}"
    by (auto simp: default_ok_def)
  have "amt_held (p_modes t) dev (ev_mrid (record_of t b)) \<subseteq> modes_running_in env (reach_of env prog devs) (running_events s) t"
    by (rule held_in_reach [where tg = "tag tgt"]) (use held(1) b(1) pd(1) reach dev in \<open>simp_all add: same\<close>)
  with pd(2) held(2) show ?thesis by (auto simp: same)
qed

section \<open>Who is told\<close>

definition response_to :: "env \<Rightarrow> Dercontrol1 \<Rightarrow> ResponseCode \<Rightarrow> bytes \<Rightarrow> effect \<Rightarrow> bool" where
  "response_to env d code l e \<longleftrightarrow> (\<exists>b ok c. e = Posted b ok \<and> rb_lfdi b = l \<and> rb_subject b = m_rid d \<and>
     resolve_wire_code (response_required d) code (env_profile env) = Some c \<and> rb_status b = code_value c)"

lemma post_one_adds: "adds (response_to env d code l) s (post_one env d code l s)"
proof -
  obtain t body where p: "post_der_response (env_s2018 env) (env_s2023 env) (env_profile env) d code l
      (now_of env None s) (supported_modes2 env l)
      (case env_post env (p_tick s) of None \<Rightarrow> PostOk | Some err \<Rightarrow> PostFailed err) (p_tracker s) = (t, body)"
    by fastforce
  have "response_to env d code l (Posted b ok)" if "body = Some b" for b ok
    using post_der_response_body [of "env_s2018 env" "env_s2023 env" "env_profile env" d code l] p that
    unfolding response_to_def by (metis snd_conv)
  then show ?thesis
    unfolding post_one_def Let_def p prod.case adds_def by (auto split: option.split)
qed

lemma state_post_device [simp]: "p_state (post_device env d code dev s) = p_state s"
  by (simp add: post_device_def split: option.split)

lemma post_fold_adds:
  "adds (\<lambda>e. \<exists>dev \<in> set devs. \<exists>l. get_device_lfdi s dev = Some l \<and> response_to env d code l e) s
     (fold (post_device env d code) devs s)"
proof (induction devs arbitrary: s)
  case (Cons dev devs)
  let ?t = "post_device env d code dev s"
  have lf: "get_device_lfdi ?t x = get_device_lfdi s x" for x by (simp add: get_device_lfdi_def)
  have "adds (\<lambda>e. \<exists>l. get_device_lfdi s dev = Some l \<and> response_to env d code l e) s ?t"
    by (auto simp: post_device_def adds_same intro: adds_mono [OF post_one_adds] split: option.split)
  then have 1: "adds (\<lambda>e. \<exists>x \<in> set (dev # devs). \<exists>l. get_device_lfdi s x = Some l \<and> response_to env d code l e) s ?t"
    by (rule adds_mono) auto
  have "adds (\<lambda>e. \<exists>x \<in> set (dev # devs). \<exists>l. get_device_lfdi s x = Some l \<and> response_to env d code l e) ?t
      (fold (post_device env d code) devs ?t)"
    by (rule adds_mono [OF Cons.IH]) (auto simp: lf)
  from adds_trans [OF 1 this] show ?case by simp
qed (simp add: adds_same)

lemma post_devices_adds:
  "adds (\<lambda>e. \<exists>dev \<in> D. \<exists>l. get_device_lfdi s dev = Some l \<and> response_to env d code l e) s
     (post_response_for_devices env d code D s)"
  unfolding post_response_for_devices_def
  by (rule adds_mono [OF post_fold_adds]) (auto dest: in_iter_set)

lemma posts_nothing_adds: "posts_nothing s t \<Longrightarrow> (\<And>e. \<not> is_post e \<Longrightarrow> P e) \<Longrightarrow> adds P s t"
  by (fastforce simp: posts_nothing_def adds_def)

text \<open>The devices that were running the event, when it was dispatched at all.\<close>

definition told :: "env \<Rightarrow> proc \<Rightarrow> EventRecord \<Rightarrow> ResponseCode \<Rightarrow> effect \<Rightarrow> bool" where
  "told env s r code e \<longleftrightarrow> (is_post e \<longrightarrow> (\<exists>dev \<in> ev_applied_devices r - ev_superseded_devices r.
     \<exists>l. get_device_lfdi s dev = Some l \<and> response_to env (ev_derc r) code l e))"

lemma lifecycle_post_told:
  assumes "ev_applied_devices r \<noteq> {} \<or> ev_rejected_devices r \<noteq> {}"
    and "record_of t a = r\<lparr>ev_state := st\<rparr>" "p_state t = p_state s"
  shows "adds (told env s r code) t (post_started_device_lifecycle env a code t)"
proof -
  have lf: "get_device_lfdi t x = get_device_lfdi s x" for x by (simp add: get_device_lfdi_def assms(3))
  have "adds (told env s r code) t (post_response_for_devices env (ev_derc r) code (ev_applied_devices r - ev_superseded_devices r) t)"
    by (rule adds_mono [OF post_devices_adds]) (auto simp: told_def lf)
  then show ?thesis
    using assms(1) unfolding post_started_device_lifecycle_def Let_def assms(2)
    by (auto simp: adds_same)
qed

lemma told_quiet: "\<not> is_post e \<Longrightarrow> told env s r code e"
  by (simp add: told_def)

lemma completion_told:
  assumes "stored s a" "ev_state (record_of s a) = ACTIVE"
    and "ev_applied_devices (record_of s a) \<noteq> {} \<or> ev_rejected_devices (record_of s a) \<noteq> {}"
  shows "adds (told env s (record_of s a) RC_COMPLETED) s (on_completion env a s)"
proof -
  let ?s1 = "upd_rec a (\<lambda>r. r\<lparr>ev_state := COMPLETED\<rparr>) s" and ?P = "told env s (record_of s a) RC_COMPLETED"
  have tr: "transition_to (ev_mrid (record_of s a)) COMPLETED s = Some ?s1"
    using assms(1) by (auto simp: transition_to_Some stored_def)
  define s3 where "s3 = audit_transition env a (Some ''active'') ''completed'' NoDetails (relay_control_event env a ''completed'' ?s1)"
  have q: "posts_nothing ?s1 s3" unfolding s3_def by (rule pn.trans [OF pn.relay_control_step pn.audit_step])
  have k: "keeps_store ?s1 s3" unfolding s3_def by (rule ks.trans [OF ks.relay_control_step ks.audit_step])
  have 1: "adds ?P s s3"
    by (rule adds_trans [OF adds_same posts_nothing_adds [OF q]]) (auto simp: upd_rec_def told_quiet)
  have r3: "record_of s3 a = (record_of s a)\<lparr>ev_state := COMPLETED\<rparr>" "p_state s3 = p_state s"
    using k by (auto simp: keeps_store_def record_of_def upd_rec_def upd_record_def)
  have 2: "adds ?P s (post_started_device_lifecycle env a RC_COMPLETED s3)"
    by (rule adds_trans [OF 1 lifecycle_post_told [OF assms(3) r3]])
  have "adds ?P s (apply_dderc_fallback env a False (post_started_device_lifecycle env a RC_COMPLETED s3))"
    by (rule adds_trans [OF 2 posts_nothing_adds [OF pn.fallback_step]]) (rule told_quiet)
  then show ?thesis
    using assms(2) unfolding on_completion_def Let_def tr option.case s3_def by simp
qed

lemma cancellation_told:
  assumes "stored s a"
    and "ev_applied_devices (record_of s a) \<noteq> {} \<or> ev_rejected_devices (record_of s a) \<noteq> {}"
  shows "adds (told env s (record_of s a) RC_CANCELLED) s (handle_cancellation env cur a s)"
proof -
  let ?s1 = "upd_rec a (\<lambda>r. r\<lparr>ev_state := CANCELLED\<rparr>) s" and ?P = "told env s (record_of s a) RC_CANCELLED"
  have tr: "transition_to (ev_mrid (record_of s a)) CANCELLED s = Some ?s1"
    using assms(1) by (auto simp: transition_to_Some stored_def)
  define s4 where "s4 = audit_transition env a (Some (state_value (ev_state (record_of s a)))) ''cancelled'' NoDetails
      (relay_control_event env a ''cancelled'' (cancel_event_timers cur (ev_mrid (record_of s a)) ?s1))"
  have q: "posts_nothing ?s1 s4" unfolding s4_def
    by (rule pn.trans [OF pn.trans [OF pn.cancel_timers_step pn.relay_control_step] pn.audit_step])
  have k: "keeps_store ?s1 s4" unfolding s4_def
    by (rule ks.trans [OF ks.trans [OF ks.cancel_timers_step ks.relay_control_step] ks.audit_step])
  have 1: "adds ?P s s4"
    by (rule adds_trans [OF adds_same posts_nothing_adds [OF q]]) (auto simp: upd_rec_def told_quiet)
  have r4: "record_of s4 a = (record_of s a)\<lparr>ev_state := CANCELLED\<rparr>" "p_state s4 = p_state s"
    using k by (auto simp: keeps_store_def record_of_def upd_rec_def upd_record_def)
  have 2: "adds ?P s (post_started_device_lifecycle env a RC_CANCELLED s4)"
    by (rule adds_trans [OF 1 lifecycle_post_told [OF assms(2) r4]])
  have 3: "adds ?P s (apply_dderc_fallback env a False (post_started_device_lifecycle env a RC_CANCELLED s4))"
    by (rule adds_trans [OF 2 posts_nothing_adds [OF pn.fallback_step]]) (rule told_quiet)
  have 4: "adds ?P s ((post_started_device_lifecycle env a RC_CANCELLED s4)\<lparr>p_timers := x\<rparr>)" for x
    by (rule adds_trans [OF 2 adds_same]) simp
  show ?thesis
    unfolding handle_cancellation_def Let_def tr option.case s4_def [symmetric] using 2 3 4 by simp
qed

section \<open>Loss of communications\<close>

lemma opt_out_flag:
  "record_of (audit_transition env a f t d (cancel_event_timers cur mr (upd_rec a (\<lambda>r. r\<lparr>ev_opted_out := True\<rparr>) s))) b =
     (if b = a then (record_of s a)\<lparr>ev_opted_out := True\<rparr> else record_of s b)"
  by (simp add: record_of_def upd_record_def)

definition opt_out_all :: "env \<Rightarrow> nat option \<Rightarrow> nat list \<Rightarrow> proc \<Rightarrow> proc" where
  "opt_out_all env cur as s = fold (\<lambda>a s.
      let s' = upd_rec a (\<lambda>r. r\<lparr>ev_opted_out := True\<rparr>) s;
          s'' = cancel_event_timers cur (ev_mrid (record_of s' a)) s'
      in audit_transition env a (Some ''active'') ''opted_out'' NoDetails s'') as s"

lemma opt_out_all_facts:
  "(\<forall>b. record_of (opt_out_all env cur as s) b =
      (if b \<in> set as then (record_of s b)\<lparr>ev_opted_out := True\<rparr> else record_of s b)) \<and>
   es_events (p_store (opt_out_all env cur as s)) = es_events (p_store s) \<and>
   p_resume_after (opt_out_all env cur as s) = p_resume_after s \<and>
   posts_nothing s (opt_out_all env cur as s)"
proof (induction as arbitrary: s)
  case Nil
  show ?case by (simp add: opt_out_all_def pn.refl)
next
  case (Cons a as)
  define u where "u = upd_rec a (\<lambda>r. r\<lparr>ev_opted_out := True\<rparr>) s"
  define t where "t = audit_transition env a (Some ''active'') ''opted_out'' NoDetails
      (cancel_event_timers cur (ev_mrid (record_of u a)) u)"
  have unfold: "opt_out_all env cur (a # as) s = opt_out_all env cur as t"
    by (simp only: opt_out_all_def fold_Cons o_apply Let_def t_def u_def)
  have t: "record_of t c = (if c = a then (record_of s a)\<lparr>ev_opted_out := True\<rparr> else record_of s c)" for c
    unfolding t_def u_def by (rule opt_out_flag)
  have ra: "p_resume_after t = p_resume_after s" "es_events (p_store t) = es_events (p_store s)"
    by (simp_all add: t_def u_def audit_transition_def audit_transition_rec_def emit_def cancel_event_timers_def Let_def upd_rec_def)
  have "posts_nothing s u" by (simp add: posts_nothing_def u_def upd_rec_def)
  then have pq: "posts_nothing s t" unfolding t_def
    by (rule pn.trans [OF pn.trans [OF _ pn.cancel_timers_step] pn.audit_step])
  show ?case
    unfolding unfold using Cons.IH [of t] pn.trans [OF pq, of "opt_out_all env cur as t"] by (simp add: t ra)
qed

lemma resume_after_frames [simp]:
  "p_resume_after (emit e s) = p_resume_after s" "p_resume_after (await_point env s) = p_resume_after s"
  by (simp_all add: emit_def await_point_def shutdown_def Let_def)

lemma resume_after_gather [simp]: "p_resume_after (snd (gather_writes env ws s)) = p_resume_after s"
  by (induction ws arbitrary: s) (auto simp: dispatch_write_def Let_def case_prod_beta)

lemma resume_after_fallback [simp]: "p_resume_after (apply_dderc_fallback env a cl s) = p_resume_after s"
proof -
  have rel: "p_resume_after (snd (snd (fold (release_device a act) ds (n, rm, t)))) = p_resume_after t" for act ds n rm t
  proof (induction ds arbitrary: n rm t)
    case (Cons x ds)
    then show ?case
      by (cases "release_device a act x (n, rm, t)") (auto simp: release_device_def Let_def case_prod_beta)
  qed simp
  obtain n rm t where f: "fold (release_device a (running_events s))
      (unique_devices s (ev_program_href (record_of s a))) ([], [], s) = (n, rm, t)" by (metis prod_cases3)
  have "p_resume_after t = p_resume_after s"
    using rel [of "running_events s" "unique_devices s (ev_program_href (record_of s a))" "[]" "[]" s] f by simp
  then show ?thesis
    unfolding apply_dderc_fallback_def Let_def f prod.case send_defaults_def
    by (simp add: case_prod_beta)
qed

lemma fallback_fold_facts:
  "posts_nothing s (fold (\<lambda>a s. apply_dderc_fallback env a cl s) as s) \<and>
   p_store (fold (\<lambda>a s. apply_dderc_fallback env a cl s) as s) = p_store s \<and>
   p_resume_after (fold (\<lambda>a s. apply_dderc_fallback env a cl s) as s) = p_resume_after s"
proof (induction as arbitrary: s)
  case (Cons a as)
  then show ?case using pn.trans [OF pn.fallback_step] by fastforce
qed (simp add: pn.refl)

lemma enter_comms_loss_facts:
  shows "posts_nothing s (enter_comms_loss env cur s)"
    and "running_events (enter_comms_loss env cur s) = []"
    and "a \<in> set (running_events s) \<Longrightarrow>
           \<exists>b. p_resume_after (enter_comms_loss env cur s) = Some b \<and> ev_end (record_of s a) \<le> b"
    and "record_of (enter_comms_loss env cur s) x =
           (if x \<in> set (running_events s) then (record_of s x)\<lparr>ev_opted_out := True\<rparr> else record_of s x)"
    and "es_events (p_store (enter_comms_loss env cur s)) = es_events (p_store s)"
proof -
  let ?act = "running_events s"
  let ?b = "raise_boundary (Max (set (map (\<lambda>a. ev_end (record_of s a)) ?act))) s"
  let ?u = "opt_out_all env cur ?act ?b"
  have eq: "enter_comms_loss env cur s =
      (if ?act = [] then s else fold (\<lambda>a s. apply_dderc_fallback env a True s) ?act ?u)"
    by (simp only: enter_comms_loss_def opt_out_all_def Let_def)
  have rb: "record_of ?b x = record_of s x" "es_events (p_store ?b) = es_events (p_store s)" for x
    by (simp_all add: record_of_def)
  note u = opt_out_all_facts [of env cur ?act ?b]
  show "posts_nothing s (enter_comms_loss env cur s)"
    using eq pn.trans [OF pn.boundary_step] pn.trans u fallback_fold_facts pn.refl by metis
  have st: "p_store (fold (\<lambda>a s. apply_dderc_fallback env a True s) ?act ?u) = p_store ?u"
    using fallback_fold_facts by blast
  show "record_of (enter_comms_loss env cur s) x =
      (if x \<in> set ?act then (record_of s x)\<lparr>ev_opted_out := True\<rparr> else record_of s x)" for x
    using eq st u rb by (cases "?act = []") (auto simp: record_of_def)
  show "es_events (p_store (enter_comms_loss env cur s)) = es_events (p_store s)"
    using eq st u rb by (cases "?act = []") auto
  show "running_events (enter_comms_loss env cur s) = []"
  proof (cases "?act = []")
    case False
    have rec: "record_of (enter_comms_loss env cur s) x = record_of ?u x" for x
      using eq False st by (simp add: record_of_def)
    have "set (running_events (enter_comms_loss env cur s)) = {}"
      using eq False st u rb rec
      by (auto simp: running_events_def by_state_def record_of_def [symmetric] split: if_splits)
    then show ?thesis by simp
  qed (simp add: eq)
  show "\<exists>b. p_resume_after (enter_comms_loss env cur s) = Some b \<and> ev_end (record_of s a) \<le> b"
    if a: "a \<in> set ?act"
  proof -
    have ne: "?act \<noteq> []" using a by auto
    have "p_resume_after (enter_comms_loss env cur s) = p_resume_after ?b"
      using eq ne fallback_fold_facts u by simp
    moreover have "ev_end (record_of s a) \<le> Max (set (map (\<lambda>a. ev_end (record_of s a)) ?act))"
      using a by (intro Max_ge) auto
    ultimately show ?thesis by (auto simp: raise_boundary_def)
  qed
qed

section \<open>Events removed from the server\<close>

definition removed :: "proc \<Rightarrow> string \<Rightarrow> int \<Rightarrow> bytes set \<Rightarrow> nat \<Rightarrow> bool" where
  "removed s prog now served b \<longleftrightarrow> ev_program_href (record_of s b) = prog \<and>
     ev_mrid (record_of s b) \<notin> served \<and> now < ev_end (record_of s b)"

lemma reconcile_one_record:
  assumes "live s a"
  shows "record_of (fst (reconcile_one env cur prog now served a s)) b =
    (if b = a \<and> removed s prog now served a then (record_of s a)\<lparr>ev_state := CANCELLED\<rparr> else record_of s b)"
proof -
  have "record_of (handle_cancellation env cur a s) b =
      (if b = a then (record_of s a)\<lparr>ev_state := CANCELLED\<rparr> else record_of s b)"
    using handle_cancellation_store [of s a env cur] assms
    by (simp add: live_def record_of_def upd_record_def)
  then show ?thesis by (auto simp: reconcile_one_def Let_def removed_def)
qed

lemma reconcile_records:
  assumes "wf_store (p_store s)" "distinct as" "\<And>a. a \<in> set as \<Longrightarrow> live s a"
    and "for_each (reconcile_one env cur prog now served) as s = (s', False)"
  shows "record_of s' b = (if b \<in> set as \<and> removed s prog now served b
      then (record_of s b)\<lparr>ev_state := CANCELLED\<rparr> else record_of s b)"
  using assms
proof (induction as arbitrary: s)
  case (Cons a as)
  obtain t ret where r: "reconcile_one env cur prog now served a s = (t, ret)" by fastforce
  have la: "live s a" using Cons.prems by simp
  have wf: "wf_store (p_store t)"
    using ev.wf_step [OF ev.reconcile_one_facts(1) [OF Cons.prems(1) la, of env cur prog now served] Cons.prems(1)] r by simp
  have lt: "live t c" if "c \<in> set as" for c
    using ev.reconcile_one_facts(2) [OF Cons.prems(1) la, of c env cur prog now served] Cons.prems that r by auto
  have rec: "record_of t c = (if c = a \<and> removed s prog now served a
      then (record_of s a)\<lparr>ev_state := CANCELLED\<rparr> else record_of s c)" for c
    using reconcile_one_record [OF la, of env cur prog now served c] r by simp
  have "for_each (reconcile_one env cur prog now served) as t = (s', False)"
    using Cons.prems(4) r by (auto split: if_splits)
  from Cons.IH [OF wf _ lt this] Cons.prems(2)
  have "record_of s' b = (if b \<in> set as \<and> removed t prog now served b
      then (record_of t b)\<lparr>ev_state := CANCELLED\<rparr> else record_of t b)" by simp
  moreover have "removed t prog now served b = removed s prog now served b"
    by (simp add: removed_def rec ev_end_def)
  ultimately show ?case using Cons.prems(2) by (auto simp: rec)
qed simp

section \<open>Timers of an event that is over\<close>

lemma wake_terminal:
  assumes "terminal (ev_state (record_of s (tt_record (tm_heap (p_timers s) i))))"
  shows "wake_task env i s = s \<or> wake_task env i s = finish_task i s"
  using assms unfolding wake_task_def wait_and_fire_wake_def Let_def by (auto split: wake.split)

lemma terminal_for_good:
  assumes "(proc_step env)\<^sup>*\<^sup>* s s'" "wf_store (p_store s)" "a < es_next (p_store s)"
    "terminal (ev_state (record_of s a))"
  shows "ev_state (record_of s' a) = ev_state (record_of s a)"
  using run_evolves [OF assms(1,2)] assms(3,4) by (auto simp: evolves_def lifecycle_def terminal_def)

lemma stored_allocated: "wf_store (p_store s) \<Longrightarrow> stored s a \<Longrightarrow> a < es_next (p_store s)"
  by (auto simp: stored_def get_event_def dest: wf_storeD)

lemma cancelled_timers_idle:
  assumes "wf_store (p_store s)" "stored s a" "\<not> terminal (ev_state (record_of s a))"
    and "(proc_step env)\<^sup>*\<^sup>* (handle_cancellation env cur a s) s'" "tt_record (tm_heap (p_timers s') i) = a"
  shows "wake_task env i s' = s' \<or> wake_task env i s' = finish_task i s'"
proof -
  let ?c = "handle_cancellation env cur a s"
  have st: "p_store ?c = upd_record a (\<lambda>r. r\<lparr>ev_state := CANCELLED\<rparr>) (p_store s)"
    by (rule handle_cancellation_store [OF assms(2)])
  have wf: "wf_store (p_store ?c)" using assms(1) unfolding st by (intro wf_store_upd_record) auto
  have al: "a < es_next (p_store ?c)" using stored_allocated [OF assms(1,2)] by (simp add: st)
  have can: "ev_state (record_of ?c a) = CANCELLED" by (simp add: record_of_def st upd_record_def)
  have "ev_state (record_of s' a) = CANCELLED"
    using terminal_for_good [OF assms(4) wf al] can by (simp add: terminal_def)
  then show ?thesis using assms(5) by (intro wake_terminal) (simp add: terminal_def)
qed

lemma wind_down_task:
  assumes "stored s a" "ev_state (record_of s a) = ACTIVE" "0 < cancellation_wind_down (record_of s a)"
  shows "\<exists>i. tt_record (tm_heap (p_timers (handle_cancellation env cur a s)) i) = a
       \<and> tt_callback (tm_heap (p_timers (handle_cancellation env cur a s)) i) = ApplyDdercFallback
       \<and> pending_task (p_timers (handle_cancellation env cur a s)) i
       \<and> has_pending (ev_mrid (record_of s a)) (p_timers (handle_cancellation env cur a s))"
proof -
  let ?s1 = "upd_rec a (\<lambda>r. r\<lparr>ev_state := CANCELLED\<rparr>) s"
  have tr: "transition_to (ev_mrid (record_of s a)) CANCELLED s = Some ?s1"
    using assms(1) by (auto simp: transition_to_Some stored_def)
  define s5 where "s5 = post_started_device_lifecycle env a RC_CANCELLED (audit_transition env a
      (Some (state_value (ev_state (record_of s a)))) ''cancelled'' NoDetails
      (relay_control_event env a ''cancelled'' (cancel_event_timers cur (ev_mrid (record_of s a)) ?s1)))"
  have "keeps_store ?s1 s5" unfolding s5_def
    by (rule ks.trans [OF ks.trans [OF ks.trans [OF ks.cancel_timers_step ks.relay_control_step] ks.audit_step] ks.lifecycle_post_step])
  then have r5: "record_of s5 a = (record_of s a)\<lparr>ev_state := CANCELLED\<rparr>"
    by (simp add: keeps_store_def record_of_def upd_record_def)
  have wd: "cancellation_wind_down (record_of s5 a) = cancellation_wind_down (record_of s a)"
    by (simp add: r5 cancellation_wind_down_def)
  have "handle_cancellation env cur a s = s5\<lparr>p_timers := schedule_delayed_callback a (record_of s5 a)
      (env_local_now env (p_tick s5)) (cancellation_wind_down (record_of s a)) ApplyDdercFallback (p_timers s5)\<rparr>"
    using assms(2,3) unfolding handle_cancellation_def Let_def tr option.case s5_def [symmetric] wd by simp
  then show ?thesis
    by (intro exI [of _ "tm_next (p_timers s5)"])
      (simp add: schedule_delayed_callback_def start_task_def pending_task_def has_pending_def r5)
qed

text \<open>While such a task is on record, no initial default goes out for the program.\<close>

lemma initial_blocked:
  assumes "stored s a" "ev_state (record_of s a) = CANCELLED" "ev_program_href (record_of s a) = prog"
    and "has_pending (ev_mrid (record_of s a)) (p_timers s)"
  shows "apply_initial_dderc env prog s = s"
proof -
  have "a \<in> snd ` set (es_events (p_store s))"
    using assms(1) by (force simp: stored_def get_event_def dest: map_of_SomeD)
  then have "wind_down_pending s prog"
    using assms(2-4) by (auto simp: wind_down_pending_def list_ex_iff by_state_def record_of_def)
  then show ?thesis by (simp add: apply_initial_dderc_def split: option.split)
qed

text \<open>A record the store has pruned: its completion raises before it does anything.\<close>

lemma completion_pruned:
  "get_event (p_store s) (ev_mrid (record_of s a)) = None \<Longrightarrow> on_completion env a s = s"
  by (simp add: on_completion_def transition_to_absent Let_def)

section \<open>Outcomes of a dispatch\<close>

lemma record_post_devices [simp]:
  "record_of (post_response_for_devices env d c D s) b = record_of s b"
  by (simp add: record_of_def)

lemma respond_record:
  "record_of (respond env a dev failure s) b =
     (if b \<noteq> a then record_of s b
      else case failure of
             None \<Rightarrow> (record_of s a)\<lparr>ev_applied_devices := insert dev (ev_applied_devices (record_of s a))\<rparr>
           | Some _ \<Rightarrow> (record_of s a)\<lparr>ev_rejected_devices := insert dev (ev_rejected_devices (record_of s a))\<rparr>)"
proof (cases failure)
  case (Some exc)
  have m: "record_of (t\<lparr>p_modes := x\<rparr>) c = record_of t c" for t x c by (simp add: record_of_def)
  show ?thesis unfolding respond_def Let_def Some option.case record_post_devices m by simp
qed (simp add: respond_def Let_def)

lemma dispatch_one_record [simp]: "record_of (snd (dispatch_one env a tgt cs s)) b = record_of s b"
  by (simp add: record_of_def)

lemma report_outcomes:
  assumes "dispatch_and_report env a cs devs s = (ocs, s')"
  shows "map fst ocs = devs \<and>
    ev_applied_devices (record_of s' a) = ev_applied_devices (record_of s a) \<union> {d. (d, None) \<in> set ocs} \<and>
    ev_rejected_devices (record_of s' a) = ev_rejected_devices (record_of s a) \<union> {d. \<exists>x. (d, Some x) \<in> set ocs}"
  using assms
proof (induction devs arbitrary: s ocs)
  case (Cons d devs)
  obtain f s1 where f: "dispatch_one env a (ByHref d) cs s = (f, s1)" by fastforce
  obtain rest s2 where r: "dispatch_and_report env a cs devs (respond env a d f s1) = (rest, s2)" by fastforce
  have o: "ocs = (d, f) # rest" "s' = s2" using Cons.prems f r by auto
  have s1: "record_of s1 a = record_of s a" using dispatch_one_record [of env a "ByHref d" cs s a] f by simp
  show ?case
    using Cons.IH [OF r [folded o(2)]] unfolding o(1) respond_record by (cases f) (auto simp: s1)
qed simp

lemma respond_adds:
  "adds (\<lambda>e. \<exists>l. get_device_lfdi s dev = Some l \<and> response_to env (ev_derc (record_of s a))
      (case failure of None \<Rightarrow> RC_ACTIVE | Some exc \<Rightarrow> response_code_for_dispatch_error exc) l e)
     s (respond env a dev failure s)"
proof (cases failure)
  case None
  let ?t = "upd_rec a (\<lambda>r. r\<lparr>ev_applied_devices := insert dev (ev_applied_devices r)\<rparr>) s"
  have "adds (\<lambda>e. \<exists>d \<in> {dev}. \<exists>l. get_device_lfdi ?t d = Some l \<and> response_to env (ev_derc (record_of s a)) RC_ACTIVE l e)
      ?t (post_response_for_devices env (ev_derc (record_of s a)) RC_ACTIVE {dev} ?t)"
    by (rule post_devices_adds)
  then have "adds (\<lambda>e. \<exists>l. get_device_lfdi s dev = Some l \<and> response_to env (ev_derc (record_of s a)) RC_ACTIVE l e)
      s (post_response_for_devices env (ev_derc (record_of s a)) RC_ACTIVE {dev} ?t)"
    by (simp add: adds_def get_device_lfdi_def upd_rec_def)
  then show ?thesis unfolding respond_def Let_def None option.case by simp
next
  case (Some exc)
  let ?u = "upd_rec a (\<lambda>r. r\<lparr>ev_rejected_devices := insert dev (ev_rejected_devices r)\<rparr>) s"
  let ?t = "?u\<lparr>p_modes := snd (amt_unregister dev (ev_mrid (record_of ?u a)) (p_modes ?u))\<rparr>"
  let ?c = "response_code_for_dispatch_error exc"
  have d: "ev_derc (record_of ?t a) = ev_derc (record_of s a)" by (simp add: record_of_def upd_record_def)
  have "adds (\<lambda>e. \<exists>d \<in> {dev}. \<exists>l. get_device_lfdi ?t d = Some l \<and> response_to env (ev_derc (record_of s a)) ?c l e)
      ?t (post_response_for_devices env (ev_derc (record_of s a)) ?c {dev} ?t)"
    by (rule post_devices_adds)
  then have "adds (\<lambda>e. \<exists>l. get_device_lfdi s dev = Some l \<and> response_to env (ev_derc (record_of s a)) ?c l e)
      s (post_response_for_devices env (ev_derc (record_of s a)) ?c {dev} ?t)"
    by (simp add: adds_def get_device_lfdi_def upd_rec_def)
  then show ?thesis unfolding respond_def Let_def Some option.case d by simp
qed

section \<open>Relays on change only\<close>

lemma emit_relay_again:
  assumes "content_sig env n' = content_sig env n" "key = (case k of Some k \<Rightarrow> k | None \<Rightarrow> (n_stream n, n_mrid n))"
    and "key = (case k' of Some k \<Rightarrow> k | None \<Rightarrow> (n_stream n', n_mrid n'))"
    and "map_of (p_snapshots t) key = map_of (p_snapshots (emit_relay env n dd k s)) key"
  shows "emit_relay env n' True k' t = t"
proof -
  have "map_of (p_snapshots (emit_relay env n dd k s)) key = Some (content_sig env n)"
    using assms(2) by (auto simp: emit_relay_def Let_def emit_def)
  then show ?thesis using assms by (simp add: emit_relay_def Let_def)
qed

lemma snapshots_other:
  assumes "key \<noteq> (case k of Some k \<Rightarrow> k | None \<Rightarrow> (n_stream n, n_mrid n))"
  shows "map_of (p_snapshots (emit_relay env n dd k s)) key = map_of (p_snapshots s) key"
  using assms by (auto simp: emit_relay_def Let_def emit_def)

lemma state_emit_relay [simp]: "p_state (emit_relay env n dd k s) = p_state s" "p_store (emit_relay env n dd k s) = p_store s"
  using ks.emit_relay_step [of s env n dd k] by (simp_all add: keeps_store_def)

lemma control_notification_frame:
  "p_store t = p_store s \<Longrightarrow> p_state t = p_state s \<Longrightarrow>
     control_notification env t (record_of t a) tr = control_notification env s (record_of s a) tr"
proof -
  assume st: "p_store t = p_store s" "p_state t = p_state s"
  have "get_device_lfdi t = get_device_lfdi s" by (simp add: fun_eq_iff get_device_lfdi_def st)
  then show ?thesis
    by (simp add: control_notification_def record_of_def affected_lfdis_for_program_def
        program_devices_list_def st cong: option.case_cong)
qed

lemma content_sig_transition:
  "content_sig env (control_notification env s r tr) = content_sig env (control_notification env s r tr')"
  "content_sig env (control_notification env s r tr\<lparr>n_stream := x, n_payload := y\<rparr>) =
   content_sig env (control_notification env s r tr'\<lparr>n_stream := x, n_payload := y\<rparr>)"
  by (simp_all add: content_sig_def control_notification_def)

lemma relay_updated_idle:
  "relay_control_event env a ''updated'' (relay_control_event env a tr s) = relay_control_event env a tr s"
proof -
  let ?r = "record_of s a"
  define n where "n = (\<lambda>tr. control_notification env s ?r tr)"
  define e where "e = extract_doe_envelope (derc_base (ev_derc ?r))"
  define d where "d = (\<lambda>tr. n tr\<lparr>n_stream := ''doe'', n_payload := PDoe e\<rparr>)"
  define s1 where "s1 = emit_relay env (n tr) (tr = ''updated'') None s"
  define t where "t = relay_control_event env a tr s"
  have t: "t = (if e = [] then s1 else emit_relay env (d tr) (tr = ''updated'') None s1)"
    by (simp add: t_def relay_control_event_def Let_def n_def e_def d_def s1_def)
  have keys: "n_stream (n x) = ''control''" "n_stream (d x) = ''doe''" "n_mrid (n x) = hex (ev_mrid ?r)" "n_mrid (d x) = hex (ev_mrid ?r)" for x
    by (simp_all add: n_def d_def control_notification_def)
  have sig: "content_sig env (n x) = content_sig env (n y)" "content_sig env (d x) = content_sig env (d y)" for x y
    unfolding n_def d_def by (rule content_sig_transition)+
  have fr: "p_store t = p_store s" "p_state t = p_state s" by (simp_all add: t s1_def)
  have nt: "control_notification env t (record_of t a) x = n x" for x
    unfolding n_def by (rule control_notification_frame [OF fr])
  have rt: "record_of t a = ?r" by (simp add: record_of_def fr)
  have c: "emit_relay env (n ''updated'') True None t = t"
    by (rule emit_relay_again [where n = "n tr" and k = None and dd = "tr = ''updated''" and s = s])
      (auto simp: sig [of "''updated''" tr] keys t s1_def [symmetric] intro: snapshots_other)
  have dd: "emit_relay env (d ''updated'') True None t = t" if "e \<noteq> []"
    by (rule emit_relay_again [where n = "d tr" and k = None and dd = "tr = ''updated''" and s = s1])
      (use that in \<open>auto simp: sig [of "''updated''" tr] keys t\<close>)
  show ?thesis
    unfolding t_def [symmetric] unfolding relay_control_event_def [of env a "''updated''"] Let_def nt
    using c dd by (simp add: rt e_def [symmetric] d_def)
qed

section \<open>Initial defaults\<close>

lemma initial_targets_free:
  assumes "(dev, lfdi) \<in> set (initial_targets s prog derp d)" "b \<in> set (running_events s)"
    and "dev \<in> set (program_devices_list s (ev_program_href (record_of s b)))"
  shows "dev \<in> ev_superseded_devices (record_of s b) \<or> dev \<in> ev_rejected_devices (record_of s b)"
proof -
  have "dev \<notin> active_devices s (running_events s)"
    using assms(1) by (auto simp: initial_targets_def List.map_filter_def split: if_splits option.splits)
  then show ?thesis using assms(2,3) by (auto simp: active_devices_def Let_def)
qed

section \<open>Admission of a control\<close>

lemma effective_timing_successive:
  assumes "find_successive_predecessor s prog (interval_start derc) = Some b"
  shows "fst (effective_timing env prog derc s) = ev_end (record_of s b)"
proof -
  have "find_successive_predecessor (s\<lparr>p_rand := x\<rparr>) prog st = find_successive_predecessor s prog st" for x st
    by (simp add: find_successive_predecessor_def record_of_def)
  then show ?thesis
    using assms by (simp add: effective_timing_def Let_def case_prod_beta record_of_def)
qed

lemma effective_timing_random:
  assumes "find_successive_predecessor s prog (interval_start derc) = None" "randint_ok (env_rnd env)"
    and "map_of (rc_cache (p_rand s)) (m_rid derc) = None"
    and "effective_timing env prog derc s = (es, ed, s')"
  shows "\<bar>es - interval_start derc\<bar> \<le> (case randomize_start derc of None \<Rightarrow> 0 | Some v \<Rightarrow> \<bar>v\<bar>)"
    and "\<bar>ed - interval_duration derc\<bar> \<le> (case randomize_duration derc of None \<Rightarrow> 0 | Some v \<Rightarrow> \<bar>v\<bar>)"
proof -
  have f: "find_successive_predecessor (s\<lparr>p_rand := x\<rparr>) prog st = find_successive_predecessor s prog st" for x st
    by (simp add: find_successive_predecessor_def record_of_def)
  obtain so n1 where so: "compute_offset (env_rnd env) (randomize_start derc) (rc_draws (p_rand s)) = (so, n1)" by fastforce
  obtain d n2 where d: "compute_offset (env_rnd env) (randomize_duration derc) n1 = (d, n2)" by fastforce
  have "es = interval_start derc + so" "ed = interval_duration derc + d"
    using assms(1,3,4) by (auto simp: effective_timing_def get_offsets_def Let_def f so d)
  then show "\<bar>es - interval_start derc\<bar> \<le> (case randomize_start derc of None \<Rightarrow> 0 | Some v \<Rightarrow> \<bar>v\<bar>)"
    "\<bar>ed - interval_duration derc\<bar> \<le> (case randomize_duration derc of None \<Rightarrow> 0 | Some v \<Rightarrow> \<bar>v\<bar>)"
    using compute_offset_bounds(1) [OF assms(2), of "randomize_start derc" "rc_draws (p_rand s)"]
      compute_offset_bounds(1) [OF assms(2), of "randomize_duration derc" n1] so d by auto
qed

text \<open>An event that is over when it is first seen, and was answered before, is left alone.\<close>

lemma expired_answered:
  assumes "effective_timing env prog derc s = (es, ed, t)" "get_event (p_store t) (m_rid derc) = None"
    and "p_resume_after t = None" "es + ed < now" "has_responded (m_rid derc) (p_tracker t)"
  shows "process_one env cur prog derp now derc s = (t, False)"
  using assms by (simp add: process_one_def Let_def)

text \<open>A new event that has not started: stored as scheduled, with a timer set for its
  effective start.\<close>

lemma new_scheduled_timer:
  assumes "\<not> p_closed (handle_new_scheduled env a s)"
  shows "\<exists>i. tm_heap (p_timers (handle_new_scheduled env a s)) i =
      \<lparr>tt_mrid = ev_mrid (record_of s a), tt_record = a, tt_target = ev_start (record_of s a),
       tt_callback = OnActivation, tt_clock = now_fn_for s (ev_program_href (record_of s a)), tt_status = Pending\<rparr>
     \<and> pending_task (p_timers (handle_new_scheduled env a s)) i"
proof -
  define s1 where "s1 = post_response env (ev_derc (record_of s a)) RC_ACKNOWLEDGED (ev_program_href (record_of s a)) {} s"
  have tm: "p_timers (audit_transition env a f t d u) = p_timers u" "p_timers (relay_control_event env a t u) = p_timers u"
    for f t d u
    by (simp_all add: audit_transition_def audit_transition_rec_def emit_def relay_control_event_def emit_relay_def Let_def)
  have cl: "p_closed (audit_transition env a f t d u) = p_closed u" "p_closed (relay_control_event env a t u) = p_closed u"
    for f t d u
    by (simp_all add: audit_transition_def audit_transition_rec_def emit_def relay_control_event_def emit_relay_def Let_def)
  have k: "keeps_store s s1" unfolding s1_def by (rule ks.post_response_step)
  have op: "\<not> p_closed s1"
    using assms unfolding handle_new_scheduled_def Let_def s1_def [symmetric] by (auto split: if_splits)
  have eq: "p_timers (handle_new_scheduled env a s) = schedule_activation a (record_of s1 a)
      (now_fn_for s1 (ev_program_href (record_of s a))) (p_timers s1)"
    using op unfolding handle_new_scheduled_def Let_def s1_def [symmetric] by (simp add: tm)
  have r: "record_of s1 a = record_of s a" "now_fn_for s1 p = now_fn_for s p" for p
    using k by (simp_all add: keeps_store_def record_of_def now_fn_for_def fsa_scope_def)
  show ?thesis
    unfolding eq r
    by (intro exI [of _ "tm_next (p_timers s1)"])
      (simp add: schedule_activation_def start_task_def pending_task_def ACTIVATION_LEAD_def)
qed

section \<open>After shutdown\<close>

text \<open>Once the processor is closed it posts nothing more.\<close>

definition quiet :: "proc \<Rightarrow> proc \<Rightarrow> bool" where
  "quiet s s' \<longleftrightarrow> adds (\<lambda>e. \<not> is_post e) s s'"

interpretation qt: quiet_steps quiet
proof unfold_locales
  fix s t u
  show "quiet s s" by (simp add: quiet_def adds_same)
  show "quiet s t \<Longrightarrow> quiet t u \<Longrightarrow> quiet s u" by (auto simp: quiet_def intro: adds_trans)
  show "same_core s t \<Longrightarrow> quiet s t" by (simp add: quiet_def same_core_def adds_same)
  show "\<not> is_post e \<Longrightarrow> quiet s (emit e s)" for e by (simp add: quiet_def adds_emit)
  show "quiet s (shutdown s)" by (simp add: quiet_def adds_same)
qed

lemma quiet_upd: "quiet s (upd_rec a f s)"
  by (simp add: quiet_def adds_same upd_rec_def)

lemma cancel_program_quiet: "quiet s (cancel_program env cur prog s)"
proof -
  let ?f = "\<lambda>a s. let r = record_of s a
            in if ev_program_href r \<noteq> prog then s
               else case transition_to (ev_mrid r) CANCELLED s of
                      None \<Rightarrow> s
                    | Some s' \<Rightarrow>
                        let s'' = audit_transition env a (Some (state_value (ev_state r))) ''cancelled'' NoDetails s'
                        in relay_control_event env a ''cancelled'' (cancel_event_timers cur (ev_mrid r) s'')"
  have "quiet s (?f a s)" for a s
    unfolding Let_def
    by (auto simp: transition_to_Some split: option.split
        intro!: qt.trans [OF quiet_upd qt.trans [OF qt.audit_step qt.trans [OF qt.cancel_timers_step qt.relay_control_step]]])
  then have "quiet s (fold ?f (all_active_states (p_store s)) s)"
    by (rule qt.fold_step)
  then show ?thesis
    unfolding cancel_program_def Let_def by (rule qt.then_frame) (simp add: same_core_def)
qed

lemma comms_loss_quiet: "quiet s (enter_comms_loss env cur s)"
  using enter_comms_loss_facts(1) by (auto simp: quiet_def adds_def posts_nothing_def)

lemma wake_closed: "p_closed s \<Longrightarrow> wake_task env i s = s \<or> wake_task env i s = finish_task i s"
  by (simp add: wake_task_def wait_and_fire_wake_def Let_def)

lemma closed_step:
  assumes "proc_step env s s'" "p_closed s" "wf_store (p_store s)"
  shows "p_closed s' \<and> quiet s s'"
  using assms
proof (cases rule: proc_step.cases)
  case (Poll prog)
  then show ?thesis using assms by (simp add: process_controls_def)
next
  case (TimerWakes i)
  then show ?thesis
    using wake_closed [OF assms(2), of env i] qt.finish_task_step [of s i] assms(2) by (auto simp: finish_task_def)
next
  case (ProgramRemoved prog)
  then show ?thesis
    using cancel_program_quiet assms sc.cancel_program_step [of s env None prog] by (simp add: stays_closed_def)
next
  case CommsLost
  then show ?thesis
    using comms_loss_quiet assms sc.comms_loss_step [of s env None] by (simp add: stays_closed_def)
next
  case (LateDispatch a l exc)
  then show ?thesis
    using qt.late_step assms(2) sc.late_step [of s env a l exc] by (simp add: stays_closed_def)
qed (use assms in \<open>auto intro: qt.close qt.frame simp: same_core_def quiet_def adds_same\<close>)

lemma closed_run:
  assumes "(proc_step env)\<^sup>*\<^sup>* s s'" "p_closed s" "wf_store (p_store s)"
  shows "p_closed s' \<and> quiet s s'"
  using assms(1)
proof (induction rule: rtranclp_induct)
  case (step t u)
  then have "wf_store (p_store t)" using run_evolves assms ev.wf_step by blast
  then show ?case using closed_step step qt.trans by blast
qed (simp add: assms)
section \<open>Supersession of one event by another\<close>

lemma store_mark_fold:
  "record_of (fold (\<lambda>dev. upd_rec a (f dev)) devs s) c = (if c = a then fold f devs (record_of s a) else record_of s c)"
  by (induction devs arbitrary: s) auto

lemma fold_modes_keep:
  fixes r :: EventRecord and h :: "string \<Rightarrow> EventRecord \<Rightarrow> (string, string set) dict"
  assumes "g = (\<lambda>dev r. r\<lparr>ev_superseded_modes := h dev r\<rparr>)"
  shows "ev_state (fold g devs r) = ev_state r" "ev_mrid (fold g devs r) = ev_mrid r"
    "ev_program_href (fold g devs r) = ev_program_href r" "ev_superseded_devices (fold g devs r) = ev_superseded_devices r"
  unfolding assms by (induction devs arbitrary: r) auto

lemma events_mark_fold [simp]: "es_events (p_store (fold (\<lambda>dev. upd_rec a (f dev)) devs s)) = es_events (p_store s)"
  by (induction devs arbitrary: s) auto

lemma mark_superseded_facts:
  assumes "s' = mark_superseded env res a s"
  shows "c \<noteq> a \<Longrightarrow> record_of s' c = record_of s c"
    and "ev_state (record_of s' a) = ev_state (record_of s a)" "ev_mrid (record_of s' a) = ev_mrid (record_of s a)"
      "ev_program_href (record_of s' a) = ev_program_href (record_of s a)"
      "ev_superseded_devices (record_of s' a) = ev_superseded_devices (record_of s a) \<union> affected_devices res"
    and "es_events (p_store s') = es_events (p_store s)"
  unfolding assms mark_superseded_def Let_def
  by (auto simp: store_mark_fold fold_modes_keep [OF refl] record_frame [OF store_frames(6)])

lemma apply_supersession_full:
  assumes st: "get_event (p_store s) (superseded_mrid res) = Some a" "get_event (p_store s) (superseding_mrid res) = Some b"
    and wf: "wf_store (p_store s)"
    and open_a: "\<not> terminal (ev_state (record_of s a))"
      "\<not> (ev_state (record_of s b) = SCHEDULED \<and> ev_state (record_of s a) = ACTIVE)"
    and devs: "devices_of dm (ev_program_href (record_of s a)) \<noteq> {}"
      "devices_of dm (ev_program_href (record_of s a)) \<subseteq> affected_devices res"
  shows "ev_state (record_of (apply_supersession env cur dm res s) a) = SUPERSEDED"
    and "c \<noteq> a \<Longrightarrow> record_of (apply_supersession env cur dm res s) c = record_of s c"
    and "es_events (p_store (apply_supersession env cur dm res s)) = es_events (p_store s)"
proof -
  define t where "t = mark_superseded env res a s"
  note m = mark_superseded_facts [OF t_def]
  have full: "fully_superseded dm (record_of t a)"
    using devs by (auto simp: fully_superseded_def m)
  have ev: "get_event (p_store t) (ev_mrid (record_of t a)) = Some a"
    using get_event_stored [OF wf st(1)] by (auto simp: get_event_def m stored_def)
  have eq: "apply_supersession env cur dm res s = finish_superseded env cur (superseding_mrid res) a t"
    using st open_a full by (auto simp: apply_supersession_def Let_def t_def)
  obtain u where u: "transition_to (ev_mrid (record_of t a)) SUPERSEDED t = Some u"
    and ru: "u = upd_rec a (\<lambda>r. r\<lparr>ev_state := SUPERSEDED\<rparr>) t"
    using ev by (auto simp: transition_to_Some)
  have st: "p_store (apply_supersession env cur dm res s) = p_store u"
    unfolding eq finish_superseded_def Let_def u by simp
  then have r: "record_of (apply_supersession env cur dm res s) c = record_of u c" for c
    by (rule record_frame)
  show "ev_state (record_of (apply_supersession env cur dm res s) a) = SUPERSEDED"
    "c \<noteq> a \<Longrightarrow> record_of (apply_supersession env cur dm res s) c = record_of s c"
    by (auto simp: r ru m)
  show "es_events (p_store (apply_supersession env cur dm res s)) = es_events (p_store s)"
    by (simp add: st ru m)
qed

section \<open>Handlers that go on after a completion\<close>

lemma completion_store:
  assumes "stored s a" "ev_state (record_of s a) = ACTIVE"
  shows "p_store (on_completion env a s) = upd_record a (\<lambda>r. r\<lparr>ev_state := COMPLETED\<rparr>) (p_store s)"
  using assms unfolding on_completion_def Let_def
  by (auto simp: transition_to_def transition_def stored_def get_event_def split: option.splits)

lemma finish_superseded_store:
  "stored s a \<Longrightarrow> p_store (finish_superseded env cur win a s) = upd_record a (\<lambda>r. r\<lparr>ev_state := SUPERSEDED\<rparr>) (p_store s)"
  unfolding finish_superseded_def Let_def
  by (auto simp: transition_to_def transition_def stored_def get_event_def split: option.splits)

lemma completed_stored:
  assumes "stored s a" "ev_state (record_of s a) = ACTIVE"
  shows "stored (on_completion env a s) a"
    "record_of (on_completion env a s) a = (record_of s a)\<lparr>ev_state := COMPLETED\<rparr>"
proof -
  have "record_of (on_completion env a s) a = record_of (upd_rec a (\<lambda>r. r\<lparr>ev_state := COMPLETED\<rparr>) s) a"
    by (rule record_frame) (simp add: completion_store [OF assms])
  then show r: "record_of (on_completion env a s) a = (record_of s a)\<lparr>ev_state := COMPLETED\<rparr>" by simp
  show "stored (on_completion env a s) a"
    using assms(1) unfolding stored_def r by (simp add: completion_store [OF assms])
qed

section \<open>Responses that do arrive\<close>

definition reported :: "response_key \<Rightarrow> proc \<Rightarrow> bool" where
  "reported k s \<longleftrightarrow> dhas (rt_sent (p_tracker s)) k"

definition idle :: "proc \<Rightarrow> bool" where
  "idle s \<longleftrightarrow> rt_in_flight (p_tracker s) = []"

lemma tracker_post_one:
  "p_tracker (post_one env d c l s) =
     fst (post_der_response (env_s2018 env) (env_s2023 env) (env_profile env) d c l (now_of env None s)
       (supported_modes2 env l) (case env_post env (p_tick s) of None \<Rightarrow> PostOk | Some err \<Rightarrow> PostFailed err) (p_tracker s))"
  by (simp add: post_one_def Let_def case_prod_beta split: option.split)

lemma post_one_idle: "idle s \<Longrightarrow> idle (post_one env d c l s)"
  by (simp add: idle_def tracker_post_one post_der_response_idle)

lemma sent_reserve: "reserve_turn k t = (res, t') \<Longrightarrow> rt_sent t' = rt_sent t"
  by (auto simp: reserve_turn_def split: if_splits option.splits)

lemma post_one_keeps: "reported k s \<Longrightarrow> reported k (post_one env d c l s)"
  by (auto simp: reported_def tracker_post_one post_der_response_def Let_def sent_finish_post
      split: option.split reserve_result.splits prod.splits dest: sent_reserve)

lemma post_one_reports:
  assumes "idle s" "env_post env = (\<lambda>_. None)" "resolve_wire_code (response_required d) code (env_profile env) = Some c"
    and "response_gate d c = Some path"
  shows "reported (m_rid d, c, l) (post_one env d code l s)"
  using assms
  by (auto simp: reported_def idle_def tracker_post_one post_der_response_def reserve_turn_def Let_def sent_finish_post)


lemma post_fold_reports:
  assumes "env_post env = (\<lambda>_. None)" "resolve_wire_code (response_required d) code (env_profile env) = Some c"
    and "response_gate d c = Some path" "idle s"
  shows "idle (fold (post_device env d code) devs s)"
    and "reported k s \<Longrightarrow> reported k (fold (post_device env d code) devs s)"
    and "dev \<in> set devs \<Longrightarrow> get_device_lfdi s dev = Some l \<Longrightarrow>
           reported (m_rid d, c, l) (fold (post_device env d code) devs s)"
proof -
  have keep: "reported k t \<Longrightarrow> reported k (fold (post_device env d code) xs t)" for k t xs
    by (induction xs arbitrary: t) (auto simp: post_device_def post_one_keeps split: option.split)
  then show "reported k s \<Longrightarrow> reported k (fold (post_device env d code) devs s)" .
  have idle_dev: "idle t \<Longrightarrow> idle (post_device env d code x t)" for t x
    by (simp add: post_device_def post_one_idle split: option.split)
  then show "idle (fold (post_device env d code) devs s)"
    using assms(4) by (induction devs arbitrary: s) auto
  show "reported (m_rid d, c, l) (fold (post_device env d code) devs s)"
    if "dev \<in> set devs" "get_device_lfdi s dev = Some l"
    using that assms(4)
  proof (induction devs arbitrary: s)
    case (Cons x xs)
    have lfdi: "get_device_lfdi (post_device env d code x s) dev = Some l"
      using Cons.prems(2) by (simp add: get_device_lfdi_def)
    show ?case
    proof (cases "x = dev")
      case True
      have "reported (m_rid d, c, l) (post_device env d code x s)"
        using post_one_reports [OF Cons.prems(3) assms(1-3)] True Cons.prems(2) by (simp add: post_device_def)
      then show ?thesis using keep by simp
    next
      case False
      then show ?thesis using Cons.IH [OF _ lfdi idle_dev] Cons.prems by simp
    qed
  qed simp
qed

lemma tracker_quiet: "posts_nothing s t \<Longrightarrow> p_tracker t = p_tracker s"
  by (simp add: posts_nothing_def)

lemma lifecycle_reports:
  assumes "env_post env = (\<lambda>_. None)" "resolve_wire_code (response_required (ev_derc (record_of s a))) code (env_profile env) = Some c"
    and "response_gate (ev_derc (record_of s a)) c = Some path" "idle s"
    and "dev \<in> ev_applied_devices (record_of s a) - ev_superseded_devices (record_of s a)"
    and "finite (ev_applied_devices (record_of s a))" "get_device_lfdi s dev = Some l"
  shows "reported (m_rid (ev_derc (record_of s a)), c, l) (post_started_device_lifecycle env a code s)"
proof -
  have "dev \<in> set (iter_set (env_order env) (ev_applied_devices (record_of s a) - ev_superseded_devices (record_of s a)))"
    using assms(5,6) by (simp add: set_iter_set)
  from post_fold_reports(3) [OF assms(1-4) this assms(7)] show ?thesis
    using assms(5) by (auto simp: post_started_device_lifecycle_def post_response_for_devices_def Let_def)
qed

lemma completion_reports:
  assumes st: "stored s a" "ev_state (record_of s a) = ACTIVE"
    and net: "env_post env = (\<lambda>_. None)" "rt_in_flight (p_tracker s) = []"
    and wire: "resolve_wire_code (response_required (ev_derc (record_of s a))) RC_COMPLETED (env_profile env) = Some c"
      "response_gate (ev_derc (record_of s a)) c = Some path"
    and dev: "dev \<in> ev_applied_devices (record_of s a) - ev_superseded_devices (record_of s a)"
      "finite (ev_applied_devices (record_of s a))" "get_device_lfdi s dev = Some l"
  shows "dhas (rt_sent (p_tracker (on_completion env a s))) (m_rid (ev_derc (record_of s a)), c, l)"
proof -
  let ?s1 = "upd_rec a (\<lambda>r. r\<lparr>ev_state := COMPLETED\<rparr>) s"
  let ?s3 = "audit_transition env a (Some ''active'') ''completed'' NoDetails (relay_control_event env a ''completed'' ?s1)"
  have tr: "transition_to (ev_mrid (record_of s a)) COMPLETED s = Some ?s1"
    using st(1) by (auto simp: transition_to_Some stored_def)
  have rec: "record_of ?s3 a = (record_of s a)\<lparr>ev_state := COMPLETED\<rparr>"
    by (simp add: record_frame [OF store_frames(2)] record_frame [OF store_frames(1)])
  have state: "p_state ?s3 = p_state s"
    using ks.audit_step ks.relay_control_step by (simp add: keeps_store_def upd_rec_def)
  have t3: "p_tracker ?s3 = p_tracker s"
    using tracker_quiet [OF pn.trans [OF pn.relay_control_step pn.audit_step]] by (simp add: upd_rec_def)
  have "reported (m_rid (ev_derc (record_of s a)), c, l) (post_started_device_lifecycle env a RC_COMPLETED ?s3)"
    using lifecycle_reports [of env ?s3 a RC_COMPLETED c path dev l] net wire dev rec state t3
    by (simp add: idle_def get_device_lfdi_def)
  then show ?thesis
    unfolding on_completion_def Let_def
    using st tr tracker_quiet [OF pn.fallback_step] by (simp add: reported_def)
qed
end
