(* ===== verification/Example_Run.thy ===== *)
theory Example_Run
  imports Processor_Behaviour
begin

text \<open>
  A concrete environment and concrete processor states, on which the properties are
  instantiated: one end device under two or three programs, a network and connectors that
  always succeed, an audit trail that is off.
\<close>

definition ex_profile :: ServerProfile where
  "ex_profile = \<lparr>sp_base = Some E2018, sp_features = {}, sp_extensions = None,
     missing_location_fallback = False, sp_evidence = []\<rparr>"

definition ex_schema :: schema where
  "ex_schema = \<lparr>sch_types = [], sch_roots = []\<rparr>"

definition ex_env :: env where
  "ex_env = \<lparr>env_now = (\<lambda>_ _. 100), env_local_now = (\<lambda>_. 100), env_post = (\<lambda>_. None),
     env_dispatch = (\<lambda>_. None), env_close = (\<lambda>_. False), env_order = sorted_list_of_set,
     env_sched = (\<lambda>_ xs. xs), env_rnd = (\<lambda>_ _. 0), env_group_lookup = None,
     env_takes_controls = None, env_supported_modes2 = None, env_profile = ex_profile,
     env_s2018 = ex_schema, env_s2023 = ex_schema, env_audit_enabled = False,
     env_audit_history = False, env_wire_name = id, env_json = (\<lambda>_. [])\<rparr>"

definition ex_base :: dercontrol_base where
  "ex_base = \<lparr>base_fields = [(''op_mod_max_lim_w'', ''50'')], base_other_element = []\<rparr>"

definition ex_derc :: "bytes \<Rightarrow> int \<Rightarrow> int \<Rightarrow> int option \<Rightarrow> Dercontrol1" where
  "ex_derc mr st dur rs =
     \<lparr>m_rid = mr, reply_to = Some ''/rsp'', response_required = Some [7], creation_time = Some 1,
      event_status = None, interval_start = st, interval_duration = dur, randomize_start = rs,
      randomize_duration = None, derc_base = ex_base\<rparr>"

definition ex_record :: "bytes \<Rightarrow> string \<Rightarrow> int \<Rightarrow> EventState \<Rightarrow> int \<Rightarrow> int \<Rightarrow> EventRecord" where
  "ex_record mr prog prim st start dur =
     new_EventRecord mr (ex_derc mr start dur (Some 30)) prog prim st start dur 0 1"

definition ex_device :: EndDeviceState where
  "ex_device = \<lparr>ed_href = ''/edev/1'', ed_lfdi = [1], ed_fsa_hrefs = [], ed_fsa_list_link = None, ed_program_list_links = [],
     ed_subscription_list_href = None,
     ed_fsa_list_subscribable = False, ed_derp_list_subscribable = False\<rparr>"

text \<open>The default names the mode the events name, and one more.\<close>

definition ex_default :: DefaultDercontrol where
  "ex_default = \<lparr>dderc_mrid = [9], dderc_base =
     \<lparr>base_fields = [(''op_mod_connect'', ''true''), (''op_mod_max_lim_w'', ''50'')], base_other_element = []\<rparr>,
     dderc_settings = []\<rparr>"

definition ex_program :: "string \<Rightarrow> int \<Rightarrow> Dercontrol1 list \<Rightarrow> DerProgramState" where
  "ex_program href prim ctls =
     \<lparr>dp_href = href, dp_primacy = prim, dp_controls_link = None, dp_default_link = None,
      default_dercontrol = Some ex_default, der_controls = ctls, der_curves = [],
      discovered_from_fsa_href = None, derc_list_subscribable = False, dderc_subscribable = False,
      der_controls_complete = True\<rparr>"

definition ex_state :: "string list \<Rightarrow> DiscoveredState" where
  "ex_state progs =
     \<lparr>ds_dcap = None, ds_time = None, ds_time_href = None, ds_mup_list_href = None, ds_self_device = None,
      end_devices = [(''/edev/1'', ex_device)],
      der_programs = map (\<lambda>p. (p, ex_program p 1 [])) progs,
      device_mapping = \<lparr>program_to_devices = map (\<lambda>p. (p, [''/edev/1''])) progs,
                        device_to_programs = [(''/edev/1'', progs)]\<rparr>,
      poll_rates = [], csip_aus_mode = False, pricing_enabled = False, tariff_profiles = [],
      fsa_time = [], fsa_time_hrefs = [], previous_fsa_hrefs = []\<rparr>"

definition ex_timers :: EventTimerManager where
  "ex_timers = \<lparr>tm_tasks = [],
     tm_heap = (\<lambda>_. \<lparr>tt_mrid = [], tt_record = 0, tt_target = 0, tt_callback = OnActivation,
                     tt_clock = LocalClock, tt_status = Finished\<rparr>), tm_next = 0\<rparr>"

definition ex_store :: "EventRecord list \<Rightarrow> EventStore" where
  "ex_store rs = fold (\<lambda>r st. case alloc r st of (a, st1) \<Rightarrow> upsert a st1) rs
     (empty_store (ex_record [] [] 0 CANCELLED 0 0))"

definition ex_proc :: "string list \<Rightarrow> EventRecord list \<Rightarrow> proc" where
  "ex_proc progs rs =
     \<lparr>p_state = ex_state progs, p_store = ex_store rs, p_rand = empty_RandomizationCache,
      p_tracker = empty_ResponseTracker, p_dderc = [], p_timers = ex_timers, p_modes = [],
      p_closed = False, p_snapshots = [], p_unstored_seen = [], p_comms_active = False,
      p_resume_after = None, p_late = [], p_tick = 0, p_trace = []\<rparr>"

lemma wf_ex_store: "wf_store (ex_store rs)"
  unfolding ex_store_def
proof (rule fold_invariant)
  fix r st assume "wf_store st"
  then have "wf_store (snd (alloc r st))" by (rule wf_store_alloc)
  then have "wf_store (upsert (fst (alloc r st)) (snd (alloc r st)))"
    by (rule wf_store_upsert) (simp add: alloc_def)
  then show "wf_store (case alloc r st of (a, st1) \<Rightarrow> upsert a st1)" by (simp add: case_prod_beta)
qed simp

lemma wf_ex_proc: "wf_store (p_store (ex_proc progs rs))"
  by (simp add: ex_proc_def wf_ex_store)

section \<open>A superseded event that supersedes\<close>

text \<open>
  Event A is running. Event B, of higher priority, starts later and overlaps A; event C, of
  higher priority still, overlaps B only. B is taken over by C as soon as both are known.
\<close>

definition ex_chain :: proc where
  "ex_chain = ex_proc [''/c'', ''/b'', ''/a'']
     [ex_record [3] ''/c'' 1 SCHEDULED 250 100,
      ex_record [2] ''/b'' 2 SCHEDULED 190 100,
      ex_record [1] ''/a'' 3 ACTIVE 50 150]"

lemma wf_ex_chain: "wf_store (p_store ex_chain)"
  by (simp add: ex_chain_def wf_ex_proc)

lemma ex_chain_next: "es_next (p_store ex_chain) = 3"
  by code_simp

lemma ex_chain_run:
  "(proc_step ex_env)\<^sup>*\<^sup>* ex_chain (enter_comms_loss ex_env None (process_controls ex_env None ''/a'' ex_chain))"
  by (meson converse_rtranclp_into_rtranclp proc_step.Poll proc_step.CommsLost r_into_rtranclp)

lemma ex_chain_results:
  "compute_supersession sorted_list_of_set (map (record_of ex_chain) [0, 1, 2]) (build_program_device_map ex_chain) =
    [\<lparr>superseded_mrid = [2], superseding_mrid = [3], affected_devices = {''/edev/1''},
      superseded_program_href = ''/b'', superseding_program_href = ''/c'', affected_modes = {''op_mod_max_lim_w''}\<rparr>,
     \<lparr>superseded_mrid = [1], superseding_mrid = [2], affected_devices = {''/edev/1''},
      superseded_program_href = ''/a'', superseding_program_href = ''/b'', affected_modes = {''op_mod_max_lim_w''}\<rparr>]"
  by code_simp

lemma ex_chain_events: "all_active_states (p_store ex_chain) = [0, 1, 2]"
  by code_simp

lemma ex_chain_states:
  "map (\<lambda>a. (ev_state (record_of ex_chain a), ev_program_href (record_of ex_chain a))) [0, 1, 2] =
     [(SCHEDULED, ''/c''), (SCHEDULED, ''/b''), (ACTIVE, ''/a'')]"
  by code_simp

lemma ex_chain_lookup: "map (get_event (p_store ex_chain)) [[3], [2], [1]] = [Some 0, Some 1, Some 2]"
  by code_simp

lemma ex_chain_devices:
  "map (devices_of (build_program_device_map ex_chain)) [''/b'', ''/a''] = [{''/edev/1''}, {''/edev/1''}]"
  by code_simp

lemma ex_order: "env_order ex_env = sorted_list_of_set"
  by (simp add: ex_env_def)

definition ex_chain_step :: proc where
  "ex_chain_step = apply_supersession ex_env None (build_program_device_map ex_chain)
     \<lparr>superseded_mrid = [2], superseding_mrid = [3], affected_devices = {''/edev/1''},
      superseded_program_href = ''/b'', superseding_program_href = ''/c'', affected_modes = {''op_mod_max_lim_w''}\<rparr> ex_chain"

lemma ex_chain_run_eq:
  "run_supersession ex_env None ex_chain = apply_supersession ex_env None (build_program_device_map ex_chain)
     \<lparr>superseded_mrid = [1], superseding_mrid = [2], affected_devices = {''/edev/1''},
      superseded_program_href = ''/a'', superseding_program_href = ''/b'', affected_modes = {''op_mod_max_lim_w''}\<rparr> ex_chain_step"
  unfolding run_supersession_def Let_def ex_chain_events ex_order ex_chain_results ex_chain_step_def by simp

lemma ex_chain_step_facts:
  "ev_state (record_of ex_chain_step 1) = SUPERSEDED" "record_of ex_chain_step 2 = record_of ex_chain 2"
  "get_event (p_store ex_chain_step) [1] = Some 2" "get_event (p_store ex_chain_step) [2] = Some 1"
proof -
  note f = apply_supersession_full [where s = ex_chain and res = "\<lparr>superseded_mrid = [2], superseding_mrid = [3], affected_devices = {''/edev/1''},
      superseded_program_href = ''/b'', superseding_program_href = ''/c'', affected_modes = {''op_mod_max_lim_w''}\<rparr>"
      and a = 1 and b = 0 and dm = "build_program_device_map ex_chain" and env = ex_env and cur = None, folded ex_chain_step_def]
  note pre = wf_ex_chain
  show "ev_state (record_of ex_chain_step 1) = SUPERSEDED" 
    by (rule f(1)) (use pre ex_chain_states ex_chain_lookup ex_chain_devices in \<open>simp_all add: terminal_def\<close>)
  show "record_of ex_chain_step 2 = record_of ex_chain 2" 
    by (rule f(2)) (use pre ex_chain_states ex_chain_lookup ex_chain_devices in \<open>simp_all add: terminal_def\<close>)
  have "es_events (p_store ex_chain_step) = es_events (p_store ex_chain)"
    by (rule f(3)) (use pre ex_chain_states ex_chain_lookup ex_chain_devices in \<open>simp_all add: terminal_def\<close>)
  then show "get_event (p_store ex_chain_step) [1] = Some 2" "get_event (p_store ex_chain_step) [2] = Some 1"
    using ex_chain_lookup by (simp_all add: get_event_def)
qed
section \<open>Two events running on one device\<close>

text \<open>Event 1 holds the connect mode, event 2 the limit the default names too.\<close>

definition ex_pair :: proc where
  "ex_pair = (ex_proc [''/a'', ''/b'']
      [ex_record [1] ''/a'' 1 ACTIVE 50 40, ex_record [2] ''/b'' 1 ACTIVE 50 400])
     \<lparr>p_modes := [(''/edev/1'', [([1], {''op_mod_connect''}), ([2], {''op_mod_max_lim_w''})])]\<rparr>"

lemma list_all_posted:
  "(\<And>b ok. Posted b ok \<in> set es \<Longrightarrow> P b) \<Longrightarrow> list_all (\<lambda>e. case e of Posted b _ \<Rightarrow> P b | _ \<Rightarrow> True) es"
  by (auto simp: list_all_iff split: effect.split)

section \<open>More states\<close>

definition ex_done :: proc where
  "ex_done = ex_proc [''/a''] [(ex_record [1] ''/a'' 1 ACTIVE 50 40)\<lparr>ev_applied_devices := {''/edev/1''}\<rparr>]"

lemma ex_done_facts:
  "ev_state (record_of ex_done 0) = ACTIVE" "ev_applied_devices (record_of ex_done 0) = {''/edev/1''}"
  "ev_superseded_devices (record_of ex_done 0) = {}" "m_rid (ev_derc (record_of ex_done 0)) = [1]"
  "get_device_lfdi ex_done ''/edev/1'' = Some [1]" "rt_in_flight (p_tracker ex_done) = []"
  "response_gate (ev_derc (record_of ex_done 0)) RC_COMPLETED = Some ''/rsp''"
  "resolve_wire_code (response_required (ev_derc (record_of ex_done 0))) RC_COMPLETED (env_profile ex_env) = Some RC_COMPLETED"
  "get_event (p_store ex_done) (ev_mrid (record_of ex_done 0)) = Some 0"
  "cancellation_wind_down (record_of ex_done 0) = 30" "ev_program_href (record_of ex_done 0) = ''/a''"
  "ev_mrid (record_of ex_done 0) = [1]"
  by code_simp+

lemma wf_ex_done: "wf_store (p_store ex_done)" "stored ex_done 0"
  by (simp_all add: ex_done_def wf_ex_proc) (simp add: ex_done_facts(9) ex_done_def [symmetric] stored_def)

definition ex_bare :: proc where
  "ex_bare = (ex_proc [] [ex_record [1] ''/a'' 1 SCHEDULED 150 40, ex_record [2] ''/b'' 1 SCHEDULED 150 400])
     \<lparr>p_state := (ex_state [])\<lparr>end_devices := []\<rparr>\<rparr>"

lemma ex_bare_reconcile:
  "reconcile_removed ex_env None ''/b'' (ex_program ''/b'' 1 []) 100 ex_bare =
    (fst (reconcile_removed ex_env None ''/b'' (ex_program ''/b'' 1 []) 100 ex_bare), False)"
proof -
  have "snd (reconcile_removed ex_env None ''/b'' (ex_program ''/b'' 1 []) 100 ex_bare) = False" by code_simp
  then show ?thesis by (metis prod.collapse)
qed

lemma ex_bare_facts:
  "all_active_states (p_store ex_bare) = [0, 1]" "ev_end (record_of ex_bare 1) = 550"
  "map (\<lambda>a. (ev_state (record_of ex_bare a), ev_program_href (record_of ex_bare a))) [0, 1] =
     [(SCHEDULED, ''/a''), (SCHEDULED, ''/b'')]"
  "der_controls_complete (ex_program ''/b'' 1 [])" "der_controls (ex_program ''/b'' 1 []) = []"
  by code_simp+

definition ex_rnd_env :: env where
  "ex_rnd_env = ex_env\<lparr>env_rnd := (\<lambda>n m. m div 2)\<rparr>"

definition ex_answered :: proc where
  "ex_answered = ex_bare\<lparr>p_tracker := mark_sent ([7], RC_COMPLETED, [1]) 90 empty_ResponseTracker\<rparr>"

definition ex_rejected :: proc where
  "ex_rejected = ex_proc [''/a''] [(ex_record [1] ''/a'' 1 ACTIVE 50 400)\<lparr>ev_rejected_devices := {''/edev/1''}\<rparr>]"

lemma wf_ex_chain_step: "wf_store (p_store ex_chain_step)"
  using ev.wf_step [OF ev.apply_supersession_step] wf_ex_chain unfolding ex_chain_step_def by blast

lemma ex_env_2018: "is_2018 (env_profile ex_env)" "p_trace ex_chain = []"
  by code_simp+

lemma ex_pair_fallback:
  "p_trace (apply_dderc_fallback ex_env 0 False ex_pair) = p_trace ex_pair @
     [ApplyDefault (ByHref ''/edev/1'') (default_without ex_default {''op_mod_max_lim_w''}) []
        ORIGIN_DDERC_REAPPLY (Some [1]) None]"
  by code_simp

lemma ex_pair_modes: "wf_modes (p_modes ex_pair)"
  by (simp add: ex_pair_def wf_modes_def wf_dict_def)

lemma ex_pair_facts:
  "running_events ex_pair = [0, 1]"
  "map (\<lambda>a. (ev_mrid (record_of ex_pair a), ev_program_href (record_of ex_pair a))) [0, 1] = [([1], ''/a''), ([2], ''/b'')]"
  "program_devices_list ex_pair ''/b'' = [''/edev/1'']" "group_local_lfdis ex_env ''/b'' = None"
  "amt_held (p_modes ex_pair) ''/edev/1'' [2] = {''op_mod_max_lim_w''}"
  by code_simp+

end
