(* ===== verification/Posters.thy ===== *)
theory Posters
  imports Response
begin

text \<open>
  Concurrent calls of \<open>post_der_response\<close> and \<open>post_price_response\<close> on one tracker
  (\<open>events/response.py\<close>). A poster is past its gates and has a key and a time stamp
  (\<open>job\<close>). Between two awaits a poster runs alone: it takes a turn of \<open>reserve\<close>, waits on
  the future of whoever holds its key, or has its POST in the air. Any poster may be
  cancelled at an await, and an age prune or a liveness prune may come at any time.
\<close>

datatype phase = Reserving | Waiting nat | Posting | Done

record psys =
  ps_tracker :: ResponseTracker
  ps_phase :: "nat \<Rightarrow> phase"
  ps_landed :: "response_key list"

datatype paction =
    Turn nat
  | Wake nat
  | Settle nat post_outcome
  | Abandon nat
  | Prune int int
  | Retain "bytes set"

type_synonym jobs = "nat \<Rightarrow> response_key \<times> int"

definition set_phase :: "nat \<Rightarrow> phase \<Rightarrow> psys \<Rightarrow> psys" where
  "set_phase i ph s = s\<lparr>ps_phase := (ps_phase s)(i := ph)\<rparr>"

text \<open>One step; \<open>None\<close> when the step is not possible in the state.\<close>

fun pstep :: "jobs \<Rightarrow> paction \<Rightarrow> psys \<Rightarrow> psys option" where
  "pstep job (Turn i) s =
     (if ps_phase s i \<noteq> Reserving then None
      else case reserve_turn (fst (job i)) (ps_tracker s) of
             (Refused, t) \<Rightarrow> Some (set_phase i Done (s\<lparr>ps_tracker := t\<rparr>))
           | (Claimed, t) \<Rightarrow> Some (set_phase i Posting (s\<lparr>ps_tracker := t\<rparr>))
           | (WaitOn f, t) \<Rightarrow> Some (set_phase i (Waiting f) (s\<lparr>ps_tracker := t\<rparr>)))"
| "pstep job (Wake i) s =
     (case ps_phase s i of
        Waiting f \<Rightarrow>
          (case map_of (rt_futures (ps_tracker s)) f of
             None \<Rightarrow> None
           | Some landed \<Rightarrow> Some (set_phase i (if landed then Done else Reserving) s))
      | _ \<Rightarrow> None)"
| "pstep job (Settle i outcome) s =
     (if ps_phase s i \<noteq> Posting then None
      else Some (set_phase i Done
             (s\<lparr>ps_tracker := finish_post (fst (job i)) (snd (job i)) outcome (ps_tracker s),
                ps_landed := (if outcome = PostOk then ps_landed s @ [fst (job i)] else ps_landed s)\<rparr>)))"
| "pstep job (Abandon i) s =
     (case ps_phase s i of
        Waiting f \<Rightarrow> Some (set_phase i Done s)
      | Reserving \<Rightarrow> Some (set_phase i Done s)
      | _ \<Rightarrow> None)"
| "pstep job (Prune age now) s = Some (s\<lparr>ps_tracker := prune_sent age now (ps_tracker s)\<rparr>)"
| "pstep job (Retain live) s = Some (s\<lparr>ps_tracker := retain_mrids live (ps_tracker s)\<rparr>)"

fun prun :: "jobs \<Rightarrow> paction list \<Rightarrow> psys \<Rightarrow> psys option" where
  "prun job [] s = Some s"
| "prun job (a # as) s = Option.bind (pstep job a s) (prun job as)"

definition pstart :: psys where
  "pstart = \<lparr>ps_tracker = empty_ResponseTracker, ps_phase = (\<lambda>_. Reserving), ps_landed = []\<rparr>"

definition forgets :: "paction \<Rightarrow> bool" where
  "forgets a = (case a of Prune _ _ \<Rightarrow> True | Retain _ \<Rightarrow> True | _ \<Rightarrow> False)"

section \<open>Invariants\<close>

text \<open>A reservation and the poster that holds it come and go together, and every waiter's
  future is either resolved or still the one the holder will resolve.\<close>

definition pinv :: "jobs \<Rightarrow> psys \<Rightarrow> bool" where
  "pinv job s \<longleftrightarrow>
     wf_tracker (ps_tracker s) \<and>
     (\<forall>i. ps_phase s i = Posting \<longrightarrow> dhas (rt_in_flight (ps_tracker s)) (fst (job i))) \<and>
     (\<forall>i. ps_phase s i = Posting \<longrightarrow> \<not> dhas (rt_sent (ps_tracker s)) (fst (job i))) \<and>
     (\<forall>i j. ps_phase s i = Posting \<longrightarrow> ps_phase s j = Posting \<longrightarrow> fst (job i) = fst (job j) \<longrightarrow> i = j) \<and>
     (\<forall>k. dhas (rt_in_flight (ps_tracker s)) k \<longrightarrow> (\<exists>i. ps_phase s i = Posting \<and> fst (job i) = k)) \<and>
     (\<forall>i f. ps_phase s i = Waiting f \<longrightarrow>
        map_of (rt_in_flight (ps_tracker s)) (fst (job i)) = Some f \<or> dhas (rt_futures (ps_tracker s)) f)"

lemma pinvD:
  assumes "pinv job s"
  shows pinv_wf: "wf_tracker (ps_tracker s)"
    and pinv_claim: "ps_phase s i = Posting \<Longrightarrow> dhas (rt_in_flight (ps_tracker s)) (fst (job i))"
    and pinv_unsent: "ps_phase s i = Posting \<Longrightarrow> \<not> dhas (rt_sent (ps_tracker s)) (fst (job i))"
    and pinv_excl: "ps_phase s i = Posting \<Longrightarrow> ps_phase s j = Posting \<Longrightarrow> fst (job i) = fst (job j) \<Longrightarrow> i = j"
    and pinv_holder: "dhas (rt_in_flight (ps_tracker s)) k \<Longrightarrow> \<exists>i. ps_phase s i = Posting \<and> fst (job i) = k"
    and pinv_waits: "ps_phase s i = Waiting f \<Longrightarrow>
        map_of (rt_in_flight (ps_tracker s)) (fst (job i)) = Some f \<or> dhas (rt_futures (ps_tracker s)) f"
  using assms unfolding pinv_def by blast+

lemma pinvI:
  assumes "wf_tracker (ps_tracker s)"
    and "\<And>i. ps_phase s i = Posting \<Longrightarrow> dhas (rt_in_flight (ps_tracker s)) (fst (job i))"
    and "\<And>i. ps_phase s i = Posting \<Longrightarrow> \<not> dhas (rt_sent (ps_tracker s)) (fst (job i))"
    and "\<And>i j. ps_phase s i = Posting \<Longrightarrow> ps_phase s j = Posting \<Longrightarrow> fst (job i) = fst (job j) \<Longrightarrow> i = j"
    and "\<And>k. dhas (rt_in_flight (ps_tracker s)) k \<Longrightarrow> \<exists>i. ps_phase s i = Posting \<and> fst (job i) = k"
    and "\<And>i f. ps_phase s i = Waiting f \<Longrightarrow>
        map_of (rt_in_flight (ps_tracker s)) (fst (job i)) = Some f \<or> dhas (rt_futures (ps_tracker s)) f"
  shows "pinv job s"
  using assms unfolding pinv_def by blast

lemma pinv_start: "pinv job pstart"
  by (simp add: pinv_def pstart_def) (simp add: empty_ResponseTracker_def)

lemma phase_set_phase [simp]:
  "ps_phase (set_phase i ph s) = (ps_phase s)(i := ph)" "ps_tracker (set_phase i ph s) = ps_tracker s"
  "ps_landed (set_phase i ph s) = ps_landed s"
  by (simp_all add: set_phase_def)

text \<open>A poster that neither holds a claim before nor after a move leaves the invariant.\<close>

lemma pinv_move:
  assumes "pinv job s" "ps_phase s i \<noteq> Posting" "ph \<noteq> Posting"
    and "\<And>f. ph = Waiting f \<Longrightarrow> map_of (rt_in_flight (ps_tracker s)) (fst (job i)) = Some f"
  shows "pinv job (set_phase i ph s)"
proof (rule pinvI)
  fix k assume "dhas (rt_in_flight (ps_tracker (set_phase i ph s))) k"
  then obtain j where "ps_phase s j = Posting" "fst (job j) = k"
    using pinv_holder [OF assms(1), of k] by auto
  then show "\<exists>j. ps_phase (set_phase i ph s) j = Posting \<and> fst (job j) = k"
    using assms(2) by (intro exI [of _ j]) auto
qed (use assms pinvD [OF assms(1)] in \<open>auto split: if_splits\<close>)

lemma pinv_turn:
  assumes inv: "pinv job s" and step: "pstep job (Turn i) s = Some s'"
  shows "pinv job s'"
proof -
  have ph: "ps_phase s i = Reserving" using step by (simp split: if_splits)
  show ?thesis
  proof (cases rule: reserve_turn_cases [of "ps_tracker s" "fst (job i)"])
    case refused
    then show ?thesis using step ph pinv_move [OF inv, of i Done] by simp
  next
    case (waits f)
    then show ?thesis using step ph pinv_move [OF inv, of i "Waiting f"] by simp
  next
    case (claimed t')
    have s': "s' = set_phase i Posting (s\<lparr>ps_tracker := t'\<rparr>)" using step ph claimed by simp
    have wf: "wf_tracker t'"
      using wf_reserve_turn [OF pinv_wf [OF inv], of "fst (job i)"] claimed by simp
    have other: "fst (job j) \<noteq> fst (job i)" if "ps_phase s j = Posting" for j
      using pinv_claim [OF inv that] claimed(2) by metis
    have inflight: "dhas (rt_in_flight t') k \<longleftrightarrow> k = fst (job i) \<or> dhas (rt_in_flight (ps_tracker s)) k" for k
      using claimed(5) by (simp add: dhas_def)
    show ?thesis
    proof (rule pinvI)
      fix j f assume "ps_phase s' j = Waiting f"
      then have "ps_phase s j = Waiting f" by (simp add: s' split: if_splits)
      then show "map_of (rt_in_flight (ps_tracker s')) (fst (job j)) = Some f \<or> dhas (rt_futures (ps_tracker s')) f"
        using pinv_waits [OF inv, of j f] claimed(2,5,6) by (auto simp: s' dhas_def)
    next
      fix k assume "dhas (rt_in_flight (ps_tracker s')) k"
      then have "k = fst (job i) \<or> dhas (rt_in_flight (ps_tracker s)) k"
        by (simp add: s' inflight)
      then show "\<exists>j. ps_phase s' j = Posting \<and> fst (job j) = k"
        using pinv_holder [OF inv, of k] ph by (fastforce simp: s')
    qed (use claimed(1,4) wf other inflight pinv_claim [OF inv] pinv_unsent [OF inv] pinv_excl [OF inv]
        in \<open>auto simp: s' split: if_splits\<close>)
  qed
qed

lemma pinv_settle:
  assumes inv: "pinv job s" and step: "pstep job (Settle i oc) s = Some s'"
  shows "pinv job s'"
proof -
  let ?k = "fst (job i)"
  have ph: "ps_phase s i = Posting" using step by (simp split: if_splits)
  have t': "ps_tracker s' = finish_post ?k (snd (job i)) oc (ps_tracker s)"
    and p': "ps_phase s' = (ps_phase s)(i := Done)" using step ph by auto
  have other: "fst (job j) \<noteq> ?k" if "ps_phase s j = Posting" "j \<noteq> i" for j
    using pinv_excl [OF inv ph that(1)] that(2) by metis
  have inflight: "dhas (rt_in_flight (ps_tracker s')) k \<longleftrightarrow> k \<noteq> ?k \<and> dhas (rt_in_flight (ps_tracker s)) k" for k
    by (simp add: t' dhas_def)
  show ?thesis
  proof (rule pinvI)
    show "wf_tracker (ps_tracker s')" unfolding t' by (rule wf_finish_post [OF pinv_wf [OF inv]])
    fix j f assume "ps_phase s' j = Waiting f"
    then have "ps_phase s j = Waiting f" by (simp add: p' split: if_splits)
    then show "map_of (rt_in_flight (ps_tracker s')) (fst (job j)) = Some f \<or> dhas (rt_futures (ps_tracker s')) f"
      using pinv_waits [OF inv, of j f] by (auto simp: t' futures_finish_post)
  next
    fix k assume "dhas (rt_in_flight (ps_tracker s')) k"
    then obtain j where "ps_phase s j = Posting" "fst (job j) = k" "k \<noteq> ?k"
      using inflight pinv_holder [OF inv, of k] by auto
    then show "\<exists>j. ps_phase s' j = Posting \<and> fst (job j) = k" by (auto simp: p')
  qed (use other inflight pinvD [OF inv] in \<open>auto simp: p' t' sent_finish_post split: if_splits\<close>)
qed

lemma pinv_forget:
  assumes "pinv job s" "wf_tracker t" "rt_in_flight t = rt_in_flight (ps_tracker s)"
    "rt_futures t = rt_futures (ps_tracker s)"
    "\<And>k. dhas (rt_sent t) k \<Longrightarrow> dhas (rt_sent (ps_tracker s)) k"
  shows "pinv job (s\<lparr>ps_tracker := t\<rparr>)"
  using assms(2-4) pinvD [OF assms(1)] assms(5) by (intro pinvI) (simp_all, metis+)

lemma prune_sent_subset:
  "dhas (rt_sent (prune_sent age now t)) k \<Longrightarrow> dhas (rt_sent t) k"
  "dhas (rt_sent (retain_mrids live t)) k \<Longrightarrow> dhas (rt_sent t) k"
  by (auto simp: prune_sent_def retain_mrids_def dhas_def split: if_splits)

lemma pinv_step:
  assumes "pinv job s" "pstep job a s = Some s'"
  shows "pinv job s'"
proof (cases a)
  case (Wake i)
  then show ?thesis
    using assms pinv_move [OF assms(1), of i Done] pinv_move [OF assms(1), of i Reserving]
    by (auto split: phase.splits option.splits)
next
  case (Abandon i)
  then show ?thesis
    using assms pinv_move [OF assms(1), of i Done] by (auto split: phase.splits)
next
  case (Prune age now)
  have "pinv job (s\<lparr>ps_tracker := prune_sent age now (ps_tracker s)\<rparr>)"
    by (rule pinv_forget [OF assms(1) wf_prune_sent [OF pinv_wf [OF assms(1)]]])
      (simp add: prune_sent_def, simp add: prune_sent_def, erule prune_sent_subset)
  with Prune assms show ?thesis by auto
next
  case (Retain live)
  have "pinv job (s\<lparr>ps_tracker := retain_mrids live (ps_tracker s)\<rparr>)"
    by (rule pinv_forget [OF assms(1) wf_retain_mrids [OF pinv_wf [OF assms(1)]]])
      (simp add: retain_mrids_def, simp add: retain_mrids_def, erule prune_sent_subset)
  with Retain assms show ?thesis by auto
qed (use assms in \<open>auto intro: pinv_turn pinv_settle simp del: pstep.simps\<close>)

lemma pinv_run: "pinv job s \<Longrightarrow> prun job as s = Some s' \<Longrightarrow> pinv job s'"
  by (induction as arbitrary: s) (auto simp del: pstep.simps split: Option.bind_splits intro: pinv_step)

section \<open>At most one copy lands\<close>

text \<open>Every landed copy beyond the first needs a prune that forgot the earlier one.\<close>

lemma landed_step:
  assumes "pinv job s" "pstep job a s = Some s'"
    and "count_list (ps_landed s) k \<le> (if dhas (rt_sent (ps_tracker s)) k then 1 else 0) + n"
  shows "count_list (ps_landed s') k
    \<le> (if dhas (rt_sent (ps_tracker s')) k then 1 else 0) + (if forgets a then Suc n else n)"
proof (cases a)
  case (Turn i)
  then show ?thesis
    using assms
    by (cases rule: reserve_turn_cases [of "ps_tracker s" "fst (job i)"])
      (auto simp: forgets_def split: if_splits)
next
  case (Wake i)
  then show ?thesis using assms by (auto simp: forgets_def split: phase.splits option.splits)
next
  case (Settle i oc)
  have ph: "ps_phase s i = Posting" using assms(2) Settle by (simp split: if_splits)
  have unsent: "\<not> dhas (rt_sent (ps_tracker s)) (fst (job i))"
    by (rule pinv_unsent [OF assms(1) ph])
  have l: "ps_landed s' = (if oc = PostOk then ps_landed s @ [fst (job i)] else ps_landed s)"
    and t: "rt_sent (ps_tracker s') =
        (if oc = PostOk then dset (fst (job i)) (snd (job i)) (rt_sent (ps_tracker s))
         else rt_sent (ps_tracker s))"
    using assms(2) ph by (auto simp: Settle sent_finish_post)
  have f: "\<not> forgets a" by (simp add: Settle forgets_def)
  show ?thesis
  proof (cases "k = fst (job i)")
    case True
    then have "count_list (ps_landed s) k \<le> n" using unsent assms(3) by simp
    then show ?thesis using True f by (simp add: l t)
  next
    case False
    then show ?thesis using assms(3) f by (auto simp: l t split: if_splits)
  qed
next
  case (Abandon i)
  then show ?thesis using assms by (auto simp: forgets_def split: phase.splits)
qed (use assms in \<open>auto simp: forgets_def split: if_splits\<close>)

lemma landed_run:
  assumes "pinv job s" "prun job as s = Some s'"
    and "count_list (ps_landed s) k \<le> (if dhas (rt_sent (ps_tracker s)) k then 1 else 0) + n"
  shows "count_list (ps_landed s') k
    \<le> (if dhas (rt_sent (ps_tracker s')) k then 1 else 0) + (n + length (filter forgets as))"
  using assms
proof (induction as arbitrary: s n)
  case Nil
  then show ?case by simp
next
  case (Cons a as)
  from Cons.prems(2) obtain s1 where s1: "pstep job a s = Some s1" "prun job as s1 = Some s'"
    by (auto simp del: pstep.simps split: Option.bind_splits)
  have "pinv job s1" by (rule pinv_step [OF Cons.prems(1) s1(1)])
  from Cons.IH [OF this s1(2) landed_step [OF Cons.prems(1) s1(1) Cons.prems(3)]]
  show ?case by (auto split: if_splits)
qed

section \<open>Nobody waits for ever\<close>

lemma waiter_has_holder:
  assumes inv: "pinv job s" and w: "ps_phase s i = Waiting f" and stuck: "pstep job (Wake i) s = None"
  shows "\<exists>j. ps_phase s j = Posting \<and> fst (job j) = fst (job i) \<and>
           (\<forall>oc s'. pstep job (Settle j oc) s = Some s' \<longrightarrow> pstep job (Wake i) s' \<noteq> None)"
proof -
  have "\<not> dhas (rt_futures (ps_tracker s)) f"
    using w stuck by (auto simp: dhas_def split: option.splits)
  then have fl: "map_of (rt_in_flight (ps_tracker s)) (fst (job i)) = Some f"
    using pinv_waits [OF inv w] by blast
  then obtain j where j: "ps_phase s j = Posting" "fst (job j) = fst (job i)"
    using pinv_holder [OF inv, of "fst (job i)"] by (auto simp: dhas_def)
  have "pstep job (Wake i) s' \<noteq> None" if st: "pstep job (Settle j oc) s = Some s'" for oc s'
  proof -
    have s': "ps_phase s' i = Waiting f"
      "ps_tracker s' = finish_post (fst (job i)) (snd (job j)) oc (ps_tracker s)"
      using st j w by auto
    have "dhas (rt_futures (ps_tracker s')) f"
      unfolding s' by (rule futures_finish_post(1) [OF fl])
    then show ?thesis using s'(1) by (auto simp: dhas_def)
  qed
  with j show ?thesis by blast
qed

text \<open>The potential of the first \<open>n\<close> posters: it drops at every move of one of them, so their
  runs are bounded.\<close>

definition weight :: "psys \<Rightarrow> nat \<Rightarrow> nat" where
  "weight s i =
     (case ps_phase s i of
        Reserving \<Rightarrow> 1
      | Waiting f \<Rightarrow> if dhas (rt_futures (ps_tracker s)) f then 2 else 0
      | _ \<Rightarrow> 0)"

lemma weight_cong:
  "ps_phase s' j = ps_phase s j \<Longrightarrow> rt_futures (ps_tracker s') = rt_futures (ps_tracker s) \<Longrightarrow>
     weight s' j = weight s j"
  by (simp add: weight_def split: phase.split)

definition undone :: "psys \<Rightarrow> nat \<Rightarrow> nat" where
  "undone s i = (if ps_phase s i = Done then 0 else 1)"

definition potential :: "nat \<Rightarrow> psys \<Rightarrow> nat" where
  "potential n s = (2 * n + 1) * (\<Sum>i<n. undone s i) + (\<Sum>i<n. weight s i)"

fun actor :: "paction \<Rightarrow> nat option" where
  "actor (Turn i) = Some i"
| "actor (Wake i) = Some i"
| "actor (Settle i _) = Some i"
| "actor (Abandon i) = Some i"
| "actor (Prune _ _) = None"
| "actor (Retain _) = None"

lemma weight_sum_le: "(\<Sum>i<n. weight s i) \<le> 2 * n"
proof -
  have "(\<Sum>i<n. weight s i) \<le> (\<Sum>i<n. 2)"
    by (rule sum_mono) (simp add: weight_def split: phase.splits)
  then show ?thesis by simp
qed

lemma sum_less_at:
  fixes f g :: "nat \<Rightarrow> nat"
  assumes "i < n" "f i < g i" "\<And>j. j < n \<Longrightarrow> j \<noteq> i \<Longrightarrow> f j = g j"
  shows "(\<Sum>j<n. f j) < (\<Sum>j<n. g j)"
  using assms by (intro sum_strict_mono_ex1) (auto, metis le_refl less_imp_le)

lemma potential_done:
  assumes "i < n" "undone s i = 1" "undone s' i = 0" "\<And>j. j \<noteq> i \<Longrightarrow> undone s' j = undone s j"
  shows "potential n s' < potential n s"
proof -
  have "(\<Sum>j<n. undone s' j) < (\<Sum>j<n. undone s j)"
    using assms by (intro sum_less_at [of i]) auto
  then have "(2 * n + 1) * Suc (\<Sum>j<n. undone s' j) \<le> (2 * n + 1) * (\<Sum>j<n. undone s j)"
    by (intro mult_le_mono2) simp
  moreover have "(2 * n + 1) * Suc (\<Sum>j<n. undone s' j) = (2 * n + 1) * (\<Sum>j<n. undone s' j) + (2 * n + 1)"
    by simp
  ultimately show ?thesis
    using weight_sum_le [of s' n] unfolding potential_def by linarith
qed

lemma potential_weight:
  assumes "i < n" "weight s' i < weight s i" "\<And>j. j \<noteq> i \<Longrightarrow> weight s' j = weight s j"
    and "\<And>j. undone s' j = undone s j"
  shows "potential n s' < potential n s"
  using sum_less_at [of i n "weight s'" "weight s"] assms by (simp add: potential_def)

lemma potential_step:
  assumes inv: "pinv job s" and step: "pstep job a s = Some s'" and act: "actor a = Some i" "i < n"
  shows "potential n s' < potential n s"
proof (cases a)
  case (Turn j)
  then have ph: "ps_phase s i = Reserving" and a: "a = Turn i"
    using step act by (auto split: if_splits)
  show ?thesis
  proof (cases rule: reserve_turn_cases [of "ps_tracker s" "fst (job i)"])
    case refused
    then have "s' = set_phase i Done s" using step a ph by simp
    then show ?thesis using ph act by (intro potential_done [of i]) (auto simp: undone_def)
  next
    case (claimed t')
    then have "s' = set_phase i Posting (s\<lparr>ps_tracker := t'\<rparr>)" using step a ph by simp
    then show ?thesis using ph act claimed(6)
      by (intro potential_weight [of i] weight_cong) (auto simp: undone_def, auto simp: weight_def)
  next
    case (waits f)
    then have "s' = set_phase i (Waiting f) s" using step a ph by simp
    moreover have "\<not> dhas (rt_futures (ps_tracker s)) f"
      using pinv_wf [OF inv] waits(2) unfolding wf_tracker_def by blast
    ultimately show ?thesis using ph act
      by (intro potential_weight [of i]) (auto simp: undone_def intro: weight_cong, auto simp: weight_def)
  qed
next
  case (Wake j)
  then obtain f landed where ph: "ps_phase s i = Waiting f" "map_of (rt_futures (ps_tracker s)) f = Some landed"
      and s': "s' = set_phase i (if landed then Done else Reserving) s"
    using step act by (auto split: phase.splits option.splits)
  show ?thesis
  proof (cases landed)
    case True
    then show ?thesis using ph act s' by (intro potential_done [of i]) (auto simp: undone_def)
  next
    case False
    then show ?thesis using ph act s'
      by (intro potential_weight [of i] weight_cong) (auto simp: undone_def, auto simp: weight_def dhas_def)
  qed
next
  case (Settle j oc)
  then show ?thesis
    using step act by (intro potential_done [of i]) (auto simp: undone_def split: if_splits)
next
  case (Abandon j)
  then show ?thesis
    using step act by (intro potential_done [of i]) (auto simp: undone_def split: phase.splits)
qed (use act in auto)

lemma potential_forget:
  assumes "pstep job a s = Some s'" "actor a = None"
  shows "potential n s' = potential n s"
proof -
  have "ps_phase s' = ps_phase s" "rt_futures (ps_tracker s') = rt_futures (ps_tracker s)"
    using assms by (cases a; auto simp: prune_sent_def retain_mrids_def)+
  then have "weight s' j = weight s j" "undone s' j = undone s j" for j
    by (auto intro: weight_cong simp: undone_def)
  then show ?thesis by (simp add: potential_def)
qed

lemma run_bounded:
  assumes "pinv job s" "prun job as s = Some s'" "\<forall>a \<in> set as. \<forall>i. actor a = Some i \<longrightarrow> i < n"
  shows "length (filter (\<lambda>a. actor a \<noteq> None) as) + potential n s' \<le> potential n s"
  using assms
proof (induction as arbitrary: s)
  case Nil
  then show ?case by simp
next
  case (Cons a as)
  from Cons.prems(2) obtain s1 where s1: "pstep job a s = Some s1" "prun job as s1 = Some s'"
    by (auto simp del: pstep.simps split: Option.bind_splits)
  have ih: "length (filter (\<lambda>a. actor a \<noteq> None) as) + potential n s' \<le> potential n s1"
    using Cons.IH [OF pinv_step [OF Cons.prems(1) s1(1)] s1(2)] Cons.prems(3) by simp
  show ?case
  proof (cases "actor a")
    case None
    then show ?thesis using ih potential_forget [OF s1(1) None, of n] by simp
  next
    case (Some i)
    then have "potential n s1 < potential n s"
      using potential_step [OF Cons.prems(1) s1(1) Some] Cons.prems(3) by simp
    then show ?thesis using ih Some by simp
  qed
qed

section \<open>Properties\<close>

definition ex_jobs :: jobs where
  "ex_jobs i = (([1], RC_ACTIVE, [1]), 5)"

text \<open>
  C12. However the callers interleave, at most one of them is posting a given response at any
  moment, and none is while the response is on record as sent.
\<close>

theorem one_poster_per_response:
  assumes "prun job as pstart = Some s" "ps_phase s i = Posting"
  shows "\<not> dhas (rt_sent (ps_tracker s)) (fst (job i)) \<and>
     (\<forall>j. ps_phase s j = Posting \<longrightarrow> fst (job j) = fst (job i) \<longrightarrow> j = i)"
  using pinv_run [OF pinv_start assms(1)] pinv_unsent pinv_excl assms(2) by blast

theorem one_poster_per_response_witness:
  "{j. ps_phase (the (prun ex_jobs [Turn 0, Turn 1] pstart)) j = Posting} = {0}"
proof -
  have "prun ex_jobs [Turn 0, Turn 1] pstart = Some (the (prun ex_jobs [Turn 0, Turn 1] pstart))"
    "ps_phase (the (prun ex_jobs [Turn 0, Turn 1] pstart)) 0 = Posting"
    by (simp_all add: pstart_def ex_jobs_def reserve_turn_def empty_ResponseTracker_def)
  then show ?thesis using one_poster_per_response [of ex_jobs "[Turn 0, Turn 1]"] by (auto simp: ex_jobs_def)
qed

text \<open>
  A response lands on the server at most once, plus once for each time the tracker is
  made to forget (pruned by age, or cut back to the events still served).
\<close>

theorem responses_land_once:
  assumes "prun job as pstart = Some s"
  shows "count_list (ps_landed s) k \<le> 1 + length (filter forgets as)"
  using landed_run [OF pinv_start assms, of k 0] by (simp add: pstart_def split: if_splits)

theorem responses_land_once_witness:
  "count_list (ps_landed (the (prun ex_jobs [Turn 0, Turn 1, Settle 0 PostOk, Wake 1] pstart))) ([1], RC_ACTIVE, [1]) \<le> 1"
proof -
  have "prun ex_jobs [Turn 0, Turn 1, Settle 0 PostOk, Wake 1] pstart \<noteq> None"
    by (simp add: pstart_def ex_jobs_def reserve_turn_def empty_ResponseTracker_def finish_post_def mark_sent_def settle_def notify_def)
  then obtain s where "prun ex_jobs [Turn 0, Turn 1, Settle 0 PostOk, Wake 1] pstart = Some s" by blast
  then show ?thesis using responses_land_once [of ex_jobs _ s "([1], RC_ACTIVE, [1])"] by (fastforce simp: forgets_def)
qed

text \<open>
  C13. No wake-up is lost: a caller that waits for someone else's POST can go on, or the
  poster it waits for is still at work, and however that POST ends, the waiter can go on.
\<close>

theorem no_lost_wakeup:
  assumes "prun job as pstart = Some s" "ps_phase s i = Waiting f"
  shows "pstep job (Wake i) s \<noteq> None \<or>
    (\<exists>j. ps_phase s j = Posting \<and> fst (job j) = fst (job i) \<and>
      (\<forall>oc. \<exists>s'. pstep job (Settle j oc) s = Some s' \<and> pstep job (Wake i) s' \<noteq> None))"
proof (cases "pstep job (Wake i) s = None")
  case True
  then obtain j where "ps_phase s j = Posting" "fst (job j) = fst (job i)"
    "\<forall>oc s'. pstep job (Settle j oc) s = Some s' \<longrightarrow> pstep job (Wake i) s' \<noteq> None"
    using waiter_has_holder [OF pinv_run [OF pinv_start assms(1)] assms(2)] by blast
  moreover from this(1) have "\<exists>s'. pstep job (Settle j oc) s = Some s'" for oc by simp
  ultimately show ?thesis by metis
qed blast

theorem no_lost_wakeup_witness:
  "\<exists>j. ps_phase (the (prun ex_jobs [Turn 0, Turn 1] pstart)) j = Posting \<and>
     (\<forall>oc. \<exists>s'. pstep ex_jobs (Settle j oc) (the (prun ex_jobs [Turn 0, Turn 1] pstart)) = Some s' \<and>
        pstep ex_jobs (Wake 1) s' \<noteq> None)"
proof -
  have "prun ex_jobs [Turn 0, Turn 1] pstart = Some (the (prun ex_jobs [Turn 0, Turn 1] pstart))"
    "ps_phase (the (prun ex_jobs [Turn 0, Turn 1] pstart)) 1 = Waiting 0"
    "pstep ex_jobs (Wake 1) (the (prun ex_jobs [Turn 0, Turn 1] pstart)) = None"
    by (simp_all add: pstart_def ex_jobs_def reserve_turn_def empty_ResponseTracker_def)
  then show ?thesis using no_lost_wakeup by blast
qed

text \<open>
  C14. The callers do not go round for ever: however \<open>n\<close> callers interleave, they take at most
  \<open>2 * n * (n + 1)\<close> steps between them, whatever the tracker forgets in the meantime.
\<close>

theorem posters_terminate:
  assumes "prun job as pstart = Some s" "\<forall>a \<in> set as. \<forall>i. actor a = Some i \<longrightarrow> i < n"
  shows "length (filter (\<lambda>a. actor a \<noteq> None) as) \<le> 2 * n * (n + 1)"
proof -
  have "potential n pstart = 2 * n * (n + 1)"
    by (simp add: potential_def undone_def weight_def pstart_def algebra_simps)
  then show ?thesis using run_bounded [OF pinv_start assms] by simp
qed

theorem posters_terminate_witness:
  "prun ex_jobs [Turn 0, Turn 1] pstart \<noteq> None \<and> length (filter (\<lambda>a. actor a \<noteq> None) [Turn 0, Turn 1]) \<le> 2 * 2 * (2 + 1)"
proof -
  have "prun ex_jobs [Turn 0, Turn 1] pstart \<noteq> None"
    by (simp add: pstart_def ex_jobs_def reserve_turn_def empty_ResponseTracker_def)
  then show ?thesis using posters_terminate [of ex_jobs "[Turn 0, Turn 1]" _ 2] by force
qed

end
