(* ===== verification/Dns_Wire.thy ===== *)
theory Dns_Wire
  imports Py_Prelude
begin

unbundle bit_operations_syntax

text \<open>
  \<open>client/dnssd/wire.py\<close>: the DNS wire format of service discovery. Bytes come in from an
  unauthenticated multicast group; every \<open>DnsDecodeError\<close> and \<open>ValueError\<close> of the source is
  a value of \<open>dns_error\<close>. Python integers that are encoded in a field are naturals, and a
  value that does not fit its field is the \<open>OverflowError\<close> of \<open>to_bytes\<close>.
\<close>

section \<open>Constants and records\<close>

definition TYPE_A :: nat where "TYPE_A = 1"
definition TYPE_PTR :: nat where "TYPE_PTR = 12"
definition TYPE_TXT :: nat where "TYPE_TXT = 16"
definition TYPE_AAAA :: nat where "TYPE_AAAA = 28"
definition TYPE_SRV :: nat where "TYPE_SRV = 33"
definition TYPE_ANY :: nat where "TYPE_ANY = 255"
definition CLASS_IN :: nat where "CLASS_IN = 0x0001"
definition QU_BIT :: nat where "QU_BIT = 0x8000"
definition CACHE_FLUSH :: nat where "CACHE_FLUSH = 0x8000"
definition MAX_LABELS :: nat where "MAX_LABELS = 128"
definition LEGACY_MAX_TTL :: nat where "LEGACY_MAX_TTL = 10"

datatype dns_error =
    LabelLength nat | NameTooLong nat | TxtEntryTooLong bytes | OverflowError
  | NamePastEnd | TruncatedPointer | PointerNotBackwards | ReservedLabelType byte
  | LabelPastEnd | TooManyLabels | ShorterThanHeader nat | QuestionPastEnd
  | RecordHeaderPastEnd | RecordDataPastEnd | TxtPastEnd | NamePastRecord | SrvTooShort
  | AddressLength nat nat

record Record =
  rec_name :: "bytes list"
  rec_rtype :: nat
  rec_ttl :: nat
  rec_rdata :: bytes
  rec_unique :: bool

definition with_ttl :: "nat \<Rightarrow> Record \<Rightarrow> Record" where
  "with_ttl ttl r = r\<lparr>rec_ttl := ttl\<rparr>"

record Question =
  q_name :: "bytes list"
  q_qtype :: nat
  q_unicast :: bool

record MulticastTransport =
  tr_name :: string
  tr_domain :: bytes
  tr_groups :: "string list"
  tr_hop_limit :: nat
  tr_port :: nat

section \<open>Encoding\<close>

definition ascii :: "string \<Rightarrow> bytes" where
  "ascii s = map (\<lambda>c. of_char c) s"

definition MDNS :: MulticastTransport where
  "MDNS = \<lparr>tr_name = ''mdns'', tr_domain = ascii ''local'', tr_groups = [''224.0.0.251'', ''ff02::fb''],
     tr_hop_limit = 255, tr_port = 5353\<rparr>"

definition XMDNS :: MulticastTransport where
  "XMDNS = \<lparr>tr_name = ''xmdns'', tr_domain = ascii ''site'', tr_groups = [''ff05::fb''],
     tr_hop_limit = 255, tr_port = 5353\<rparr>"

text \<open>\<open>None\<close> is the \<open>KeyError\<close> of an unknown selection.\<close>

definition transports_for :: "string \<Rightarrow> MulticastTransport list option" where
  "transports_for selection =
     (if selection = ''off'' then Some []
      else if selection = ''both'' then Some [MDNS, XMDNS]
      else map_option (\<lambda>t. [t]) (map_of [(''mdns'', MDNS), (''xmdns'', XMDNS)] selection))"

fun encode_labels :: "bytes list \<Rightarrow> dns_error + bytes" where
  "encode_labels [] = Inr [0]"
| "encode_labels (label # labels) =
     (if \<not> (0 < length label \<and> length label \<le> 63) then Inl (LabelLength (length label))
      else case encode_labels labels of
             Inl e \<Rightarrow> Inl e
           | Inr rest \<Rightarrow> Inr (word_of_nat (length label) # label @ rest))"

definition encode_name :: "bytes list \<Rightarrow> dns_error + bytes" where
  "encode_name labels =
     (case encode_labels labels of
        Inl e \<Rightarrow> Inl e
      | Inr out \<Rightarrow> if length out > 255 then Inl (NameTooLong (length out)) else Inr out)"

text \<open>\<open>value.to_bytes(n, "big")\<close> of a field.\<close>

definition field :: "nat \<Rightarrow> nat \<Rightarrow> dns_error + bytes" where
  "field n v = (case to_bytes n (int v) of None \<Rightarrow> Inl OverflowError | Some bs \<Rightarrow> Inr bs)"

text \<open>Concatenating encoded pieces; the first error wins.\<close>

fun pieces :: "(dns_error + bytes) list \<Rightarrow> dns_error + bytes" where
  "pieces [] = Inr []"
| "pieces (p # ps) =
     (case p of
        Inl e \<Rightarrow> Inl e
      | Inr bs \<Rightarrow> (case pieces ps of Inl e \<Rightarrow> Inl e | Inr rest \<Rightarrow> Inr (bs @ rest)))"

definition encode_srv :: "nat \<Rightarrow> bytes list \<Rightarrow> dns_error + bytes" where
  "encode_srv port target = pieces [field 2 0, field 2 0, field 2 port, encode_name target]"

definition encode_question :: "Question \<Rightarrow> dns_error + bytes" where
  "encode_question q = pieces [encode_name (q_name q), field 2 (q_qtype q), field 2 CLASS_IN]"

definition record_class :: "bool \<Rightarrow> Record \<Rightarrow> nat" where
  "record_class legacy r = (if legacy then CLASS_IN else CLASS_IN OR (if rec_unique r then CACHE_FLUSH else 0))"

definition record_ttl :: "bool \<Rightarrow> Record \<Rightarrow> nat" where
  "record_ttl legacy r = (if legacy then min (rec_ttl r) LEGACY_MAX_TTL else rec_ttl r)"

definition encode_record :: "bool \<Rightarrow> Record \<Rightarrow> dns_error + bytes" where
  "encode_record legacy r =
     pieces [encode_name (rec_name r), field 2 (rec_rtype r), field 2 (record_class legacy r),
             field 4 (record_ttl legacy r), field 2 (length (rec_rdata r)), Inr (rec_rdata r)]"

definition encode_response :: "Record list \<Rightarrow> nat \<Rightarrow> Question list \<Rightarrow> dns_error + bytes" where
  "encode_response records ident questions =
     (let legacy = (questions \<noteq> [])
      in pieces ([field 2 ident, field 2 0x8400, field 2 (length questions), field 2 (length records),
                  field 2 0, field 2 0]
                 @ map encode_question questions @ map (encode_record legacy) records))"

definition encode_query :: "bytes list \<Rightarrow> nat \<Rightarrow> nat \<Rightarrow> bool \<Rightarrow> dns_error + bytes" where
  "encode_query labels qtype ident unicast =
     pieces [field 2 ident, field 2 0, field 2 1, field 2 0, field 2 0, field 2 0,
             encode_name labels, field 2 qtype, field 2 (CLASS_IN OR (if unicast then QU_BIT else 0))]"

section \<open>Reading names\<close>

text \<open>A byte slice \<open>data[a:a+n]\<close>, which is short at the end of the data.\<close>

definition byte_slice :: "bytes \<Rightarrow> nat \<Rightarrow> nat \<Rightarrow> bytes" where
  "byte_slice data a n = take n (drop a data)"

definition pointer_of :: "byte \<Rightarrow> byte \<Rightarrow> nat" where
  "pointer_of hi lo = push_bit 8 (unat (hi AND 0x3F)) OR unat lo"

text \<open>The loop of \<open>read_name\<close>. A pointer moves the offset strictly back; a label adds to the
  labels, of which there are at most \<open>MAX_LABELS\<close>.\<close>

function read_name_loop ::
  "bytes \<Rightarrow> nat \<Rightarrow> bytes list \<Rightarrow> nat option \<Rightarrow> dns_error + (bytes list \<times> nat)" where
  "read_name_loop data offset labels jumped =
     (if length data \<le> offset then Inl NamePastEnd
      else if (data ! offset) AND 0xC0 = 0xC0 then
        (if length data \<le> offset + 1 then Inl TruncatedPointer
         else if offset \<le> pointer_of (data ! offset) (data ! (offset + 1)) then Inl PointerNotBackwards
         else read_name_loop data (pointer_of (data ! offset) (data ! (offset + 1))) labels
                (Some (case jumped of None \<Rightarrow> offset + 2 | Some e \<Rightarrow> e)))
      else if (data ! offset) AND 0xC0 \<noteq> 0 then Inl (ReservedLabelType (data ! offset))
      else if data ! offset = 0 then Inr (labels, case jumped of None \<Rightarrow> offset + 1 | Some e \<Rightarrow> e)
      else if length (byte_slice data (offset + 1) (unat (data ! offset))) \<noteq> unat (data ! offset)
      then Inl LabelPastEnd
      else if length labels + 1 > MAX_LABELS then Inl TooManyLabels
      else read_name_loop data (offset + 1 + unat (data ! offset))
             (labels @ [byte_slice data (offset + 1) (unat (data ! offset))]) jumped)"
  by pat_completeness auto
termination
  by (relation "measures [\<lambda>(data, offset, labels, jumped). MAX_LABELS - length labels, \<lambda>(data, offset, labels, jumped). offset]")
    auto

declare read_name_loop.simps [simp del]

definition read_name :: "bytes \<Rightarrow> nat \<Rightarrow> dns_error + (bytes list \<times> nat)" where
  "read_name data offset = read_name_loop data offset [] None"

section \<open>Reading messages\<close>

text \<open>\<open>int.from_bytes(data[a:a+n], "big")\<close>.\<close>

definition int_at :: "bytes \<Rightarrow> nat \<Rightarrow> nat \<Rightarrow> nat" where
  "int_at data a n = from_bytes (byte_slice data a n)"

fun questions_from :: "bytes \<Rightarrow> nat \<Rightarrow> nat \<Rightarrow> dns_error + Question list" where
  "questions_from data 0 offset = Inr []"
| "questions_from data (Suc n) offset =
     (case read_name data offset of
        Inl e \<Rightarrow> Inl e
      | Inr (name, off) \<Rightarrow>
          if off + 4 > length data then Inl QuestionPastEnd
          else case questions_from data n (off + 4) of
                 Inl e \<Rightarrow> Inl e
               | Inr qs \<Rightarrow> Inr (\<lparr>q_name = name, q_qtype = int_at data off 2,
                                q_unicast = (int_at data (off + 2) 2 AND QU_BIT \<noteq> 0)\<rparr> # qs))"

definition decode_questions :: "bytes \<Rightarrow> dns_error + Question list" where
  "decode_questions data =
     (if length data < 12 then Inl (ShorterThanHeader (length data))
      else if int_at data 2 2 AND 0x8000 \<noteq> 0 then Inr []
      else questions_from data (int_at data 4 2) 12)"

record ResourceRecord =
  rr_name :: "bytes list"
  rr_rtype :: nat
  rr_rclass :: nat
  rr_ttl :: nat
  rdata_offset :: nat
  rdata_length :: nat

record DnsMessage =
  dm_ident :: nat
  dm_records :: "ResourceRecord list"
  dm_raw :: bytes

fun skip_questions :: "bytes \<Rightarrow> nat \<Rightarrow> nat \<Rightarrow> dns_error + nat" where
  "skip_questions data 0 offset = Inr offset"
| "skip_questions data (Suc n) offset =
     (case read_name data offset of
        Inl e \<Rightarrow> Inl e
      | Inr (_, off) \<Rightarrow>
          if off + 4 > length data then Inl QuestionPastEnd else skip_questions data n (off + 4))"

fun records_from :: "bytes \<Rightarrow> nat \<Rightarrow> nat \<Rightarrow> dns_error + ResourceRecord list" where
  "records_from data 0 offset = Inr []"
| "records_from data (Suc n) offset =
     (case read_name data offset of
        Inl e \<Rightarrow> Inl e
      | Inr (name, off) \<Rightarrow>
          if off + 10 > length data then Inl RecordHeaderPastEnd
          else let rdlength = int_at data (off + 8) 2
               in if off + 10 + rdlength > length data then Inl RecordDataPastEnd
                  else case records_from data n (off + 10 + rdlength) of
                         Inl e \<Rightarrow> Inl e
                       | Inr rs \<Rightarrow>
                           Inr (\<lparr>rr_name = name, rr_rtype = int_at data off 2,
                                 rr_rclass = int_at data (off + 2) 2 AND 0x7FFF,
                                 rr_ttl = int_at data (off + 4) 4,
                                 rdata_offset = off + 10, rdata_length = rdlength\<rparr> # rs))"

definition decode_message :: "bytes \<Rightarrow> dns_error + DnsMessage" where
  "decode_message data =
     (if length data < 12 then Inl (ShorterThanHeader (length data))
      else case skip_questions data (int_at data 4 2) 12 of
             Inl e \<Rightarrow> Inl e
           | Inr offset \<Rightarrow>
               (case records_from data (int_at data 6 2 + int_at data 8 2 + int_at data 10 2) offset of
                  Inl e \<Rightarrow> Inl e
                | Inr rs \<Rightarrow> Inr \<lparr>dm_ident = int_at data 0 2, dm_records = rs, dm_raw = data\<rparr>))"

definition record_rdata :: "DnsMessage \<Rightarrow> ResourceRecord \<Rightarrow> bytes" where
  "record_rdata m r = byte_slice (dm_raw m) (rdata_offset r) (rdata_length r)"

definition read_rdata_name :: "DnsMessage \<Rightarrow> ResourceRecord \<Rightarrow> nat \<Rightarrow> dns_error + bytes list" where
  "read_rdata_name m r offset =
     (case read_name (dm_raw m) offset of
        Inl e \<Rightarrow> Inl e
      | Inr (name, e) \<Rightarrow> if e > rdata_offset r + rdata_length r then Inl NamePastRecord else Inr name)"

definition decode_ptr :: "DnsMessage \<Rightarrow> ResourceRecord \<Rightarrow> dns_error + bytes list" where
  "decode_ptr m r = read_rdata_name m r (rdata_offset r)"

definition decode_srv :: "DnsMessage \<Rightarrow> ResourceRecord \<Rightarrow> dns_error + nat \<times> bytes list" where
  "decode_srv m r =
     (if rdata_length r < 7 then Inl SrvTooShort
      else case read_rdata_name m r (rdata_offset r + 6) of
             Inl e \<Rightarrow> Inl e
           | Inr name \<Rightarrow> Inr (int_at (dm_raw m) (rdata_offset r + 4) 2, name))"

text \<open>The packed address; printing it is the library's.\<close>

definition decode_address :: "DnsMessage \<Rightarrow> ResourceRecord \<Rightarrow> dns_error + bytes" where
  "decode_address m r =
     (let raw = record_rdata m r; expected = (if rr_rtype r = TYPE_A then 4 else 16)
      in if length raw \<noteq> expected then Inl (AddressLength (length raw) expected) else Inr raw)"

definition fold_byte :: "byte \<Rightarrow> byte" where
  "fold_byte b = (if 0x41 \<le> b \<and> b \<le> 0x5A then b + 0x20 else b)"

text \<open>\<open>fold\<close>: \<open>bytes.lower()\<close> on every label.\<close>

definition fold_name :: "bytes list \<Rightarrow> bytes list" where
  "fold_name name = map (map fold_byte) name"

section \<open>TXT records and service names\<close>

text \<open>
  A Python \<open>str\<close> is represented by its UTF-8 encoding. Decoding is then the check that the
  bytes are UTF-8; together with \<open>lower()\<close> it is the parameter \<open>lower\<close> (\<open>None\<close> for a
  \<open>UnicodeDecodeError\<close>), and decoding with replacement is the parameter \<open>replace\<close>.
\<close>

definition txt_item :: "bytes \<times> bytes option \<Rightarrow> bytes" where
  "txt_item kv = (case kv of (k, None) \<Rightarrow> k | (k, Some v) \<Rightarrow> k @ [0x3D] @ v)"

fun encode_txt_items :: "(bytes, bytes option) dict \<Rightarrow> dns_error + bytes" where
  "encode_txt_items [] = Inr []"
| "encode_txt_items (kv # kvs) =
     (if length (txt_item kv) > 255 then Inl (TxtEntryTooLong (fst kv))
      else case encode_txt_items kvs of
             Inl e \<Rightarrow> Inl e
           | Inr out \<Rightarrow> Inr (word_of_nat (length (txt_item kv)) # txt_item kv @ out))"

definition encode_txt :: "(bytes, bytes option) dict \<Rightarrow> dns_error + bytes" where
  "encode_txt values =
     (case encode_txt_items values of Inl e \<Rightarrow> Inl e | Inr out \<Rightarrow> Inr (if out = [] then [0] else out))"

definition add_txt_item ::
  "(bytes \<Rightarrow> bytes option) \<Rightarrow> (bytes \<Rightarrow> bytes) \<Rightarrow> bytes \<Rightarrow> (bytes, bytes option) dict \<Rightarrow> (bytes, bytes option) dict" where
  "add_txt_item lower replace item out =
     (if item = [] then out
      else let key = takeWhile (\<lambda>b. b \<noteq> 0x3D) item
           in case lower key of
                None \<Rightarrow> out
              | Some name \<Rightarrow>
                  if dhas out name then out
                  else dset name (if 0x3D \<in> set item then Some (replace (drop (Suc (length key)) item)) else None) out)"

function decode_txt_loop ::
  "(bytes \<Rightarrow> bytes option) \<Rightarrow> (bytes \<Rightarrow> bytes) \<Rightarrow> bytes \<Rightarrow> (bytes, bytes option) dict
     \<Rightarrow> dns_error + (bytes, bytes option) dict" where
  "decode_txt_loop lower replace [] out = Inr out"
| "decode_txt_loop lower replace (b # rest) out =
     (if unat b > length rest then Inl TxtPastEnd
      else decode_txt_loop lower replace (drop (unat b) rest) (add_txt_item lower replace (take (unat b) rest) out))"
  by pat_completeness auto
termination
  by (relation "measure (\<lambda>(lower, replace, rdata, out). length rdata)") auto

definition decode_txt ::
  "(bytes \<Rightarrow> bytes option) \<Rightarrow> (bytes \<Rightarrow> bytes) \<Rightarrow> bytes \<Rightarrow> dns_error + (bytes, bytes option) dict" where
  "decode_txt lower replace rdata = decode_txt_loop lower replace rdata []"

text \<open>\<open>service.split(".")\<close>.\<close>

fun split_dots :: "bytes \<Rightarrow> bytes list" where
  "split_dots [] = [[]]"
| "split_dots (b # bs) =
     (if b = 0x2E then [] # split_dots bs
      else case split_dots bs of [] \<Rightarrow> [[b]] | p # ps \<Rightarrow> (b # p) # ps)"

datatype service_error = NotTwoLabels | BadProtocol bytes | NoUnderscore bytes | ServiceLabelTooLong bytes

definition check_service_label :: "bytes \<Rightarrow> service_error option" where
  "check_service_label label =
     (if \<not> (label \<noteq> [] \<and> hd label = 0x5F) \<or> length label < 2 then Some (NoUnderscore label)
      else if length label > 63 then Some (ServiceLabelTooLong label) else None)"

definition validate_service :: "bytes \<Rightarrow> service_error + bytes \<times> bytes" where
  "validate_service service =
     (case split_dots service of
        [name, proto] \<Rightarrow>
          if proto \<noteq> ascii ''_tcp'' \<and> proto \<noteq> ascii ''_udp'' then Inl (BadProtocol proto)
          else (case check_service_label name of
                  Some e \<Rightarrow> Inl e
                | None \<Rightarrow> (case check_service_label proto of Some e \<Rightarrow> Inl e | None \<Rightarrow> Inr (name, proto)))
      | _ \<Rightarrow> Inl NotTwoLabels)"

datatype subtype_error = SubtypeEmpty | SubtypeUnderscore | SubtypeNotOneLabel | SubtypeTooLong

definition validate_subtype :: "bytes \<Rightarrow> subtype_error + bytes" where
  "validate_subtype subtype =
     (if subtype = [] then Inl SubtypeEmpty
      else if hd subtype = 0x5F then Inl SubtypeUnderscore
      else if 0x2E \<in> set subtype \<or> 0 \<in> set subtype then Inl SubtypeNotOneLabel
      else if length subtype > 63 then Inl SubtypeTooLong
      else Inr subtype)"

section \<open>What is encoded is read back\<close>

lemma pieces_Cons [simp]:
  "pieces (p # ps) = Inr bs \<longleftrightarrow> (\<exists>b r. p = Inr b \<and> pieces ps = Inr r \<and> bs = b @ r)"
  by (auto split: sum.splits)

declare pieces.simps(2) [simp del]

lemma pieces_append:
  "pieces (ps @ qs) = Inr bs \<longleftrightarrow> (\<exists>b r. pieces ps = Inr b \<and> pieces qs = Inr r \<and> bs = b @ r)"
  by (induction ps arbitrary: bs) auto

lemma field_Inr: "field n v = Inr bs \<longleftrightarrow> v < 256 ^ n \<and> bs = be_bytes n v"
proof -
  have "(int v < 256 ^ n) = (v < 256 ^ n)" by (metis of_nat_less_iff of_nat_numeral of_nat_power)
  then show ?thesis by (auto simp: field_def to_bytes_def)
qed

lemma slice_mid [simp]: "n = length b \<Longrightarrow> byte_slice (pre @ b @ post) (length pre) n = b"
  by (simp add: byte_slice_def)

lemma slice_at: "a = length pre \<Longrightarrow> n = length b \<Longrightarrow> byte_slice (pre @ b @ post) a n = b"
  by (simp add: byte_slice_def)

lemma int_at_field: "a = length pre \<Longrightarrow> v < 256 ^ n \<Longrightarrow> int_at (pre @ be_bytes n v @ post) a n = v"
  by (simp add: int_at_def slice_at from_be_bytes)

lemma small_label_byte:
  assumes "n < 64"
  shows "(word_of_nat n :: byte) AND 0xC0 = 0" "unat (word_of_nat n :: byte) = n"
proof -
  show u: "unat (word_of_nat n :: byte) = n" using assms by (simp add: unat_of_nat)
  have "take_bit 6 (word_of_nat n :: byte) = word_of_nat n" using assms by (simp add: take_bit_of_nat take_bit_nat_eq_self)
  then have "(word_of_nat n :: byte) = word_of_nat n AND mask 6" by (simp add: take_bit_eq_mask)
  moreover have "(0xC0 :: byte) = NOT (mask 6)" by (simp add: mask_eq_exp_minus_1)
  ultimately show "(word_of_nat n :: byte) AND 0xC0 = 0" by (metis and.assoc bit.conj_cancel_right bit.conj_zero_right)
qed

lemma encode_labels_length: "encode_labels labels = Inr enc \<Longrightarrow> 2 * length labels + 1 \<le> length enc"
proof (induction labels arbitrary: enc)
  case (Cons label labels)
  then obtain rest where r: "encode_labels labels = Inr rest" "0 < length label" "enc = word_of_nat (length label) # label @ rest"
    by (auto split: if_splits sum.splits)
  show ?case using Cons.IH [OF r(1)] r by (cases label) auto
qed auto

lemma read_label:
  assumes "0 < length label" "length label \<le> 63" "length acc < MAX_LABELS"
  shows "read_name_loop (pre @ word_of_nat (length label) # label @ post) (length pre) acc j =
     read_name_loop (pre @ word_of_nat (length label) # label @ post) (length pre + 1 + length label) (acc @ [label]) j"
proof -
  let ?d = "pre @ word_of_nat (length label) # label @ post"
  have b: "(word_of_nat (length label) :: byte) AND 0xC0 = 0" "unat (word_of_nat (length label) :: byte) = length label"
    using small_label_byte [of "length label"] assms(2) by auto
  have z: "(word_of_nat (length label) :: byte) \<noteq> 0" using b(2) assms(1) by (metis less_numeral_extra(3) unsigned_0)
  have s: "byte_slice ?d (Suc (length pre)) (length label) = label" by (simp add: byte_slice_def)
  show ?thesis
    using assms by (subst read_name_loop.simps) (simp add: b z s)
qed

lemma read_encoded_labels:
  assumes "encode_labels labels = Inr enc" "length acc + length labels \<le> MAX_LABELS"
  shows "read_name_loop (pre @ enc @ post) (length pre) acc None = Inr (acc @ labels, length pre + length enc)"
  using assms
proof (induction labels arbitrary: enc pre acc)
  case Nil
  then have "enc = [0]" by simp
  then show ?case by (subst read_name_loop.simps) simp
next
  case (Cons label labels)
  then obtain rest where lab: "0 < length label" "length label \<le> 63" and rest: "encode_labels labels = Inr rest"
    and enc: "enc = word_of_nat (length label) # label @ rest"
    by (auto split: if_splits sum.splits)
  have "read_name_loop (pre @ enc @ post) (length pre) acc None =
      read_name_loop ((pre @ word_of_nat (length label) # label) @ rest @ post)
        (length (pre @ word_of_nat (length label) # label)) (acc @ [label]) None"
    using read_label [OF lab, of acc pre "rest @ post" None] Cons.prems(2) by (simp add: enc)
  then show ?case
    using Cons.IH [OF rest, of "acc @ [label]" "pre @ word_of_nat (length label) # label"] Cons.prems(2) by (simp add: enc)
qed

lemma read_encoded_name:
  assumes "encode_name labels = Inr enc" "a = length pre"
  shows "read_name (pre @ enc @ post) a = Inr (labels, a + length enc)"
proof -
  have e: "encode_labels labels = Inr enc" "length enc \<le> 255"
    using assms(1) by (auto simp: encode_name_def split: sum.splits if_splits)
  then have "length labels \<le> MAX_LABELS" using encode_labels_length [OF e(1)] by (simp add: MAX_LABELS_def)
  then show ?thesis unfolding read_name_def using read_encoded_labels [OF e(1), of "[]"] assms(2) by simp
qed

lemma slice_skip: "length xs \<le> a \<Longrightarrow> byte_slice (xs @ ys) a n = byte_slice ys (a - length xs) n"
  by (simp add: byte_slice_def)

lemma slice_head: "n = length b \<Longrightarrow> byte_slice (b @ ys) 0 n = b"
  by (simp add: byte_slice_def)

lemma int_at_skip: "length xs \<le> a \<Longrightarrow> int_at (xs @ ys) a n = int_at ys (a - length xs) n"
  by (simp add: int_at_def slice_skip)

lemma int_at_head: "v < 256 ^ n \<Longrightarrow> int_at (be_bytes n v @ ys) 0 n = v"
  by (simp add: int_at_def slice_head from_be_bytes)

lemma int_at_last: "v < 256 ^ n \<Longrightarrow> int_at (be_bytes n v) 0 n = v"
  using int_at_head [of v n "[]"] by simp

lemmas reading = int_at_skip int_at_head int_at_last slice_skip slice_head field_Inr

lemma skip_encoded:
  assumes "pieces (map encode_question qs) = Inr enc" "a = length pre"
  shows "skip_questions (pre @ enc @ post) (length qs) a = Inr (a + length enc)"
  using assms
proof (induction qs arbitrary: enc pre a)
  case (Cons q qs)
  then obtain en rest where n: "encode_name (q_name q) = Inr en" and r: "pieces (map encode_question qs) = Inr rest"
    and enc: "enc = en @ be_bytes 2 (q_qtype q) @ be_bytes 2 CLASS_IN @ rest"
    by (auto simp: encode_question_def [of q] field_Inr)
  let ?pre = "pre @ en @ be_bytes 2 (q_qtype q) @ be_bytes 2 CLASS_IN"
  have "read_name (pre @ enc @ post) a = Inr (q_name q, a + length en)"
    using read_encoded_name [OF n Cons.prems(2), of "be_bytes 2 (q_qtype q) @ be_bytes 2 CLASS_IN @ rest @ post"] by (simp add: enc)
  then show ?case
    using Cons.IH [OF r, of "length ?pre" ?pre] Cons.prems(2) by (simp add: enc add_ac)
qed simp

text \<open>A record of the message says what a published record says.\<close>

definition carries :: "bytes \<Rightarrow> bool \<Rightarrow> Record \<Rightarrow> ResourceRecord \<Rightarrow> bool" where
  "carries data legacy r rr \<longleftrightarrow> rr_name rr = rec_name r \<and> rr_rtype rr = rec_rtype r \<and> rr_rclass rr = CLASS_IN
     \<and> rr_ttl rr = record_ttl legacy r \<and> byte_slice data (rdata_offset rr) (rdata_length rr) = rec_rdata r"

lemma class_masked: "record_class legacy r AND 0x7FFF = CLASS_IN" "record_class legacy r < 65536"
  by (simp_all add: record_class_def CLASS_IN_def CACHE_FLUSH_def)

lemma records_encoded:
  assumes "pieces (map (encode_record legacy) rs) = Inr enc" "a = length pre"
  shows "\<exists>rrs. records_from (pre @ enc @ post) (length rs) a = Inr rrs \<and>
           list_all2 (carries (pre @ enc @ post) legacy) rs rrs"
  using assms
proof (induction rs arbitrary: enc pre a)
  case (Cons r rs)
  then obtain en rest where n: "encode_name (rec_name r) = Inr en" and rest: "pieces (map (encode_record legacy) rs) = Inr rest"
    and bounds: "rec_rtype r < 65536" "record_ttl legacy r < 4294967296" "length (rec_rdata r) < 65536"
    and enc: "enc = en @ be_bytes 2 (rec_rtype r) @ be_bytes 2 (record_class legacy r) @ be_bytes 4 (record_ttl legacy r) @
      be_bytes 2 (length (rec_rdata r)) @ rec_rdata r @ rest"
    by (auto simp: encode_record_def [of legacy r] field_Inr)
  let ?hd = "be_bytes 2 (rec_rtype r) @ be_bytes 2 (record_class legacy r) @ be_bytes 4 (record_ttl legacy r) @
      be_bytes 2 (length (rec_rdata r)) @ rec_rdata r"
  let ?d = "pre @ enc @ post" and ?pre = "pre @ en @ ?hd"
  have name: "read_name ?d a = Inr (rec_name r, a + length en)"
    using read_encoded_name [OF n Cons.prems(2), of "?hd @ rest @ post"] by (simp add: enc)
  have f: "int_at ?d (a + length en) 2 = rec_rtype r" "int_at ?d (a + length en + 2) 2 = record_class legacy r"
    "int_at ?d (a + length en + 4) 4 = record_ttl legacy r" "int_at ?d (a + length en + 8) 2 = length (rec_rdata r)"
    "byte_slice ?d (a + length en + 10) (length (rec_rdata r)) = rec_rdata r"
    using bounds Cons.prems(2) class_masked(2) by (simp_all add: enc reading)
  obtain rrs where rrs: "records_from ?d (length rs) (a + length en + 10 + length (rec_rdata r)) = Inr rrs"
    "list_all2 (carries ?d legacy) rs rrs"
    using Cons.IH [OF rest, of "length ?pre" ?pre] Cons.prems(2) by (auto simp: enc add_ac)
  have len: "\<not> length ?d < a + length en + 10" "\<not> length ?d < a + length en + 10 + length (rec_rdata r)"
    using Cons.prems(2) by (simp_all add: enc)
  show ?case
    using name f rrs len class_masked(1)
    by (simp add: Let_def carries_def [of _ _ r])
qed simp

lemma decode_encoded:
  assumes "encode_response rs ident qs = Inr data"
  shows "\<exists>m. decode_message data = Inr m \<and> dm_ident m = ident \<and> dm_raw m = data \<and>
     list_all2 (carries data (qs \<noteq> [])) rs (dm_records m)"
proof -
  obtain qe re where q: "pieces (map encode_question qs) = Inr qe"
    and r: "pieces (map (encode_record (qs \<noteq> [])) rs) = Inr re"
    and bounds: "ident < 65536" "length qs < 65536" "length rs < 65536"
    and data: "data = be_bytes 2 ident @ be_bytes 2 0x8400 @ be_bytes 2 (length qs) @ be_bytes 2 (length rs) @
       be_bytes 2 0 @ be_bytes 2 0 @ qe @ re"
    using assms by (auto simp: encode_response_def Let_def pieces_append field_Inr)
  let ?h = "be_bytes 2 ident @ be_bytes 2 0x8400 @ be_bytes 2 (length qs) @ be_bytes 2 (length rs) @ be_bytes 2 0 @ be_bytes 2 0"
  have f: "int_at data 0 2 = ident" "int_at data 4 2 = length qs" "int_at data 6 2 = length rs"
    "int_at data 8 2 = 0" "int_at data 10 2 = 0" "\<not> length data < 12"
    using bounds by (simp_all add: data reading)
  have s: "skip_questions data (length qs) 12 = Inr (12 + length qe)"
    using skip_encoded [OF q, of 12 ?h re] by (simp add: data)
  obtain rrs where rec: "records_from data (length rs) (12 + length qe) = Inr rrs"
    "list_all2 (carries data (qs \<noteq> [])) rs rrs"
    using records_encoded [OF r, of "12 + length qe" "?h @ qe" "[]"] by (auto simp: data)
  show ?thesis using f s rec by (simp add: decode_message_def)
qed

lemma decode_query_encoded:
  assumes "encode_query labels qtype ident unicast = Inr data"
  shows "decode_questions data = Inr [\<lparr>q_name = labels, q_qtype = qtype, q_unicast = unicast\<rparr>]"
proof -
  let ?c = "CLASS_IN OR (if unicast then QU_BIT else 0)"
  obtain en where n: "encode_name labels = Inr en" and bounds: "ident < 65536" "qtype < 65536" "?c < 65536"
    and data: "data = be_bytes 2 ident @ be_bytes 2 0 @ be_bytes 2 1 @ be_bytes 2 0 @ be_bytes 2 0 @ be_bytes 2 0 @
       en @ be_bytes 2 qtype @ be_bytes 2 ?c"
    using assms by (auto simp: encode_query_def field_Inr)
  let ?h = "be_bytes 2 ident @ be_bytes 2 0 @ be_bytes 2 1 @ be_bytes 2 0 @ be_bytes 2 0 @ be_bytes 2 0"
  have f: "int_at data 2 2 = 0" "int_at data 4 2 = 1" "\<not> length data < 12"
    "int_at data (12 + length en) 2 = qtype" "int_at data (12 + length en + 2) 2 = ?c" "\<not> length data < 12 + length en + 4"
    using bounds by (simp_all add: data reading)
  have "read_name data 12 = Inr (labels, 12 + length en)"
    using read_encoded_name [OF n, of 12 ?h "be_bytes 2 qtype @ be_bytes 2 ?c"] by (simp add: data)
  moreover have "(?c AND QU_BIT \<noteq> 0) = unicast" by (simp add: CLASS_IN_def QU_BIT_def)
  ultimately have "questions_from data (Suc 0) 12 = Inr [\<lparr>q_name = labels, q_qtype = qtype, q_unicast = unicast\<rparr>]"
    using f(4-6) by simp
  then show ?thesis using f(1-3) by (simp add: decode_questions_def)
qed

text \<open>Rdata of a pointer or service record, inside whatever message carries it.\<close>

lemma decode_srv_encoded:
  assumes "encode_srv port target = Inr rd" "byte_slice (dm_raw m) (rdata_offset r) (rdata_length r) = rd"
    "rdata_length r = length rd"
  shows "decode_srv m r = Inr (port, target)"
proof -
  obtain en where n: "encode_name target = Inr en" and p: "port < 65536"
    and rd: "rd = be_bytes 2 0 @ be_bytes 2 0 @ be_bytes 2 port @ en"
    using assms(1) by (auto simp: encode_srv_def field_Inr)
  define pre post where "pre = take (rdata_offset r) (dm_raw m)" and "post = drop (rdata_offset r + rdata_length r) (dm_raw m)"
  have len: "rdata_offset r + length rd \<le> length (dm_raw m)"
  proof -
    have "length (byte_slice (dm_raw m) (rdata_offset r) (rdata_length r)) = length rd" using assms(2) by simp
    then have "length rd \<le> length (dm_raw m) - rdata_offset r" by (simp add: byte_slice_def assms(3))
    moreover have "6 \<le> length rd" by (simp add: rd)
    ultimately show ?thesis by linarith
  qed
  have raw: "dm_raw m = pre @ rd @ post"
    using assms(2,3) unfolding pre_def post_def byte_slice_def
    by (metis append_take_drop_id drop_drop add.commute)
  have lp: "length pre = rdata_offset r" using len by (simp add: pre_def)
  have ne: "0 < length en" using n by (auto simp: encode_name_def split: sum.splits if_splits dest: encode_labels_length)
  have "read_name (dm_raw m) (rdata_offset r + 6) = Inr (target, rdata_offset r + 6 + length en)"
    using read_encoded_name [OF n, of "rdata_offset r + 6" "pre @ be_bytes 2 0 @ be_bytes 2 0 @ be_bytes 2 port" post]
    by (simp add: raw rd lp)
  moreover have "int_at (dm_raw m) (rdata_offset r + 4) 2 = port"
    using p by (simp add: raw rd lp [symmetric] reading)
  ultimately show ?thesis
    using assms(3) ne by (simp add: decode_srv_def read_rdata_name_def rd)
qed


lemma decode_ptr_encoded:
  assumes "encode_name target = Inr rd" "byte_slice (dm_raw m) (rdata_offset r) (rdata_length r) = rd"
    "rdata_length r = length rd"
  shows "decode_ptr m r = Inr target"
proof -
  have ne: "0 < length rd" using assms(1) by (auto simp: encode_name_def split: sum.splits if_splits dest: encode_labels_length)
  have "length (byte_slice (dm_raw m) (rdata_offset r) (rdata_length r)) = length rd" using assms(2) by simp
  then have le: "length rd \<le> length (dm_raw m) - rdata_offset r" by (simp add: byte_slice_def assms(3))
  define pre post where "pre = take (rdata_offset r) (dm_raw m)" and "post = drop (rdata_offset r + rdata_length r) (dm_raw m)"
  have raw: "dm_raw m = pre @ rd @ post"
    using assms(2,3) unfolding pre_def post_def byte_slice_def by (metis append_take_drop_id drop_drop add.commute)
  have "rdata_offset r \<le> length (dm_raw m)" using le ne by linarith
  then have lp: "rdata_offset r = length pre" by (simp add: pre_def)
  show ?thesis
    using read_encoded_name [OF assms(1) lp, of post] by (simp add: decode_ptr_def read_rdata_name_def raw assms(3))
qed

lemma takeWhile_key: "0x3D \<notin> set k \<Longrightarrow> takeWhile (\<lambda>b. b \<noteq> 0x3D) (k @ (0x3D :: byte) # v) = k"
  by (metis (mono_tags, lifting) takeWhile_append2 takeWhile.simps(2) append.right_neutral)

lemma add_encoded_item:
  assumes "0x3D \<notin> set k" "k \<noteq> [] \<or> v \<noteq> None" "lower k = Some k" "\<And>x. v = Some x \<Longrightarrow> replace x = x" "\<not> dhas out k"
  shows "add_txt_item lower replace (txt_item (k, v)) out = out @ [(k, v)]"
proof -
  have d: "dset k w out = out @ [(k, w)]" for w
    using assms(5) unfolding dset_def by (induction out) (auto simp: dhas_def split: if_splits)
  have tk: "v = None \<Longrightarrow> takeWhile (\<lambda>b. b \<noteq> 0x3D) k = k" using assms(1) by (simp add: takeWhile_eq_all_conv) fast
  show ?thesis
  proof (cases v)
    case None
    then show ?thesis using assms by (auto simp: add_txt_item_def txt_item_def Let_def d tk)
  next
    case (Some x)
    then show ?thesis using assms takeWhile_key [OF assms(1), of x]
      by (auto simp: add_txt_item_def txt_item_def Let_def d)
  qed
qed

definition txt_ok :: "(bytes \<Rightarrow> bytes option) \<Rightarrow> (bytes \<Rightarrow> bytes) \<Rightarrow> bytes \<times> bytes option \<Rightarrow> bool" where
  "txt_ok lower replace kv \<longleftrightarrow> 0x3D \<notin> set (fst kv) \<and> (fst kv \<noteq> [] \<or> snd kv \<noteq> None) \<and> lower (fst kv) = Some (fst kv)
     \<and> (case snd kv of None \<Rightarrow> True | Some v \<Rightarrow> replace v = v)"

lemma decode_encoded_items:
  assumes "encode_txt_items kvs = Inr rd" "wf_dict (out @ kvs)" "list_all (txt_ok lower replace) kvs"
  shows "decode_txt_loop lower replace rd out = Inr (out @ kvs)"
  using assms
proof (induction kvs arbitrary: rd out)
  case (Cons kv kvs)
  obtain k v where kv: "kv = (k, v)" by fastforce
  obtain rest where r: "encode_txt_items kvs = Inr rest" "length (txt_item kv) \<le> 255"
    and rd: "rd = word_of_nat (length (txt_item kv)) # txt_item kv @ rest"
    using Cons.prems(1) by (auto split: if_splits sum.splits)
  have u: "unat (word_of_nat (length (txt_item kv)) :: byte) = length (txt_item kv)"
    using r(2) by (simp add: unat_of_nat)
  have "\<not> dhas out k" using Cons.prems(2) kv by (auto simp: wf_dict_def dhas_iff_keys)
  then have "add_txt_item lower replace (txt_item (k, v)) out = out @ [(k, v)]"
    using Cons.prems(3) by (intro add_encoded_item) (auto simp: txt_ok_def kv)
  then show ?case
    using Cons.IH [OF r(1), of "out @ [kv]"] Cons.prems(2,3) u by (simp add: rd kv)
qed auto

lemma decode_encoded_txt:
  assumes "encode_txt kvs = Inr rd" "wf_dict kvs" "list_all (txt_ok lower replace) kvs"
  shows "decode_txt lower replace rd = Inr kvs"
proof -
  obtain out where out: "encode_txt_items kvs = Inr out" and rd: "rd = (if out = [] then [0] else out)"
    using assms(1) by (auto simp: encode_txt_def split: sum.splits)
  show ?thesis
  proof (cases "out = []")
    case True
    then have "kvs = []" using out by (cases kvs) (auto split: if_splits sum.splits)
    then show ?thesis by (simp add: decode_txt_def rd True add_txt_item_def)
  next
    case False
    then show ?thesis using decode_encoded_items [OF out, of "[]"] assms by (simp add: decode_txt_def rd)
  qed
qed

section \<open>Whatever comes in\<close>

lemma unat_label_bound:
  assumes "(b :: byte) AND 0xC0 = 0"
  shows "unat b \<le> 63"
proof -
  have m: "(0xC0 :: byte) = NOT (mask 6)" by (simp add: mask_eq_exp_minus_1)
  have "b = (b AND mask 6) OR (b AND NOT (mask 6))"
    by (metis bit.conj_disj_distrib bit.disj_cancel_right bit.conj_one_right)
  then have "b = take_bit 6 b" using assms by (simp add: m take_bit_eq_mask)
  then have "unat b = take_bit 6 (unat b)" by (metis unsigned_take_bit_eq)
  then have "unat b < 2 ^ 6" by (metis take_bit_nat_less_exp)
  then show ?thesis by simp
qed

lemma read_name_loop_sound:
  assumes "read_name_loop data offset labels j = Inr (ls, e)" "length labels \<le> MAX_LABELS"
    "\<forall>l \<in> set labels. 0 < length l \<and> length l \<le> 63" "\<forall>x. j = Some x \<longrightarrow> x \<le> length data"
  shows "length ls \<le> MAX_LABELS \<and> (\<forall>l \<in> set ls. 0 < length l \<and> length l \<le> 63) \<and> e \<le> length data
    \<and> (case j of None \<Rightarrow> offset < e | Some x \<Rightarrow> e = x)"
  using assms
proof (induction data offset labels j arbitrary: ls e rule: read_name_loop.induct)
  case (1 data offset labels j)
  let ?b = "data ! offset" and ?p = "pointer_of (data ! offset) (data ! (offset + 1))"
  let ?l = "byte_slice data (offset + 1) (unat ?b)" and ?j = "Some (case j of None \<Rightarrow> offset + 2 | Some e \<Rightarrow> e)"
  have in_data: "\<not> length data \<le> offset"
    using "1.prems"(1) by (subst (asm) read_name_loop.simps) (auto split: if_splits)
  consider (ptr) "?b AND 0xC0 = 0xC0" | (zero) "?b AND 0xC0 = 0" "?b = 0" | (label) "?b AND 0xC0 = 0" "?b \<noteq> 0"
    using "1.prems"(1) in_data by (subst (asm) read_name_loop.simps) (auto split: if_splits)
  then show ?case
  proof cases
    case ptr
    then have p: "\<not> length data \<le> offset + 1" "\<not> offset \<le> ?p" and r: "read_name_loop data ?p labels ?j = Inr (ls, e)"
      using "1.prems"(1) in_data by (subst (asm) read_name_loop.simps, auto split: if_splits)+
    have "\<forall>x. ?j = Some x \<longrightarrow> x \<le> length data" using p "1.prems"(4) by (auto split: option.splits)
    from "1.IH"(1) [OF in_data ptr p r "1.prems"(2,3) this] show ?thesis by (auto split: option.splits)
  next
    case zero
    then have "ls = labels" "e = (case j of None \<Rightarrow> offset + 1 | Some e \<Rightarrow> e)"
      using "1.prems"(1) in_data by (subst (asm) read_name_loop.simps, simp)+
    then show ?thesis using "1.prems" in_data by (auto split: option.splits)
  next
    case label
    then have nz: "\<not> ?b AND 0xC0 = 0xC0" "\<not> ?b AND 0xC0 \<noteq> 0" by auto
    have r: "\<not> length ?l \<noteq> unat ?b" "\<not> length labels + 1 > MAX_LABELS"
      "read_name_loop data (offset + 1 + unat ?b) (labels @ [?l]) j = Inr (ls, e)"
      using "1.prems"(1) in_data label by (subst (asm) read_name_loop.simps, auto split: if_splits)+
    have "0 < unat ?b" "unat ?b \<le> 63" using label unat_label_bound by (auto simp: unat_eq_0 intro: gr0I)
    then have ok: "\<forall>l \<in> set (labels @ [?l]). 0 < length l \<and> length l \<le> 63" using r(1) "1.prems"(3) by auto
    from "1.IH"(2) [OF in_data nz label(2) r(1,2,3) _ ok "1.prems"(4)] r(2) show ?thesis by (auto split: option.splits)
  qed
qed

lemma read_name_sound:
  assumes "read_name data offset = Inr (ls, e)"
  shows "length ls \<le> MAX_LABELS" "\<And>l. l \<in> set ls \<Longrightarrow> 0 < length l \<and> length l \<le> 63" "offset < e" "e \<le> length data"
  using read_name_loop_sound [of data offset "[]" None ls e] assms by (auto simp: read_name_def)

lemma records_from_sound:
  "records_from data n offset = Inr rs \<Longrightarrow> rr \<in> set rs \<Longrightarrow>
     rdata_offset rr + rdata_length rr \<le> length data \<and> offset < rdata_offset rr"
proof (induction n arbitrary: offset rs)
  case (Suc n)
  obtain name off where r: "read_name data offset = Inr (name, off)" "\<not> off + 10 > length data"
    "\<not> off + 10 + int_at data (off + 8) 2 > length data"
    using Suc.prems(1) by (auto split: sum.splits prod.splits if_splits simp: Let_def)
  then obtain rest where rest: "records_from data n (off + 10 + int_at data (off + 8) 2) = Inr rest"
    and rs: "rs = \<lparr>rr_name = name, rr_rtype = int_at data off 2, rr_rclass = int_at data (off + 2) 2 AND 0x7FFF,
       rr_ttl = int_at data (off + 4) 4, rdata_offset = off + 10, rdata_length = int_at data (off + 8) 2\<rparr> # rest"
    using Suc.prems(1) by (auto split: sum.splits simp: Let_def)
  show ?case
    using Suc.prems(2) Suc.IH [OF rest] r read_name_sound(3) [OF r(1)] by (auto simp: rs)
qed simp

lemma decode_message_sound:
  assumes "decode_message data = Inr m" "rr \<in> set (dm_records m)"
  shows "dm_raw m = data" "rdata_offset rr + rdata_length rr \<le> length data" "length (record_rdata m rr) = rdata_length rr"
proof -
  show raw: "dm_raw m = data" using assms(1) by (auto simp: decode_message_def split: if_splits sum.splits)
  show le: "rdata_offset rr + rdata_length rr \<le> length data"
    using assms records_from_sound by (fastforce simp: decode_message_def split: if_splits sum.splits)
  show "length (record_rdata m rr) = rdata_length rr" using le by (simp add: record_rdata_def byte_slice_def raw)
qed

text \<open>A label and a pointer back to it: every round adds the label once more.\<close>

lemma pointer_loop:
  assumes "0 < length l" "length l \<le> 63" "length acc \<le> MAX_LABELS"
  shows "read_name_loop (word_of_nat (length l) # l @ [0xC0, 0]) 0 acc j = Inl TooManyLabels"
  using assms(3)
proof (induction "MAX_LABELS - length acc" arbitrary: acc j)
  case 0
  have b: "(word_of_nat (length l) :: byte) AND 0xC0 = 0" "unat (word_of_nat (length l) :: byte) = length l"
    using small_label_byte [of "length l"] assms(2) by auto
  have "(word_of_nat (length l) :: byte) \<noteq> 0" using b(2) assms(1) by (metis less_numeral_extra(3) unsigned_0)
  then show ?case using 0 b by (subst read_name_loop.simps) (simp add: byte_slice_def)
next
  case (Suc n)
  let ?d = "word_of_nat (length l) # l @ [0xC0, 0]"
  have at: "?d ! Suc (length l) = 0xC0" "?d ! Suc (Suc (length l)) = 0" "(l @ [0xC0, 0]) ! Suc (length l) = 0"
    by (simp_all add: nth_append)
  have "read_name_loop ?d 0 acc j = read_name_loop ?d (1 + length l) (acc @ [l]) j"
    using read_label [of l acc "[]" "[0xC0, 0]" j] assms Suc by simp
  also have "\<dots> = read_name_loop ?d 0 (acc @ [l]) (Some (case j of None \<Rightarrow> 1 + length l + 2 | Some e \<Rightarrow> e))"
    by (subst read_name_loop.simps) (use assms in \<open>simp add: at pointer_of_def\<close>)
  also have "\<dots> = Inl TooManyLabels" using Suc by simp
  finally show ?case .
qed

section \<open>Properties\<close>

text \<open>
  C29. A response that is encoded decodes to the same records, in order, with the same
  transaction id: name, type, class \<open>IN\<close> (the cache-flush bit is taken off), time to live
  (capped at ten seconds towards a legacy querier) and data, whether or not the questions
  are echoed.
\<close>

theorem dns_response_round_trip:
  assumes "encode_response rs ident qs = Inr data"
  shows "\<exists>m. decode_message data = Inr m \<and> dm_ident m = ident \<and>
     list_all2 (\<lambda>r rr. rr_name rr = rec_name r \<and> rr_rtype rr = rec_rtype r \<and> rr_rclass rr = CLASS_IN \<and>
        rr_ttl rr = (if qs = [] then rec_ttl r else min (rec_ttl r) LEGACY_MAX_TTL) \<and> record_rdata m rr = rec_rdata r)
       rs (dm_records m)"
proof -
  obtain m where "decode_message data = Inr m" "dm_ident m = ident" "dm_raw m = data"
    "list_all2 (carries data (qs \<noteq> [])) rs (dm_records m)"
    using decode_encoded [OF assms] by blast
  then show ?thesis
    by (intro exI [of _ m]) (auto elim!: list_all2_mono simp: carries_def record_ttl_def record_rdata_def)
qed

definition ex_record_ptr :: Record where
  "ex_record_ptr = \<lparr>rec_name = [ascii ''_http'', ascii ''local''], rec_rtype = TYPE_PTR, rec_ttl = 120,
     rec_rdata = [1, 97, 0], rec_unique = True\<rparr>"

theorem dns_response_round_trip_witness:
  "\<exists>data m rr. encode_response [ex_record_ptr] 7 [] = Inr data \<and> decode_message data = Inr m \<and>
     dm_records m = [rr] \<and> rr_ttl rr = 120 \<and> record_rdata m rr = [1, 97, 0]"
proof -
  obtain data where d: "encode_response [ex_record_ptr] 7 [] = Inr data"
    by (simp add: encode_response_def encode_record_def ex_record_ptr_def encode_name_def ascii_def field_def
        to_bytes_def record_class_def record_ttl_def CLASS_IN_def CACHE_FLUSH_def TYPE_PTR_def pieces.simps)
  from dns_response_round_trip [OF d] show ?thesis
    using d by (auto simp: list_all2_Cons1 ex_record_ptr_def)
qed

text \<open>
  C30. Reading a name from arbitrary bytes always ends, with an error or with at most 128
  labels of 1 to 63 bytes each and an end offset past the start and inside the data; and
  every record of a decoded message has its data inside the message.
\<close>

theorem dns_decode_in_bounds:
  "(\<forall>ls e. read_name data offset = Inr (ls, e) \<longrightarrow>
      length ls \<le> MAX_LABELS \<and> (\<forall>l \<in> set ls. 0 < length l \<and> length l \<le> 63) \<and> offset < e \<and> e \<le> length data) \<and>
   (\<forall>m rr. decode_message data = Inr m \<longrightarrow> rr \<in> set (dm_records m) \<longrightarrow>
      rdata_offset rr + rdata_length rr \<le> length data \<and> length (record_rdata m rr) = rdata_length rr)"
  by (intro conjI allI impI ballI; metis read_name_sound decode_message_sound)

theorem dns_decode_in_bounds_witness:
  "read_name [1, 97, 0, 2, 98, 99, 0xC0, 0] 3 = Inr ([[98, 99], [97]], 8) \<and> (8 :: nat) \<le> length ([1, 97, 0, 2, 98, 99, 0xC0, 0] :: bytes)"
proof -
  have "read_name [1, 97, 0, 2, 98, 99, 0xC0, 0] 3 = Inr ([[98, 99], [97]], 8)" by code_simp
  then show ?thesis using dns_decode_in_bounds by blast
qed

text \<open>
  The attributes of a TXT record survive encoding and decoding, in order, and a key that
  is absent, a key without a value and a key with an empty value stay three different
  things; keys are lower case and without \<open>=\<close>, and texts are valid UTF-8.
\<close>

theorem dns_txt_round_trip:
  assumes "encode_txt kvs = Inr rd" "wf_dict kvs" "list_all (txt_ok lower replace) kvs"
  shows "decode_txt lower replace rd = Inr kvs"
  by (rule decode_encoded_txt [OF assms])

theorem dns_txt_round_trip_witness:
  "\<exists>rd. encode_txt [(ascii ''https'', None), (ascii ''path'', Some [])] = Inr rd \<and>
     decode_txt (\<lambda>k. Some (map fold_byte k)) id rd = Inr [(ascii ''https'', None), (ascii ''path'', Some [])]"
proof -
  obtain rd where rd: "encode_txt [(ascii ''https'', None), (ascii ''path'', Some [])] = Inr rd"
    by (simp add: encode_txt_def txt_item_def ascii_def)
  have "wf_dict [(ascii ''https'', None :: bytes option), (ascii ''path'', Some [])]"
    "list_all (txt_ok (\<lambda>k. Some (map fold_byte k)) id) [(ascii ''https'', None), (ascii ''path'', Some [])]"
    by code_simp+
  from dns_txt_round_trip [OF rd this] rd show ?thesis by blast
qed

text \<open>
  Pointers that go strictly back do not rule out a loop: a label followed by a pointer to
  it is read over and over, and it is only the limit on labels that ends it, after 128
  rounds.
\<close>

theorem backward_pointers_can_loop:
  assumes "0 < length l" "length l \<le> 63"
  shows "pointer_of 0xC0 0 < 1 + length l \<and> read_name (word_of_nat (length l) # l @ [0xC0, 0]) 0 = Inl TooManyLabels"
  using pointer_loop [OF assms, of "[]"] by (simp add: read_name_def pointer_of_def MAX_LABELS_def)

theorem backward_pointers_can_loop_witness:
  "read_name [1, 97, 0xC0, 0] 0 = Inl TooManyLabels"
  using backward_pointers_can_loop [of "[97]"] by simp

end
