(* ===== verification/Retry.thy ===== *)
theory Retry
  imports Py_Prelude Complex_Main "HOL-Library.Sublist"
begin

text \<open>
  \<open>client/retry.py\<close> and \<open>client/poll_rate.py\<close>: retrying an operation with exponential
  backoff, and the poll rates a server may ask for. The operation is not under the control of
  the loop: \<open>op n\<close> is how its \<open>n\<close>-th attempt ends. Delays are rational numbers of seconds.
  The loop returns its outcome together with what it did: attempts, sleeps and reports.
\<close>

section \<open>Outcomes of an attempt\<close>

record ssl_error =
  is_cert_verification :: bool
  verify_message :: "string option"
  ssl_text :: string

datatype 'a attempt =
    Completed 'a
  | SslFailed ssl_error
  | RateLimited "int option"
  | Redirected int string
  | TransportFailed string
  | FailedOtherwise string

text \<open>What \<open>with_retry\<close> raises: \<open>Sep2TlsError\<close> and \<open>Sep2ConnectionError\<close> with the number of
  attempts, or the error of the last attempt as it is.\<close>

datatype 'a retry_result =
    Returned 'a
  | TlsError nat
  | ConnectionError nat
  | RateLimitError "int option"
  | RedirectError int string
  | Propagated string

datatype retry_report =
    HostnameMismatchReport string nat | TlsHandshakeReport string nat
  | RedirectReport string int string nat | UnreachableReport string

datatype retry_effect = Attempt | Sleep rat | RetryReport retry_report | MismatchHint

record RetryPolicy =
  max_transient :: int
  max_tls :: int
  base_delay :: rat
  backoff_factor :: rat

definition default_RetryPolicy :: RetryPolicy where
  "default_RetryPolicy = \<lparr>max_transient = 3, max_tls = 8, base_delay = 1 / 4, backoff_factor = 2\<rparr>"

text \<open>\<open>str.lower()\<close> on the letters that matter for the search of an ASCII text.\<close>

definition lower_char :: "char \<Rightarrow> char" where
  "lower_char c = (if CHR ''A'' \<le> c \<and> c \<le> CHR ''Z'' then char_of (of_char c + 32 :: nat) else c)"

definition contains_lower :: "string \<Rightarrow> string \<Rightarrow> bool" where
  "contains_lower needle s = sublist needle (map lower_char s)"

definition is_hostname_mismatch :: "ssl_error \<Rightarrow> bool" where
  "is_hostname_mismatch exc =
     (if \<not> is_cert_verification exc then False
      else if contains_lower ''hostname mismatch'' (case verify_message exc of None \<Rightarrow> [] | Some m \<Rightarrow> m) then True
      else contains_lower ''hostname mismatch'' (ssl_text exc))"

section \<open>The loop\<close>

definition backoff :: "RetryPolicy \<Rightarrow> nat \<Rightarrow> rat" where
  "backoff policy attempts = base_delay policy * backoff_factor policy ^ (attempts - 1)"

text \<open>One failed attempt: the new counters and the delay, or what is raised, with the reports.\<close>

datatype 'a retry_step = GoOn nat nat rat "retry_effect list" | Stop "'a retry_result" "retry_effect list"

definition tls_reports :: "string option \<Rightarrow> bool \<Rightarrow> nat \<Rightarrow> retry_effect list" where
  "tls_reports peer mismatch tls =
     (case peer of
        None \<Rightarrow> []
      | Some p \<Rightarrow> [RetryReport (if mismatch then HostnameMismatchReport p tls else TlsHandshakeReport p tls)])"

definition after_ssl :: "RetryPolicy \<Rightarrow> string option \<Rightarrow> ssl_error \<Rightarrow> nat \<Rightarrow> nat \<Rightarrow> 'a retry_step" where
  "after_ssl policy peer exc transient tls0 =
     (let tls = tls0 + 1; mismatch = is_hostname_mismatch exc;
          hint = (if mismatch \<and> tls = 1 then [MismatchHint] else [])
      in if int tls \<ge> max_tls policy then Stop (TlsError tls) (hint @ tls_reports peer mismatch tls)
         else GoOn transient tls (backoff policy tls) hint)"

definition after_rate_limit :: "RetryPolicy \<Rightarrow> int option \<Rightarrow> nat \<Rightarrow> nat \<Rightarrow> 'a retry_step" where
  "after_rate_limit policy retry_after transient0 tls =
     (let transient = transient0 + 1
      in if int transient \<ge> max_transient policy then Stop (RateLimitError retry_after) []
         else GoOn transient tls
                (case retry_after of
                   Some r \<Rightarrow> if r \<noteq> 0 then of_int r else backoff policy transient
                 | None \<Rightarrow> backoff policy transient) [])"

definition after_redirect :: "RetryPolicy \<Rightarrow> string option \<Rightarrow> int \<Rightarrow> string \<Rightarrow> nat \<Rightarrow> nat \<Rightarrow> 'a retry_step" where
  "after_redirect policy peer status location transient0 tls =
     (let transient = transient0 + 1; target = (if location = [] then ''(no Location header)'' else location)
      in if int transient \<ge> max_transient policy then Stop (RedirectError status location) []
         else GoOn transient tls (backoff policy transient)
                (case peer of None \<Rightarrow> [] | Some p \<Rightarrow> [RetryReport (RedirectReport p status target transient)]))"

definition after_transport :: "RetryPolicy \<Rightarrow> string option \<Rightarrow> nat \<Rightarrow> nat \<Rightarrow> 'a retry_step" where
  "after_transport policy peer transient0 tls =
     (let transient = transient0 + 1
      in if int transient \<ge> max_transient policy
         then Stop (ConnectionError transient)
                (case peer of None \<Rightarrow> [] | Some p \<Rightarrow> [RetryReport (UnreachableReport p)])
         else GoOn transient tls (backoff policy transient) [])"

fun retry_turn :: "RetryPolicy \<Rightarrow> string option \<Rightarrow> 'a attempt \<Rightarrow> nat \<Rightarrow> nat \<Rightarrow> 'a retry_step" where
  "retry_turn policy peer (Completed v) transient tls = Stop (Returned v) []"
| "retry_turn policy peer (SslFailed exc) transient tls = after_ssl policy peer exc transient tls"
| "retry_turn policy peer (RateLimited r) transient tls = after_rate_limit policy r transient tls"
| "retry_turn policy peer (Redirected st loc) transient tls = after_redirect policy peer st loc transient tls"
| "retry_turn policy peer (TransportFailed e) transient tls = after_transport policy peer transient tls"
| "retry_turn policy peer (FailedOtherwise e) transient tls = Stop (Propagated e) []"

lemmas turn_defs = after_ssl_def after_rate_limit_def after_redirect_def after_transport_def Let_def

text \<open>A turn that goes on uses up one of the two allowances.\<close>

lemma retry_turn_GoOn:
  assumes "retry_turn policy peer a transient tls = GoOn transient' tls' d es"
  shows "(transient' = transient + 1 \<and> tls' = tls \<and> int transient' < max_transient policy) \<or>
     (transient' = transient \<and> tls' = tls + 1 \<and> int tls' < max_tls policy)"
  using assms by (cases a) (auto simp: turn_defs split: if_splits)

function with_retry_loop ::
  "RetryPolicy \<Rightarrow> string option \<Rightarrow> (nat \<Rightarrow> 'a attempt) \<Rightarrow> nat \<Rightarrow> nat \<Rightarrow> nat \<Rightarrow> 'a retry_result \<times> retry_effect list" where
  "with_retry_loop policy peer op n transient tls =
     (case retry_turn policy peer (op n) transient tls of
        Stop r es \<Rightarrow> (r, Attempt # es)
      | GoOn transient' tls' d es \<Rightarrow>
          (case with_retry_loop policy peer op (n + 1) transient' tls' of
             (r, es') \<Rightarrow> (r, Attempt # es @ Sleep d # es')))"
  by pat_completeness auto
termination
  by (relation "measure (\<lambda>(policy, peer, op, n, transient, tls). nat (max_transient policy - int transient) + nat (max_tls policy - int tls))")
    (auto dest!: retry_turn_GoOn [OF sym] retry_turn_GoOn)

declare with_retry_loop.simps [simp del]

definition with_retry :: "RetryPolicy \<Rightarrow> string option \<Rightarrow> (nat \<Rightarrow> 'a attempt) \<Rightarrow> 'a retry_result \<times> retry_effect list" where
  "with_retry policy peer op = with_retry_loop policy peer op 0 0 0"

section \<open>Poll rates\<close>

definition MIN_POLL_RATE :: int where "MIN_POLL_RATE = 10"
definition LONG_POLL_RATE_WARNING :: int where "LONG_POLL_RATE_WARNING = 86400"
definition DEFAULT_POLL_RATE :: int where "DEFAULT_POLL_RATE = 900"

datatype poll_rate_log = PollingDisabled string int | RateClamped string int int | LongRate string int

definition normalize_poll_rate :: "int option \<Rightarrow> string \<Rightarrow> int \<Rightarrow> int option \<times> poll_rate_log list" where
  "normalize_poll_rate raw_value resource_key dflt =
     (case raw_value of
        None \<Rightarrow> (Some dflt, [])
      | Some raw \<Rightarrow>
          if raw \<le> 0 then (None, if resource_key \<noteq> [] then [PollingDisabled resource_key raw] else [])
          else let clamped = max MIN_POLL_RATE raw
               in (Some clamped,
                   (if clamped \<noteq> raw \<and> resource_key \<noteq> [] then [RateClamped resource_key raw clamped] else [])
                   @ (if clamped > LONG_POLL_RATE_WARNING \<and> resource_key \<noteq> [] then [LongRate resource_key clamped] else [])))"

section \<open>Laws of the loop\<close>

fun is_tls :: "'a attempt \<Rightarrow> bool" where
  "is_tls (SslFailed e) = True"
| "is_tls _ = False"

fun is_transient :: "'a attempt \<Rightarrow> bool" where
  "is_transient (RateLimited r) = True"
| "is_transient (Redirected st loc) = True"
| "is_transient (TransportFailed e) = True"
| "is_transient _ = False"

text \<open>The failures of a kind among the first attempts.\<close>

definition failures :: "('a attempt \<Rightarrow> bool) \<Rightarrow> (nat \<Rightarrow> 'a attempt) \<Rightarrow> nat \<Rightarrow> nat" where
  "failures P op k = length (filter (\<lambda>j. P (op j)) [0..<k])"

text \<open>The allowances hold after the first \<open>k\<close> attempts.\<close>

definition allowance_left :: "int \<Rightarrow> nat \<Rightarrow> bool" where
  "allowance_left limit used \<longleftrightarrow> used = 0 \<or> int used < limit"

definition keeps_trying :: "RetryPolicy \<Rightarrow> (nat \<Rightarrow> 'a attempt) \<Rightarrow> nat \<Rightarrow> bool" where
  "keeps_trying policy op k \<longleftrightarrow>
     list_all (\<lambda>j. is_tls (op j) \<or> is_transient (op j)) [0..<k] \<and>
     allowance_left (max_tls policy) (failures is_tls op k) \<and> allowance_left (max_transient policy) (failures is_transient op k)"

lemma failures_Suc [simp]: "failures P op (Suc k) = failures P op k + (if P (op k) then 1 else 0)"
  by (simp add: failures_def)

lemma failures_0 [simp]: "failures P op 0 = 0"
  by (simp add: failures_def)

lemma keeps_trying_0 [simp]: "keeps_trying policy op 0"
  by (simp add: keeps_trying_def allowance_left_def)

lemma keeps_trying_Suc:
  "keeps_trying policy op (Suc k) \<longleftrightarrow> keeps_trying policy op k \<and>
     (is_tls (op k) \<and> int (failures is_tls op k) + 1 < max_tls policy \<or>
      is_transient (op k) \<and> int (failures is_transient op k) + 1 < max_transient policy)"
  by (cases "op k") (auto simp: keeps_trying_def allowance_left_def)

lemma keeps_trying_le: "keeps_trying policy op k \<Longrightarrow> j \<le> k \<Longrightarrow> keeps_trying policy op j"
  by (induction k) (auto simp: keeps_trying_Suc le_Suc_eq)

text \<open>A turn goes on exactly when the attempt may be repeated, and counts it.\<close>

lemma retry_turn_goes_on:
  assumes "keeps_trying policy op n"
  shows "(\<exists>d es. retry_turn policy peer (op n) (failures is_transient op n) (failures is_tls op n)
             = GoOn (failures is_transient op (Suc n)) (failures is_tls op (Suc n)) d es) \<longleftrightarrow> keeps_trying policy op (Suc n)"
  using assms by (cases "op n") (auto simp: keeps_trying_Suc turn_defs)

lemma retry_turn_stops:
  assumes "\<not> keeps_trying policy op (Suc n)" "keeps_trying policy op n"
  shows "\<exists>r es. retry_turn policy peer (op n) (failures is_transient op n) (failures is_tls op n) = Stop r es \<and>
     (\<forall>v. r = Returned v \<longleftrightarrow> op n = Completed v) \<and> Attempt \<notin> set es"
  using assms
  by (cases "op n") (auto simp: keeps_trying_Suc turn_defs tls_reports_def split: option.splits)

lemma GoOn_no_attempt: "retry_turn policy peer a x y = GoOn x' y' d es \<Longrightarrow> Attempt \<notin> set es"
  by (cases a) (auto simp: turn_defs split: if_splits option.splits)

definition attempts_made :: "retry_effect list \<Rightarrow> nat" where
  "attempts_made es = count_list es Attempt"

text \<open>The loop, seen from attempt \<open>n\<close>: it makes attempts \<open>n\<close> to \<open>k\<close>, where \<open>k\<close> is the first that
  may not be repeated, and ends the way attempt \<open>k\<close> ends.\<close>

lemma with_retry_loop_from:
  assumes "keeps_trying policy op n"
  shows "\<exists>k \<ge> n. keeps_trying policy op k \<and> \<not> keeps_trying policy op (Suc k) \<and>
     (\<forall>v. fst (with_retry_loop policy peer op n (failures is_transient op n) (failures is_tls op n)) = Returned v
        \<longleftrightarrow> op k = Completed v) \<and>
     attempts_made (snd (with_retry_loop policy peer op n (failures is_transient op n) (failures is_tls op n))) = k + 1 - n"
  using assms
proof (induction "nat (max_transient policy - int (failures is_transient op n)) + nat (max_tls policy - int (failures is_tls op n))"
    arbitrary: n rule: less_induct)
  case less
  let ?tr = "failures is_transient op" and ?tl = "failures is_tls op"
  show ?case
  proof (cases "keeps_trying policy op (Suc n)")
    case True
    then obtain d es where t: "retry_turn policy peer (op n) (?tr n) (?tl n) = GoOn (?tr (Suc n)) (?tl (Suc n)) d es"
      using retry_turn_goes_on [OF less.prems, of peer] by auto
    have "nat (max_transient policy - int (?tr (Suc n))) + nat (max_tls policy - int (?tl (Suc n)))
        < nat (max_transient policy - int (?tr n)) + nat (max_tls policy - int (?tl n))"
      using retry_turn_GoOn [OF t] by (auto split: if_splits)
    from less.hyps [OF this True] obtain k where k: "k \<ge> Suc n" "keeps_trying policy op k" "\<not> keeps_trying policy op (Suc k)"
      "\<And>v. fst (with_retry_loop policy peer op (Suc n) (?tr (Suc n)) (?tl (Suc n))) = Returned v \<longleftrightarrow> op k = Completed v"
      "attempts_made (snd (with_retry_loop policy peer op (Suc n) (?tr (Suc n)) (?tl (Suc n)))) = k + 1 - Suc n"
      by blast
    obtain r es' where rest: "with_retry_loop policy peer op (Suc n) (?tr (Suc n)) (?tl (Suc n)) = (r, es')" by fastforce
    have "with_retry_loop policy peer op n (?tr n) (?tl n) = (r, Attempt # es @ Sleep d # es')"
      by (subst with_retry_loop.simps) (use t rest in simp)
    moreover have "count_list es Attempt = 0" using GoOn_no_attempt [OF t] by (simp add: count_list_0_iff)
    ultimately show ?thesis
      using k(1,2,3) k(4,5) [unfolded rest] by (intro exI [of _ k]) (simp add: attempts_made_def)
  next
    case False
    obtain r es where r: "retry_turn policy peer (op n) (?tr n) (?tl n) = Stop r es"
      "\<And>v. r = Returned v \<longleftrightarrow> op n = Completed v" "Attempt \<notin> set es"
      using retry_turn_stops [OF False less.prems, of peer] by blast
    then show ?thesis
      using False less.prems
      by (intro exI [of _ n]) (auto simp: with_retry_loop.simps [of _ _ _ n] attempts_made_def)
  qed
qed

lemma with_retry_stops_at:
  "\<exists>k. keeps_trying policy op k \<and> \<not> keeps_trying policy op (Suc k) \<and>
     (\<forall>v. fst (with_retry policy peer op) = Returned v \<longleftrightarrow> op k = Completed v) \<and>
     attempts_made (snd (with_retry policy peer op)) = k + 1"
  using with_retry_loop_from [of policy op 0 peer] by (simp add: with_retry_def)

lemma keeps_trying_failures: "keeps_trying policy op k \<Longrightarrow> k = failures is_tls op k + failures is_transient op k"
proof (induction k)
  case (Suc k)
  then show ?case by (cases "op k") (auto simp: keeps_trying_Suc)
qed simp

lemma stop_unique:
  assumes "keeps_trying policy op k" "\<not> keeps_trying policy op (Suc k)"
    "keeps_trying policy op j" "\<not> keeps_trying policy op (Suc j)"
  shows "j = k"
  using assms keeps_trying_le [of policy op] by (metis Suc_leI linorder_neqE_nat)

text \<open>Delays are the backoff of a count below its limit, or what the server asked for.\<close>

definition delay_ok :: "RetryPolicy \<Rightarrow> rat \<Rightarrow> bool" where
  "delay_ok policy d \<longleftrightarrow>
     (\<exists>r. r \<noteq> 0 \<and> d = of_int r) \<or>
     (\<exists>i. d = base_delay policy * backoff_factor policy ^ i \<and> int i + 1 < max (max_transient policy) (max_tls policy))"

lemma delay_ok_backoff:
  "0 < n \<Longrightarrow> int n < max_transient policy \<or> int n < max_tls policy \<Longrightarrow> delay_ok policy (backoff policy n)"
  unfolding delay_ok_def backoff_def by (intro disjI2 exI [of _ "n - 1"]) auto

lemma delay_ok_asked: "r \<noteq> 0 \<Longrightarrow> delay_ok policy (of_int r)"
  unfolding delay_ok_def by blast

lemma delay_ok_turn: "retry_turn policy peer a x y = GoOn x' y' d es \<Longrightarrow> delay_ok policy d \<and> (\<forall>e. Sleep e \<notin> set es)"
  by (cases a) (auto simp: turn_defs intro!: delay_ok_backoff delay_ok_asked split: if_splits option.splits)

lemma Stop_no_sleep: "retry_turn policy peer a x y = Stop r es \<Longrightarrow> Sleep e \<notin> set es"
  by (cases a) (auto simp: turn_defs tls_reports_def split: if_splits option.splits)

lemma delays_ok_loop:
  "Sleep d \<in> set (snd (with_retry_loop policy peer op n x y)) \<Longrightarrow> delay_ok policy d"
proof (induction policy peer op n x y rule: with_retry_loop.induct)
  case (1 policy peer op n x y)
  show ?case
  proof (cases "retry_turn policy peer (op n) x y")
    case (GoOn x' y' d' es)
    then have "d = d' \<or> Sleep d \<in> set (snd (with_retry_loop policy peer op (n + 1) x' y'))"
      using "1.prems" delay_ok_turn [OF GoOn] by (subst (asm) with_retry_loop.simps) (auto split: prod.splits)
    then show ?thesis using "1.IH" [OF GoOn] delay_ok_turn [OF GoOn] by blast
  next
    case (Stop r es)
    then show ?thesis using "1.prems" Stop_no_sleep [OF Stop] by (subst (asm) with_retry_loop.simps) simp
  qed
qed

section \<open>Properties\<close>

text \<open>
  Retrying returns a value exactly when some attempt completes with it and every attempt
  before is a TLS failure or a transient failure, within the two allowances; otherwise it
  raises.
\<close>

theorem retry_returns_iff:
  "fst (with_retry policy peer op) = Returned v \<longleftrightarrow> (\<exists>k. op k = Completed v \<and> keeps_trying policy op k)"
proof -
  obtain k where k: "keeps_trying policy op k" "\<not> keeps_trying policy op (Suc k)"
    "\<And>v. fst (with_retry policy peer op) = Returned v \<longleftrightarrow> op k = Completed v"
    using with_retry_stops_at [of policy op peer] by (elim exE conjE) (rule that; simp)
  have "j = k" if "op j = Completed v" "keeps_trying policy op j" for j
    by (rule stop_unique [OF k(1,2) that(2)]) (use that in \<open>simp add: keeps_trying_Suc\<close>)
  then show ?thesis using k by blast
qed

text \<open>
  Retrying is bounded: it makes at least one attempt and at most one more than the
  failures the two allowances leave room for, and every delay is either what the server asked
  for or a step of the exponential backoff below the larger limit.
\<close>

theorem retry_bounded:
  "1 \<le> attempts_made (snd (with_retry policy peer op)) \<and>
   attempts_made (snd (with_retry policy peer op)) \<le> 1 + nat (max_tls policy - 1) + nat (max_transient policy - 1) \<and>
   (\<forall>d. Sleep d \<in> set (snd (with_retry policy peer op)) \<longrightarrow>
      (\<exists>r. r \<noteq> 0 \<and> d = of_int r) \<or>
      (\<exists>i. d = base_delay policy * backoff_factor policy ^ i \<and> int i + 1 < max (max_transient policy) (max_tls policy)))"
proof -
  obtain k where k: "keeps_trying policy op k" "attempts_made (snd (with_retry policy peer op)) = k + 1"
    using with_retry_stops_at [of policy op peer] by (elim exE conjE) (rule that; simp)
  have "failures is_tls op k \<le> nat (max_tls policy - 1)" "failures is_transient op k \<le> nat (max_transient policy - 1)"
    using k(1) by (auto simp: keeps_trying_def allowance_left_def)
  then have "k \<le> nat (max_tls policy - 1) + nat (max_transient policy - 1)"
    using keeps_trying_failures [OF k(1)] by simp
  moreover have "delay_ok policy d" if "Sleep d \<in> set (snd (with_retry policy peer op))" for d
    using that delays_ok_loop by (simp add: with_retry_def)
  ultimately show ?thesis using k(2) unfolding delay_ok_def by simp
qed

theorem retry_bounded_witness:
  "\<exists>r :: unit retry_result \<times> retry_effect list. with_retry default_RetryPolicy None (\<lambda>n. RateLimited (Some 7)) = r \<and>
     attempts_made (snd r) \<le> 10 \<and> Sleep 7 \<in> set (snd r) \<and> delay_ok default_RetryPolicy 7"
proof -
  define r :: "unit retry_result \<times> retry_effect list" where "r = with_retry default_RetryPolicy None (\<lambda>n. RateLimited (Some 7))"
  have s: "Sleep 7 \<in> set (snd r)"
    by (simp add: r_def with_retry_def with_retry_loop.simps turn_defs default_RetryPolicy_def)
  have b: "attempts_made (snd r) \<le> 10"
    using retry_bounded [of default_RetryPolicy None "\<lambda>n. RateLimited (Some 7) :: unit attempt"]
    by (simp add: default_RetryPolicy_def flip: r_def [unfolded default_RetryPolicy_def])
  have "delay_ok default_RetryPolicy 7"
    using retry_bounded [of default_RetryPolicy None "\<lambda>n. RateLimited (Some 7) :: unit attempt"] s
    unfolding delay_ok_def r_def by blast
  with s b show ?thesis unfolding r_def by blast
qed

end
