(* ===== verification/Polling.thy ===== *)
theory Polling
  imports Py_Prelude Complex_Main
begin

text \<open>
  \<open>client/polling.py\<close>: periodic callbacks, one loop per key, mutually exclusive per key. The
  coroutines of the scheduler (poll loops and the callers of \<open>run_exclusive\<close>) are values with a
  program counter; between two awaits a coroutine runs undisturbed, so each stretch of code
  from one await to the next is one step. \<open>asyncio.Lock\<close> is its holder; a coroutine that
  finds the lock free but others queued for it queues as well. Time is a rational number of
  seconds on the monotonic clock.
\<close>

section \<open>State\<close>

datatype coro_pc = AtTop | Acquiring | InCallback | WaitingUntil rat | Finished

record coroutine =
  co_key :: string
  co_loop :: bool
  co_pc :: coro_pc
  co_cancelled :: bool

datatype poll_report = Unreachable string | HttpStatus string int | CallbackFailed string string

record PollScheduler =
  ps_heartbeat_enabled :: bool
  ps_heartbeat_seconds :: "rat option"
  ps_tasks :: "(string, nat) dict"
  ps_locks :: "(string, nat option) dict"
  ps_shutdown :: bool
  ps_last_skip_log :: "(string, rat) dict"
  ps_suppressed :: "string set"
  ps_failed_keys :: "string set"
  ps_last_run :: "(string, rat) dict"
  ps_intervals :: "(string, int) dict"
  ps_coros :: "(nat, coroutine) dict"
  ps_next :: nat
  ps_now :: rat
  ps_reports :: "poll_report list"

definition HEARTBEAT_CEILING_S :: rat where
  "HEARTBEAT_CEILING_S = 900"

definition SKIP_LOG_THROTTLE :: rat where
  "SKIP_LOG_THROTTLE = 30"

text \<open>\<open>None\<close> is the \<open>ValueError\<close> of a backstop that is not positive.\<close>

definition new_scheduler :: "bool \<Rightarrow> rat option \<Rightarrow> rat \<Rightarrow> PollScheduler option" where
  "new_scheduler heartbeat_enabled heartbeat_seconds now =
     (if (case heartbeat_seconds of None \<Rightarrow> False | Some h \<Rightarrow> h \<le> 0) then None
      else Some \<lparr>ps_heartbeat_enabled = heartbeat_enabled, ps_heartbeat_seconds = heartbeat_seconds, ps_tasks = [],
                 ps_locks = [], ps_shutdown = False, ps_last_skip_log = [], ps_suppressed = {}, ps_failed_keys = {},
                 ps_last_run = [], ps_intervals = [], ps_coros = [], ps_next = 0, ps_now = now, ps_reports = []\<rparr>)"

section \<open>Operations\<close>

definition upd_coro :: "nat \<Rightarrow> (coroutine \<Rightarrow> coroutine) \<Rightarrow> PollScheduler \<Rightarrow> PollScheduler" where
  "upd_coro c f s =
     (case map_of (ps_coros s) c of None \<Rightarrow> s | Some co \<Rightarrow> s\<lparr>ps_coros := dset c (f co) (ps_coros s)\<rparr>)"

definition set_pc :: "nat \<Rightarrow> coro_pc \<Rightarrow> PollScheduler \<Rightarrow> PollScheduler" where
  "set_pc c pc s = upd_coro c (\<lambda>co. co\<lparr>co_pc := pc\<rparr>) s"

definition cancel_coro :: "nat \<Rightarrow> PollScheduler \<Rightarrow> PollScheduler" where
  "cancel_coro c s = upd_coro c (\<lambda>co. co\<lparr>co_cancelled := True\<rparr>) s"

definition spawn :: "string \<Rightarrow> bool \<Rightarrow> coro_pc \<Rightarrow> PollScheduler \<Rightarrow> PollScheduler" where
  "spawn key loop pc s =
     s\<lparr>ps_coros := dset (ps_next s) \<lparr>co_key = key, co_loop = loop, co_pc = pc, co_cancelled = False\<rparr> (ps_coros s),
       ps_next := Suc (ps_next s)\<rparr>"

text \<open>\<open>self._locks.setdefault(key, asyncio.Lock())\<close>, which creates an unlocked lock.\<close>

definition ensure_lock :: "string \<Rightarrow> PollScheduler \<Rightarrow> PollScheduler" where
  "ensure_lock key s = (if dhas (ps_locks s) key then s else s\<lparr>ps_locks := dset key None (ps_locks s)\<rparr>)"

definition schedule :: "string \<Rightarrow> int \<Rightarrow> PollScheduler \<Rightarrow> PollScheduler" where
  "schedule key interval s =
     (let s1 = (case map_of (ps_tasks s) key of None \<Rightarrow> s | Some c \<Rightarrow> cancel_coro c s);
          s2 = ensure_lock key s1;
          s3 = s2\<lparr>ps_last_run := dset key (ps_now s2) (ps_last_run s2),
                  ps_intervals := dset key interval (ps_intervals s2)\<rparr>
      in spawn key True AtTop (s3\<lparr>ps_tasks := dset key (ps_next s3) (ps_tasks s3)\<rparr>))"

definition set_interval :: "string \<Rightarrow> int \<Rightarrow> PollScheduler \<Rightarrow> PollScheduler" where
  "set_interval key interval s =
     (if dhas (ps_intervals s) key then s\<lparr>ps_intervals := dset key interval (ps_intervals s)\<rparr> else s)"

text \<open>A caller of \<open>run_exclusive\<close>, up to its wait for the lock.\<close>

definition run_exclusive :: "string \<Rightarrow> PollScheduler \<Rightarrow> PollScheduler" where
  "run_exclusive key s = spawn key False Acquiring (ensure_lock key s)"

definition heartbeat_threshold :: "PollScheduler \<Rightarrow> int \<Rightarrow> rat" where
  "heartbeat_threshold s interval =
     max (case ps_heartbeat_seconds s of None \<Rightarrow> HEARTBEAT_CEILING_S | Some h \<Rightarrow> h) (of_int interval)"

definition heartbeat_due :: "string \<Rightarrow> int \<Rightarrow> PollScheduler \<Rightarrow> bool" where
  "heartbeat_due key interval s =
     (if \<not> ps_heartbeat_enabled s then False
      else ps_now s - dget_or (ps_last_run s) key 0 \<ge> heartbeat_threshold s interval)"

definition lock_holder :: "string \<Rightarrow> PollScheduler \<Rightarrow> nat option" where
  "lock_holder key s = dget_or (ps_locks s) key None"

definition queued :: "string \<Rightarrow> PollScheduler \<Rightarrow> bool" where
  "queued key s = list_ex (\<lambda>(_, co). co_key co = key \<and> co_pc co = Acquiring) (ps_coros s)"

text \<open>\<open>async with lock: self._last_run[key] = ...; await callback()\<close>, once the lock is free.\<close>

definition enter_callback :: "nat \<Rightarrow> string \<Rightarrow> PollScheduler \<Rightarrow> PollScheduler" where
  "enter_callback c key s =
     set_pc c InCallback (s\<lparr>ps_locks := dset key (Some c) (ps_locks s), ps_last_run := dset key (ps_now s) (ps_last_run s)\<rparr>)"

text \<open>The \<open>wait_for\<close> at the end of the body; \<open>self._intervals[key]\<close> is read again.\<close>

definition wait_interval :: "nat \<Rightarrow> string \<Rightarrow> PollScheduler \<Rightarrow> PollScheduler" where
  "wait_interval c key s = set_pc c (WaitingUntil (ps_now s + of_int (dget_or (ps_intervals s) key 0))) s"

text \<open>The body of \<open>_poll_loop\<close> up to its first await.\<close>

definition tick :: "nat \<Rightarrow> string \<Rightarrow> PollScheduler \<Rightarrow> PollScheduler" where
  "tick c key s =
     (if ps_shutdown s then set_pc c Finished s
      else let interval = dget_or (ps_intervals s) key 0;
               suppressed = (key \<in> ps_suppressed s);
               heartbeat = (suppressed \<and> heartbeat_due key interval s)
           in if suppressed \<and> \<not> heartbeat then wait_interval c key s
              else if lock_holder key s \<noteq> None then
                wait_interval c key
                  (if ps_now s - dget_or (ps_last_skip_log s) key 0 \<ge> SKIP_LOG_THROTTLE
                   then s\<lparr>ps_last_skip_log := dset key (ps_now s) (ps_last_skip_log s)\<rparr> else s)
              else if queued key s then set_pc c Acquiring s
              else enter_callback c key s)"

datatype callback_outcome = CallbackOk | CallbackUnreachable | CallbackStatus int | CallbackError string

definition note_outcome :: "string \<Rightarrow> callback_outcome \<Rightarrow> PollScheduler \<Rightarrow> PollScheduler" where
  "note_outcome key outcome s =
     (case outcome of
        CallbackOk \<Rightarrow> s\<lparr>ps_failed_keys := ps_failed_keys s - {key}\<rparr>
      | CallbackUnreachable \<Rightarrow>
          s\<lparr>ps_failed_keys := insert key (ps_failed_keys s), ps_reports := ps_reports s @ [Unreachable key]\<rparr>
      | CallbackStatus st \<Rightarrow>
          s\<lparr>ps_failed_keys := insert key (ps_failed_keys s), ps_reports := ps_reports s @ [HttpStatus key st]\<rparr>
      | CallbackError e \<Rightarrow>
          s\<lparr>ps_failed_keys := insert key (ps_failed_keys s), ps_reports := ps_reports s @ [CallbackFailed key e]\<rparr>)"

definition release_lock :: "nat \<Rightarrow> string \<Rightarrow> PollScheduler \<Rightarrow> PollScheduler" where
  "release_lock c key s =
     (if lock_holder key s = Some c then s\<lparr>ps_locks := dset key None (ps_locks s)\<rparr> else s)"

text \<open>The callback returns or raises. A loop notes it and waits; \<open>run_exclusive\<close> is over.\<close>

definition end_callback :: "nat \<Rightarrow> coroutine \<Rightarrow> callback_outcome \<Rightarrow> PollScheduler \<Rightarrow> PollScheduler" where
  "end_callback c co outcome s =
     (if co_loop co
      then wait_interval c (co_key co) (release_lock c (co_key co) (note_outcome (co_key co) outcome s))
      else set_pc c Finished (release_lock c (co_key co) s))"

text \<open>\<open>CancelledError\<close> at the current await: the lock is released on the way out.\<close>

definition end_cancelled :: "nat \<Rightarrow> coroutine \<Rightarrow> PollScheduler \<Rightarrow> PollScheduler" where
  "end_cancelled c co s = set_pc c Finished (release_lock c (co_key co) s)"

definition suppress :: "string \<Rightarrow> PollScheduler \<Rightarrow> PollScheduler" where
  "suppress key s = s\<lparr>ps_suppressed := insert key (ps_suppressed s)\<rparr>"

definition unsuppress :: "string \<Rightarrow> PollScheduler \<Rightarrow> PollScheduler" where
  "unsuppress key s = s\<lparr>ps_suppressed := ps_suppressed s - {key}\<rparr>"

text \<open>\<open>cancel_all\<close> up to its wait, and the end of it.\<close>

definition cancel_all_polls :: "PollScheduler \<Rightarrow> PollScheduler" where
  "cancel_all_polls s = fold cancel_coro (map snd (ps_tasks s)) (s\<lparr>ps_shutdown := True\<rparr>)"

definition clear_tasks :: "PollScheduler \<Rightarrow> PollScheduler" where
  "clear_tasks s = s\<lparr>ps_tasks := []\<rparr>"

definition active_keys :: "PollScheduler \<Rightarrow> string list" where
  "active_keys s =
     map fst (filter (\<lambda>(_, c). case map_of (ps_coros s) c of None \<Rightarrow> False | Some co \<Rightarrow> co_pc co \<noteq> Finished) (ps_tasks s))"

section \<open>Interleaving\<close>

text \<open>What may happen next: a call of the client, the passing of time, or a coroutine going on. A
  callback does not swallow its cancellation.\<close>

inductive poll_step :: "PollScheduler \<Rightarrow> PollScheduler \<Rightarrow> bool" where
  Schedule: "poll_step s (schedule key interval s)"
| SetInterval: "poll_step s (set_interval key interval s)"
| Exclusive: "poll_step s (run_exclusive key s)"
| Suppress: "poll_step s (suppress key s)"
| Unsuppress: "poll_step s (unsuppress key s)"
| CancelAll: "poll_step s (cancel_all_polls s)"
| ClearTasks: "poll_step s (clear_tasks s)"
| Tick: "map_of (ps_coros s) c = Some co \<Longrightarrow> co_pc co = AtTop \<Longrightarrow> \<not> co_cancelled co \<Longrightarrow> poll_step s (tick c (co_key co) s)"
| Acquire: "map_of (ps_coros s) c = Some co \<Longrightarrow> co_pc co = Acquiring \<Longrightarrow> \<not> co_cancelled co \<Longrightarrow>
    lock_holder (co_key co) s = None \<Longrightarrow> poll_step s (enter_callback c (co_key co) s)"
| EndCallback: "map_of (ps_coros s) c = Some co \<Longrightarrow> co_pc co = InCallback \<Longrightarrow> \<not> co_cancelled co \<Longrightarrow>
    poll_step s (end_callback c co outcome s)"
| Wake: "map_of (ps_coros s) c = Some co \<Longrightarrow> co_pc co = WaitingUntil d \<Longrightarrow> d \<le> ps_now s \<Longrightarrow> poll_step s (set_pc c AtTop s)"
| WakeShutdown: "map_of (ps_coros s) c = Some co \<Longrightarrow> co_pc co = WaitingUntil d \<Longrightarrow> ps_shutdown s \<Longrightarrow> poll_step s (set_pc c Finished s)"
| Cancelled: "map_of (ps_coros s) c = Some co \<Longrightarrow> co_cancelled co \<Longrightarrow> co_pc co \<noteq> Finished \<Longrightarrow> poll_step s (end_cancelled c co s)"
| Pass: "0 \<le> d \<Longrightarrow> poll_step s (s\<lparr>ps_now := ps_now s + d\<rparr>)"

text \<open>One round of a loop that is scheduled promptly and whose callback takes no time.\<close>

definition lap :: "nat \<Rightarrow> string \<Rightarrow> PollScheduler \<Rightarrow> PollScheduler" where
  "lap c key s =
     (let s1 = tick c key s;
          s2 = (case map_of (ps_coros s1) c of
                  Some co \<Rightarrow> if co_pc co = InCallback then end_callback c co CallbackOk s1 else s1
                | None \<Rightarrow> s1)
      in case map_of (ps_coros s2) c of
           Some co \<Rightarrow> (case co_pc co of WaitingUntil d \<Rightarrow> set_pc c AtTop (s2\<lparr>ps_now := max (ps_now s2) d\<rparr>) | _ \<Rightarrow> s2)
         | None \<Rightarrow> s2)"

section \<open>Locks follow callbacks\<close>

definition in_callback :: "nat \<Rightarrow> string \<Rightarrow> PollScheduler \<Rightarrow> bool" where
  "in_callback c key s \<longleftrightarrow> (\<exists>co. map_of (ps_coros s) c = Some co \<and> co_key co = key \<and> co_pc co = InCallback)"

definition lock_inv :: "PollScheduler \<Rightarrow> bool" where
  "lock_inv s \<longleftrightarrow>
     (\<forall>key c. lock_holder key s = Some c \<longleftrightarrow> in_callback c key s) \<and>
     (\<forall>c. dhas (ps_coros s) c \<longrightarrow> c < ps_next s)"

text \<open>What the primitive updates do to locks, callbacks and the table of coroutines.\<close>

named_theorems poll_eqs \<open>effects of the primitive updates of the scheduler\<close>

lemma lock_holder_set_pc [poll_eqs]: "lock_holder k (set_pc c pc s) = lock_holder k s"
  by (simp add: lock_holder_def set_pc_def upd_coro_def split: option.splits)

lemma lock_holder_ensure [poll_eqs]: "lock_holder k (ensure_lock key s) = lock_holder k s"
  by (auto simp: lock_holder_def ensure_lock_def dget_or_def dhas_def)

lemma lock_holder_release [poll_eqs]:
  "lock_holder k (release_lock c key s) = (if k = key \<and> lock_holder k s = Some c then None else lock_holder k s)"
  by (auto simp: release_lock_def lock_holder_def dget_or_def)

lemma in_callback_set_pc [poll_eqs]:
  "in_callback c' k (set_pc c pc s) =
     (if c' = c then pc = InCallback \<and> (\<exists>co. map_of (ps_coros s) c = Some co \<and> co_key co = k) else in_callback c' k s)"
  by (auto simp: in_callback_def set_pc_def upd_coro_def split: option.splits)

lemma in_callback_release [poll_eqs]: "in_callback c' k (release_lock c key s) = in_callback c' k s"
  by (simp add: in_callback_def release_lock_def)

lemma in_callback_ensure [poll_eqs]: "in_callback c' k (ensure_lock key s) = in_callback c' k s"
  by (simp add: in_callback_def ensure_lock_def)

lemma coros_eqs [poll_eqs]:
  "dhas (ps_coros (set_pc c pc s)) c' = dhas (ps_coros s) c'" "dhas (ps_coros (release_lock c key s)) c' = dhas (ps_coros s) c'"
  "dhas (ps_coros (ensure_lock key s)) c' = dhas (ps_coros s) c'"
  "ps_next (set_pc c pc s) = ps_next s" "ps_next (release_lock c key s) = ps_next s" "ps_next (ensure_lock key s) = ps_next s"
  "ps_coros (release_lock c key s) = ps_coros s"
  by (auto simp: set_pc_def upd_coro_def release_lock_def ensure_lock_def dhas_def split: option.splits)

lemma lock_invD: "lock_inv s \<Longrightarrow> lock_holder key s = Some c \<longleftrightarrow> in_callback c key s"
  by (simp add: lock_inv_def)

lemma lock_inv_cong:
  "ps_locks s' = ps_locks s \<Longrightarrow> ps_coros s' = ps_coros s \<Longrightarrow> ps_next s' = ps_next s \<Longrightarrow> lock_inv s' = lock_inv s"
  by (simp add: lock_inv_def in_callback_def lock_holder_def)

lemma lock_inv_cancel: "lock_inv s \<Longrightarrow> lock_inv (cancel_coro c s)"
  by (auto simp: cancel_coro_def upd_coro_def lock_inv_def in_callback_def lock_holder_def dhas_def split: option.splits if_splits)

lemma lock_inv_cancel_list: "lock_inv s \<Longrightarrow> lock_inv (fold cancel_coro cs s)"
  by (induction cs arbitrary: s) (auto simp: lock_inv_cancel)

lemma lock_inv_ensure: "lock_inv s \<Longrightarrow> lock_inv (ensure_lock key s)"
  by (simp add: lock_inv_def poll_eqs)

lemma lock_inv_spawn:
  assumes "lock_inv s" "pc \<noteq> InCallback"
  shows "lock_inv (spawn key l pc s)"
proof -
  have "map_of (ps_coros s) (ps_next s) = None"
    using assms(1) by (auto simp: lock_inv_def dhas_def)
  then have "in_callback c k (spawn key l pc s) = in_callback c k s" for c k
    using assms(2) by (auto simp: in_callback_def spawn_def)
  moreover have "lock_holder k (spawn key l pc s) = lock_holder k s" for k
    by (simp add: lock_holder_def spawn_def)
  ultimately show ?thesis using assms(1) by (auto simp: lock_inv_def less_Suc_eq spawn_def)
qed

lemma lock_inv_set_pc:
  assumes "lock_inv s" "map_of (ps_coros s) c = Some co" "co_pc co \<noteq> InCallback" "pc \<noteq> InCallback"
  shows "lock_inv (set_pc c pc s)"
proof -
  have "\<not> in_callback c k s" for k using assms(2,3) by (simp add: in_callback_def)
  then show ?thesis using assms(1,4) by (auto simp: lock_inv_def poll_eqs)
qed

lemma lock_inv_enter:
  assumes "lock_inv s" "map_of (ps_coros s) c = Some co" "co_pc co \<noteq> InCallback" "lock_holder (co_key co) s = None"
  shows "lock_inv (enter_callback c (co_key co) s)"
proof -
  have h: "lock_holder k (enter_callback c (co_key co) s) = (if k = co_key co then Some c else lock_holder k s)" for k
    by (simp add: enter_callback_def poll_eqs) (simp add: lock_holder_def dget_or_def)
  have "in_callback c' k (enter_callback c (co_key co) s) = (if c' = c then k = co_key co else in_callback c' k s)" for c' k
    using assms(2) by (simp add: enter_callback_def poll_eqs) (auto simp: in_callback_def)
  moreover have "dhas (ps_coros (enter_callback c (co_key co) s)) c' = dhas (ps_coros s) c'"
    "ps_next (enter_callback c (co_key co) s) = ps_next s" for c'
    by (simp_all add: enter_callback_def poll_eqs)
  moreover have "\<not> in_callback c k s" for k
    using assms(2,3) by (auto simp: in_callback_def)
  moreover have "\<not> in_callback c' (co_key co) s" for c'
    using assms(4) lock_invD [OF assms(1), of "co_key co" c'] by simp
  ultimately show ?thesis using assms(1) by (auto simp: lock_inv_def h)
qed

text \<open>Leaving a callback, to any other place, together with its lock.\<close>

lemma lock_inv_leave:
  assumes "lock_inv s" "map_of (ps_coros s) c = Some co" "pc \<noteq> InCallback"
  shows "lock_inv (set_pc c pc (release_lock c (co_key co) s))"
proof -
  have key: "k = co_key co" if "lock_holder k s = Some c" for k
    using that assms(2) lock_invD [OF assms(1), of k c] by (simp add: in_callback_def)
  have "lock_holder k (release_lock c (co_key co) s) = Some c' \<longleftrightarrow> c' \<noteq> c \<and> in_callback c' k s" for k c'
    using key [of k] lock_invD [OF assms(1), of k c'] by (auto simp: poll_eqs)
  then show ?thesis
    using assms(1,3) by (auto simp: lock_inv_def lock_holder_set_pc in_callback_set_pc in_callback_release coros_eqs)
qed

lemma lock_inv_wait:
  "lock_inv s \<Longrightarrow> map_of (ps_coros s) c = Some co \<Longrightarrow> co_pc co \<noteq> InCallback \<Longrightarrow> lock_inv (wait_interval c key s)"
  unfolding wait_interval_def by (rule lock_inv_set_pc) auto

lemma lock_inv_tick:
  assumes "lock_inv s" "map_of (ps_coros s) c = Some co" "co_pc co = AtTop"
  shows "lock_inv (tick c (co_key co) s)"
proof -
  have "lock_inv (s\<lparr>ps_last_skip_log := d\<rparr>) = lock_inv s" for d by (rule lock_inv_cong) auto
  then show ?thesis
    using assms by (auto simp: tick_def Let_def intro!: lock_inv_wait lock_inv_set_pc lock_inv_enter)
qed

lemma lock_inv_note: "lock_inv (note_outcome key oc s) = lock_inv s" "ps_coros (note_outcome key oc s) = ps_coros s"
  by (cases oc; simp add: note_outcome_def lock_inv_def in_callback_def lock_holder_def)+

lemma lock_inv_end_callback:
  assumes "lock_inv s" "map_of (ps_coros s) c = Some co"
  shows "lock_inv (end_callback c co oc s)"
  using assms
  by (auto simp: end_callback_def wait_interval_def lock_inv_note intro!: lock_inv_leave)

lemma lock_inv_step: "poll_step s s' \<Longrightarrow> lock_inv s \<Longrightarrow> lock_inv s'"
proof (induction rule: poll_step.induct)
  case (Schedule s key interval)
  have "lock_inv (case map_of (ps_tasks s) key of None \<Rightarrow> s | Some c \<Rightarrow> cancel_coro c s)"
    using Schedule by (auto simp: lock_inv_cancel split: option.splits)
  then show ?case
    unfolding schedule_def Let_def by (intro lock_inv_spawn) (auto simp: lock_inv_ensure cong: lock_inv_cong)
next
  case (CancelAll s)
  then show ?case
    unfolding cancel_all_polls_def by (intro lock_inv_cancel_list) (simp cong: lock_inv_cong)
qed (auto simp: set_interval_def run_exclusive_def suppress_def unsuppress_def clear_tasks_def end_cancelled_def
    intro!: lock_inv_spawn lock_inv_ensure lock_inv_tick lock_inv_enter lock_inv_end_callback lock_inv_set_pc lock_inv_leave
    cong: lock_inv_cong)

section \<open>The heartbeat of a suppressed key\<close>

text \<open>A loop at the top of its body, its key suppressed and its lock free.\<close>

definition suppressed_loop :: "nat \<Rightarrow> string \<Rightarrow> int \<Rightarrow> PollScheduler \<Rightarrow> bool" where
  "suppressed_loop c key interval s \<longleftrightarrow>
     map_of (ps_coros s) c = Some \<lparr>co_key = key, co_loop = True, co_pc = AtTop, co_cancelled = False\<rparr> \<and>
     map_of (ps_locks s) key = Some None \<and> \<not> queued key s \<and> \<not> ps_shutdown s \<and> key \<in> ps_suppressed s \<and>
     ps_heartbeat_enabled s \<and> map_of (ps_intervals s) key = Some interval \<and> wf_dict (ps_coros s)"

lemma queued_iff: "wf_dict (ps_coros s) \<Longrightarrow>
    queued key s \<longleftrightarrow> (\<exists>c co. map_of (ps_coros s) c = Some co \<and> co_key co = key \<and> co_pc co = Acquiring)"
  by (auto simp: queued_def list_ex_iff wf_dict_map_of)

lemma lap_suppressed:
  assumes "suppressed_loop c key interval s" "0 < interval"
  shows "suppressed_loop c key interval (lap c key s)"
    "ps_now (lap c key s) = ps_now s + of_int interval"
    "ps_heartbeat_seconds (lap c key s) = ps_heartbeat_seconds s"
    "map_of (ps_last_run (lap c key s)) key =
       (if ps_now s - dget_or (ps_last_run s) key 0 \<ge> heartbeat_threshold s interval then Some (ps_now s)
        else map_of (ps_last_run s) key)"
  using assms
  by (auto simp: suppressed_loop_def lap_def Let_def tick_def heartbeat_due_def wait_interval_def enter_callback_def set_pc_def
      upd_coro_def end_callback_def release_lock_def note_outcome_def lock_holder_def dget_or_def queued_iff
      heartbeat_threshold_def max_def split: if_splits)

lemma threshold_pos: "heartbeat_threshold s interval \<ge> of_int interval"
  by (simp add: heartbeat_threshold_def)

lemma laps_before:
  assumes "suppressed_loop c key interval s" "0 < interval" "map_of (ps_last_run s) key = Some r"
    "ps_now s = r + of_int interval" "of_nat i * of_int interval < heartbeat_threshold s interval"
  shows "suppressed_loop c key interval ((lap c key ^^ i) s) \<and> map_of (ps_last_run ((lap c key ^^ i) s)) key = Some r \<and>
     ps_now ((lap c key ^^ i) s) = r + of_nat (i + 1) * of_int interval \<and>
     ps_heartbeat_seconds ((lap c key ^^ i) s) = ps_heartbeat_seconds s"
  using assms(5)
proof (induction i)
  case 0
  then show ?case using assms by simp
next
  case (Suc i)
  let ?s = "(lap c key ^^ i) s"
  have "of_nat i * of_int interval \<le> (of_nat (Suc i) * of_int interval :: rat)" using assms(2) by (simp add: algebra_simps)
  with Suc have ih: "suppressed_loop c key interval ?s" "map_of (ps_last_run ?s) key = Some r"
    "ps_now ?s = r + of_nat (i + 1) * of_int interval" "ps_heartbeat_seconds ?s = ps_heartbeat_seconds s" by auto
  have "heartbeat_threshold ?s interval = heartbeat_threshold s interval" using ih(4) by (simp add: heartbeat_threshold_def)
  then have "\<not> ps_now ?s - dget_or (ps_last_run ?s) key 0 \<ge> heartbeat_threshold ?s interval"
    using ih Suc.prems by (simp add: dget_or_def)
  with lap_suppressed [OF ih(1) assms(2)] ih show ?case by (simp add: algebra_simps)
qed

section \<open>Properties\<close>

text \<open>
  C32. However polls, rescheduling, explicit runs, cancellation and shutdown interleave, two
  callbacks of one key never run at the same time, and a lock is held only by a coroutine that
  is in its callback, so none stays locked after a cancellation.
\<close>

theorem polls_mutually_exclusive:
  assumes "new_scheduler enabled seconds t0 = Some s0" "poll_step\<^sup>*\<^sup>* s0 s"
  shows "(in_callback c key s \<and> in_callback d key s \<longrightarrow> c = d) \<and>
     (lock_holder key s \<noteq> None \<longrightarrow> (\<exists>c. lock_holder key s = Some c \<and> in_callback c key s))"
proof -
  have "lock_inv s0"
    using assms(1) by (auto simp: new_scheduler_def lock_inv_def lock_holder_def in_callback_def dget_or_def split: if_splits)
  with assms(2) have "lock_inv s" by (induction rule: rtranclp_induct) (auto intro: lock_inv_step)
  from lock_invD [OF this, of key] show ?thesis by (metis option.inject option.exhaust)
qed

definition ex_sched :: PollScheduler where
  "ex_sched = tick 0 ''dcap'' (schedule ''dcap'' 600 (the (new_scheduler True None 0)))"

theorem polls_mutually_exclusive_witness:
  "in_callback 0 ''dcap'' ex_sched \<and> {c. in_callback c ''dcap'' (run_exclusive ''dcap'' ex_sched)} = {0}"
proof -
  obtain s0 where s0: "new_scheduler True None 0 = Some s0" by (simp add: new_scheduler_def)
  have t: "poll_step (schedule ''dcap'' 600 s0) ex_sched"
    using s0 poll_step.Tick [of "schedule ''dcap'' 600 s0" 0 "\<lparr>co_key = ''dcap'', co_loop = True, co_pc = AtTop, co_cancelled = False\<rparr>"]
    by (auto simp: ex_sched_def new_scheduler_def schedule_def spawn_def ensure_lock_def Let_def)
  have "poll_step\<^sup>*\<^sup>* s0 (run_exclusive ''dcap'' ex_sched)"
    by (meson Schedule Exclusive t rtranclp.rtrancl_into_rtrancl rtranclp.rtrancl_refl)
  from polls_mutually_exclusive [OF s0 this] have one: "c = d" if "in_callback c ''dcap'' (run_exclusive ''dcap'' ex_sched)"
    "in_callback d ''dcap'' (run_exclusive ''dcap'' ex_sched)" for c d using that by blast
  have "in_callback 0 ''dcap'' ex_sched" "in_callback 0 ''dcap'' (run_exclusive ''dcap'' ex_sched)"
    by (simp_all add: ex_sched_def in_callback_def new_scheduler_def schedule_def spawn_def ensure_lock_def tick_def Let_def
        enter_callback_def set_pc_def upd_coro_def lock_holder_def dget_or_def queued_def run_exclusive_def dset_def)
  then show ?thesis using one by blast
qed

text \<open>
  A key whose polls are suppressed is still polled as a backstop, promptly scheduled, at
  the first multiple of its own interval that is not below the threshold: the loop looks only
  once per interval. With an interval that does not divide the backstop, that is later than
  the backstop.
\<close>

theorem heartbeat_at_next_multiple:
  assumes "suppressed_loop c key interval s" "0 < interval" "map_of (ps_last_run s) key = Some r"
    and "ps_now s = r + of_int interval" "m = nat \<lceil>heartbeat_threshold s interval / of_int interval\<rceil>"
  shows "list_all (\<lambda>i. map_of (ps_last_run ((lap c key ^^ i) s)) key = Some r) [0..<m] \<and>
     map_of (ps_last_run ((lap c key ^^ m) s)) key = Some (r + of_nat m * of_int interval)"
proof -
  let ?q = "heartbeat_threshold s interval / of_int interval"
  have q: "1 \<le> ?q" using threshold_pos [of interval s] assms(2) by simp
  then have m: "0 < m" "of_nat (m - 1) < ?q" "?q \<le> of_nat m"
    using assms(5) ceiling_correct [of ?q] by (auto simp: of_nat_diff)
  have le: "of_nat i * of_int interval < heartbeat_threshold s interval" if "i < m" for i
  proof -
    have "(of_nat i :: rat) \<le> of_nat (m - 1)" using that by simp
    with m(2) have "of_nat i < ?q" by linarith
    then show ?thesis using assms(2) by (simp add: pos_less_divide_eq)
  qed
  note before = laps_before [OF assms(1-4) le]
  let ?s = "(lap c key ^^ (m - 1)) s"
  have b: "suppressed_loop c key interval ?s" "map_of (ps_last_run ?s) key = Some r"
    "ps_now ?s = r + of_nat m * of_int interval" "ps_heartbeat_seconds ?s = ps_heartbeat_seconds s"
    using before [of "m - 1"] m(1) by auto
  have "ps_now ?s - dget_or (ps_last_run ?s) key 0 \<ge> heartbeat_threshold ?s interval"
    using b m(3) assms(2) by (simp add: dget_or_def heartbeat_threshold_def pos_divide_le_eq)
  then have "map_of (ps_last_run (lap c key ?s)) key = Some (r + of_nat m * of_int interval)"
    using lap_suppressed(4) [OF b(1) assms(2)] b(3) by simp
  moreover have "(lap c key ^^ m) s = lap c key ?s" using m(1) by (cases m) auto
  ultimately show ?thesis using before by (auto simp: list_all_iff)
qed

definition ex_suppressed :: PollScheduler where
  "ex_suppressed = (suppress ''dcap'' (schedule ''dcap'' 600 (the (new_scheduler True None 0))))\<lparr>ps_now := 600\<rparr>"

text \<open>Every 600 seconds, with the backstop of 900: polled after 1200.\<close>

theorem heartbeat_at_next_multiple_witness:
  "map_of (ps_last_run ((lap 0 ''dcap'' ^^ 2) ex_suppressed)) ''dcap'' = Some 1200 \<and> HEARTBEAT_CEILING_S = 900"
proof -
  have c: "\<lceil>3 / 2 :: rat\<rceil> = 2" by (rule ceiling_unique) simp_all
  have s: "suppressed_loop 0 ''dcap'' 600 ex_suppressed" "map_of (ps_last_run ex_suppressed) ''dcap'' = Some 0"
    "ps_now ex_suppressed = 0 + of_int 600" "2 = nat \<lceil>heartbeat_threshold ex_suppressed 600 / of_int 600\<rceil>"
    by (simp_all add: suppressed_loop_def ex_suppressed_def suppress_def new_scheduler_def schedule_def spawn_def
        ensure_lock_def queued_def dset_def heartbeat_threshold_def HEARTBEAT_CEILING_S_def Let_def wf_dict_def c)
  from heartbeat_at_next_multiple [OF s(1) _ s(2,3,4)] show ?thesis by (simp add: HEARTBEAT_CEILING_S_def)
qed

end
