(* ===== verification/Py_Numbers.thy ===== *)
theory Py_Numbers
  imports Complex_Main
begin

text \<open>
  Floats. A Python float is a rational number here: sums, products and quotients are exact,
  where the machine rounds. \<open>int(x)\<close> truncates, \<open>round(x)\<close> rounds half to even, and
  \<open>round(x, n)\<close> does so at the \<open>n\<close>-th decimal place.
\<close>

definition py_int :: "rat \<Rightarrow> int" where
  "py_int x = (if x \<ge> 0 then \<lfloor>x\<rfloor> else \<lceil>x\<rceil>)"

definition round_half_even :: "rat \<Rightarrow> int" where
  "round_half_even x =
     (let f = \<lfloor>x\<rfloor>; d = x - of_int f
      in if d < 1 / 2 then f else if d > 1 / 2 then f + 1 else if even f then f else f + 1)"

definition py_round :: "rat \<Rightarrow> nat \<Rightarrow> rat" where
  "py_round x n = of_int (round_half_even (x * 10 ^ n)) / 10 ^ n"

lemma round_half_even_error: "\<bar>of_int (round_half_even x) - x\<bar> \<le> 1 / 2"
proof -
  define d where "d = x - of_int \<lfloor>x\<rfloor>"
  have d: "0 \<le> d" "d < 1" "x = of_int \<lfloor>x\<rfloor> + d"
    unfolding d_def by linarith+
  have r: "round_half_even x = (if d < 1 / 2 then \<lfloor>x\<rfloor> else if d > 1 / 2 then \<lfloor>x\<rfloor> + 1 else if even \<lfloor>x\<rfloor> then \<lfloor>x\<rfloor> else \<lfloor>x\<rfloor> + 1)"
    by (simp add: round_half_even_def d_def Let_def)
  consider "d < 1 / 2" | "d > 1 / 2" | "d = 1 / 2" by linarith
  then show ?thesis
  proof cases
    case 1
    then have "of_int (round_half_even x) - x = - d" using d r by simp
    then show ?thesis using d 1 by simp
  next
    case 2
    then have "of_int (round_half_even x) - x = 1 - d" using d r by simp
    then show ?thesis using d 2 by simp
  next
    case 3
    then have "of_int (round_half_even x) - x = - d \<or> of_int (round_half_even x) - x = 1 - d" using d r by auto
    then show ?thesis using 3 by auto
  qed
qed

lemma round_half_even_int [simp]: "round_half_even (of_int n) = n"
  by (simp add: round_half_even_def)

lemma py_round_error: "\<bar>py_round x n - x\<bar> \<le> 1 / (2 * 10 ^ n)"
proof -
  have "py_round x n - x = (of_int (round_half_even (x * 10 ^ n)) - x * 10 ^ n) / 10 ^ n"
    by (simp add: py_round_def field_simps)
  then have "\<bar>py_round x n - x\<bar> = \<bar>of_int (round_half_even (x * 10 ^ n)) - x * 10 ^ n\<bar> / 10 ^ n"
    by simp
  also have "\<dots> \<le> (1 / 2) / 10 ^ n"
    by (rule divide_right_mono [OF round_half_even_error]) simp
  finally show ?thesis by simp
qed

end
