(* ===== verification/Timebase.thy ===== *)
theory Timebase
  imports Py_Prelude Py_Numbers
begin

text \<open>
  \<open>client/timebase.py\<close>: the offset between the server's clock and the local one, per scope
  (one per \<open>FunctionSetAssignments\<close>, and a global one). Floating-point seconds are rational
  numbers. \<open>time.time()\<close> and \<open>time.monotonic()\<close> are readings of a clock
  that is an argument of every operation; the two readings an operation takes are those of
  one instant. What \<open>diagnostics.report\<close> is called with is kept in \<open>tb_reports\<close>.
\<close>

section \<open>Observations\<close>

record tb_clock =
  wall_time :: rat
  monotonic_time :: rat

record TimeObservation =
  to_offset :: rat
  to_receipt_epoch :: rat
  to_quality :: int
  to_href :: string
  to_receipt_monotonic :: "rat option"

definition FSA_STALE_FLOOR_SECONDS :: rat where
  "FSA_STALE_FLOOR_SECONDS = 3600"

definition FSA_STALE_POLL_MULTIPLE :: int where
  "FSA_STALE_POLL_MULTIPLE = 3"

definition age_seconds :: "tb_clock \<Rightarrow> TimeObservation \<Rightarrow> rat" where
  "age_seconds c obs =
     (case to_receipt_monotonic obs of
        Some m \<Rightarrow> max 0 (monotonic_time c - m)
      | None \<Rightarrow> max 0 (wall_time c - to_receipt_epoch obs))"

definition is_newer :: "TimeObservation \<Rightarrow> TimeObservation \<Rightarrow> bool" where
  "is_newer candidate other =
     (case (to_receipt_monotonic candidate, to_receipt_monotonic other) of
        (Some a, Some b) \<Rightarrow> a > b
      | _ \<Rightarrow> to_receipt_epoch candidate > to_receipt_epoch other)"

section \<open>The timebase\<close>

text \<open>The arguments of the two calls of \<open>report\<close>: scope, offset and quality of a drift; scope,
  age, threshold and resource of a scope that went stale.\<close>

datatype tb_report =
    DriftReport (rp_scope: string) rat int string
  | StaleReport (rp_scope: string) rat rat string

record ServerTimebase =
  tb_enabled :: bool
  tb_drift_warn_seconds :: int
  tb_fsa_stale_override :: "rat option"
  tb_fsa_stale_derived :: rat
  tb_global :: "TimeObservation option"
  tb_per_fsa :: "(string, TimeObservation) dict"
  tb_reported_stale :: "string set"
  tb_reports :: "tb_report list"

definition new_timebase :: "bool \<Rightarrow> int \<Rightarrow> rat option \<Rightarrow> ServerTimebase" where
  "new_timebase enabled drift_warn_seconds fsa_stale =
     \<lparr>tb_enabled = enabled, tb_drift_warn_seconds = drift_warn_seconds, tb_fsa_stale_override = fsa_stale,
      tb_fsa_stale_derived = FSA_STALE_FLOOR_SECONDS, tb_global = None, tb_per_fsa = [],
      tb_reported_stale = {}, tb_reports = []\<rparr>"

definition fsa_stale_seconds :: "ServerTimebase \<Rightarrow> rat" where
  "fsa_stale_seconds t =
     (case tb_fsa_stale_override t of Some s \<Rightarrow> s | None \<Rightarrow> tb_fsa_stale_derived t)"

definition note_time_poll_rate :: "int option \<Rightarrow> ServerTimebase \<Rightarrow> ServerTimebase" where
  "note_time_poll_rate rate t =
     (case rate of
        None \<Rightarrow> t
      | Some r \<Rightarrow>
          if r > 0
          then t\<lparr>tb_fsa_stale_derived := max FSA_STALE_FLOOR_SECONDS (of_int (FSA_STALE_POLL_MULTIPLE * r))\<rparr>
          else t)"

definition forget_fsa :: "string \<Rightarrow> ServerTimebase \<Rightarrow> ServerTimebase" where
  "forget_fsa fsa_href t =
     t\<lparr>tb_per_fsa := ddel fsa_href (tb_per_fsa t), tb_reported_stale := tb_reported_stale t - {fsa_href}\<rparr>"

definition tb_report_add :: "tb_report \<Rightarrow> ServerTimebase \<Rightarrow> ServerTimebase" where
  "tb_report_add r t = t\<lparr>tb_reports := tb_reports t @ [r]\<rparr>"

definition store_observation :: "string option \<Rightarrow> TimeObservation \<Rightarrow> ServerTimebase \<Rightarrow> ServerTimebase" where
  "store_observation fsa_href obs t =
     (case fsa_href of
        None \<Rightarrow> t\<lparr>tb_global := Some obs\<rparr>
      | Some h \<Rightarrow> t\<lparr>tb_per_fsa := dset h obs (tb_per_fsa t), tb_reported_stale := tb_reported_stale t - {h}\<rparr>)"

definition observation :: "tb_clock \<Rightarrow> int \<Rightarrow> int \<Rightarrow> string \<Rightarrow> TimeObservation" where
  "observation c server_time quality href =
     \<lparr>to_offset = of_int server_time - wall_time c, to_receipt_epoch = wall_time c, to_quality = quality,
      to_href = href, to_receipt_monotonic = Some (monotonic_time c)\<rparr>"

definition observe ::
  "tb_clock \<Rightarrow> int \<Rightarrow> string option \<Rightarrow> int \<Rightarrow> string \<Rightarrow> ServerTimebase \<Rightarrow> rat \<times> ServerTimebase" where
  "observe c server_time fsa_href quality href t =
     (let receipt = wall_time c; offset = of_int server_time - receipt;
          obs = observation c server_time quality href;
          scope = (case fsa_href of None \<Rightarrow> ''global'' | Some h \<Rightarrow> if h = [] then ''global'' else h);
          t1 = store_observation fsa_href obs t
      in (offset,
          if tb_drift_warn_seconds t > 0 \<and> \<bar>offset\<bar> \<ge> of_int (tb_drift_warn_seconds t)
          then tb_report_add (DriftReport scope offset quality href) t1 else t1))"

definition yields_to_global :: "tb_clock \<Rightarrow> TimeObservation \<Rightarrow> ServerTimebase \<Rightarrow> bool" where
  "yields_to_global c scoped t =
     (case tb_global t of
        None \<Rightarrow> False
      | Some g \<Rightarrow> age_seconds c scoped > fsa_stale_seconds t \<and> is_newer g scoped)"

definition report_stale_fallback :: "tb_clock \<Rightarrow> string \<Rightarrow> TimeObservation \<Rightarrow> ServerTimebase \<Rightarrow> ServerTimebase" where
  "report_stale_fallback c fsa_href scoped t =
     (if fsa_href \<in> tb_reported_stale t then t
      else tb_report_add (StaleReport fsa_href (age_seconds c scoped) (fsa_stale_seconds t) (to_href scoped))
             (t\<lparr>tb_reported_stale := insert fsa_href (tb_reported_stale t)\<rparr>))"

definition tb_resolve :: "tb_clock \<Rightarrow> string option \<Rightarrow> ServerTimebase \<Rightarrow> TimeObservation option \<times> ServerTimebase" where
  "tb_resolve c fsa_href t =
     (case fsa_href of
        None \<Rightarrow> (tb_global t, t)
      | Some h \<Rightarrow>
          (case map_of (tb_per_fsa t) h of
             None \<Rightarrow> (tb_global t, t)
           | Some scoped \<Rightarrow>
               if \<not> yields_to_global c scoped t then (Some scoped, t)
               else (tb_global t, report_stale_fallback c h scoped t)))"

definition tb_offset :: "tb_clock \<Rightarrow> string option \<Rightarrow> ServerTimebase \<Rightarrow> rat \<times> ServerTimebase" where
  "tb_offset c fsa_href t =
     (if \<not> tb_enabled t then (0, t)
      else case tb_resolve c fsa_href t of
             (Some obs, t1) \<Rightarrow> (to_offset obs, t1)
           | (None, t1) \<Rightarrow> (0, t1))"

definition tb_now :: "tb_clock \<Rightarrow> string option \<Rightarrow> ServerTimebase \<Rightarrow> rat \<times> ServerTimebase" where
  "tb_now c fsa_href t = (case tb_offset c fsa_href t of (d, t1) \<Rightarrow> (wall_time c + d, t1))"

definition server_now :: "tb_clock \<Rightarrow> string option \<Rightarrow> ServerTimebase \<Rightarrow> rat option \<times> ServerTimebase" where
  "server_now c fsa_href t =
     (case tb_resolve c fsa_href t of
        (None, t1) \<Rightarrow> (None, t1)
      | (Some obs, t1) \<Rightarrow> (Some (wall_time c + to_offset obs), t1))"

record tb_entry =
  en_offset_seconds :: rat
  en_quality :: int
  en_href :: string
  en_age_seconds :: rat
  en_stale :: "bool option"

record tb_snapshot =
  sn_enabled :: bool
  sn_fsa_stale_seconds :: rat
  sn_global :: "tb_entry option"
  sn_per_fsa :: "(string, tb_entry) dict"

definition snapshot_entry :: "tb_clock \<Rightarrow> bool \<Rightarrow> ServerTimebase \<Rightarrow> TimeObservation \<Rightarrow> tb_entry" where
  "snapshot_entry c scoped t obs =
     \<lparr>en_offset_seconds = py_round (to_offset obs) 3, en_quality = to_quality obs, en_href = to_href obs,
      en_age_seconds = py_round (age_seconds c obs) 1,
      en_stale = (if scoped then Some (yields_to_global c obs t) else None)\<rparr>"

definition snapshot_of :: "tb_clock \<Rightarrow> ServerTimebase \<Rightarrow> tb_snapshot" where
  "snapshot_of c t =
     \<lparr>sn_enabled = tb_enabled t, sn_fsa_stale_seconds = py_round (fsa_stale_seconds t) 1,
      sn_global = map_option (snapshot_entry c False t) (tb_global t),
      sn_per_fsa = map (\<lambda>(k, v). (k, snapshot_entry c True t v)) (tb_per_fsa t)\<rparr>"

text \<open>A fetched \<open>Time\<close> resource: \<open>None\<close> for what is missing or not an integer.\<close>

record time_resource =
  res_current_time :: "int option"
  res_quality :: "int option"

definition observe_time_resource ::
  "tb_clock \<Rightarrow> time_resource \<Rightarrow> string option \<Rightarrow> string \<Rightarrow> ServerTimebase \<Rightarrow> ServerTimebase" where
  "observe_time_resource c r fsa_href href t =
     (case res_current_time r of
        None \<Rightarrow> t
      | Some v \<Rightarrow> snd (observe c v fsa_href (case res_quality r of None \<Rightarrow> 0 | Some q \<Rightarrow> q) href t))"

section \<open>Runs\<close>

text \<open>The calls the client makes, each with the clock at the time of the call.\<close>

datatype tb_call =
    NotePollRate "int option"
  | ForgetFsa string
  | ObserveResource tb_clock time_resource "string option" string
  | ReadNow tb_clock "string option"
  | ReadServerNow tb_clock "string option"

fun tb_exec :: "tb_call \<Rightarrow> ServerTimebase \<Rightarrow> ServerTimebase" where
  "tb_exec (NotePollRate r) t = note_time_poll_rate r t"
| "tb_exec (ForgetFsa h) t = forget_fsa h t"
| "tb_exec (ObserveResource c r h href) t = observe_time_resource c r h href t"
| "tb_exec (ReadNow c h) t = snd (tb_now c h t)"
| "tb_exec (ReadServerNow c h) t = snd (server_now c h t)"

definition tb_run :: "bool \<Rightarrow> int \<Rightarrow> rat option \<Rightarrow> tb_call list \<Rightarrow> ServerTimebase" where
  "tb_run enabled drift stale calls = fold tb_exec calls (new_timebase enabled drift stale)"

text \<open>Whether a call records an observation of a scope, and whether it changes the scope.\<close>

fun observes :: "string \<Rightarrow> tb_call \<Rightarrow> bool" where
  "observes h (ObserveResource c r (Some h') href) = (h = h' \<and> res_current_time r \<noteq> None)"
| "observes h _ = False"

fun touches :: "string \<Rightarrow> tb_call \<Rightarrow> bool" where
  "touches h (ForgetFsa h') = (h = h')"
| "touches h op = observes h op"

fun stale_report :: "string \<Rightarrow> tb_report \<Rightarrow> bool" where
  "stale_report h (StaleReport h' _ _ _) = (h = h')"
| "stale_report h (DriftReport _ _ _ _) = False"

definition ex_clock :: "rat \<Rightarrow> rat \<Rightarrow> tb_clock" where
  "ex_clock w m = \<lparr>wall_time = w, monotonic_time = m\<rparr>"

definition ex_time :: "int \<Rightarrow> time_resource" where
  "ex_time v = \<lparr>res_current_time = Some v, res_quality = Some 3\<rparr>"

lemmas ex_tb_simps = ex_clock_def ex_time_def tb_run_def new_timebase_def observe_time_resource_def observe_def observation_def
  store_observation_def tb_report_add_def FSA_STALE_FLOOR_SECONDS_def fsa_stale_seconds_def dset_def

section \<open>Laws\<close>


lemma tb_now_fst: "fst (tb_now c h t) = wall_time c + fst (tb_offset c h t)"
  by (simp add: tb_now_def split: prod.splits)

lemma state_after_resolve:
  "tb_global (snd (tb_resolve c h t)) = tb_global t" "tb_per_fsa (snd (tb_resolve c h t)) = tb_per_fsa t"
  "fsa_stale_seconds (snd (tb_resolve c h t)) = fsa_stale_seconds t" "tb_enabled (snd (tb_resolve c h t)) = tb_enabled t"
  by (auto simp: tb_resolve_def report_stale_fallback_def tb_report_add_def fsa_stale_seconds_def split: option.splits)

lemma snd_server_now: "snd (server_now c h t) = snd (tb_resolve c h t)"
  by (auto simp: server_now_def split: prod.splits option.splits)

lemma snd_now: "snd (tb_now c h t) = (if tb_enabled t then snd (tb_resolve c h t) else t)"
  by (auto simp: tb_now_def tb_offset_def split: prod.splits option.splits)

text \<open>Every observation a run records carries a monotonic receipt time.\<close>

definition monotonic_receipts :: "ServerTimebase \<Rightarrow> bool" where
  "monotonic_receipts t \<longleftrightarrow>
     wf_dict (tb_per_fsa t) \<and>
     (\<forall>obs. tb_global t = Some obs \<or> obs \<in> snd ` set (tb_per_fsa t) \<longrightarrow> to_receipt_monotonic obs \<noteq> None)"

lemma monotonic_receipts_call: "monotonic_receipts t \<Longrightarrow> monotonic_receipts (tb_exec op t)"
  by (cases op)
    (auto simp: monotonic_receipts_def note_time_poll_rate_def forget_fsa_def observe_time_resource_def observe_def observation_def
      store_observation_def tb_report_add_def Let_def state_after_resolve snd_now snd_server_now set_ddel set_dset
      split: option.splits)

lemma monotonic_receipts_run:
  "monotonic_receipts (fold tb_exec ops (new_timebase e d s))"
proof (rule fold_invariant)
  show "monotonic_receipts (new_timebase e d s)" by (simp add: monotonic_receipts_def new_timebase_def)
qed (rule monotonic_receipts_call)

lemma yields_ignores_wall:
  assumes "monotonic_receipts t" "map_of (tb_per_fsa t) h = Some scoped"
  shows "yields_to_global (c\<lparr>wall_time := w\<rparr>) scoped t = yields_to_global c scoped t"
proof -
  have "to_receipt_monotonic scoped \<noteq> None"
    using assms by (force simp: monotonic_receipts_def dest: map_of_SomeD)
  then show ?thesis
    by (auto simp: yields_to_global_def age_seconds_def split: option.splits)
qed

lemma resolve_ignores_wall:
  assumes "monotonic_receipts t"
  shows "fst (tb_resolve (c\<lparr>wall_time := w\<rparr>) h t) = fst (tb_resolve c h t)"
  using yields_ignores_wall [OF assms] by (auto simp: tb_resolve_def split: option.splits)

text \<open>A scope keeps its observation until it is observed again or forgotten.\<close>

lemma untouched_call: "\<not> touches h op \<Longrightarrow> map_of (tb_per_fsa (tb_exec op t)) h = map_of (tb_per_fsa t) h"
proof (cases op)
  case (ObserveResource c r k href)
  then show "\<not> touches h op \<Longrightarrow> ?thesis"
    by (cases k) (auto simp: observe_time_resource_def observe_def store_observation_def tb_report_add_def Let_def
        split: option.splits)
qed (auto simp: state_after_resolve snd_now snd_server_now note_time_poll_rate_def forget_fsa_def split: option.splits)

lemma untouched_run:
  "list_all (\<lambda>op. \<not> touches h op) ops \<Longrightarrow> map_of (tb_per_fsa (fold tb_exec ops t)) h = map_of (tb_per_fsa t) h"
  by (induction ops arbitrary: t) (auto simp: untouched_call)

lemma enabled_observe: "tb_enabled (observe_time_resource c r h href t) = tb_enabled t"
  by (auto simp: observe_time_resource_def observe_def store_observation_def tb_report_add_def Let_def split: option.splits)

lemma enabled_call: "tb_enabled (tb_exec op t) = tb_enabled t"
  by (cases op) (auto simp: state_after_resolve snd_now snd_server_now enabled_observe note_time_poll_rate_def
      forget_fsa_def split: option.splits)

lemma enabled_run: "tb_enabled (fold tb_exec ops t) = tb_enabled t"
  by (induction ops arbitrary: t) (auto simp: enabled_call)

lemma observed_entry:
  "res_current_time r = Some v \<Longrightarrow>
     map_of (tb_per_fsa (observe_time_resource c r (Some h) href t)) h =
       Some (observation c v (case res_quality r of None \<Rightarrow> 0 | Some q \<Rightarrow> q) href)"
  by (simp add: observe_time_resource_def observe_def store_observation_def tb_report_add_def Let_def)

text \<open>At most one report per observation: a scope that has not been reported since its last
  observation has one report left.\<close>

definition stale_budget :: "string \<Rightarrow> nat \<Rightarrow> ServerTimebase \<Rightarrow> bool" where
  "stale_budget h n t \<longleftrightarrow>
     length (filter (stale_report h) (tb_reports t))
       + (if dhas (tb_per_fsa t) h \<and> h \<notin> tb_reported_stale t then 1 else 0) \<le> n"

lemma stale_budget_resolve: "stale_budget h n t \<Longrightarrow> stale_budget h n (snd (tb_resolve c k t))"
  by (auto simp: stale_budget_def tb_resolve_def report_stale_fallback_def tb_report_add_def dhas_def split: option.splits if_splits)

lemma stale_budget_call:
  "stale_budget h n t \<Longrightarrow> stale_budget h (n + (if observes h op then 1 else 0)) (tb_exec op t)"
proof (cases op)
  case (ObserveResource c r k href)
  then show "stale_budget h n t \<Longrightarrow> ?thesis"
    by (cases k) (auto simp: stale_budget_def observe_time_resource_def observe_def store_observation_def tb_report_add_def
        Let_def split: option.splits if_splits)
qed (auto simp: snd_now snd_server_now stale_budget_resolve, auto simp: stale_budget_def note_time_poll_rate_def
    forget_fsa_def split: option.splits if_splits)

lemma stale_budget_run:
  "stale_budget h n t \<Longrightarrow> stale_budget h (n + length (filter (observes h) ops)) (fold tb_exec ops t)"
proof (induction ops arbitrary: n t)
  case (Cons op ops)
  from Cons.IH [OF stale_budget_call [OF Cons.prems, of op]] show ?case by (simp split: if_splits)
qed simp

section \<open>Properties\<close>

text \<open>
  C31. Which observation a scope reads does not depend on the wall clock: after any run,
  stepping the wall clock by any amount leaves the choice, and with it the offset in use, as
  it is.
\<close>

theorem resolution_ignores_wall_clock:
  "let t = tb_run enabled drift stale ops in
     fst (tb_resolve (c\<lparr>wall_time := w\<rparr>) h t) = fst (tb_resolve c h t) \<and>
     fst (tb_offset (c\<lparr>wall_time := w\<rparr>) h t) = fst (tb_offset c h t) \<and> fst (tb_now (c\<lparr>wall_time := w\<rparr>) h t) - w = fst (tb_now c h t) - wall_time c"
proof -
  define t where "t = tb_run enabled drift stale ops"
  have r: "fst (tb_resolve (c\<lparr>wall_time := w\<rparr>) h t) = fst (tb_resolve c h t)"
    by (rule resolve_ignores_wall) (simp add: t_def tb_run_def monotonic_receipts_run)
  then have "fst (tb_offset (c\<lparr>wall_time := w\<rparr>) h t) = fst (tb_offset c h t)"
    by (auto simp: tb_offset_def split: prod.splits option.splits)
  with r show ?thesis by (simp add: tb_now_fst flip: t_def)
qed

text \<open>
  A scope that falls back to the global observation is reported at most once per
  observation of its own \<open>Time\<close> resource, however often it is read.
\<close>

theorem stale_scope_reported_once:
  "length (filter (stale_report h) (tb_reports (tb_run enabled drift stale ops)))
     \<le> length (filter (observes h) ops)"
proof -
  have "stale_budget h 0 (new_timebase enabled drift stale)"
    by (simp add: stale_budget_def new_timebase_def)
  from stale_budget_run [OF this, of ops] show ?thesis by (simp add: stale_budget_def tb_run_def)
qed

text \<open>
  A client that follows the server reads the server's clock: from the moment a scope's
  \<open>Time\<close> resource was observed, the scope's time is the server's time at that moment plus the
  time passed since, whatever the other scopes observe and however often time is read in
  between, until it is older than the threshold.
\<close>

theorem fresh_scope_follows_server:
  assumes "tb_enabled t" "res_current_time r = Some v" "list_all (\<lambda>op. \<not> touches h op) ops"
    and "monotonic_time c1 - monotonic_time c0 \<le> fsa_stale_seconds t'" "monotonic_time c0 \<le> monotonic_time c1" "0 \<le> fsa_stale_seconds t'"
    and "t' = fold tb_exec ops (observe_time_resource c0 r (Some h) href t)"
  shows "fst (tb_now c1 (Some h) t') = of_int v + (wall_time c1 - wall_time c0)"
proof -
  have "map_of (tb_per_fsa t') h = Some (observation c0 v (case res_quality r of None \<Rightarrow> 0 | Some q \<Rightarrow> q) href)"
    using untouched_run [OF assms(3), of "observe_time_resource c0 r (Some h) href t"] assms(2,7)
    by (simp add: observed_entry)
  moreover have "tb_enabled t'" using assms(1,7) by (simp add: enabled_run enabled_observe)
  ultimately show ?thesis
    using assms(4-6)
    by (auto simp: tb_now_fst tb_offset_def tb_resolve_def yields_to_global_def age_seconds_def observation_def
        split: option.splits)
qed

theorem fresh_scope_follows_server_witness:
  "fst (tb_now (ex_clock 1060 80) (Some ''/fsa'')
     (tb_exec (ReadNow (ex_clock 1030 50) None)
       (observe_time_resource (ex_clock 1000 20) (ex_time 700) (Some ''/fsa'') ''/tm'' (new_timebase True 30 None)))) = 760"
proof -
  let ?t = "tb_exec (ReadNow (ex_clock 1030 50) None)
     (observe_time_resource (ex_clock 1000 20) (ex_time 700) (Some ''/fsa'') ''/tm'' (new_timebase True 30 None))"
  have "fsa_stale_seconds ?t = 3600"
    by (simp add: snd_now state_after_resolve) (simp add: ex_tb_simps)
  then show ?thesis
    using fresh_scope_follows_server [of "new_timebase True 30 None" "ex_time 700" 700 "''/fsa''"
        "[ReadNow (ex_clock 1030 50) None]" "ex_clock 1060 80" "ex_clock 1000 20" ?t "''/tm''"]
    by (simp add: ex_clock_def ex_time_def new_timebase_def)
qed

text \<open>
  The observation a scope reads is its own while that is fresh or nothing newer is
  known, and otherwise the newer global one; the snapshot reports a scope as stale in
  exactly the latter case.
\<close>

theorem scope_reads_freshest_trusted:
  assumes "map_of (tb_per_fsa t) h = Some scoped"
  shows "(\<exists>e. map_of (sn_per_fsa (snapshot_of c t)) h = Some e \<and>
       (if en_stale e = Some True
        then \<exists>g. tb_global t = Some g \<and> fst (tb_resolve c (Some h) t) = Some g \<and> is_newer g scoped \<and> age_seconds c scoped > fsa_stale_seconds t
        else fst (tb_resolve c (Some h) t) = Some scoped))"
proof -
  have "map_of (sn_per_fsa (snapshot_of c t)) h = Some (snapshot_entry c True t scoped)"
    using assms by (simp add: snapshot_of_def map_of_map)
  then show ?thesis
    using assms(1) by (auto simp: snapshot_entry_def tb_resolve_def yields_to_global_def split: option.splits)
qed

theorem scope_reads_freshest_trusted_witness:
  "\<exists>t scoped e. t = tb_run True 30 None [ObserveResource (ex_clock 0 0) (ex_time 100) (Some ''/fsa'') ''/tm'',
       ObserveResource (ex_clock 5000 5000) (ex_time 5200) None ''/tm''] \<and>
     map_of (tb_per_fsa t) ''/fsa'' = Some scoped \<and>
     map_of (sn_per_fsa (snapshot_of (ex_clock 6000 6000) t)) ''/fsa'' = Some e \<and>
     en_stale e = Some True \<and> fst (tb_resolve (ex_clock 6000 6000) (Some ''/fsa'') t) = tb_global t"
proof -
  define t where "t = tb_run True 30 None [ObserveResource (ex_clock 0 0) (ex_time 100) (Some ''/fsa'') ''/tm'',
       ObserveResource (ex_clock 5000 5000) (ex_time 5200) None ''/tm'']"
  obtain scoped where sc: "map_of (tb_per_fsa t) ''/fsa'' = Some scoped" "yields_to_global (ex_clock 6000 6000) scoped t"
    by (simp add: t_def ex_tb_simps yields_to_global_def age_seconds_def is_newer_def)
  have e: "map_of (sn_per_fsa (snapshot_of (ex_clock 6000 6000) t)) ''/fsa'' = Some (snapshot_entry (ex_clock 6000 6000) True t scoped)"
    using sc(1) by (simp add: snapshot_of_def map_of_map)
  have "fst (tb_resolve (ex_clock 6000 6000) (Some ''/fsa'') t) = tb_global t"
    using scope_reads_freshest_trusted [OF sc(1), of "ex_clock 6000 6000"] sc(2) e by (auto simp: snapshot_entry_def)
  then show ?thesis using sc e by (intro exI [of _ t] exI [of _ scoped]) (auto simp: snapshot_entry_def t_def)
qed

end
