(* ===== verification/Tariff.thy ===== *)
theory Tariff
  imports Response Randomization Discovered_State Timebase "HOL-Library.Option_ord"
begin

text \<open>
  \<open>events/tariff.py\<close>: which price interval is in effect, and telling the connectors when it
  changes. The processor reads the shared timebase, draws randomized windows from its own
  randomization cache and answers the server through its own response tracker. What happens
  at an await (a POST, the fetch of prices) and what the clocks show is indexed by a counter
  that each of them advances. A relay that was emitted is a task in \<open>tf_relay_tasks\<close>, and is
  kept in \<open>tf_relayed\<close> as well.
\<close>

section \<open>Windows and selection\<close>

definition INACTIVE_STATUSES :: "int set" where
  "INACTIVE_STATUSES = {2, 3, 4}"

definition effective_window ::
  "random_source \<Rightarrow> TimeTariffInterval1 \<Rightarrow> RandomizationCache \<Rightarrow> (int \<times> int) \<times> RandomizationCache" where
  "effective_window rnd i c =
     (let raw_start = interval_start i; raw_duration = interval_duration i;
          ((start_offset, dur_offset), c') = get_offsets rnd i raw_start raw_duration c;
          start = raw_start + start_offset
      in ((start, start + raw_duration + dur_offset), c'))"

definition is_cancelled :: "TimeTariffInterval1 \<Rightarrow> bool" where
  "is_cancelled i =
     (case event_status i of None \<Rightarrow> False | Some st \<Rightarrow> current_status st \<in> INACTIVE_STATUSES)"

definition creation_or_zero :: "TimeTariffInterval1 \<Rightarrow> int" where
  "creation_or_zero i = (case creation_time i of None \<Rightarrow> 0 | Some t \<Rightarrow> t)"

type_synonym best_interval = "(TimeTariffInterval1 \<times> (int \<times> int)) option"

definition consider_interval ::
  "random_source \<Rightarrow> int \<Rightarrow> TimeTariffInterval1 \<Rightarrow> best_interval \<times> RandomizationCache \<Rightarrow> best_interval \<times> RandomizationCache" where
  "consider_interval rnd now i bc =
     (let (best, c) = bc
      in if is_cancelled i then bc
         else let ((start, stop), c') = effective_window rnd i c
              in if \<not> (start \<le> now \<and> now < stop) then (best, c')
                 else let key = (creation_or_zero i, start)
                      in case best of
                           None \<Rightarrow> (Some (i, key), c')
                         | Some (_, best_key) \<Rightarrow> (if key > best_key then Some (i, key) else best, c'))"

definition active_interval ::
  "random_source \<Rightarrow> TimeTariffInterval1 list \<Rightarrow> int \<Rightarrow> RandomizationCache \<Rightarrow> TimeTariffInterval1 option \<times> RandomizationCache" where
  "active_interval rnd intervals now c =
     (case fold (consider_interval rnd now) intervals (None, c) of (best, c') \<Rightarrow> (map_option fst best, c'))"

section \<open>The processor\<close>

record price_block =
  pb_price :: "int option"
  pb_start_value :: "int option"
  pb_consumption_block :: raw

record PriceNotification =
  pn_current_status :: "int option"
  pn_mrid :: string
  pn_program_href :: string
  pn_primacy :: int
  pn_start :: int
  pn_duration :: int
  pn_end :: int
  pn_affected_lfdis :: "string list"
  pn_randomization :: "int option \<times> int option"
  pn_tou_tier :: raw
  pn_currency :: raw
  pn_price_power_of_ten_multiplier :: raw
  pn_rate_component_href :: string
  pn_prices :: "price_block list"

record tariff_env =
  te_rnd :: random_source
  te_clock :: "nat \<Rightarrow> tb_clock"
  te_fetch :: "nat \<Rightarrow> string \<Rightarrow> price_block list list option"
  te_post :: "nat \<Rightarrow> post_outcome"
  te_scopes :: "string option set \<Rightarrow> string option list"

record TariffProcessor =
  tf_state :: DiscoveredState
  tf_timebase :: ServerTimebase
  tf_randomization :: RandomizationCache
  tf_active :: "(string, bytes option) dict"
  tf_relay_tasks :: "PriceNotification list"
  tf_response_tracker :: ResponseTracker
  tf_relayed :: "PriceNotification list"
  tf_posted :: "response_body list"
  tf_tick :: nat

definition PRUNE_GRACE :: int where
  "PRUNE_GRACE = 10"

text \<open>\<open>int(self._timebase.now(scope))\<close>.\<close>

definition read_now :: "tariff_env \<Rightarrow> string option \<Rightarrow> TariffProcessor \<Rightarrow> int \<times> TariffProcessor" where
  "read_now e scope t =
     (case tb_now (te_clock e (tf_tick t)) scope (tf_timebase t) of
        (x, tb) \<Rightarrow> (py_int x, t\<lparr>tf_timebase := tb, tf_tick := Suc (tf_tick t)\<rparr>))"

fun read_all :: "tariff_env \<Rightarrow> string option list \<Rightarrow> TariffProcessor \<Rightarrow> int list \<times> TariffProcessor" where
  "read_all e [] t = ([], t)"
| "read_all e (sc # scs) t =
     (case read_now e sc t of (x, t1) \<Rightarrow> case read_all e scs t1 of (xs, t2) \<Rightarrow> (x # xs, t2))"

definition tariff_scopes :: "TariffProcessor \<Rightarrow> string option set" where
  "tariff_scopes t =
     (let S = tps_discovered_from_fsa_href ` snd ` set (tariff_profiles (tf_state t)) in if S = {} then {None} else S)"

definition prune_windows :: "tariff_env \<Rightarrow> TariffProcessor \<Rightarrow> TariffProcessor" where
  "prune_windows e t =
     (case read_all e (iter_set (te_scopes e) (tariff_scopes t)) t of
        (nows, t1) \<Rightarrow> t1\<lparr>tf_randomization := prune_offsets PRUNE_GRACE (Min (set nows)) (tf_randomization t1)\<rparr>)"

definition post_ack :: "tariff_env \<Rightarrow> TimeTariffInterval1 \<Rightarrow> int \<Rightarrow> EndDeviceState \<Rightarrow> TariffProcessor \<Rightarrow> TariffProcessor" where
  "post_ack e i now ed t =
     (case post_price_response i RC_ACKNOWLEDGED (ed_lfdi ed) now (te_post e (tf_tick t)) (tf_response_tracker t) of
        (tr, body) \<Rightarrow>
          t\<lparr>tf_response_tracker := tr, tf_tick := Suc (tf_tick t),
            tf_posted := tf_posted t @ (case body of None \<Rightarrow> [] | Some b \<Rightarrow> [b])\<rparr>)"

definition ack_received :: "tariff_env \<Rightarrow> int \<Rightarrow> TimeTariffInterval1 \<Rightarrow> TariffProcessor \<Rightarrow> TariffProcessor" where
  "ack_received e now i t =
     (if \<not> response_required_allows (response_required i) RC_ACKNOWLEDGED then t
      else fold (post_ack e i now) (map snd (end_devices (tf_state t))) t)"

text \<open>\<open>None\<close> when the fetch failed; no link means no prices.\<close>

definition fetch_prices :: "tariff_env \<Rightarrow> TimeTariffInterval1 \<Rightarrow> TariffProcessor \<Rightarrow> price_block list option \<times> TariffProcessor" where
  "fetch_prices e i t =
     (case cti_list_href i of
        None \<Rightarrow> (Some [], t)
      | Some h \<Rightarrow>
          if h = [] then (Some [], t)
          else (map_option concat (te_fetch e (tf_tick t) h), t\<lparr>tf_tick := Suc (tf_tick t)\<rparr>))"

definition build_notification ::
  "tariff_env \<Rightarrow> TariffProfileState \<Rightarrow> TariffRateComponentState \<Rightarrow> TimeTariffInterval1 \<Rightarrow> price_block list \<Rightarrow> string list
     \<Rightarrow> TariffProcessor \<Rightarrow> PriceNotification \<times> TariffProcessor" where
  "build_notification e tp rc i prices lfdis t =
     (case effective_window (te_rnd e) i (tf_randomization t) of
        ((start, stop), c) \<Rightarrow>
          (\<lparr>pn_current_status = map_option current_status (event_status i), pn_mrid = hex (m_rid i),
            pn_program_href = tps_href tp, pn_primacy = tps_primacy tp, pn_start = start, pn_duration = stop - start,
            pn_end = stop, pn_affected_lfdis = lfdis, pn_randomization = (randomize_start i, randomize_duration i),
            pn_tou_tier = tou_tier i, pn_currency = tpf_currency (tps_profile tp),
            pn_price_power_of_ten_multiplier = tpf_price_multiplier (tps_profile tp),
            pn_rate_component_href = rc_href rc, pn_prices = prices\<rparr>, t\<lparr>tf_randomization := c\<rparr>))"

definition emit :: "PriceNotification \<Rightarrow> TariffProcessor \<Rightarrow> TariffProcessor" where
  "emit n t = t\<lparr>tf_relay_tasks := tf_relay_tasks t @ [n], tf_relayed := tf_relayed t @ [n]\<rparr>"

definition relay_if_changed ::
  "tariff_env \<Rightarrow> TariffProfileState \<Rightarrow> TariffRateComponentState \<Rightarrow> TimeTariffInterval1 option \<Rightarrow> string list
     \<Rightarrow> TariffProcessor \<Rightarrow> TariffProcessor" where
  "relay_if_changed e tp rc interval lfdis t =
     (if map_option m_rid interval = dget_or (tf_active t) (rc_href rc) None then t
      else case interval of
             None \<Rightarrow> t\<lparr>tf_active := dset (rc_href rc) None (tf_active t)\<rparr>
           | Some i \<Rightarrow>
               (case fetch_prices e i t of
                  (None, t1) \<Rightarrow> t1
                | (Some prices, t1) \<Rightarrow>
                    (case build_notification e tp rc i prices lfdis
                            (t1\<lparr>tf_active := dset (rc_href rc) (Some (m_rid i)) (tf_active t1)\<rparr>) of
                       (n, t2) \<Rightarrow> emit n t2)))"

definition process_rate_component ::
  "tariff_env \<Rightarrow> string list \<Rightarrow> TariffProfileState \<Rightarrow> int \<Rightarrow> TariffRateComponentState \<Rightarrow> TariffProcessor \<Rightarrow> TariffProcessor" where
  "process_rate_component e lfdis tp now rc t =
     (let t1 = fold (ack_received e now) (time_tariff_intervals rc) t;
          (active, c) = active_interval (te_rnd e) (time_tariff_intervals rc) now (tf_randomization t1)
      in relay_if_changed e tp rc active lfdis (t1\<lparr>tf_randomization := c\<rparr>))"

definition process_profile :: "tariff_env \<Rightarrow> string list \<Rightarrow> TariffProfileState \<Rightarrow> TariffProcessor \<Rightarrow> TariffProcessor" where
  "process_profile e lfdis tp t =
     (case read_now e (tps_discovered_from_fsa_href tp) t of
        (now, t1) \<Rightarrow> fold (process_rate_component e lfdis tp now) (rate_components tp) t1)"

definition served_components :: "TariffProcessor \<Rightarrow> TariffRateComponentState list" where
  "served_components t = concat (map (rate_components \<circ> snd) (tariff_profiles (tf_state t)))"

definition forget_withdrawn :: "TariffProcessor \<Rightarrow> TariffProcessor" where
  "forget_withdrawn t =
     (let live_mrids = set (map m_rid (concat (map time_tariff_intervals (served_components t))));
          live_rc_hrefs = set (map rc_href (served_components t))
      in t\<lparr>tf_response_tracker := retain_mrids live_mrids (tf_response_tracker t),
           tf_active := filter (\<lambda>(h, _). h \<in> live_rc_hrefs) (tf_active t)\<rparr>)"

definition process_tariffs :: "tariff_env \<Rightarrow> TariffProcessor \<Rightarrow> TariffProcessor" where
  "process_tariffs e t =
     (let t1 = prune_windows e t;
          all_lfdis = map (hex \<circ> ed_lfdi \<circ> snd) (end_devices (tf_state t1))
      in if all_lfdis = [] then t1
         else forget_withdrawn (fold (process_profile e all_lfdis) (map snd (tariff_profiles (tf_state t1))) t1))"

text \<open>A relay task that finishes is discarded; \<open>shutdown\<close> cancels those in flight.\<close>

definition relay_finished :: "PriceNotification \<Rightarrow> TariffProcessor \<Rightarrow> TariffProcessor" where
  "relay_finished n t = t\<lparr>tf_relay_tasks := remove1 n (tf_relay_tasks t)\<rparr>"

definition tariff_shutdown :: "TariffProcessor \<Rightarrow> TariffProcessor" where
  "tariff_shutdown t = t\<lparr>tf_relay_tasks := []\<rparr>"

definition ex_tti :: "bytes \<Rightarrow> int \<Rightarrow> int \<Rightarrow> int option \<Rightarrow> TimeTariffInterval1" where
  "ex_tti mr start dur rand =
     \<lparr>m_rid = mr, reply_to = Some ''/rsp'', response_required = Some [1], creation_time = Some 5, event_status = None,
      interval_start = start, interval_duration = dur, randomize_start = None, randomize_duration = rand,
      cti_list_href = None, tou_tier = RNone\<rparr>"

definition ex_tariff_state :: DiscoveredState where
  "ex_tariff_state =
     \<lparr>ds_dcap = None, ds_time = None, ds_time_href = None, ds_mup_list_href = None, ds_self_device = None,
      end_devices = [(''/edev/1'', \<lparr>ed_href = ''/edev/1'', ed_lfdi = [1], ed_fsa_hrefs = [], ed_fsa_list_link = None, ed_program_list_links = [],
     ed_subscription_list_href = None,
         ed_fsa_list_subscribable = False, ed_derp_list_subscribable = False\<rparr>)],
      der_programs = [], device_mapping = empty_DeviceMapping, poll_rates = [], csip_aus_mode = False, pricing_enabled = True,
      tariff_profiles = [(''/tp/1'', \<lparr>tps_profile = \<lparr>tpf_currency = RInt 840, tpf_price_multiplier = RInt (-2)\<rparr>,
         tps_href = ''/tp/1'', tps_primacy = 1, rate_components = [\<lparr>rc_href = ''/rc/1'',
         time_tariff_intervals = [ex_tti [1] 0 100 (Some 600)], tti_list_subscribable = False, tti_list_href = None\<rparr>],
         tps_discovered_from_fsa_href = None\<rparr>)],
      fsa_time = [], fsa_time_hrefs = [], previous_fsa_hrefs = []\<rparr>"

definition ex_tariff_env :: tariff_env where
  "ex_tariff_env = \<lparr>te_rnd = (\<lambda>n m. 0), te_clock = (\<lambda>n. ex_clock 50 7), te_fetch = (\<lambda>n h. Some []), te_post = (\<lambda>n. PostOk),
     te_scopes = (\<lambda>S. [])\<rparr>"

definition ex_tariff :: TariffProcessor where
  "ex_tariff = \<lparr>tf_state = ex_tariff_state, tf_timebase = new_timebase True 30 None, tf_randomization = empty_RandomizationCache,
     tf_active = [], tf_relay_tasks = [], tf_response_tracker = empty_ResponseTracker, tf_relayed = [], tf_posted = [], tf_tick = 0\<rparr>"

section \<open>Windows in the cache\<close>

definition cached_window :: "RandomizationCache \<Rightarrow> TimeTariffInterval1 \<Rightarrow> (int \<times> int) option" where
  "cached_window c i =
     map_option (\<lambda>(so, d). (interval_start i + so, interval_start i + so + interval_duration i + d))
       (map_of (rc_cache c) (m_rid i))"

definition in_effect :: "RandomizationCache \<Rightarrow> int \<Rightarrow> TimeTariffInterval1 \<Rightarrow> bool" where
  "in_effect c now i \<longleftrightarrow>
     \<not> is_cancelled i \<and> (case cached_window c i of None \<Rightarrow> False | Some (start, stop) \<Rightarrow> start \<le> now \<and> now < stop)"

definition precedence :: "RandomizationCache \<Rightarrow> TimeTariffInterval1 \<Rightarrow> int \<times> int" where
  "precedence c i = (creation_or_zero i, fst (the (cached_window c i)))"

abbreviation cache_le :: "RandomizationCache \<Rightarrow> RandomizationCache \<Rightarrow> bool" where
  "cache_le c c' \<equiv> map_of (rc_cache c) \<subseteq>\<^sub>m map_of (rc_cache c')"

lemma effective_window_cached:
  "effective_window rnd i c = ((s, e), c') \<Longrightarrow> cached_window c' i = Some (s, e) \<and> cache_le c c'"
  by (auto simp: effective_window_def get_offsets_def cached_window_def Let_def map_le_def split: option.splits prod.splits)

lemma effective_window_hit: "cached_window c i = Some w \<Longrightarrow> effective_window rnd i c = (w, c)"
  by (auto simp: effective_window_def get_offsets_def cached_window_def Let_def)

lemma cached_window_mono: "cache_le c c' \<Longrightarrow> cached_window c i = Some w \<Longrightarrow> cached_window c' i = Some w"
  by (auto simp: cached_window_def map_le_def dom_def)

text \<open>What the selection has found after a prefix of the list.\<close>

definition selected :: "int \<Rightarrow> TimeTariffInterval1 list \<Rightarrow> best_interval \<times> RandomizationCache \<Rightarrow> bool" where
  "selected now is bc \<longleftrightarrow>
     list_all (\<lambda>i. is_cancelled i \<or> cached_window (snd bc) i \<noteq> None) is \<and>
     (case fst bc of
        None \<Rightarrow> list_all (\<lambda>i. \<not> in_effect (snd bc) now i) is
      | Some (i, k) \<Rightarrow> i \<in> set is \<and> in_effect (snd bc) now i \<and> k = precedence (snd bc) i \<and>
          list_all (\<lambda>j. in_effect (snd bc) now j \<longrightarrow> precedence (snd bc) j \<le> k) is)"

lemma cached_windows_mono:
  assumes "cache_le c c'" "cached_window c i \<noteq> None"
  shows "cached_window c' i = cached_window c i" "in_effect c' now i = in_effect c now i" "precedence c' i = precedence c i"
  using assms cached_window_mono [OF assms(1)] by (auto simp: in_effect_def precedence_def)

lemma effect_mono:
  assumes "cache_le c c'" "is_cancelled i \<or> cached_window c i \<noteq> None"
  shows "in_effect c' now i = in_effect c now i" "in_effect c now i \<Longrightarrow> precedence c' i = precedence c i"
  using assms(2) cached_windows_mono [OF assms(1), of i] by (auto simp: in_effect_def)

lemma selected_mono:
  assumes "selected now is (b, c)" "cache_le c c'"
  shows "selected now is (b, c')"
proof -
  have ok: "is_cancelled i \<or> cached_window c i \<noteq> None" if "i \<in> set is" for i
    using that assms(1) by (auto simp: selected_def list_all_iff)
  then have ok': "list_all (\<lambda>i. is_cancelled i \<or> cached_window c' i \<noteq> None) is"
    using cached_windows_mono(1) [OF assms(2)] by (auto simp: list_all_iff) (metis not_Some_eq)
  have eq: "in_effect c' now i = in_effect c now i" if "i \<in> set is" for i
    using effect_mono(1) [OF assms(2) ok [OF that]] .
  have pr: "precedence c' i = precedence c i" if "i \<in> set is" "in_effect c now i" for i
    using effect_mono(2) [OF assms(2) ok [OF that(1)] that(2)] .
  show ?thesis
  proof (cases b)
    case None
    then show ?thesis using assms(1) ok' eq by (auto simp: selected_def list_all_iff)
  next
    case (Some p)
    then show ?thesis using assms(1) ok' eq pr by (cases p) (auto simp: selected_def list_all_iff)
  qed
qed

lemma selected_consider:
  assumes "selected now is bc"
  shows "selected now (is @ [i]) (consider_interval rnd now i bc) \<and> cache_le (snd bc) (snd (consider_interval rnd now i bc))"
proof -
  obtain b c where bc: "bc = (b, c)" by fastforce
  show ?thesis
  proof (cases "is_cancelled i")
    case True
    then have "\<not> in_effect c now i" by (simp add: in_effect_def)
    with True assms show ?thesis
      by (auto simp: consider_interval_def selected_def bc list_all_iff split: option.splits)
  next
    case False
    obtain st en c' where w: "effective_window rnd i c = ((st, en), c')" by (metis prod.exhaust)
    have cw: "cached_window c' i = Some (st, en)" and le: "cache_le c c'" using effective_window_cached [OF w] by auto
    have sel: "selected now is (b, c')" using selected_mono [OF assms [unfolded bc] le] .
    have eff: "in_effect c' now i = (st \<le> now \<and> now < en)" using False cw by (simp add: in_effect_def)
    have pre: "precedence c' i = (creation_or_zero i, st)" using cw by (simp add: precedence_def)
    have less: "\<And>x y z :: int \<times> int. x \<le> y \<Longrightarrow> y < z \<Longrightarrow> x \<le> z" by auto
    have con: "consider_interval rnd now i bc = (if in_effect c' now i then
        (case b of None \<Rightarrow> Some (i, precedence c' i)
          | Some (j, k) \<Rightarrow> if precedence c' i > k then Some (i, precedence c' i) else b) else b, c')"
      using False by (auto simp: consider_interval_def bc w eff pre Let_def split: option.splits)
    show ?thesis
      unfolding con using sel le cw
      by (auto simp: selected_def bc list_all_iff eff split: option.splits prod.splits intro: less)
  qed
qed

lemma selected_fold:
  "selected now is (fold (consider_interval rnd now) is (None, c)) \<and>
     cache_le c (snd (fold (consider_interval rnd now) is (None, c)))"
proof (induction "is" rule: rev_induct)
  case Nil
  then show ?case by (simp add: selected_def)
next
  case (snoc i "is")
  then show ?case
    using selected_consider [of now "is" "fold (consider_interval rnd now) is (None, c)" i rnd] map_le_trans by fastforce
qed

lemma active_interval_mono: "cache_le c (snd (active_interval rnd is now c))"
  using selected_fold [of now "is" rnd c] by (cases "fold (consider_interval rnd now) is (None, c)") (simp add: active_interval_def)

text \<open>Once the windows are drawn the selection is settled: with a larger cache it is the same, and it
  draws nothing.\<close>

lemma consider_cache: "cache_le c (snd (consider_interval rnd now i (b, c)))"
  "is_cancelled i \<or> cached_window (snd (consider_interval rnd now i (b, c))) i \<noteq> None"
proof -
  obtain st en c' where w: "effective_window rnd i c = ((st, en), c')" by (metis prod.exhaust)
  note cached = effective_window_cached [OF w]
  show "cache_le c (snd (consider_interval rnd now i (b, c)))"
    "is_cancelled i \<or> cached_window (snd (consider_interval rnd now i (b, c))) i \<noteq> None"
    using cached by (auto simp: consider_interval_def w Let_def split: option.splits)
qed

lemma consider_again:
  assumes "cache_le (snd (consider_interval rnd now i (b, c))) c'"
  shows "consider_interval rnd now i (b, c') = (fst (consider_interval rnd now i (b, c)), c')"
proof (cases "is_cancelled i")
  case True
  then show ?thesis by (simp add: consider_interval_def)
next
  case False
  obtain st en c2 where w: "effective_window rnd i c = ((st, en), c2)" by (metis prod.exhaust)
  have "snd (consider_interval rnd now i (b, c)) = c2"
    using False by (auto simp: consider_interval_def w Let_def split: option.splits)
  then have "effective_window rnd i c' = ((st, en), c')"
    using effective_window_hit cached_window_mono effective_window_cached [OF w] assms by metis
  with False w show ?thesis by (auto simp: consider_interval_def Let_def split: option.splits)
qed

lemma fold_consider_cache: "cache_le c (snd (fold (consider_interval rnd now) is (b, c)))"
proof (induction "is" arbitrary: b c)
  case (Cons i "is")
  obtain b2 c2 where "consider_interval rnd now i (b, c) = (b2, c2)" by fastforce
  with consider_cache(1) [of c rnd now i b] Cons.IH [of c2 b2] show ?case using map_le_trans by fastforce
qed simp

lemma fold_consider_again:
  "cache_le (snd (fold (consider_interval rnd now) is (b, c))) c' \<Longrightarrow>
     fold (consider_interval rnd now) is (b, c') = (fst (fold (consider_interval rnd now) is (b, c)), c')"
proof (induction "is" arbitrary: b c)
  case (Cons i "is")
  obtain b2 c2 where step: "consider_interval rnd now i (b, c) = (b2, c2)" by fastforce
  with Cons.prems have le: "cache_le (snd (fold (consider_interval rnd now) is (b2, c2))) c'" by simp
  have "cache_le c2 c'" using map_le_trans [OF fold_consider_cache le] .
  then have "consider_interval rnd now i (b, c') = (b2, c')"
    using consider_again [of rnd now i b c c'] step by simp
  with Cons.IH [OF le] step show ?case by simp
qed simp

lemma active_interval_again:
  "cache_le (snd (active_interval rnd is now c)) c' \<Longrightarrow> active_interval rnd is now c' = (fst (active_interval rnd is now c), c')"
  using fold_consider_again [of rnd now "is" None c c']
  by (cases "fold (consider_interval rnd now) is (None, c)") (simp add: active_interval_def)

section \<open>A settled rate component\<close>

text \<open>A loop that establishes something for each element, which the later elements leave alone.\<close>

lemma fold_establish:
  assumes "I s" "\<And>x s. x \<in> set xs \<Longrightarrow> I s \<Longrightarrow> I (f x s) \<and> P x (f x s)"
    and "\<And>x y s. R x y \<Longrightarrow> y \<in> set xs \<Longrightarrow> I s \<Longrightarrow> P x s \<Longrightarrow> P x (f y s)" "sorted_wrt R xs"
  shows "I (fold f xs s) \<and> (\<forall>x \<in> set xs. P x (fold f xs s))"
  using assms(2-)
proof (induction xs rule: rev_induct)
  case Nil
  then show ?case using assms(1) by simp
next
  case (snoc y xs)
  have ih: "I (fold f xs s)" "\<And>x. x \<in> set xs \<Longrightarrow> P x (fold f xs s)"
    using snoc.IH snoc.prems by (auto simp: sorted_wrt_append)
  have "R x y" if "x \<in> set xs" for x using snoc.prems(3) that by (simp add: sorted_wrt_append)
  then show ?case using snoc.prems(1) [of y "fold f xs s"] snoc.prems(2) [of _ y "fold f xs s"] ih by auto
qed

definition ack_key :: "TimeTariffInterval1 \<Rightarrow> EndDeviceState \<Rightarrow> response_key" where
  "ack_key i ed = (m_rid i, RC_ACKNOWLEDGED, ed_lfdi ed)"

definition devices :: "TariffProcessor \<Rightarrow> EndDeviceState list" where
  "devices t = map snd (end_devices (tf_state t))"

definition sent_keys :: "TariffProcessor \<Rightarrow> response_key set" where
  "sent_keys t = fst ` set (rt_sent (tf_response_tracker t))"

definition acked :: "TariffProcessor \<Rightarrow> TimeTariffInterval1 \<Rightarrow> EndDeviceState \<Rightarrow> bool" where
  "acked t i ed \<longleftrightarrow> response_gate i RC_ACKNOWLEDGED = None \<or> ack_key i ed \<in> sent_keys t"

definition all_acked :: "TariffProcessor \<Rightarrow> TimeTariffInterval1 \<Rightarrow> bool" where
  "all_acked t i \<longleftrightarrow> (\<forall>ed \<in> set (devices t). acked t i ed)"

definition settled :: "tariff_env \<Rightarrow> int \<Rightarrow> TariffRateComponentState \<Rightarrow> TariffProcessor \<Rightarrow> bool" where
  "settled e now rc t \<longleftrightarrow>
     (\<forall>i \<in> set (time_tariff_intervals rc). all_acked t i) \<and>
     map_option m_rid (fst (active_interval (te_rnd e) (time_tariff_intervals rc) now (tf_randomization t)))
       = dget_or (tf_active t) (rc_href rc) None \<and>
     snd (active_interval (te_rnd e) (time_tariff_intervals rc) now (tf_randomization t)) = tf_randomization t"

text \<open>The server answers, and one instant passes for a whole poll.\<close>

definition answers :: "tariff_env \<Rightarrow> bool" where
  "answers e \<longleftrightarrow> (\<forall>n. te_post e n = PostOk) \<and> (\<forall>n h. te_fetch e n h \<noteq> None) \<and> (\<forall>n. te_clock e n = te_clock e 0)"

text \<open>Acknowledging only adds to what was sent.\<close>

definition ack_frame :: "TariffProcessor \<Rightarrow> TariffProcessor \<Rightarrow> bool" where
  "ack_frame t t' \<longleftrightarrow>
     tf_state t' = tf_state t \<and> tf_timebase t' = tf_timebase t \<and> tf_randomization t' = tf_randomization t \<and>
     tf_active t' = tf_active t \<and> tf_relayed t' = tf_relayed t \<and>
     sent_keys t \<subseteq> sent_keys t' \<and>
     rt_in_flight (tf_response_tracker t') = []"

lemma ack_frame_trans: "ack_frame t t' \<Longrightarrow> ack_frame t' t'' \<Longrightarrow> ack_frame t t''"
  by (auto simp: ack_frame_def)

lemma ack_frame_refl: "rt_in_flight (tf_response_tracker t) = [] \<Longrightarrow> ack_frame t t"
  by (simp add: ack_frame_def)

lemma ack_frame_idle: "ack_frame t t' \<Longrightarrow> rt_in_flight (tf_response_tracker t') = []"
  by (simp add: ack_frame_def)

lemma acked_frame: "ack_frame t t' \<Longrightarrow> acked t i ed \<Longrightarrow> acked t' i ed"
  by (auto simp: ack_frame_def acked_def)

lemma all_acked_frame: "ack_frame t t' \<Longrightarrow> all_acked t i \<Longrightarrow> all_acked t' i"
  using acked_frame by (auto simp: all_acked_def devices_def ack_frame_def)

lemma all_acked_mono:
  assumes "tf_state t' = tf_state t" "sent_keys t \<subseteq> sent_keys t'" "all_acked t i"
  shows "all_acked t' i"
  using assms unfolding all_acked_def acked_def devices_def by auto

lemma keys_dset_set: "fst ` set (dset k v d) = insert k (fst ` set d)"
  by (metis keys_dset dhas_iff_keys list.set_map insert_absorb set_append list.set(1) list.set(2) Un_insert_right Un_empty_right)

lemma post_ack_frame:
  assumes "answers e" "rt_in_flight (tf_response_tracker t) = []"
  shows "ack_frame t (post_ack e i now ed t) \<and> acked (post_ack e i now ed t) i ed"
proof (cases "response_gate i RC_ACKNOWLEDGED")
  case None
  then show ?thesis using assms by (simp add: post_ack_def post_price_response_def ack_frame_def acked_def sent_keys_def)
next
  case (Some path)
  let ?k = "ack_key i ed" and ?tr = "tf_response_tracker t"
  show ?thesis
  proof (cases "dhas (rt_sent ?tr) ?k")
    case True
    then have "post_ack e i now ed t = t\<lparr>tf_tick := Suc (tf_tick t)\<rparr>"
      using Some by (simp add: post_ack_def post_price_response_def reserve_turn_def ack_key_def)
    then show ?thesis using True assms(2) by (simp add: ack_frame_def acked_def sent_keys_def dhas_iff_keys)
  next
    case False
    then have "tf_response_tracker (post_ack e i now ed t) =
        mark_sent ?k now (?tr\<lparr>rt_in_flight := [(?k, rt_next ?tr)], rt_next := Suc (rt_next ?tr)\<rparr>)"
      using Some assms by (simp add: post_ack_def post_price_response_def reserve_turn_def ack_key_def answers_def dset_def Let_def)
    then show ?thesis
      using Some by (auto simp: ack_frame_def acked_def sent_keys_def keys_dset_set mark_sent_def settle_def ddel_def post_ack_def
          split: prod.splits)
  qed
qed

lemma fold_acks:
  assumes "\<And>x s. rt_in_flight (tf_response_tracker s) = [] \<Longrightarrow> ack_frame s (f x s) \<and> P x (f x s)"
    and "\<And>x s s'. ack_frame s s' \<Longrightarrow> P x s \<Longrightarrow> P x s'" "rt_in_flight (tf_response_tracker t) = []"
  shows "ack_frame t (fold f xs t) \<and> (\<forall>x \<in> set xs. P x (fold f xs t))"
proof (rule fold_establish [where I = "ack_frame t" and R = "\<lambda>_ _. True"])
  show "ack_frame t t" using assms(3) by (rule ack_frame_refl)
  show "ack_frame t (f x s) \<and> P x (f x s)" if "ack_frame t s" for x s
    using assms(1) [OF ack_frame_idle [OF that]] ack_frame_trans [OF that] by blast
  show "P x (f y s)" if "ack_frame t s" "P x s" for x y s
    using assms(1) [OF ack_frame_idle [OF that(1)], of y] assms(2) that(2) by blast
qed (simp add: sorted_wrt_true)

lemma ack_received_frame:
  assumes "answers e" "rt_in_flight (tf_response_tracker t) = []"
  shows "ack_frame t (ack_received e now i t) \<and> all_acked (ack_received e now i t) i"
proof (cases "response_required_allows (response_required i) RC_ACKNOWLEDGED")
  case True
  have "ack_frame t (fold (post_ack e i now) (devices t) t) \<and> (\<forall>ed \<in> set (devices t). acked (fold (post_ack e i now) (devices t) t) i ed)"
    by (rule fold_acks [of "post_ack e i now" "\<lambda>ed t. acked t i ed"]) (use assms post_ack_frame acked_frame in blast)+
  then show ?thesis
    using True by (simp add: ack_received_def all_acked_def devices_def ack_frame_def)
next
  case False
  then show ?thesis using assms by (simp add: ack_received_def all_acked_def acked_def response_gate_def ack_frame_refl)
qed

lemma acks_frame:
  assumes "answers e" "rt_in_flight (tf_response_tracker t) = []"
  shows "ack_frame t (fold (ack_received e now) is t) \<and> (\<forall>i \<in> set is. all_acked (fold (ack_received e now) is t) i)"
  by (rule fold_acks [of "ack_received e now" "\<lambda>i t. all_acked t i"]) (use assms ack_received_frame all_acked_frame in blast)+

text \<open>What acknowledged already is not posted again.\<close>

lemma post_ack_again: "acked t i ed \<Longrightarrow> post_ack e i now ed t = t\<lparr>tf_tick := Suc (tf_tick t)\<rparr>"
  by (auto simp: acked_def sent_keys_def ack_key_def post_ack_def post_price_response_def reserve_turn_def dhas_iff_keys [symmetric]
      split: option.splits)

lemma acked_tick [simp]: "acked (t\<lparr>tf_tick := n\<rparr>) i ed = acked t i ed" "all_acked (t\<lparr>tf_tick := n\<rparr>) i = all_acked t i"
  by (simp_all add: acked_def sent_keys_def all_acked_def devices_def)

lemma ack_received_again: "all_acked t i \<Longrightarrow> \<exists>n. ack_received e now i t = t\<lparr>tf_tick := n\<rparr>"
proof -
  have "\<forall>ed \<in> set eds. acked t i ed \<Longrightarrow> \<exists>n. fold (post_ack e i now) eds t = t\<lparr>tf_tick := n\<rparr>" for eds t
  proof (induction eds arbitrary: t)
    case Nil
    show ?case by (intro exI [of _ "tf_tick t"]) simp
  next
    case (Cons ed eds)
    then show ?case using Cons.IH [of "t\<lparr>tf_tick := Suc (tf_tick t)\<rparr>"] by (auto simp: post_ack_again)
  qed
  moreover have "\<exists>n. t = t\<lparr>tf_tick := n\<rparr>" by (intro exI [of _ "tf_tick t"]) simp
  ultimately show "all_acked t i \<Longrightarrow> ?thesis" by (auto simp: ack_received_def all_acked_def devices_def)
qed

lemma acks_again: "\<forall>i \<in> set is. all_acked t i \<Longrightarrow> \<exists>n. fold (ack_received e now) is t = t\<lparr>tf_tick := n\<rparr>"
proof (induction "is" arbitrary: t)
  case Nil
  show ?case by (intro exI [of _ "tf_tick t"]) simp
next
  case (Cons i "is")
  obtain n where "ack_received e now i t = t\<lparr>tf_tick := n\<rparr>" using ack_received_again Cons.prems by (metis list.set_intros(1))
  with Cons.IH [of "t\<lparr>tf_tick := n\<rparr>"] Cons.prems show ?case by auto
qed

definition component_frame :: "string \<Rightarrow> TariffProcessor \<Rightarrow> TariffProcessor \<Rightarrow> bool" where
  "component_frame h t t' \<longleftrightarrow>
     tf_state t' = tf_state t \<and> tf_timebase t' = tf_timebase t \<and> cache_le (tf_randomization t) (tf_randomization t') \<and>
     (\<forall>h'. h' \<noteq> h \<longrightarrow> dget_or (tf_active t') h' None = dget_or (tf_active t) h' None) \<and>
     sent_keys t \<subseteq> sent_keys t' \<and> rt_in_flight (tf_response_tracker t') = []"

lemma relay_frame:
  assumes "answers e" "rt_in_flight (tf_response_tracker t) = []"
  shows "component_frame (rc_href rc) t (relay_if_changed e tp rc iv lfdis t) \<and>
     dget_or (tf_active (relay_if_changed e tp rc iv lfdis t)) (rc_href rc) None = map_option m_rid iv \<and>
     sent_keys (relay_if_changed e tp rc iv lfdis t) = sent_keys t"
proof (cases "map_option m_rid iv = dget_or (tf_active t) (rc_href rc) None")
  case True
  then show ?thesis using assms(2) by (simp add: relay_if_changed_def component_frame_def)
next
  case False
  show ?thesis
  proof (cases iv)
    case None
    with False show ?thesis using assms(2)
      by (simp add: relay_if_changed_def component_frame_def sent_keys_def dict_simps)
  next
    case (Some i)
    have fetched: "\<exists>prices n. fetch_prices e i t = (Some prices, t\<lparr>tf_tick := n\<rparr>)"
    proof -
      have "\<exists>n. t = t\<lparr>tf_tick := n\<rparr>" by (intro exI [of _ "tf_tick t"]) simp
      then show ?thesis using assms(1) by (auto simp: fetch_prices_def answers_def split: option.splits)
    qed
    then obtain prices n where f: "fetch_prices e i t = (Some prices, t\<lparr>tf_tick := n\<rparr>)" by blast
    obtain st en c where w: "effective_window (te_rnd e) i (tf_randomization t) = ((st, en), c)" by (metis prod.exhaust)
    show ?thesis
      using False Some assms(2) effective_window_cached [OF w]
      by (auto simp: relay_if_changed_def f build_notification_def w emit_def component_frame_def sent_keys_def dict_simps)
  qed
qed

lemma process_rate_component_settles:
  assumes "answers e" "rt_in_flight (tf_response_tracker t) = []"
  shows "component_frame (rc_href rc) t (process_rate_component e lfdis tp now rc t) \<and>
     settled e now rc (process_rate_component e lfdis tp now rc t)"
proof -
  let ?is = "time_tariff_intervals rc"
  define t1 where "t1 = fold (ack_received e now) ?is t"
  obtain active c where a: "active_interval (te_rnd e) ?is now (tf_randomization t1) = (active, c)" by fastforce
  define t2 where "t2 = relay_if_changed e tp rc active lfdis (t1\<lparr>tf_randomization := c\<rparr>)"
  have p: "process_rate_component e lfdis tp now rc t = t2"
    by (simp add: process_rate_component_def t2_def flip: t1_def) (simp add: a)
  have acks: "ack_frame t t1" "\<forall>i \<in> set ?is. all_acked t1 i" unfolding t1_def using acks_frame [OF assms] by auto
  have idle: "rt_in_flight (tf_response_tracker (t1\<lparr>tf_randomization := c\<rparr>)) = []" using ack_frame_idle [OF acks(1)] by simp
  note r = relay_frame [OF assms(1) idle, of rc tp active lfdis, folded t2_def]
  have le: "cache_le (tf_randomization t1) c" using active_interval_mono [of "tf_randomization t1" "te_rnd e" ?is now] a by simp
  have le2: "cache_le c (tf_randomization t2)" using r by (simp add: component_frame_def)
  have frame: "component_frame (rc_href rc) t t2"
    using r acks(1) map_le_trans [OF le le2] by (auto simp: component_frame_def ack_frame_def sent_keys_def)
  have "active_interval (te_rnd e) ?is now (tf_randomization t2) = (active, tf_randomization t2)"
    using active_interval_again [of "te_rnd e" ?is now "tf_randomization t1" "tf_randomization t2"] a le2 by simp
  moreover have "all_acked t2 i" if "i \<in> set ?is" for i
    using acks(2) that r by (auto simp: all_acked_def acked_def devices_def component_frame_def sent_keys_def)
  ultimately show ?thesis using frame r by (simp add: p settled_def)
qed

lemma settled_frame:
  assumes "component_frame h t t'" "settled e now rc t" "rc_href rc \<noteq> h"
  shows "settled e now rc t'"
proof -
  let ?act = "active_interval (te_rnd e) (time_tariff_intervals rc) now"
  have s: "snd (?act (tf_randomization t)) = tf_randomization t"
    "map_option m_rid (fst (?act (tf_randomization t))) = dget_or (tf_active t) (rc_href rc) None"
    "\<forall>i \<in> set (time_tariff_intervals rc). all_acked t i"
    using assms(2) by (simp_all add: settled_def)
  have "?act (tf_randomization t') = (fst (?act (tf_randomization t)), tf_randomization t')"
    by (rule active_interval_again) (use assms(1) s(1) in \<open>simp add: component_frame_def\<close>)
  moreover have "all_acked t' i" if "i \<in> set (time_tariff_intervals rc)" for i
    using s(3) that assms(1) by (auto simp: component_frame_def intro: all_acked_mono)
  ultimately show ?thesis using s(2) assms(1,3) by (simp add: settled_def component_frame_def)
qed

text \<open>A settled component is left as it is.\<close>

lemma process_settled: "settled e now rc t \<Longrightarrow> \<exists>n. process_rate_component e lfdis tp now rc t = t\<lparr>tf_tick := n\<rparr>"
proof -
  assume s: "settled e now rc t"
  obtain n where n: "fold (ack_received e now) (time_tariff_intervals rc) t = t\<lparr>tf_tick := n\<rparr>"
    using acks_again s by (metis settled_def)
  obtain a c where "active_interval (te_rnd e) (time_tariff_intervals rc) now (tf_randomization t) = (a, c)" by fastforce
  with s n show ?thesis
    by (intro exI [of _ n]) (simp add: process_rate_component_def settled_def relay_if_changed_def)
qed

section \<open>A whole poll\<close>

text \<open>The part of a timebase its readings depend on; reading does not change it.\<close>

definition tb_core :: "ServerTimebase \<Rightarrow> bool \<times> TimeObservation option \<times> (string, TimeObservation) dict \<times> rat" where
  "tb_core tb = (tb_enabled tb, tb_global tb, tb_per_fsa tb, fsa_stale_seconds tb)"

lemma tb_core_now: "tb_core (snd (tb_now c sc tb)) = tb_core tb"
  by (simp add: tb_core_def snd_now state_after_resolve)

lemma fst_tb_now_core: "tb_core a = tb_core b \<Longrightarrow> fst (tb_now c sc a) = fst (tb_now c sc b)"
  by (auto simp: tb_core_def tb_now_fst tb_offset_def tb_resolve_def yields_to_global_def split: option.splits)

definition now_at :: "tariff_env \<Rightarrow> ServerTimebase \<Rightarrow> string option \<Rightarrow> int" where
  "now_at e tb sc = py_int (fst (tb_now (te_clock e 0) sc tb))"

lemma read_now_eq:
  assumes "answers e" "tb_core (tf_timebase t) = tb_core tb"
  shows "\<exists>tb'. read_now e sc t = (now_at e tb sc, t\<lparr>tf_timebase := tb', tf_tick := Suc (tf_tick t)\<rparr>) \<and> tb_core tb' = tb_core tb"
proof -
  have "te_clock e (tf_tick t) = te_clock e 0" using assms(1) unfolding answers_def by blast
  then show ?thesis
    using tb_core_now [of "te_clock e 0" sc "tf_timebase t"] fst_tb_now_core [OF assms(2), of "te_clock e 0" sc] assms(2)
    by (cases "tb_now (te_clock e 0) sc (tf_timebase t)") (auto simp: read_now_def now_at_def)
qed

text \<open>What a poll keeps, and what is settled about a profile.\<close>

definition poll_inv :: "DiscoveredState \<Rightarrow> ServerTimebase \<Rightarrow> TariffProcessor \<Rightarrow> bool" where
  "poll_inv ds tb t \<longleftrightarrow>
     tf_state t = ds \<and> tb_core (tf_timebase t) = tb_core tb \<and> rt_in_flight (tf_response_tracker t) = []"

definition profile_settled :: "tariff_env \<Rightarrow> ServerTimebase \<Rightarrow> TariffProfileState \<Rightarrow> TariffProcessor \<Rightarrow> bool" where
  "profile_settled e tb tp t \<longleftrightarrow>
     (\<forall>rc \<in> set (rate_components tp). settled e (now_at e tb (tps_discovered_from_fsa_href tp)) rc t)"

definition separate :: "TariffProfileState \<Rightarrow> TariffProfileState \<Rightarrow> bool" where
  "separate tp tp' \<longleftrightarrow> rc_href ` set (rate_components tp) \<inter> rc_href ` set (rate_components tp') = {}"

lemma settled_clock: "settled e now rc (t\<lparr>tf_timebase := tb, tf_tick := n\<rparr>) = settled e now rc t"
  by (simp add: settled_def all_acked_def acked_def devices_def sent_keys_def)

lemma components_settle:
  assumes "answers e" "poll_inv ds tb t" "distinct (map rc_href rcs)"
  shows "poll_inv ds tb (fold (process_rate_component e lfdis tp now) rcs t) \<and>
    (\<forall>rc \<in> set rcs. settled e now rc (fold (process_rate_component e lfdis tp now) rcs t))"
proof (rule fold_establish [where R = "\<lambda>a b. rc_href a \<noteq> rc_href b"])
  show "sorted_wrt (\<lambda>a b. rc_href a \<noteq> rc_href b) rcs"
    using assms(3) by (induction rcs) (auto simp: image_iff)
  show "poll_inv ds tb (process_rate_component e lfdis tp now rc s) \<and> settled e now rc (process_rate_component e lfdis tp now rc s)"
    if "poll_inv ds tb s" for rc s
    using process_rate_component_settles [OF assms(1), of s rc lfdis tp now] that by (simp add: poll_inv_def component_frame_def)
  show "settled e now rc (process_rate_component e lfdis tp now rc' s)"
    if "rc_href rc \<noteq> rc_href rc'" "poll_inv ds tb s" "settled e now rc s" for rc rc' s
    using process_rate_component_settles [OF assms(1), of s rc' lfdis tp now] settled_frame that by (auto simp: poll_inv_def)
qed (rule assms(2))

lemma components_leave:
  assumes "answers e" "poll_inv ds tb t" "rc_href rc \<notin> rc_href ` set rcs" "settled e now' rc t"
  shows "settled e now' rc (fold (process_rate_component e lfdis tp now) rcs t)"
  using assms(2-4)
proof (induction rcs arbitrary: t)
  case (Cons rc' rcs)
  have frame: "component_frame (rc_href rc') t (process_rate_component e lfdis tp now rc' t)"
    using process_rate_component_settles [OF assms(1), of t rc' lfdis tp now] Cons.prems(1) by (simp add: poll_inv_def)
  have "settled e now' rc (process_rate_component e lfdis tp now rc' t)"
    by (rule settled_frame [OF frame Cons.prems(3)]) (use Cons.prems(2) in auto)
  moreover have "poll_inv ds tb (process_rate_component e lfdis tp now rc' t)"
    using frame Cons.prems(1) by (simp add: poll_inv_def component_frame_def)
  ultimately show ?case using Cons.IH Cons.prems(2) by simp
qed simp

lemma profile_step:
  assumes "answers e" "poll_inv ds tb t" "distinct (map rc_href (rate_components tp))"
  shows "poll_inv ds tb (process_profile e lfdis tp t) \<and> profile_settled e tb tp (process_profile e lfdis tp t)"
    and "separate tp' tp \<Longrightarrow> profile_settled e tb tp' t \<Longrightarrow> profile_settled e tb tp' (process_profile e lfdis tp t)"
proof -
  obtain tb' where r: "read_now e (tps_discovered_from_fsa_href tp) t =
      (now_at e tb (tps_discovered_from_fsa_href tp), t\<lparr>tf_timebase := tb', tf_tick := Suc (tf_tick t)\<rparr>)" "tb_core tb' = tb_core tb"
    using read_now_eq [OF assms(1), of t tb] assms(2) by (auto simp: poll_inv_def)
  have inv: "poll_inv ds tb (t\<lparr>tf_timebase := tb', tf_tick := Suc (tf_tick t)\<rparr>)"
    using assms(2) r(2) by (simp add: poll_inv_def)
  show "poll_inv ds tb (process_profile e lfdis tp t) \<and> profile_settled e tb tp (process_profile e lfdis tp t)"
    using components_settle [OF assms(1) inv assms(3)] by (simp add: process_profile_def r(1) profile_settled_def)
  show "separate tp' tp \<Longrightarrow> profile_settled e tb tp' t \<Longrightarrow> profile_settled e tb tp' (process_profile e lfdis tp t)"
    unfolding process_profile_def r(1) profile_settled_def separate_def prod.case
    by (intro ballI components_leave [OF assms(1) inv]) (auto simp: settled_clock)
qed

lemma separate_profiles:
  "distinct (concat (map (map rc_href \<circ> rate_components) tps)) \<Longrightarrow>
     sorted_wrt separate tps \<and> (\<forall>tp \<in> set tps. distinct (map rc_href (rate_components tp)))"
  by (induction tps) (auto simp: separate_def)

lemma profiles_settle:
  assumes "answers e" "poll_inv ds tb t" "distinct (concat (map (map rc_href \<circ> rate_components) tps))"
  shows "poll_inv ds tb (fold (process_profile e lfdis) tps t) \<and>
    (\<forall>tp \<in> set tps. profile_settled e tb tp (fold (process_profile e lfdis) tps t))"
proof (rule fold_establish [where R = separate])
  note sep = separate_profiles [OF assms(3)]
  show "sorted_wrt separate tps" using sep by blast
  show "poll_inv ds tb (process_profile e lfdis tp s) \<and> profile_settled e tb tp (process_profile e lfdis tp s)"
    if "tp \<in> set tps" "poll_inv ds tb s" for tp s
    using profile_step(1) [OF assms(1) that(2)] sep that(1) by blast
  show "profile_settled e tb tp (process_profile e lfdis tp' s)"
    if "separate tp tp'" "tp' \<in> set tps" "poll_inv ds tb s" "profile_settled e tb tp s" for tp tp' s
    using profile_step(2) [OF assms(1) that(3)] sep that by blast
qed (rule assms(2))

text \<open>A poll over settled profiles relays and posts nothing.\<close>

definition unmoved :: "TariffProcessor \<Rightarrow> TariffProcessor \<Rightarrow> bool" where
  "unmoved t t' \<longleftrightarrow> (\<exists>tb n. t' = t\<lparr>tf_timebase := tb, tf_tick := n\<rparr> \<and> tb_core tb = tb_core (tf_timebase t))"

lemma unmoved_refl: "unmoved t t"
  by (auto simp: unmoved_def intro!: exI [of _ "tf_timebase t"] exI [of _ "tf_tick t"])

lemma unmoved_trans: "unmoved t t' \<Longrightarrow> unmoved t' t'' \<Longrightarrow> unmoved t t''"
  unfolding unmoved_def by fastforce

lemma unmoved_settled: "unmoved t t' \<Longrightarrow> settled e now rc t \<Longrightarrow> settled e now rc t'"
  by (auto simp: unmoved_def settled_clock)

lemma unmoved_out: "unmoved t t' \<Longrightarrow> tf_relayed t' = tf_relayed t \<and> tf_posted t' = tf_posted t"
  by (auto simp: unmoved_def)

lemma fold_unmoved:
  assumes "\<And>x t'. x \<in> set xs \<Longrightarrow> unmoved t t' \<Longrightarrow> unmoved t' (f x t')"
  shows "unmoved t (fold f xs t)"
  by (rule fold_invariant [of "unmoved t"]) (auto intro: unmoved_refl unmoved_trans assms)

lemma profile_unmoved:
  assumes "answers e" "profile_settled e (tf_timebase t) tp t"
  shows "unmoved t (process_profile e lfdis tp t)"
proof -
  obtain tb' where r: "read_now e (tps_discovered_from_fsa_href tp) t =
      (now_at e (tf_timebase t) (tps_discovered_from_fsa_href tp), t\<lparr>tf_timebase := tb', tf_tick := Suc (tf_tick t)\<rparr>)"
      "tb_core tb' = tb_core (tf_timebase t)"
    using read_now_eq [OF assms(1) refl] by blast
  let ?t = "t\<lparr>tf_timebase := tb', tf_tick := Suc (tf_tick t)\<rparr>" and ?now = "now_at e (tf_timebase t) (tps_discovered_from_fsa_href tp)"
  have q: "unmoved t ?t" using r(2) by (auto simp: unmoved_def)
  have "unmoved ?t (fold (process_rate_component e lfdis tp ?now) (rate_components tp) ?t)"
  proof (rule fold_unmoved)
    fix rc t' assume "rc \<in> set (rate_components tp)" "unmoved ?t t'"
    then have "settled e ?now rc t'" using unmoved_settled [OF unmoved_trans [OF q]] assms(2) by (simp add: profile_settled_def)
    then obtain n where "process_rate_component e lfdis tp ?now rc t' = t'\<lparr>tf_tick := n\<rparr>" using process_settled by blast
    then show "unmoved t' (process_rate_component e lfdis tp ?now rc t')"
      unfolding unmoved_def by (intro exI [of _ "tf_timebase t'"] exI [of _ n]) simp
  qed
  then show ?thesis using unmoved_trans [OF q] by (simp add: process_profile_def r(1))
qed

lemma now_at_core: "tb_core a = tb_core b \<Longrightarrow> now_at e a sc = now_at e b sc"
  unfolding now_at_def by (drule fst_tb_now_core) (rule arg_cong)

lemma profiles_unmoved:
  assumes "answers e" "\<forall>tp \<in> set tps. profile_settled e (tf_timebase t) tp t"
  shows "unmoved t (fold (process_profile e lfdis) tps t)"
proof (rule fold_unmoved)
  fix tp t' assume tp: "tp \<in> set tps" and q: "unmoved t t'"
  have "tb_core (tf_timebase t') = tb_core (tf_timebase t)" using q by (auto simp: unmoved_def)
  then have "now_at e (tf_timebase t') sc = now_at e (tf_timebase t) sc" for sc by (rule now_at_core)
  then have "profile_settled e (tf_timebase t') tp t'"
    using assms(2) tp unmoved_settled [OF q] by (simp add: profile_settled_def)
  then show "unmoved t' (process_profile e lfdis tp t')" by (rule profile_unmoved [OF assms(1)])
qed

lemma read_all_eq:
  assumes "answers e"
  shows "tb_core (tf_timebase t) = tb_core tb \<Longrightarrow>
     \<exists>tb' n. read_all e scs t = (map (now_at e tb) scs, t\<lparr>tf_timebase := tb', tf_tick := n\<rparr>) \<and> tb_core tb' = tb_core tb"
proof (induction scs arbitrary: t)
  case Nil
  then show ?case by (auto intro!: exI [of _ "tf_timebase t"] exI [of _ "tf_tick t"])
next
  case (Cons sc scs)
  obtain tb1 where r: "read_now e sc t = (now_at e tb sc, t\<lparr>tf_timebase := tb1, tf_tick := Suc (tf_tick t)\<rparr>)" "tb_core tb1 = tb_core tb"
    using read_now_eq [OF assms Cons.prems] by blast
  obtain tb2 n where "read_all e scs (t\<lparr>tf_timebase := tb1, tf_tick := Suc (tf_tick t)\<rparr>) =
      (map (now_at e tb) scs, t\<lparr>tf_timebase := tb2, tf_tick := n\<rparr>)" "tb_core tb2 = tb_core tb"
    using Cons.IH [of "t\<lparr>tf_timebase := tb1, tf_tick := Suc (tf_tick t)\<rparr>"] r(2) by auto
  with r show ?case by auto
qed

definition earliest_now :: "tariff_env \<Rightarrow> TariffProcessor \<Rightarrow> int" where
  "earliest_now e t = Min (now_at e (tf_timebase t) ` tariff_scopes t)"

lemma prune_windows_eq:
  assumes "answers e"
  shows "\<exists>tb' n. prune_windows e t = t\<lparr>tf_timebase := tb', tf_tick := n,
      tf_randomization := prune_offsets PRUNE_GRACE (earliest_now e t) (tf_randomization t)\<rparr> \<and> tb_core tb' = tb_core (tf_timebase t)"
proof -
  have "finite (tariff_scopes t)" by (simp add: tariff_scopes_def Let_def)
  then have s: "set (map (now_at e (tf_timebase t)) (iter_set (te_scopes e) (tariff_scopes t))) = now_at e (tf_timebase t) ` tariff_scopes t"
    by (simp add: set_iter_set)
  obtain tb' n where "read_all e (iter_set (te_scopes e) (tariff_scopes t)) t =
      (map (now_at e (tf_timebase t)) (iter_set (te_scopes e) (tariff_scopes t)), t\<lparr>tf_timebase := tb', tf_tick := n\<rparr>)"
      "tb_core tb' = tb_core (tf_timebase t)"
    using read_all_eq [OF assms refl] by blast
  then show ?thesis using s
    by (intro exI [of _ tb'] exI [of _ n]) (simp add: prune_windows_def earliest_now_def)
qed

lemma sent_keys_retain: "fst ` set (rt_sent (retain_mrids live tr)) = {k \<in> fst ` set (rt_sent tr). fst k \<in> live}"
proof -
  have "dhas (rt_sent (retain_mrids live tr)) k \<longleftrightarrow> dhas (rt_sent tr) k \<and> fst k \<in> live" for k
    by (simp add: dhas_def map_of_retain)
  then show ?thesis unfolding dhas_iff_keys by blast
qed

lemma settled_forget:
  assumes "settled e now rc t" "rc \<in> set (served_components t)"
  shows "settled e now rc (forget_withdrawn t)"
proof -
  let ?t = "forget_withdrawn t"
  have live: "m_rid i \<in> set (map m_rid (concat (map time_tariff_intervals (served_components t))))"
    if "i \<in> set (time_tariff_intervals rc)" for i using that assms(2) by auto
  have keys: "sent_keys ?t = {k \<in> sent_keys t. fst k \<in> set (map m_rid (concat (map time_tariff_intervals (served_components t))))}"
    by (simp add: forget_withdrawn_def sent_keys_def Let_def) (simp add: sent_keys_retain)
  have "all_acked ?t i" if "i \<in> set (time_tariff_intervals rc)" for i
  proof -
    have "all_acked t i" using assms(1) that by (simp add: settled_def)
    then show ?thesis
      using live [OF that] unfolding all_acked_def acked_def keys by (auto simp: devices_def forget_withdrawn_def Let_def ack_key_def)
  qed
  moreover have "dget_or (tf_active ?t) (rc_href rc) None = dget_or (tf_active t) (rc_href rc) None"
    using assms(2) by (simp add: forget_withdrawn_def Let_def dget_or_def map_of_filter_key)
  ultimately show ?thesis using assms(1) by (simp add: settled_def forget_withdrawn_def Let_def)
qed

lemma served_components_forget: "served_components (forget_withdrawn t) = served_components t"
  by (simp add: served_components_def forget_withdrawn_def Let_def)

lemma served_hrefs: "map rc_href (served_components t) =
    concat (map (map rc_href \<circ> rate_components) (map snd (tariff_profiles (tf_state t))))"
  by (simp add: served_components_def map_concat comp_def)

lemma prune_nothing:
  "list_all (\<lambda>(mr, x). m \<le> x + g) (rc_expiry c) \<Longrightarrow> prune_offsets g m c = c"
proof -
  assume "list_all (\<lambda>(mr, x). m \<le> x + g) (rc_expiry c)"
  then have "filter (\<lambda>(mr, x). x + g < m) (rc_expiry c) = []" by (auto simp: filter_empty_conv list_all_iff)
  then show ?thesis by (simp add: prune_offsets_def ddel_all_def)
qed

text \<open>After a poll everything served is settled, and the clocks are as they were.\<close>

lemma poll_settles:
  assumes "answers e" "rt_in_flight (tf_response_tracker t) = []" "distinct (map rc_href (served_components t))"
    "end_devices (tf_state t) \<noteq> []"
  shows "tf_state (process_tariffs e t) = tf_state t" "tb_core (tf_timebase (process_tariffs e t)) = tb_core (tf_timebase t)"
    "\<forall>tp \<in> set (map snd (tariff_profiles (tf_state t))). profile_settled e (tf_timebase t) tp (process_tariffs e t)"
proof -
  define t1 where "t1 = prune_windows e t"
  obtain tb' n where t1: "t1 = t\<lparr>tf_timebase := tb', tf_tick := n,
      tf_randomization := prune_offsets PRUNE_GRACE (earliest_now e t) (tf_randomization t)\<rparr>" "tb_core tb' = tb_core (tf_timebase t)"
    unfolding t1_def using prune_windows_eq [OF assms(1)] by blast
  define lfdis where "lfdis = map (hex \<circ> ed_lfdi \<circ> snd) (end_devices (tf_state t))"
  define tps where "tps = map snd (tariff_profiles (tf_state t))"
  define t2 where "t2 = fold (process_profile e lfdis) tps t1"
  have p: "process_tariffs e t = forget_withdrawn t2"
    using assms(4) by (simp add: process_tariffs_def Let_def t2_def tps_def lfdis_def t1(1) flip: t1_def)
  have inv: "poll_inv (tf_state t) (tf_timebase t) t1" using t1 assms(2) by (simp add: poll_inv_def)
  have s: "poll_inv (tf_state t) (tf_timebase t) t2" "\<And>tp. tp \<in> set tps \<Longrightarrow> profile_settled e (tf_timebase t) tp t2"
    using profiles_settle [OF assms(1) inv, of tps lfdis] assms(3) unfolding served_hrefs t2_def tps_def by auto
  show "tf_state (process_tariffs e t) = tf_state t" "tb_core (tf_timebase (process_tariffs e t)) = tb_core (tf_timebase t)"
    using s(1) by (simp_all add: p forget_withdrawn_def Let_def poll_inv_def)
  have "rc \<in> set (served_components t2)" if "tp \<in> set tps" "rc \<in> set (rate_components tp)" for tp rc
    using that s(1) by (auto simp: served_components_def poll_inv_def tps_def)
  then show "\<forall>tp \<in> set (map snd (tariff_profiles (tf_state t))). profile_settled e (tf_timebase t) tp (process_tariffs e t)"
    using s(2) settled_forget unfolding p profile_settled_def tps_def by blast
qed

section \<open>Properties\<close>

text \<open>
  C33. The price interval in effect is one that is served, not cancelled or superseded, and
  whose randomized window contains the time, and of those one with the latest creation time
  and then the latest start; there is none exactly when no such interval is served. Windows
  drawn before are kept.
\<close>

theorem active_interval_selects:
  assumes "active_interval rnd is now c = (r, c')"
  shows "(case r of
       None \<Rightarrow> list_all (\<lambda>i. \<not> in_effect c' now i) is
     | Some i \<Rightarrow> i \<in> set is \<and> in_effect c' now i \<and> list_all (\<lambda>j. in_effect c' now j \<longrightarrow> precedence c' j \<le> precedence c' i) is)
     \<and> map_of (rc_cache c) \<subseteq>\<^sub>m map_of (rc_cache c')"
  using selected_fold [of now "is" rnd c] assms
  by (cases "fold (consider_interval rnd now) is (None, c)") (auto simp: active_interval_def selected_def split: option.splits)

theorem active_interval_selects_witness:
  "\<exists>c'. active_interval (\<lambda>n m. 0) [ex_tti [1] 0 100 None, ex_tti [2] 40 100 None] 50 empty_RandomizationCache
      = (Some (ex_tti [2] 40 100 None), c') \<and> in_effect c' 50 (ex_tti [1] 0 100 None) \<and>
      precedence c' (ex_tti [1] 0 100 None) \<le> precedence c' (ex_tti [2] 40 100 None)"
proof -
  obtain r c' where a: "active_interval (\<lambda>n m. 0) [ex_tti [1] 0 100 None, ex_tti [2] 40 100 None] 50 empty_RandomizationCache = (r, c')"
    by fastforce
  have r: "r = Some (ex_tti [2] 40 100 None) \<and> in_effect c' 50 (ex_tti [1] 0 100 None)"
    using a by (auto simp: active_interval_def consider_interval_def effective_window_def get_offsets_def compute_offset_def
        empty_RandomizationCache_def ex_tti_def is_cancelled_def creation_or_zero_def in_effect_def cached_window_def dset_def Let_def)
  with active_interval_selects [OF a] a show ?thesis by auto
qed

text \<open>
  Polling again changes nothing: when the server answered and no window drawn is over for
  longer than the grace period, a second poll at the same time relays no price and posts no
  response.
\<close>

theorem second_poll_quiet:
  assumes "answers e" "rt_in_flight (tf_response_tracker t) = []" "distinct (map rc_href (served_components t))"
    and "t1 = process_tariffs e t"
    and "list_all (\<lambda>(mr, x). earliest_now e t1 \<le> x + PRUNE_GRACE) (rc_expiry (tf_randomization t1))"
  shows "tf_relayed (process_tariffs e t1) = tf_relayed t1 \<and> tf_posted (process_tariffs e t1) = tf_posted t1"
proof -
  obtain tb' n where t2: "prune_windows e t1 = t1\<lparr>tf_timebase := tb', tf_tick := n\<rparr>" "tb_core tb' = tb_core (tf_timebase t1)"
    using prune_windows_eq [OF assms(1), of t1] prune_nothing [OF assms(5)] by auto
  show ?thesis
  proof (cases "end_devices (tf_state t1) = []")
    case True
    then show ?thesis by (simp add: process_tariffs_def t2)
  next
    case False
    then have "end_devices (tf_state t) \<noteq> []"
      using assms(1,4) prune_windows_eq [OF assms(1), of t] by (auto simp: process_tariffs_def)
    note s = poll_settles [OF assms(1-3) this, folded assms(4)]
    have q: "unmoved t1 (prune_windows e t1)" using t2 by (auto simp: unmoved_def)
    have "now_at e tb' sc = now_at e (tf_timebase t) sc" for sc using t2(2) s(2) now_at_core by metis
    then have "\<forall>tp \<in> set (map snd (tariff_profiles (tf_state t1))). profile_settled e tb' tp (prune_windows e t1)"
      using s(1,3) unmoved_settled [OF q] by (simp add: profile_settled_def)
    then have "unmoved (prune_windows e t1) (fold (process_profile e lfdis) (map snd (tariff_profiles (tf_state t1))) (prune_windows e t1))" for lfdis
      by (intro profiles_unmoved [OF assms(1)]) (simp add: t2(1))
    note out = unmoved_out [OF unmoved_trans [OF q this]]
    show ?thesis
      using False out by (simp add: process_tariffs_def Let_def t2(1) forget_withdrawn_def)
  qed
qed

theorem second_poll_quiet_witness:
  "\<exists>t1. t1 = process_tariffs ex_tariff_env ex_tariff \<and> length (tf_relayed t1) = 1 \<and> length (tf_posted t1) = 1 \<and>
     tf_relayed (process_tariffs ex_tariff_env t1) = tf_relayed t1 \<and> tf_posted (process_tariffs ex_tariff_env t1) = tf_posted t1"
proof -
  let ?t1 = "process_tariffs ex_tariff_env ex_tariff"
  have "answers ex_tariff_env" by (simp add: answers_def ex_tariff_env_def)
  moreover have "rt_in_flight (tf_response_tracker ex_tariff) = []" "distinct (map rc_href (served_components ex_tariff))" by code_simp+
  moreover have "list_all (\<lambda>(mr, x). earliest_now ex_tariff_env ?t1 \<le> x + PRUNE_GRACE) (rc_expiry (tf_randomization ?t1))"
    by code_simp
  ultimately have "tf_relayed (process_tariffs ex_tariff_env ?t1) = tf_relayed ?t1 \<and> tf_posted (process_tariffs ex_tariff_env ?t1) = tf_posted ?t1"
    by (intro second_poll_quiet [OF _ _ _ refl])
  moreover have "length (tf_relayed ?t1) = 1" "length (tf_posted ?t1) = 1" by code_simp+
  ultimately show ?thesis by blast
qed

text \<open>
  A price that has ended comes back: once its window is over for longer than the grace
  period the next poll drops the window from the cache and draws a new one, and when the new
  draw of the duration reaches past the present the interval is in effect again.
\<close>

theorem ended_price_reactivates:
  assumes "wf_rand c" "\<not> is_cancelled i" "cached_window c i = Some (start, stop)" "map_of (rc_expiry c) (m_rid i) = Some stop"
    and "stop + PRUNE_GRACE < now" "interval_start i \<le> now"
    and "randomize_start i = None" "randomize_duration i = Some d" "0 < d"
    and "now < interval_start i + interval_duration i + rnd (rc_draws c) d"
  shows "fst (active_interval rnd [i] now c) = None \<and>
     fst (active_interval rnd [i] now (prune_offsets PRUNE_GRACE now c)) = Some i"
proof -
  let ?p = "prune_offsets PRUNE_GRACE now c"
  have "map_of (rc_cache ?p) (m_rid i) = None" using prune_offsets_keys(1) [OF assms(1)] assms(4,5) by simp
  moreover have "rc_draws ?p = rc_draws c" by (simp add: prune_offsets_def Let_def)
  ultimately have w: "fst (effective_window rnd i ?p) = (interval_start i, interval_start i + interval_duration i + rnd (rc_draws c) d)"
    using assms(7-9) by (simp add: effective_window_def get_offsets_def compute_offset_def Let_def)
  have "fst (active_interval rnd [i] now ?p) = Some i"
    using w assms(2,6,10) by (cases "effective_window rnd i ?p") (simp add: active_interval_def consider_interval_def Let_def)
  moreover have "fst (active_interval rnd [i] now c) = None"
    using effective_window_hit [OF assms(3), of rnd] assms(2,5) by (simp add: active_interval_def consider_interval_def PRUNE_GRACE_def)
  ultimately show ?thesis by blast
qed

definition ex_draws :: random_source where
  "ex_draws n m = (if n = 0 then 0 else 500)"

theorem ended_price_reactivates_witness:
  "\<exists>c. c = snd (active_interval ex_draws [ex_tti [1] 0 100 (Some 600)] 50 empty_RandomizationCache) \<and>
     fst (active_interval ex_draws [ex_tti [1] 0 100 (Some 600)] 200 c) = None \<and>
     fst (active_interval ex_draws [ex_tti [1] 0 100 (Some 600)] 200 (prune_offsets PRUNE_GRACE 200 c)) = Some (ex_tti [1] 0 100 (Some 600))"
proof -
  let ?i = "ex_tti [1] 0 100 (Some 600)"
  define c where "c = snd (active_interval ex_draws [?i] 50 empty_RandomizationCache)"
  have c: "c = \<lparr>rc_cache = [([1], (0, 0))], rc_expiry = [([1], 100)], rc_draws = 1\<rparr>"
    by (simp add: c_def active_interval_def consider_interval_def effective_window_def get_offsets_def compute_offset_def
        empty_RandomizationCache_def ex_tti_def is_cancelled_def creation_or_zero_def ex_draws_def dset_def Let_def)
  have "wf_rand c" by (simp add: c wf_rand_def wf_dict_def dhas_def)
  then have "fst (active_interval ex_draws [?i] 200 c) = None \<and>
      fst (active_interval ex_draws [?i] 200 (prune_offsets PRUNE_GRACE 200 c)) = Some ?i"
    by (rule ended_price_reactivates [where start = 0 and stop = 100 and d = 600])
      (simp_all add: c ex_tti_def is_cancelled_def cached_window_def PRUNE_GRACE_def ex_draws_def)
  then show ?thesis using c_def by blast
qed

end
