(* ===== verification/Scale_Factor.thy ===== *)
theory Scale_Factor
  imports Py_Numbers Py_Prelude
begin

text \<open>
  \<open>telemetry/scaling.py\<close> and \<open>telemetry/scale_factor.py\<close>: readings as integers with a flow
  direction, and values as 16-bit integers with a power-of-ten multiplier. The connector's
  values are \<open>conn_value\<close>; a bool is the integer it is in Python.
\<close>

section \<open>Readings\<close>

definition FLOW_NORMAL :: int where "FLOW_NORMAL = 1"
definition FLOW_REVERSE :: int where "FLOW_REVERSE = 19"

record ScaledReading =
  sr_value :: int
  sr_flow_direction :: int

definition signed_reading :: "int \<Rightarrow> ScaledReading" where
  "signed_reading value =
     (if value < 0 then \<lparr>sr_value = \<bar>value\<bar>, sr_flow_direction = FLOW_REVERSE\<rparr>
      else \<lparr>sr_value = value, sr_flow_direction = FLOW_NORMAL\<rparr>)"

definition magnitude_reading :: "int \<Rightarrow> ScaledReading" where
  "magnitude_reading value = \<lparr>sr_value = \<bar>value\<bar>, sr_flow_direction = FLOW_NORMAL\<rparr>"

definition no_reading :: ScaledReading where
  "no_reading = \<lparr>sr_value = 0, sr_flow_direction = FLOW_NORMAL\<rparr>"

definition scale_w :: "rat option \<Rightarrow> ScaledReading" where
  "scale_w raw = (case raw of None \<Rightarrow> no_reading | Some x \<Rightarrow> signed_reading (py_int x))"

definition scale_wh :: "rat option \<Rightarrow> ScaledReading" where
  "scale_wh raw = (case raw of None \<Rightarrow> no_reading | Some x \<Rightarrow> magnitude_reading (py_int x))"

definition scale_var :: "rat option \<Rightarrow> ScaledReading" where
  "scale_var raw = (case raw of None \<Rightarrow> no_reading | Some x \<Rightarrow> signed_reading (py_int x))"

definition scale_hz :: "rat option \<Rightarrow> ScaledReading" where
  "scale_hz raw = (case raw of None \<Rightarrow> no_reading | Some x \<Rightarrow> magnitude_reading (py_int (x * 1000)))"

definition scale_v :: "rat option \<Rightarrow> ScaledReading" where
  "scale_v raw = (case raw of None \<Rightarrow> no_reading | Some x \<Rightarrow> magnitude_reading (py_int (x * 10)))"

definition scale_pf :: "rat option \<Rightarrow> ScaledReading" where
  "scale_pf raw = (case raw of None \<Rightarrow> no_reading | Some x \<Rightarrow> signed_reading (py_int (x * 1000)))"

definition scale_va :: "rat option \<Rightarrow> ScaledReading" where
  "scale_va raw = (case raw of None \<Rightarrow> no_reading | Some x \<Rightarrow> signed_reading (py_int x))"

definition scale_a :: "rat option \<Rightarrow> ScaledReading" where
  "scale_a raw = (case raw of None \<Rightarrow> no_reading | Some x \<Rightarrow> signed_reading (py_int (x * 10)))"

section \<open>Fitting into 16 bits\<close>

lemma tenth_shrinks: "x > 32767 \<or> x < -32768 \<Longrightarrow> \<bar>round_half_even (of_int x / 10)\<bar> < \<bar>x\<bar>"
proof -
  assume x: "x > 32767 \<or> x < -32768"
  let ?r = "round_half_even (of_int x / 10)"
  have "\<bar>of_int ?r - of_int x / 10\<bar> \<le> (1 / 2 :: rat)" by (rule round_half_even_error)
  moreover have "(of_int \<bar>x\<bar> :: rat) \<ge> 32768" using x by linarith
  ultimately have "(of_int \<bar>?r\<bar> :: rat) < of_int \<bar>x\<bar>"
    by (auto simp: abs_if field_simps split: if_splits)
  then show ?thesis by linarith
qed

function clamp_int16 :: "int \<Rightarrow> int \<Rightarrow> int \<times> int" where
  "clamp_int16 int_value multiplier =
     (if int_value > 32767 \<or> int_value < -32768
      then clamp_int16 (round_half_even (of_int int_value / 10)) (multiplier + 1)
      else (int_value, multiplier))"
  by pat_completeness auto
termination
  by (relation "measure (\<lambda>(v, m). nat \<bar>v\<bar>)") (auto dest!: tenth_shrinks)

declare clamp_int16.simps [simp del]

section \<open>Decimal places\<close>

text \<open>
  \<open>str(value)\<close> of a value rounded to nine decimal places. From \<open>0.0001\<close> up to \<open>10^16\<close> it is
  positional, and elsewhere a mantissa and an exponent of at least two digits. What
  \<open>float_to_int\<close> takes from it is the length of the part after the point without trailing
  zeros; in the second form that part ends with the exponent. Floats stay below \<open>1.8 * 10^308\<close>,
  so 400 divisions find the exponent.
\<close>

definition is_whole :: "rat \<Rightarrow> bool" where
  "is_whole x \<longleftrightarrow> of_int \<lfloor>x\<rfloor> = x"

fun places_upto :: "nat \<Rightarrow> rat \<Rightarrow> nat" where
  "places_upto 0 x = 0"
| "places_upto (Suc n) x = (if is_whole x then 0 else Suc (places_upto n (x * 10)))"

fun small_mantissa :: "nat \<Rightarrow> rat \<Rightarrow> rat" where
  "small_mantissa 0 x = x"
| "small_mantissa (Suc n) x = (if \<bar>x\<bar> \<ge> 1 then x else small_mantissa n (x * 10))"

fun large_mantissa :: "nat \<Rightarrow> rat \<Rightarrow> rat \<times> nat" where
  "large_mantissa 0 x = (x, 0)"
| "large_mantissa (Suc n) x =
     (if \<bar>x\<bar> < 10 then (x, 0) else case large_mantissa n (x / 10) of (m, e) \<Rightarrow> (m, Suc e))"

definition exponent_len :: "nat \<Rightarrow> nat" where
  "exponent_len e = (if e \<ge> 100 then 3 else 2) - (if e mod 100 = 0 then 2 else if e mod 10 = 0 then 1 else 0)"

definition decimal_part_len :: "rat \<Rightarrow> nat" where
  "decimal_part_len x =
     (if x = 0 then 0
      else if \<bar>x\<bar> < 1 / 10000 then (let d = places_upto 9 (small_mantissa 9 x) in if d = 0 then 0 else d + 4)
      else if \<bar>x\<bar> < 10 ^ 16 then places_upto 9 x
      else case large_mantissa 400 x of (m, e) \<Rightarrow>
        (let d = places_upto 400 m in if d = 0 then 0 else d + 2 + exponent_len e))"

definition float_to_int :: "rat \<Rightarrow> int \<times> int" where
  "float_to_int value =
     (let r = py_round value 9; d = decimal_part_len r
      in if d > 0 then clamp_int16 (round_half_even (r * 10 ^ d)) (- int d) else clamp_int16 (py_int r) 0)"

section \<open>Connector values\<close>

datatype conn_value = CNone | CStr string | CList | CInt int | CFloat rat | CDict "(string \<times> conn_value) list" | COther

definition dict_value :: "(string, conn_value) dict \<Rightarrow> string \<Rightarrow> conn_value" where
  "dict_value d k = dget_or d k CNone"

text \<open>The scale-factor dict \<open>{value_name: n, "multiplier": m}\<close>, by its two numbers.\<close>

type_synonym scale_factor = "int \<times> int"

definition convert_dict_sf :: "(string, conn_value) dict \<Rightarrow> string \<Rightarrow> scale_factor option" where
  "convert_dict_sf sf_data value_name =
     (let val = (if dhas sf_data ''value'' then dict_value sf_data ''value'' else dict_value sf_data value_name);
          mult = dict_value sf_data ''multiplier''
      in if val = CNone \<or> mult = CNone then None
         else case mult of
                CInt m \<Rightarrow>
                  if m < -128 \<or> m > 127 then None
                  else (case val of
                          CFloat x \<Rightarrow> Some (case float_to_int x of (n, m') \<Rightarrow> clamp_int16 n m')
                        | CInt n \<Rightarrow> Some (clamp_int16 n m)
                        | _ \<Rightarrow> None)
              | _ \<Rightarrow> None)"

definition get_sf :: "conn_value \<Rightarrow> string \<Rightarrow> scale_factor option" where
  "get_sf value value_name =
     (case value of
        CDict d \<Rightarrow> convert_dict_sf d value_name
      | CInt n \<Rightarrow> Some (float_to_int (of_int n))
      | CFloat x \<Rightarrow> Some (float_to_int x)
      | _ \<Rightarrow> None)"

text \<open>The model factories: the same pair in each of the generated classes, under \<open>value\<close>, and
  under \<open>displacement\<close> for a power factor.\<close>

definition to_active_power :: "conn_value \<Rightarrow> scale_factor option" where
  "to_active_power value = get_sf value ''value''"

definition to_apparent_power :: "conn_value \<Rightarrow> scale_factor option" where
  "to_apparent_power value = get_sf value ''value''"

definition to_watt_hour :: "conn_value \<Rightarrow> scale_factor option" where
  "to_watt_hour value = get_sf value ''value''"

definition to_amp_hour :: "conn_value \<Rightarrow> scale_factor option" where
  "to_amp_hour value = get_sf value ''value''"

definition to_current_rms :: "conn_value \<Rightarrow> scale_factor option" where
  "to_current_rms value = get_sf value ''value''"

definition to_reactive_power :: "conn_value \<Rightarrow> scale_factor option" where
  "to_reactive_power value = get_sf value ''value''"

definition to_reactive_susceptance :: "conn_value \<Rightarrow> scale_factor option" where
  "to_reactive_susceptance value = get_sf value ''value''"

definition to_voltage_rms :: "conn_value \<Rightarrow> scale_factor option" where
  "to_voltage_rms value = get_sf value ''value''"

definition to_power_factor :: "conn_value \<Rightarrow> scale_factor option" where
  "to_power_factor value = get_sf value ''displacement''"

section \<open>Accuracy\<close>

lemma clamp_error:
  "clamp_int16 x m = (n, m') \<Longrightarrow>
     -32768 \<le> n \<and> n \<le> 32767 \<and> m \<le> m' \<and>
     \<bar>of_int n - of_int x / 10 ^ nat (m' - m)\<bar> \<le> (5 / 9 :: rat) * (1 - 1 / 10 ^ nat (m' - m))"
proof (induction x m rule: clamp_int16.induct)
  case (1 x m)
  show ?case
  proof (cases "x > 32767 \<or> x < -32768")
    case False
    then show ?thesis using "1.prems" by (subst (asm) clamp_int16.simps) auto
  next
    case True
    let ?y = "round_half_even (of_int x / 10)"
    have "clamp_int16 ?y (m + 1) = (n, m')" using "1.prems" True by (subst (asm) clamp_int16.simps) simp
    note ih = "1.IH" [OF True this]
    define k where "k = nat (m' - (m + 1))"
    have "m + 1 \<le> m'" using ih by blast
    then have k: "nat (m' - m) = Suc k" unfolding k_def by linarith
    have "\<bar>of_int ?y - of_int x / 10\<bar> \<le> (1 / 2 :: rat)" by (rule round_half_even_error)
    then have "\<bar>of_int ?y - of_int x / 10\<bar> / 10 ^ k \<le> (1 / 2 :: rat) / 10 ^ k" by (rule divide_right_mono) simp
    moreover have "of_int ?y / 10 ^ k - of_int x / 10 ^ Suc k = (of_int ?y - of_int x / 10) / (10 ^ k :: rat)"
      by (simp add: diff_divide_distrib)
    then have "\<bar>of_int ?y / 10 ^ k - of_int x / 10 ^ Suc k\<bar> = \<bar>of_int ?y - of_int x / 10\<bar> / (10 ^ k :: rat)"
      by (simp only: abs_divide) simp
    ultimately have step: "\<bar>of_int ?y / 10 ^ k - of_int x / 10 ^ Suc k\<bar> \<le> (1 / 2 :: rat) / 10 ^ k" by simp
    have "\<bar>of_int n - of_int ?y / 10 ^ k\<bar> \<le> (5 / 9 :: rat) * (1 - 1 / 10 ^ k)" using ih by (simp add: k_def)
    then have "\<bar>of_int n - of_int x / 10 ^ Suc k\<bar> \<le> (5 / 9 :: rat) * (1 - 1 / 10 ^ k) + (1 / 2) / 10 ^ k"
      using step by linarith
    also have "\<dots> = (5 / 9) * (1 - 1 / 10 ^ Suc k)" by (simp add: field_simps)
    finally show ?thesis using ih by (simp add: k)
  qed
qed

lemma clamp_accurate:
  assumes "clamp_int16 x m = (n, m')"
  shows "\<bar>of_int n * 10 powi m' - of_int x * 10 powi m\<bar> \<le> (5 / 9 :: rat) * 10 powi m'"
proof -
  define k where "k = nat (m' - m)"
  note e = clamp_error [OF assms, folded k_def]
  have m': "m' = m + int k" using e by (simp add: k_def)
  have x: "(of_int x * 10 powi m :: rat) = (of_int x / 10 ^ k) * 10 powi m'"
    by (simp add: m' power_int_add)
  have "\<bar>of_int n - of_int x / 10 ^ k\<bar> \<le> (5 / 9 :: rat)" using e by (simp add: field_simps)
  then have "\<bar>of_int n - of_int x / 10 ^ k\<bar> * 10 powi m' \<le> (5 / 9 :: rat) * 10 powi m'"
    by (rule mult_right_mono) simp
  moreover have "\<bar>of_int n * 10 powi m' - (of_int x / 10 ^ k) * 10 powi m'\<bar> = \<bar>of_int n - of_int x / 10 ^ k\<bar> * (10 powi m' :: rat)"
    by (metis abs_mult abs_of_pos left_diff_distrib zero_less_numeral zero_less_power_int)
  ultimately show ?thesis unfolding x by simp
qed

lemma clamp_fits: "-32768 \<le> x \<Longrightarrow> x \<le> 32767 \<Longrightarrow> clamp_int16 x m = (x, m)"
  by (subst clamp_int16.simps) auto

lemma whole_iff: "is_whole x \<longleftrightarrow> (\<exists>n. x = of_int n)"
  by (auto simp: is_whole_def)

lemma whole_times_ten: "is_whole x \<Longrightarrow> is_whole (x * 10 ^ k)"
proof -
  assume "is_whole x"
  then obtain n where "x = of_int n" by (auto simp: whole_iff)
  then have "x * 10 ^ k = of_int (n * 10 ^ k)" by simp
  then show ?thesis unfolding whole_iff by blast
qed

lemma places_upto_whole: "is_whole (x * 10 ^ n) \<Longrightarrow> is_whole (x * 10 ^ places_upto n x)"
  by (induction n x rule: places_upto.induct) (simp_all add: mult.assoc)

lemma rounded_whole: "is_whole (py_round x n * 10 ^ n)"
  unfolding whole_iff by (intro exI [of _ "round_half_even (x * 10 ^ n)"]) (simp add: py_round_def)

lemma round_whole: "is_whole x \<Longrightarrow> of_int (round_half_even x) = x" "is_whole x \<Longrightarrow> of_int (py_int x) = x"
  by (auto simp: whole_iff py_int_def)

text \<open>The digits taken are all there are, unless the value is printed with a negative exponent.\<close>

lemma decimal_part_whole:
  assumes "r = py_round v 9" "r = 0 \<or> 1 / 10000 \<le> \<bar>r\<bar>" "\<bar>r\<bar> < 10 ^ 16 \<or> is_whole r"
  shows "is_whole (r * 10 ^ decimal_part_len r)"
proof (cases "r = 0 \<or> \<bar>r\<bar> \<ge> 10 ^ 16")
  case True
  then have "is_whole r" using assms(3) by (auto simp: is_whole_def)
  then show ?thesis by (rule whole_times_ten)
next
  case False
  then have "decimal_part_len r = places_upto 9 r" using assms(2) by (simp add: decimal_part_len_def)
  then show ?thesis using places_upto_whole [of r 9] rounded_whole [of v 9] assms(1) by simp
qed

lemma float_to_int_clamps:
  assumes "r = py_round v 9" "r = 0 \<or> 1 / 10000 \<le> \<bar>r\<bar>" "\<bar>r\<bar> < 10 ^ 16 \<or> is_whole r"
  shows "\<exists>x d. float_to_int v = clamp_int16 x (- int d) \<and> of_int x * 10 powi (- int d) = r"
proof (cases "decimal_part_len r = 0")
  case True
  then have "is_whole r" using decimal_part_whole [OF assms] by simp
  then show ?thesis using True assms(1)
    by (intro exI [of _ "py_int r"] exI [of _ 0]) (simp add: float_to_int_def Let_def round_whole)
next
  case False
  let ?d = "decimal_part_len r"
  have "of_int (round_half_even (r * 10 ^ ?d)) = r * 10 ^ ?d" using round_whole(1) decimal_part_whole [OF assms] by blast
  then show ?thesis using False assms(1)
    by (intro exI [of _ "round_half_even (r * 10 ^ ?d)"] exI [of _ ?d])
      (simp add: float_to_int_def Let_def power_int_minus field_simps)
qed

section \<open>Properties\<close>

text \<open>
  C34. A value is converted to an integer of 16 bits and a power of ten, and what the pair
  stands for differs from the value rounded to nine places by at most five ninths of a unit
  in the last place (rounding several times adds up to more than one half). The value is zero
  or at least \<open>0.0001\<close> in magnitude: below, Python prints it with an exponent.
\<close>

theorem float_to_int_accurate:
  assumes "float_to_int v = (n, m)" "r = py_round v 9" "r = 0 \<or> 1 / 10000 \<le> \<bar>r\<bar>" "\<bar>r\<bar> < 10 ^ 16 \<or> is_whole r"
  shows "-32768 \<le> n \<and> n \<le> 32767 \<and> \<bar>of_int n * 10 powi m - r\<bar> \<le> 5 / 9 * 10 powi m"
proof -
  obtain x d where x: "clamp_int16 x (- int d) = (n, m)" "of_int x * 10 powi (- int d) = r"
    using float_to_int_clamps [OF assms(2-4)] assms(1) by auto
  then show ?thesis using clamp_error [OF x(1)] clamp_accurate [OF x(1)] by simp
qed

theorem float_to_int_accurate_witness:
  "float_to_int (327685 / 10) = (3277, 1) \<and> \<bar>of_int 3277 * 10 powi 1 - (327685 / 10 :: rat)\<bar> \<le> 5 / 9 * 10 powi 1"
proof -
  have r: "py_round (327685 / 10) 9 = 327685 / 10" by code_simp
  have f: "float_to_int (327685 / 10) = (3277, 1)" by code_simp
  from float_to_int_accurate [OF f refl] f show ?thesis by (simp add: r)
qed

text \<open>
  The multiplier that a connector gives with a floating-point value is dropped: the value
  is converted as if it stood alone, whatever power of ten came with it.
\<close>

theorem float_multiplier_dropped:
  assumes "-128 \<le> m" "m \<le> 127"
  shows "get_sf (CDict [(''value'', CFloat v), (''multiplier'', CInt m)]) name = get_sf (CFloat v) name"
proof -
  obtain x d where f: "float_to_int v = clamp_int16 x d"
    by (cases "decimal_part_len (py_round v 9) > 0") (simp_all add: float_to_int_def Let_def)
  obtain n m' where c: "clamp_int16 x d = (n, m')" by fastforce
  have "clamp_int16 n m' = (n, m')" using clamp_error [OF c] by (intro clamp_fits) auto
  then show ?thesis
    using assms f c by (simp add: get_sf_def convert_dict_sf_def dict_value_def dget_or_def dhas_def)
qed

theorem float_multiplier_dropped_witness:
  "get_sf (CDict [(''value'', CFloat (3 / 2)), (''multiplier'', CInt 3)]) ''value'' = Some (15, -1)"
proof -
  have "float_to_int (3 / 2) = (15, -1)" by code_simp
  then show ?thesis using float_multiplier_dropped [of 3 "3 / 2" "''value''"] by (simp add: get_sf_def)
qed

end
