(* ===== verification/Control_Modes.thy ===== *)
theory Control_Modes
  imports Modes Py_Numbers
begin

text \<open>
  \<open>connectors/modes.py\<close>: the table from control elements to connector methods, the plain data a
  parsed element becomes, and the translation of a control or a default control into connector
  calls. The text behind a field of a control base is opaque in \<open>Sep_Model\<close>; the parameter
  \<open>view\<close> gives the parsed object it stands for.
\<close>

section \<open>Element names in snake case\<close>

definition UPPERCASE :: string where "UPPERCASE = ''ABCDEFGHIJKLMNOPQRSTUVWXYZ''"
definition LOWERCASE :: string where "LOWERCASE = ''abcdefghijklmnopqrstuvwxyz''"

definition is_upper :: "char \<Rightarrow> bool" where "is_upper c = (c \<in> set UPPERCASE)"
definition is_lower :: "char \<Rightarrow> bool" where "is_lower c = (c \<in> set LOWERCASE)"
definition is_digit :: "char \<Rightarrow> bool" where "is_digit c = (c \<in> set ''0123456789'')"

text \<open>\<open>str.lower()\<close> and \<open>str.upper()\<close> on ASCII text, which element names and hexadecimal are.\<close>

definition char_lower :: "char \<Rightarrow> char" where
  "char_lower c = dget_or (zip UPPERCASE LOWERCASE) c c"

definition char_upper :: "char \<Rightarrow> char" where
  "char_upper c = dget_or (zip LOWERCASE UPPERCASE) c c"

definition py_lower :: "string \<Rightarrow> string" where "py_lower = map char_lower"
definition py_upper :: "string \<Rightarrow> string" where "py_upper = map char_upper"

text \<open>
  The first substitution, of \<open>([A-Z]+)([A-Z][a-z])\<close> by \<open>\1_\2\<close>: a match is a maximal run of at
  least two capitals with a lower-case letter after it, and the last capital starts the new word.
\<close>

function split_acronyms :: "string \<Rightarrow> string" where
  "split_acronyms [] = []"
| "split_acronyms (c # cs) =
     (if \<not> is_upper c then c # split_acronyms cs
      else let run = c # takeWhile is_upper cs; rest = dropWhile is_upper cs
           in if length run \<ge> 2 \<and> rest \<noteq> [] \<and> is_lower (hd rest)
              then butlast run @ [CHR ''_'', last run, hd rest] @ split_acronyms (tl rest)
              else run @ split_acronyms rest)"
  by pat_completeness auto
termination
  by (relation "measure length") (auto simp: less_Suc_eq_le length_dropWhile_le intro: le_trans [OF diff_le_self length_dropWhile_le])

text \<open>The second one, of \<open>([a-z0-9])([A-Z])\<close> by \<open>\1_\2\<close>.\<close>

fun split_words :: "string \<Rightarrow> string" where
  "split_words (a # b # cs) =
     (if (is_lower a \<or> is_digit a) \<and> is_upper b then a # CHR ''_'' # b # split_words cs
      else a # split_words (b # cs))"
| "split_words cs = cs"

definition snake_case :: "string \<Rightarrow> string" where
  "snake_case el = py_lower (split_words (split_acronyms el))"

section \<open>The table of control elements\<close>

datatype value_kind = CURVE | VALUE | DOE_LIMIT

record ControlElement =
  ce_element :: string
  ce_field :: string
  ce_kind :: value_kind

definition ctl_element :: "string \<Rightarrow> string \<Rightarrow> value_kind \<Rightarrow> ControlElement" where
  "ctl_element el f k = \<lparr>ce_element = el, ce_field = f, ce_kind = k\<rparr>"

definition ce_method :: "ControlElement \<Rightarrow> string" where
  "ce_method e = ''update_'' @ snake_case (ce_element e)"

definition ce_control :: "ControlElement \<Rightarrow> string" where
  "ce_control e = snake_case (ce_element e)"

definition CONTROL_ELEMENTS :: "ControlElement list" where
  "CONTROL_ELEMENTS =
    [ctl_element ''opModConnect'' ''op_mod_connect'' VALUE,
     ctl_element ''opModEnergize'' ''op_mod_energize'' VALUE,
     ctl_element ''opModDeltaVar'' ''op_mod_delta_var'' VALUE,
     ctl_element ''opModDeltaW'' ''op_mod_delta_w'' VALUE,
     ctl_element ''opModFixedPFAbsorbW'' ''op_mod_fixed_pfabsorb_w'' VALUE,
     ctl_element ''opModFixedPFInjectW'' ''op_mod_fixed_pfinject_w'' VALUE,
     ctl_element ''opModFixedV'' ''op_mod_fixed_v'' VALUE,
     ctl_element ''opModFixedVar'' ''op_mod_fixed_var'' VALUE,
     ctl_element ''opModFixedW'' ''op_mod_fixed_w'' VALUE,
     ctl_element ''opModFreqDroop'' ''op_mod_freq_droop'' VALUE,
     ctl_element ''opModFreqWatt'' ''op_mod_freq_watt'' CURVE,
     ctl_element ''opModGridConnectPermit'' ''op_mod_grid_connect_permit'' VALUE,
     ctl_element ''opModHFRTMayTrip'' ''op_mod_hfrtmay_trip'' CURVE,
     ctl_element ''opModHFRTMustTrip'' ''op_mod_hfrtmust_trip'' CURVE,
     ctl_element ''opModHVRTMayTrip'' ''op_mod_hvrtmay_trip'' CURVE,
     ctl_element ''opModHVRTMomentaryCessation'' ''op_mod_hvrtmomentary_cessation'' CURVE,
     ctl_element ''opModHVRTMustTrip'' ''op_mod_hvrtmust_trip'' CURVE,
     ctl_element ''opModIslandPermit'' ''op_mod_island_permit'' VALUE,
     ctl_element ''opModLFRTMayTrip'' ''op_mod_lfrtmay_trip'' CURVE,
     ctl_element ''opModLFRTMustTrip'' ''op_mod_lfrtmust_trip'' CURVE,
     ctl_element ''opModLVRTMayTrip'' ''op_mod_lvrtmay_trip'' CURVE,
     ctl_element ''opModLVRTMomentaryCessation'' ''op_mod_lvrtmomentary_cessation'' CURVE,
     ctl_element ''opModLVRTMustTrip'' ''op_mod_lvrtmust_trip'' CURVE,
     ctl_element ''opModMaxLimPctVAAbsorb'' ''op_mod_max_lim_pct_vaabsorb'' VALUE,
     ctl_element ''opModMaxLimPctVAInject'' ''op_mod_max_lim_pct_vainject'' VALUE,
     ctl_element ''opModMaxLimPctVarAbsorb'' ''op_mod_max_lim_pct_var_absorb'' VALUE,
     ctl_element ''opModMaxLimPctVarInject'' ''op_mod_max_lim_pct_var_inject'' VALUE,
     ctl_element ''opModMaxLimPctWAbsorb'' ''op_mod_max_lim_pct_wabsorb'' VALUE,
     ctl_element ''opModMaxLimVarAbsorb'' ''op_mod_max_lim_var_absorb'' VALUE,
     ctl_element ''opModMaxLimVarInject'' ''op_mod_max_lim_var_inject'' VALUE,
     ctl_element ''opModMaxLimW'' ''op_mod_max_lim_w'' VALUE,
     ctl_element ''opModMaxLimWAbsorb'' ''op_mod_max_lim_wabsorb'' VALUE,
     ctl_element ''opModMaxLimWInject'' ''op_mod_max_lim_winject'' VALUE,
     ctl_element ''opModTargetV'' ''op_mod_target_v'' VALUE,
     ctl_element ''opModTargetVar'' ''op_mod_target_var'' VALUE,
     ctl_element ''opModTargetW'' ''op_mod_target_w'' VALUE,
     ctl_element ''opModVoltVar'' ''op_mod_volt_var'' CURVE,
     ctl_element ''opModVoltWatt'' ''op_mod_volt_watt'' CURVE,
     ctl_element ''opModWattPF'' ''op_mod_watt_pf'' CURVE,
     ctl_element ''opModWattVar'' ''op_mod_watt_var'' CURVE]"

definition DOE_ELEMENTS :: "ControlElement list" where
  "DOE_ELEMENTS =
    [ctl_element ''opModExpLimW'' [] DOE_LIMIT, ctl_element ''opModImpLimW'' [] DOE_LIMIT,
     ctl_element ''opModGenLimW'' [] DOE_LIMIT, ctl_element ''opModLoadLimW'' [] DOE_LIMIT]"

definition DEFAULT_CONTROL_ELEMENTS :: "ControlElement list" where
  "DEFAULT_CONTROL_ELEMENTS =
    [ctl_element ''setESDelay'' ''set_esdelay'' VALUE,
     ctl_element ''setESHighFreq'' ''set_eshigh_freq'' VALUE,
     ctl_element ''setESHighVolt'' ''set_eshigh_volt'' VALUE,
     ctl_element ''setESLowFreq'' ''set_eslow_freq'' VALUE,
     ctl_element ''setESLowVolt'' ''set_eslow_volt'' VALUE,
     ctl_element ''setESRampTms'' ''set_esramp_tms'' VALUE,
     ctl_element ''setESRandomDelay'' ''set_esrandom_delay'' VALUE,
     ctl_element ''setGradW'' ''set_grad_w'' VALUE,
     ctl_element ''setSoftGradW'' ''set_soft_grad_w'' VALUE]"

definition ALL_ELEMENTS :: "ControlElement list" where
  "ALL_ELEMENTS = CONTROL_ELEMENTS @ DOE_ELEMENTS @ DEFAULT_CONTROL_ELEMENTS"

text \<open>A dictionary comprehension or display: later entries overwrite earlier ones.\<close>

definition dict_of :: "('k \<times> 'v) list \<Rightarrow> ('k, 'v) dict" where
  "dict_of ps = fold (\<lambda>(k, v). dset k v) ps []"

definition METHOD_BY_ELEMENT :: "(string, string) dict" where
  "METHOD_BY_ELEMENT = dict_of (map (\<lambda>e. (ce_element e, ce_method e)) ALL_ELEMENTS)"

definition ELEMENT_BY_MODE :: "(string, ControlElement) dict" where
  "ELEMENT_BY_MODE = dict_of (map (\<lambda>e. (ce_field e, e)) CONTROL_ELEMENTS @ map (\<lambda>e. (ce_element e, e)) DOE_ELEMENTS)"

section \<open>Element values\<close>

text \<open>
  A parsed Python value. A model object is the list of its variables in the order of the binding
  metadata: attribute, element name and value, where an unset attribute is \<open>PNone\<close>. Plain data
  uses the same type, with \<open>PDict\<close> for the dictionaries built.
\<close>

datatype py_value =
    PNone
  | PBool bool
  | PInt int
  | PFloat rat
  | PStr string
  | PBytes bytes
  | PList "py_value list"
  | PDict "(string \<times> py_value) list"
  | PModel "(string \<times> string \<times> py_value) list"
  | PObject string

type_synonym params = "(string, py_value) dict"

definition SKIPPED_FIELDS :: "string set" where
  "SKIPPED_FIELDS = {''other_element'', ''any_attributes'', ''disabled''}"

definition endswith :: "string \<Rightarrow> string \<Rightarrow> bool" where
  "endswith s p = startswith (rev s) (rev p)"

text \<open>The variables \<open>_xml_names\<close> keeps.\<close>

definition is_content :: "string \<Rightarrow> bool" where
  "is_content attr = (attr \<notin> SKIPPED_FIELDS \<and> \<not> endswith attr ''_r2_3'')"

text \<open>\<open>getattr(obj, name, None)\<close>.\<close>

definition py_getattr :: "py_value \<Rightarrow> string \<Rightarrow> py_value" where
  "py_getattr v name =
     (case v of
        PModel vars \<Rightarrow> (case map_of (map (\<lambda>(a, _, x). (a, x)) vars) name of None \<Rightarrow> PNone | Some x \<Rightarrow> x)
      | _ \<Rightarrow> PNone)"

definition unwrap_value :: "params \<Rightarrow> py_value" where
  "unwrap_value out = (if set (map fst out) = {''value''} then dget_or out ''value'' PNone else PDict out)"

fun element_value :: "py_value \<Rightarrow> py_value"
  and element_values :: "py_value list \<Rightarrow> py_value list"
  and element_fields :: "(string \<times> string \<times> py_value) list \<Rightarrow> params \<Rightarrow> params" where
  "element_value (PBytes bs) = PStr (py_upper (hex bs))"
| "element_value (PList xs) = PList (element_values xs)"
| "element_value (PModel vars) = unwrap_value (element_fields vars [])"
| "element_value v = v"
| "element_values [] = []"
| "element_values (x # xs) = element_value x # element_values xs"
| "element_fields [] out = out"
| "element_fields ((attr, name, x) # vars) out =
     (if \<not> is_content attr \<or> x = PNone \<or> x = PList [] then element_fields vars out
      else element_fields vars (dset name (element_value x) out))"

section \<open>Translation\<close>

definition find_curve :: "py_value \<Rightarrow> py_value list \<Rightarrow> py_value option" where
  "find_curve href curves = find (\<lambda>c. py_getattr c ''href'' = href) curves"

definition is_disabled :: "py_value \<Rightarrow> bool" where
  "is_disabled v = (v \<noteq> PNone \<and> py_getattr v ''disabled'' = PBool True)"

definition DISABLED :: params where
  "DISABLED = [(''enabled'', PBool False)]"

definition enabled_with :: "py_value \<Rightarrow> params" where
  "enabled_with v = [(''enabled'', PBool True), (''value'', v)]"

text \<open>\<open>_element_params\<close>. A curve field holds a link, which has an \<open>href\<close> attribute.\<close>

definition element_params ::
  "(string \<Rightarrow> py_value) \<Rightarrow> ControlElement \<Rightarrow> dercontrol_base \<Rightarrow> py_value list \<Rightarrow> params option" where
  "element_params view e base curves =
     (if ce_kind e = DOE_LIMIT
      then (case map_of (doe_limits base) (ce_element e) of
              None \<Rightarrow> None
            | Some (v, m) \<Rightarrow> Some (enabled_with (PDict [(''value'', PInt v), (''multiplier'', PInt m)])))
      else (case base_get base (ce_field e) of
              None \<Rightarrow> None
            | Some text \<Rightarrow>
                (let fv = view text
                 in if is_disabled fv then Some DISABLED
                    else if ce_kind e = CURVE
                    then (case find_curve (py_getattr fv ''href'') curves of
                            None \<Rightarrow> Some DISABLED
                          | Some c \<Rightarrow> Some (enabled_with (element_value c)))
                    else Some (enabled_with (element_value fv)))))"

definition is_enabled :: "params \<Rightarrow> bool" where
  "is_enabled p = (map_of p ''enabled'' = Some (PBool True))"

definition with_ramp :: "(string \<Rightarrow> py_value) \<Rightarrow> dercontrol_base \<Rightarrow> params \<Rightarrow> params" where
  "with_ramp view base p =
     (case base_get base ''ramp_tms'' of
        None \<Rightarrow> p
      | Some t \<Rightarrow> if is_enabled p then dset ''rampTms'' (view t) p else p)"

definition translate_element ::
  "(string \<Rightarrow> py_value) \<Rightarrow> dercontrol_base \<Rightarrow> py_value list \<Rightarrow> ControlElement \<Rightarrow> (string \<times> params) option" where
  "translate_element view base curves e =
     map_option (\<lambda>p. (ce_method e, with_ramp view base p)) (element_params view e base curves)"

definition translate_controls ::
  "(string \<Rightarrow> py_value) \<Rightarrow> dercontrol_base \<Rightarrow> py_value list \<Rightarrow> (string \<times> params) list" where
  "translate_controls view base curves =
     List.map_filter (translate_element view base curves) (CONTROL_ELEMENTS @ DOE_ELEMENTS)"

definition translate_default_controls ::
  "(string \<Rightarrow> py_value) \<Rightarrow> DefaultDercontrol \<Rightarrow> py_value list \<Rightarrow> (string \<times> params) list" where
  "translate_default_controls view dderc curves =
     translate_controls view (dderc_base dderc) curves
     @ List.map_filter (\<lambda>e. map_option (\<lambda>t. (ce_method e, enabled_with (element_value (view t))))
                              (map_of (dderc_settings dderc) (ce_field e))) DEFAULT_CONTROL_ELEMENTS"

section \<open>The modes a connector supports\<close>

text \<open>
  What \<open>getattr\<close> finds for a method on a connector: the inherited no-op of \<open>BaseConnector\<close>,
  nothing, or an implementation.
\<close>

datatype method_support = Inherited | Missing | Implemented

definition MODES2_BIT_OF_ELEMENT :: "(string, nat) dict" where
  "MODES2_BIT_OF_ELEMENT =
    [(''opModMaxLimPctVAAbsorb'', 0), (''opModMaxLimPctVAInject'', 1), (''opModMaxLimPctVarAbsorb'', 2),
     (''opModMaxLimPctVarInject'', 3), (''opModMaxLimPctWAbsorb'', 4), (''opModMaxLimVarAbsorb'', 5),
     (''opModMaxLimVarInject'', 6), (''opModMaxLimWAbsorb'', 7), (''opModMaxLimWInject'', 8),
     (''opModTargetV'', 9)]"

definition implemented_modes2 :: "(string \<Rightarrow> method_support) \<Rightarrow> nat" where
  "implemented_modes2 support =
     fold (\<lambda>(el, b) bits. if support (''update_'' @ snake_case el) = Implemented then bits OR push_bit b 1 else bits)
       MODES2_BIT_OF_ELEMENT 0"

text \<open>What the connector's own \<open>supported_modes2()\<close> gives: it has none or it raises, it returns
  something else than an integer, or an integer.\<close>

datatype stated_modes = StatedNothing | StatedOther | StatedInt int

definition modes_supported2 :: "stated_modes \<Rightarrow> (string \<Rightarrow> method_support) \<Rightarrow> int" where
  "modes_supported2 stated support =
     (case stated of StatedInt v \<Rightarrow> v AND 0x3FF | _ \<Rightarrow> int (implemented_modes2 support))"

section \<open>The method names\<close>

text \<open>The \<open>update_*\<close> methods \<open>BaseConnector\<close> declares (\<open>connectors/base.py\<close>), in their order.\<close>

definition BASE_UPDATE_METHODS :: "string list" where
  "BASE_UPDATE_METHODS =
    [''update_op_mod_connect'', ''update_op_mod_energize'', ''update_op_mod_delta_var'',
     ''update_op_mod_delta_w'', ''update_op_mod_fixed_pf_absorb_w'',
     ''update_op_mod_fixed_pf_inject_w'', ''update_op_mod_fixed_v'', ''update_op_mod_fixed_var'',
     ''update_op_mod_fixed_w'', ''update_op_mod_freq_droop'', ''update_op_mod_freq_watt'',
     ''update_op_mod_grid_connect_permit'', ''update_op_mod_hfrt_may_trip'',
     ''update_op_mod_hfrt_must_trip'', ''update_op_mod_hvrt_may_trip'',
     ''update_op_mod_hvrt_momentary_cessation'', ''update_op_mod_hvrt_must_trip'',
     ''update_op_mod_island_permit'', ''update_op_mod_lfrt_may_trip'',
     ''update_op_mod_lfrt_must_trip'', ''update_op_mod_lvrt_may_trip'',
     ''update_op_mod_lvrt_momentary_cessation'', ''update_op_mod_lvrt_must_trip'',
     ''update_op_mod_max_lim_pct_va_absorb'', ''update_op_mod_max_lim_pct_va_inject'',
     ''update_op_mod_max_lim_pct_var_absorb'', ''update_op_mod_max_lim_pct_var_inject'',
     ''update_op_mod_max_lim_pct_w_absorb'', ''update_op_mod_max_lim_var_absorb'',
     ''update_op_mod_max_lim_var_inject'', ''update_op_mod_max_lim_w'',
     ''update_op_mod_max_lim_w_absorb'', ''update_op_mod_max_lim_w_inject'',
     ''update_op_mod_target_v'', ''update_op_mod_target_var'', ''update_op_mod_target_w'',
     ''update_op_mod_volt_var'', ''update_op_mod_volt_watt'', ''update_op_mod_watt_pf'',
     ''update_op_mod_watt_var'', ''update_op_mod_exp_lim_w'', ''update_op_mod_imp_lim_w'',
     ''update_op_mod_gen_lim_w'', ''update_op_mod_load_lim_w'', ''update_set_es_delay'',
     ''update_set_es_high_freq'', ''update_set_es_high_volt'', ''update_set_es_low_freq'',
     ''update_set_es_low_volt'', ''update_set_es_ramp_tms'', ''update_set_es_random_delay'',
     ''update_set_grad_w'', ''update_set_soft_grad_w'']"

lemma dict_of_distinct: "distinct (map fst ps) \<Longrightarrow> dict_of ps = ps"
  using fold_dset_distinct [of fst ps "[]" snd] by (simp add: dict_of_def case_prod_unfold)

lemma ce_fields [simp]:
  "ce_element (ctl_element el f k) = el" "ce_field (ctl_element el f k) = f" "ce_kind (ctl_element el f k) = k"
  by (simp_all add: ctl_element_def)

lemma all_methods: "map ce_method ALL_ELEMENTS = BASE_UPDATE_METHODS"
  by code_simp

lemma distinct_methods: "distinct (map ce_method ALL_ELEMENTS)"
  unfolding all_methods by code_simp

lemma distinct_control_methods: "distinct (map ce_method (CONTROL_ELEMENTS @ DOE_ELEMENTS))"
  using distinct_methods unfolding ALL_ELEMENTS_def by (metis append.assoc distinct_append map_append)

lemma base_declares: "e \<in> set ALL_ELEMENTS \<Longrightarrow> ce_method e \<in> set BASE_UPDATE_METHODS"
  using all_methods by (metis image_eqI list.set_map)

section \<open>What a translation contains\<close>

text \<open>The base sets the element.\<close>

definition carries :: "dercontrol_base \<Rightarrow> ControlElement \<Rightarrow> bool" where
  "carries base e =
     (if ce_kind e = DOE_LIMIT then dhas (doe_limits base) (ce_element e) else base_get base (ce_field e) \<noteq> None)"

text \<open>The base sets the element to a value the client can pass on: not marked disabled and, for a
  curve, one the client holds.\<close>

definition applies :: "(string \<Rightarrow> py_value) \<Rightarrow> dercontrol_base \<Rightarrow> py_value list \<Rightarrow> ControlElement \<Rightarrow> bool" where
  "applies view base curves e =
     (if ce_kind e = DOE_LIMIT then dhas (doe_limits base) (ce_element e)
      else case base_get base (ce_field e) of
             None \<Rightarrow> False
           | Some t \<Rightarrow> \<not> is_disabled (view t)
               \<and> (ce_kind e = CURVE \<longrightarrow> find_curve (py_getattr (view t) ''href'') curves \<noteq> None))"

lemma is_enabled_cases [simp]: "is_enabled (enabled_with v)" "\<not> is_enabled DISABLED"
  by (simp_all add: is_enabled_def enabled_with_def DISABLED_def)

lemma with_ramp_enabled [simp]: "is_enabled (with_ramp view base p) = is_enabled p"
  by (auto simp: with_ramp_def is_enabled_def split: option.splits)

lemma element_params_None: "element_params view e base curves = None \<longleftrightarrow> \<not> carries base e"
  by (auto simp: element_params_def carries_def dhas_def Let_def split: option.splits)

lemma element_params_enabled:
  "element_params view e base curves = Some p \<Longrightarrow> is_enabled p = applies view base curves e"
  by (auto simp: element_params_def applies_def dhas_def Let_def split: option.splits if_splits)

lemma element_params_cases:
  "element_params view e base curves = Some p \<Longrightarrow> is_enabled p \<or> p = DISABLED"
  by (auto simp: element_params_def Let_def split: option.splits if_splits)

lemma with_ramp_disabled [simp]: "with_ramp view base DISABLED = DISABLED"
  by (simp add: with_ramp_def split: option.splits)

lemma map_map_filter:
  assumes "\<And>x. x \<in> set xs \<Longrightarrow> map_option h (f x) = (if P x then Some (g x) else None)"
  shows "map h (List.map_filter f xs) = map g (filter P xs)"
  using assms
proof (induction xs)
  case Nil
  then show ?case by (simp add: List.map_filter_def)
next
  case (Cons x xs)
  then have "map_option h (f x) = (if P x then Some (g x) else None)" by simp
  with Cons show ?case by (cases "f x") (auto simp: List.map_filter_def split: if_splits)
qed

lemma translate_element_enabled:
  "map_option (\<lambda>(m, p). (m, is_enabled p)) (translate_element view base curves e)
     = (if carries base e then Some (ce_method e, applies view base curves e) else None)"
  using element_params_None [of view e base curves] element_params_enabled [of view e base curves]
  by (cases "element_params view e base curves") (auto simp: translate_element_def)

lemma translated_calls:
  "map (\<lambda>(m, p). (m, is_enabled p)) (translate_controls view base curves)
     = map (\<lambda>e. (ce_method e, applies view base curves e)) (filter (carries base) (CONTROL_ELEMENTS @ DOE_ELEMENTS))"
  unfolding translate_controls_def by (rule map_map_filter) (rule translate_element_enabled)

lemma translated_methods:
  "map fst (translate_controls view base curves) = map ce_method (filter (carries base) (CONTROL_ELEMENTS @ DOE_ELEMENTS))"
  using arg_cong [OF translated_calls, of "map fst" view base curves] by (simp add: comp_def case_prod_beta)

lemma in_translated:
  "(m, p) \<in> set (translate_controls view base curves) \<Longrightarrow>
     \<exists>e q. e \<in> set (CONTROL_ELEMENTS @ DOE_ELEMENTS) \<and> element_params view e base curves = Some q
        \<and> m = ce_method e \<and> p = with_ramp view base q"
  unfolding translate_controls_def
  by (fastforce simp: List.map_filter_def translate_element_def)

lemma distinct_translated: "distinct (map fst (translate_controls view base curves))"
  unfolding translated_methods using distinct_control_methods by (rule distinct_map_filter)

lemma withdrawn_params:
  "(m, p) \<in> set (translate_controls view base curves) \<Longrightarrow> \<not> is_enabled p \<Longrightarrow> p = DISABLED"
  by (drule in_translated) (auto dest: element_params_cases)

text \<open>
  A control becomes exactly one connector call per control element it sets, in the order of
  the table, each to a different method that the connector base class declares. The call enables the
  element exactly when the element is not marked disabled and, for a curve, the client holds the
  curve it links to; otherwise its parameters are those that withdraw the element.
\<close>

theorem one_call_per_element:
  "map (\<lambda>(m, p). (m, is_enabled p)) (translate_controls view base curves)
     = map (\<lambda>e. (ce_method e, applies view base curves e)) (filter (carries base) (CONTROL_ELEMENTS @ DOE_ELEMENTS)) \<and>
   distinct (map fst (translate_controls view base curves)) \<and>
   set (map fst (translate_controls view base curves)) \<subseteq> set BASE_UPDATE_METHODS \<and>
   snd ` {c \<in> set (translate_controls view base curves). \<not> is_enabled (snd c)} \<subseteq> {DISABLED}"
proof (intro conjI)
  show "set (map fst (translate_controls view base curves)) \<subseteq> set BASE_UPDATE_METHODS"
    unfolding translated_methods using base_declares by (auto simp: ALL_ELEMENTS_def)
qed (auto simp: translated_calls distinct_translated dest: withdrawn_params)

end
