(* ===== verification/Connector_Registry.thy ===== *)
theory Connector_Registry
  imports Control_Modes Response
begin

text \<open>
  \<open>connectors/registry.py\<close>: the registry that hands out one lazily constructed connector per
  configured device, the cache of permanent construction failures, and the single-flight lock of
  \<open>aresolve\<close> as interleaved steps of concurrent callers. Constructing a connector (importing its
  class and talking to the device) is a parameter. A proxy object is shared by reference; the
  reference is the configured LFDI it is filed under.
\<close>

section \<open>Connectors and their construction\<close>

text \<open>An exception: its class as the event processor distinguishes it, \<open>str\<close>, the name of its type and
  its \<open>permanent\<close> attribute.\<close>

record exn =
  ex_class :: dispatch_exn
  ex_text :: string
  ex_type :: string
  ex_permanent :: bool

text \<open>What the dispatcher reads of a connector: identity, name and class, the \<open>update_*\<close> methods
  its class defines, what each method resolves to, whether it clears natively, its relay group
  and what it states about its modes.\<close>

record Connector =
  cn_id :: nat
  connector_name :: string
  cn_class :: string
  cn_update_methods :: "string list"
  cn_support :: "string \<Rightarrow> method_support"
  cn_native_clear :: bool
  relay_group :: "string option"
  cn_stated :: stated_modes

datatype device_kind = CustomDevice string | TypedDevice string

record DeviceConfig =
  dc_lfdi :: string
  dc_kind :: device_kind
  dc_role :: "string option"

definition CONNECTOR_TYPE_MAP :: "(string, string) dict" where
  "CONNECTOR_TYPE_MAP =
    [(''sunspec'', ''py20305.connectors.sunspec.connector.SunSpecConnector''),
     (''print_demo'', ''py20305.connectors.print_demo.PrintDemoConnector'')]"

text \<open>A factory: one the application's resolver returned, or the class of the device.\<close>

datatype conn_factory = ResolverFactory nat | ClassFactory string DeviceConfig

record renv =
  re_import :: "string \<Rightarrow> bool"
  re_construct :: "nat \<Rightarrow> conn_factory \<Rightarrow> exn + Connector"

definition registry_error :: "string \<Rightarrow> exn" where
  "registry_error text =
     \<lparr>ex_class = OtherError, ex_text = text, ex_type = ''ConnectorRegistryError'', ex_permanent = False\<rparr>"

text \<open>\<open>_import_class\<close>: \<open>rsplit(".", 1)\<close> needs a dot.\<close>

definition import_class :: "renv \<Rightarrow> string \<Rightarrow> exn option" where
  "import_class env path =
     (if CHR ''.'' \<notin> set path then Some (registry_error (''Invalid class path '' @ path))
      else if re_import env path then None
      else Some (registry_error (''Unable to import connector class '' @ path)))"

definition run_factory :: "renv \<Rightarrow> nat \<Rightarrow> conn_factory \<Rightarrow> exn + Connector" where
  "run_factory env k f =
     (case f of
        ResolverFactory _ \<Rightarrow> re_construct env k f
      | ClassFactory path _ \<Rightarrow>
          (case import_class env path of Some e \<Rightarrow> Inl e | None \<Rightarrow> re_construct env k f))"

section \<open>Lazy proxies\<close>

definition PERMANENT_FAILURE_TTL_SECONDS :: rat where
  "PERMANENT_FAILURE_TTL_SECONDS = 300"

record LazyConnectorProxy =
  px_name :: string
  px_factory :: conn_factory
  px_instance :: "Connector option"
  px_failure :: "(exn \<times> rat) option"

definition new_proxy :: "string \<Rightarrow> conn_factory \<Rightarrow> LazyConnectorProxy" where
  "new_proxy name f = \<lparr>px_name = name, px_factory = f, px_instance = None, px_failure = None\<rparr>"

text \<open>\<open>_check_cached_permanent_failure\<close> at the monotonic time \<open>now\<close>: the exception raised, if
  any, and the proxy after it.\<close>

definition check_cached_permanent_failure ::
  "rat \<Rightarrow> LazyConnectorProxy \<Rightarrow> exn option \<times> LazyConnectorProxy" where
  "check_cached_permanent_failure now px =
     (case px_failure px of
        None \<Rightarrow> (None, px)
      | Some (e, since) \<Rightarrow>
          if now - since < PERMANENT_FAILURE_TTL_SECONDS then (Some e, px)
          else (None, px\<lparr>px_failure := None\<rparr>))"

definition record_permanent_failure :: "exn \<Rightarrow> rat \<Rightarrow> LazyConnectorProxy \<Rightarrow> LazyConnectorProxy" where
  "record_permanent_failure e now px = px\<lparr>px_failure := Some (e, now)\<rparr>"

text \<open>
  \<open>resolve\<close>, starting at \<open>now\<close> and, when the factory runs, ending at \<open>later\<close>; \<open>k\<close> numbers the
  run of the factory. The last component tells whether the factory ran.
\<close>

definition resolve ::
  "renv \<Rightarrow> rat \<Rightarrow> rat \<Rightarrow> nat \<Rightarrow> LazyConnectorProxy \<Rightarrow> (exn + Connector) \<times> LazyConnectorProxy \<times> bool" where
  "resolve env now later k px =
     (case px_instance px of
        Some c \<Rightarrow> (Inr c, px, False)
      | None \<Rightarrow>
          (case check_cached_permanent_failure now px of
             (Some e, px1) \<Rightarrow> (Inl e, px1, False)
           | (None, px1) \<Rightarrow>
               (case run_factory env k (px_factory px1) of
                  Inl e \<Rightarrow> (Inl e, (if ex_permanent e then record_permanent_failure e later px1 else px1), True)
                | Inr c \<Rightarrow> (Inr c, px1\<lparr>px_instance := Some c\<rparr>, True))))"

definition constructed :: "LazyConnectorProxy \<Rightarrow> Connector option" where
  "constructed px = px_instance px"

section \<open>The registry\<close>

record ConnectorConfigRegistry =
  rg_configs :: "(string, DeviceConfig) dict"
  rg_proxies :: "(string, LazyConnectorProxy) dict"
  rg_resolver :: "DeviceConfig \<Rightarrow> nat option"

definition new_registry :: "DeviceConfig list \<Rightarrow> (DeviceConfig \<Rightarrow> nat option) \<Rightarrow> ConnectorConfigRegistry" where
  "new_registry devices resolver =
     \<lparr>rg_configs = dict_of (map (\<lambda>d. (dc_lfdi d, d)) devices), rg_proxies = [], rg_resolver = resolver\<rparr>"

definition canonical_lfdi :: "ConnectorConfigRegistry \<Rightarrow> string \<Rightarrow> string option" where
  "canonical_lfdi rg lfdi =
     (if dhas (rg_configs rg) lfdi then Some lfdi
      else find (\<lambda>stored. py_lower stored = py_lower lfdi) (map fst (rg_configs rg)))"

definition build_lazy_proxy :: "ConnectorConfigRegistry \<Rightarrow> DeviceConfig \<Rightarrow> exn + LazyConnectorProxy" where
  "build_lazy_proxy rg d =
     (case rg_resolver rg d of
        Some f \<Rightarrow> Inr (new_proxy (dc_lfdi d) (ResolverFactory f))
      | None \<Rightarrow>
          (case dc_kind d of
             CustomDevice path \<Rightarrow> Inr (new_proxy (dc_lfdi d) (ClassFactory path d))
           | TypedDevice ty \<Rightarrow>
               (case map_of CONNECTOR_TYPE_MAP ty of
                  None \<Rightarrow> Inl (registry_error (''Unknown device type '' @ ty))
                | Some path \<Rightarrow> Inr (new_proxy (dc_lfdi d) (ClassFactory path d)))))"

text \<open>\<open>get_connector\<close>: the key of the proxy, \<open>None\<close> for an unknown device.\<close>

definition get_connector ::
  "string \<Rightarrow> ConnectorConfigRegistry \<Rightarrow> (exn + string option) \<times> ConnectorConfigRegistry" where
  "get_connector lfdi rg =
     (case canonical_lfdi rg lfdi of
        None \<Rightarrow> (Inr None, rg)
      | Some c \<Rightarrow>
          if dhas (rg_proxies rg) c then (Inr (Some c), rg)
          else (case map_of (rg_configs rg) c of
                  None \<Rightarrow> (Inr None, rg)
                | Some d \<Rightarrow>
                    (case build_lazy_proxy rg d of
                       Inl e \<Rightarrow> (Inl e, rg)
                     | Inr px \<Rightarrow> (Inr (Some c), rg\<lparr>rg_proxies := dset c px (rg_proxies rg)\<rparr>))))"

definition role_of :: "ConnectorConfigRegistry \<Rightarrow> string \<Rightarrow> string" where
  "role_of rg lfdi =
     (case canonical_lfdi rg lfdi of
        None \<Rightarrow> ''der''
      | Some c \<Rightarrow> (case map_of (rg_configs rg) c of
                     Some d \<Rightarrow> (case dc_role d of None \<Rightarrow> ''der'' | Some r \<Rightarrow> r)
                   | None \<Rightarrow> ''der''))"

definition iter_device_specs :: "ConnectorConfigRegistry \<Rightarrow> DeviceConfig list" where
  "iter_device_specs rg = map snd (rg_configs rg)"

section \<open>Concurrent callers of aresolve\<close>

text \<open>
  Coroutines interleave at the awaits, worker threads anywhere. A caller is idle, waits for the
  lock, holds it while its worker thread runs \<open>resolve\<close>, or has finished. A worker is submitted
  (\<open>fl_pending\<close>) and then inside the factory (\<open>fl_running\<close>). Every reading of the clock is arbitrary.
\<close>

datatype caller_phase = Idle | WaitLock | InThread | Finished

record flight =
  fl_proxy :: LazyConnectorProxy
  fl_lock :: "nat option"
  fl_phase :: "nat \<Rightarrow> caller_phase"
  fl_pending :: "nat set"
  fl_running :: "nat set"
  fl_built :: "Connector list"

definition new_flight :: "LazyConnectorProxy \<Rightarrow> flight" where
  "new_flight px = \<lparr>fl_proxy = px, fl_lock = None, fl_phase = (\<lambda>_. Idle), fl_pending = {}, fl_running = {}, fl_built = []\<rparr>"

definition to_phase :: "nat \<Rightarrow> caller_phase \<Rightarrow> flight \<Rightarrow> flight" where
  "to_phase i p s = s\<lparr>fl_phase := (fl_phase s)(i := p)\<rparr>"

inductive flight_step :: "renv \<Rightarrow> flight \<Rightarrow> flight \<Rightarrow> bool" for env where
  call_hit: "fl_phase s i = Idle \<Longrightarrow> px_instance (fl_proxy s) = Some c \<Longrightarrow> flight_step env s (to_phase i Finished s)"
| call_failed: "fl_phase s i = Idle \<Longrightarrow> px_instance (fl_proxy s) = None \<Longrightarrow>
    check_cached_permanent_failure now (fl_proxy s) = (Some e, px) \<Longrightarrow>
    flight_step env s (to_phase i Finished (s\<lparr>fl_proxy := px\<rparr>))"
| call_wait: "fl_phase s i = Idle \<Longrightarrow> px_instance (fl_proxy s) = None \<Longrightarrow>
    check_cached_permanent_failure now (fl_proxy s) = (None, px) \<Longrightarrow>
    flight_step env s (to_phase i WaitLock (s\<lparr>fl_proxy := px\<rparr>))"
| acquire_hit: "fl_phase s i = WaitLock \<Longrightarrow> fl_lock s = None \<Longrightarrow> px_instance (fl_proxy s) = Some c \<Longrightarrow>
    flight_step env s (to_phase i Finished s)"
| acquire_failed: "fl_phase s i = WaitLock \<Longrightarrow> fl_lock s = None \<Longrightarrow> px_instance (fl_proxy s) = None \<Longrightarrow>
    check_cached_permanent_failure now (fl_proxy s) = (Some e, px) \<Longrightarrow>
    flight_step env s (to_phase i Finished (s\<lparr>fl_proxy := px\<rparr>))"
| acquire_run: "fl_phase s i = WaitLock \<Longrightarrow> fl_lock s = None \<Longrightarrow> px_instance (fl_proxy s) = None \<Longrightarrow>
    check_cached_permanent_failure now (fl_proxy s) = (None, px) \<Longrightarrow>
    flight_step env s (to_phase i InThread (s\<lparr>fl_proxy := px, fl_lock := Some i, fl_pending := insert i (fl_pending s)\<rparr>))"
| worker_hit: "i \<in> fl_pending s \<Longrightarrow> px_instance (fl_proxy s) = Some c \<Longrightarrow>
    flight_step env s (s\<lparr>fl_pending := fl_pending s - {i}\<rparr>)"
| worker_failed: "i \<in> fl_pending s \<Longrightarrow> px_instance (fl_proxy s) = None \<Longrightarrow>
    check_cached_permanent_failure now (fl_proxy s) = (Some e, px) \<Longrightarrow>
    flight_step env s (s\<lparr>fl_proxy := px, fl_pending := fl_pending s - {i}\<rparr>)"
| worker_factory: "i \<in> fl_pending s \<Longrightarrow> px_instance (fl_proxy s) = None \<Longrightarrow>
    check_cached_permanent_failure now (fl_proxy s) = (None, px) \<Longrightarrow>
    flight_step env s (s\<lparr>fl_proxy := px, fl_pending := fl_pending s - {i}, fl_running := insert i (fl_running s)\<rparr>)"
| factory_done: "i \<in> fl_running s \<Longrightarrow> run_factory env k (px_factory (fl_proxy s)) = Inr c \<Longrightarrow>
    flight_step env s (s\<lparr>fl_proxy := (fl_proxy s)\<lparr>px_instance := Some c\<rparr>, fl_running := fl_running s - {i},
                         fl_built := fl_built s @ [c]\<rparr>)"
| factory_raised: "i \<in> fl_running s \<Longrightarrow> run_factory env k (px_factory (fl_proxy s)) = Inl e \<Longrightarrow>
    flight_step env s (s\<lparr>fl_proxy := (if ex_permanent e then record_permanent_failure e later (fl_proxy s) else fl_proxy s),
                         fl_running := fl_running s - {i}\<rparr>)"
| resume: "fl_phase s i = InThread \<Longrightarrow> i \<notin> fl_pending s \<Longrightarrow> i \<notin> fl_running s \<Longrightarrow>
    flight_step env s (to_phase i Finished (s\<lparr>fl_lock := None\<rparr>))"
| cancel_wait: "fl_phase s i = WaitLock \<Longrightarrow> flight_step env s (to_phase i Finished s)"

text \<open>Cancelling a caller whose worker runs: the lock is released, the thread goes on.\<close>

inductive flight_cancel :: "flight \<Rightarrow> flight \<Rightarrow> bool" where
  cancel_thread: "fl_phase s i = InThread \<Longrightarrow> flight_cancel s (to_phase i Finished (s\<lparr>fl_lock := None\<rparr>))"

section \<open>Example data\<close>

definition demo_connector :: "nat \<Rightarrow> Connector" where
  "demo_connector n = \<lparr>cn_id = n, connector_name = ''demo'', cn_class = ''Demo'', cn_update_methods = [],
     cn_support = (\<lambda>_. Implemented), cn_native_clear = False, relay_group = None, cn_stated = StatedNothing\<rparr>"

definition demo_renv :: renv where
  "demo_renv = \<lparr>re_import = (\<lambda>_. True), re_construct = (\<lambda>k _. Inr (demo_connector k))\<rparr>"

definition demo_proxy :: LazyConnectorProxy where
  "demo_proxy = new_proxy ''ab'' (ResolverFactory 0)"

definition demo_exn :: exn where
  "demo_exn = \<lparr>ex_class = OtherError, ex_text = ''illegal address'', ex_type = ''ConnectorConnectionError'', ex_permanent = True\<rparr>"

definition broken_renv :: renv where
  "broken_renv = \<lparr>re_import = (\<lambda>_. True),
     re_construct = (\<lambda>_ _. Inl demo_exn)\<rparr>"

definition demo_registry :: ConnectorConfigRegistry where
  "demo_registry = new_registry [\<lparr>dc_lfdi = ''ab'', dc_kind = TypedDevice ''print_demo'', dc_role = Some ''der''\<rparr>] (\<lambda>_. None)"

section \<open>Properties\<close>

lemma check_keeps [simp]:
  "check_cached_permanent_failure now px = (r, px') \<Longrightarrow> px_instance px' = px_instance px"
  "check_cached_permanent_failure now px = (r, px') \<Longrightarrow> px_factory px' = px_factory px"
  by (auto simp: check_cached_permanent_failure_def split: option.splits if_splits)

lemma resolve_constructed: "px_instance px = Some c \<Longrightarrow> resolve env now later k px = (Inr c, px, False)"
  by (simp add: resolve_def)

lemma resolve_cached:
  "px_instance px = None \<Longrightarrow> px_failure px = Some (e, since) \<Longrightarrow> now - since < 300 \<Longrightarrow>
     resolve env now later k px = (Inl e, px, False)"
  by (simp add: resolve_def check_cached_permanent_failure_def PERMANENT_FAILURE_TTL_SECONDS_def)

lemma resolve_attempt:
  assumes "px_instance px = None" "px_failure px = None \<or> (\<exists>e since. px_failure px = Some (e, since) \<and> \<not> now - since < 300)"
  shows "resolve env now later k px =
     (case run_factory env k (px_factory px) of
        Inl e \<Rightarrow> (Inl e, px\<lparr>px_failure := (if ex_permanent e then Some (e, later) else None)\<rparr>, True)
      | Inr c \<Rightarrow> (Inr c, px\<lparr>px_instance := Some c, px_failure := None\<rparr>, True))"
  using assms
  by (auto simp: resolve_def check_cached_permanent_failure_def record_permanent_failure_def
      PERMANENT_FAILURE_TTL_SECONDS_def split: sum.splits)

lemma resolve_cases:
  obtains (constructed) c where "px_instance px = Some c"
  | (cached) e since where "px_instance px = None" "px_failure px = Some (e, since)" "now - since < 300"
  | (attempt) "px_instance px = None" "px_failure px = None \<or> (\<exists>e since. px_failure px = Some (e, since) \<and> \<not> now - since < 300)"
  by (metis not_None_eq surj_pair)

text \<open>
  A construction is attempted no more often than it has to be: a connector once constructed is
  returned for good and the factory never runs again; a permanent failure is raised again, without
  running the factory, for the next 300 seconds and then forgotten; any other failure leaves
  nothing behind and the next call tries again.
\<close>

theorem construction_remembered:
  assumes "resolve env now later k px = (r, px', did)"
  shows "(\<forall>c. r = Inr c \<longrightarrow> resolve env t u j px' = (Inr c, px', False)) \<and>
    (\<forall>e. r = Inl e \<and> did \<and> ex_permanent e \<longrightarrow>
       resolve env t u j px' = (if t - later < 300 then (Inl e, px', False)
                                else resolve env t u j (px'\<lparr>px_failure := None\<rparr>))) \<and>
    (\<forall>e. r = Inl e \<and> did \<and> \<not> ex_permanent e \<longrightarrow> px_failure px' = None \<and> snd (snd (resolve env t u j px')))"
proof (cases rule: resolve_cases [where px = px and now = now])
  case (constructed c)
  then show ?thesis using assms by (auto simp: resolve_constructed)
next
  case (cached e since)
  then show ?thesis using assms by (auto simp: resolve_cached)
next
  case attempt
  show ?thesis
  proof (cases "run_factory env k (px_factory px)")
    case (Inr c)
    then show ?thesis using assms by (auto simp: resolve_attempt [OF attempt] resolve_constructed)
  next
    case (Inl e)
    then have "r = Inl e" "did" and px': "px' = px\<lparr>px_failure := (if ex_permanent e then Some (e, later) else None)\<rparr>"
      using assms by (auto simp: resolve_attempt [OF attempt])
    moreover have "resolve env t u j px' = resolve env t u j (px'\<lparr>px_failure := None\<rparr>)" if "ex_permanent e" "\<not> t - later < 300"
      using attempt(1) that by (simp add: px' resolve_attempt split: sum.splits)
    moreover have "snd (snd (resolve env t u j px'))" if "\<not> ex_permanent e"
      using attempt(1) that by (simp add: px' resolve_attempt split: sum.splits)
    ultimately show ?thesis using attempt(1) by (simp add: resolve_cached)
  qed
qed

text \<open>A device that refuses its scan: the failure is remembered until 300 seconds have passed.\<close>

theorem construction_remembered_witness:
  "resolve broken_renv 7 9 0 demo_proxy = (Inl (demo_exn), demo_proxy\<lparr>px_failure := Some (demo_exn, 9)\<rparr>, True) \<and>
   resolve broken_renv 308 310 1 (demo_proxy\<lparr>px_failure := Some (demo_exn, 9)\<rparr>)
     = (Inl demo_exn, demo_proxy\<lparr>px_failure := Some (demo_exn, 9)\<rparr>, False)"
proof -
  have "resolve broken_renv 7 9 0 demo_proxy = (Inl demo_exn, demo_proxy\<lparr>px_failure := Some (demo_exn, 9)\<rparr>, True)"
    by (simp add: resolve_def check_cached_permanent_failure_def record_permanent_failure_def demo_proxy_def new_proxy_def
        run_factory_def broken_renv_def demo_exn_def)
  with construction_remembered [OF this, of 308 310 1] show ?thesis by (simp add: demo_exn_def)
qed

text \<open>Without a cancelled construction the lock names the one caller whose worker is out, and the
  factory runs only while there is no connector.\<close>

definition one_flight :: "flight \<Rightarrow> bool" where
  "one_flight s \<longleftrightarrow>
     (case fl_lock s of
        None \<Rightarrow> (\<forall>i. fl_phase s i \<noteq> InThread) \<and> fl_pending s = {} \<and> fl_running s = {}
      | Some j \<Rightarrow> fl_phase s j = InThread \<and> (\<forall>i. i \<noteq> j \<longrightarrow> fl_phase s i \<noteq> InThread) \<and> fl_pending s \<subseteq> {j} \<and> fl_running s \<subseteq> {j}) \<and>
     (fl_pending s = {} \<or> fl_running s = {}) \<and>
     (fl_running s \<noteq> {} \<longrightarrow> px_instance (fl_proxy s) = None) \<and>
     fl_built s = (case px_instance (fl_proxy s) of None \<Rightarrow> [] | Some c \<Rightarrow> [c])"

lemma one_flight_step: "flight_step env s s' \<Longrightarrow> one_flight s \<Longrightarrow> one_flight s'"
proof (induction rule: flight_step.induct)
  case (resume s i)
  obtain j where j: "fl_lock s = Some j" using resume by (cases "fl_lock s") (auto simp: one_flight_def)
  with resume have "\<forall>i. i \<noteq> j \<longrightarrow> fl_phase s i \<noteq> InThread" by (simp add: one_flight_def)
  with resume.hyps(1) j have "fl_lock s = Some i" by metis
  then show ?case using resume by (auto simp: one_flight_def to_phase_def)
qed (auto simp: one_flight_def to_phase_def record_permanent_failure_def subset_singleton_iff split: option.splits)

lemma one_flight_run: "(flight_step env)\<^sup>*\<^sup>* s s' \<Longrightarrow> one_flight s \<Longrightarrow> one_flight s'"
  by (induction rule: rtranclp_induct) (auto intro: one_flight_step)

lemma one_flight_new: "px_instance px = None \<Longrightarrow> one_flight (new_flight px)"
  by (simp add: one_flight_def new_flight_def)

lemma card_at_most_one: "\<forall>i. i \<in> A \<longrightarrow> x = Some i \<Longrightarrow> finite A \<and> card A \<le> 1"
  by (cases x) (auto intro!: card_le_Suc0_iff_eq [THEN iffD2] intro: finite_subset [of A "set_option x"])

lemma check_clean: "px_failure px = None \<Longrightarrow> check_cached_permanent_failure now px = (None, px)"
  by (simp add: check_cached_permanent_failure_def)

text \<open>One caller on its own, from the call to the factory.\<close>

lemma flight_to_factory:
  assumes "fl_phase s i = Idle" "fl_lock s = None" "i \<notin> fl_pending s"
    "px_instance (fl_proxy s) = None" "px_failure (fl_proxy s) = None"
  shows "(flight_step env)\<^sup>*\<^sup>* s (s\<lparr>fl_lock := Some i, fl_phase := (fl_phase s)(i := InThread),
    fl_running := insert i (fl_running s)\<rparr>)"
proof -
  let ?w = "to_phase i WaitLock s"
  let ?r = "to_phase i InThread (?w\<lparr>fl_lock := Some i, fl_pending := insert i (fl_pending s)\<rparr>)"
  have "flight_step env s ?w"
    using call_wait [of s i 0 "fl_proxy s"] assms by (simp add: check_clean)
  moreover have "flight_step env ?w ?r"
    using acquire_run [of ?w i 0 "fl_proxy s"] assms by (simp add: check_clean to_phase_def)
  moreover have "flight_step env ?r (s\<lparr>fl_lock := Some i, fl_phase := (fl_phase s)(i := InThread),
      fl_running := insert i (fl_running s)\<rparr>)"
    using worker_factory [of i ?r 0 "fl_proxy s"] assms by (simp add: check_clean to_phase_def)
  ultimately show ?thesis by (meson rtranclp.rtrancl_into_rtrancl rtranclp.rtrancl_refl)
qed

text \<open>
  However the coroutines that resolve one connector interleave with each other and with the
  worker threads, as long as no caller is cancelled while its construction runs, at most one
  construction is submitted or running at a time, and the factory delivers at most one connector,
  the one every later caller gets.
\<close>

theorem construction_single_flight:
  assumes "px_instance px = None" "(flight_step env)\<^sup>*\<^sup>* (new_flight px) s"
  shows "finite (fl_pending s \<union> fl_running s) \<and> card (fl_pending s \<union> fl_running s) \<le> 1 \<and>
    (fl_running s = {} \<or> px_instance (fl_proxy s) = None) \<and>
    fl_built s = (case px_instance (fl_proxy s) of None \<Rightarrow> [] | Some c \<Rightarrow> [c])"
proof -
  have inv: "one_flight s" using assms one_flight_new one_flight_run by blast
  then have "\<forall>i. i \<in> fl_pending s \<union> fl_running s \<longrightarrow> fl_lock s = Some i"
    by (auto simp: one_flight_def split: option.splits)
  from card_at_most_one [OF this] inv show ?thesis by (auto simp: one_flight_def)
qed

theorem construction_single_flight_witness:
  "\<exists>s. (flight_step demo_renv)\<^sup>*\<^sup>* (new_flight demo_proxy) s \<and> fl_running s = {0} \<and> card (fl_pending s \<union> fl_running s) \<le> 1
     \<and> fl_built s = []"
proof -
  have run: "(flight_step demo_renv)\<^sup>*\<^sup>* (new_flight demo_proxy) ((new_flight demo_proxy)\<lparr>fl_lock := Some 0,
      fl_phase := (fl_phase (new_flight demo_proxy))(0 := InThread), fl_running := insert 0 (fl_running (new_flight demo_proxy))\<rparr>)"
    by (rule flight_to_factory) (simp_all add: new_flight_def demo_proxy_def new_proxy_def)
  have inst: "px_instance demo_proxy = None" by (simp add: demo_proxy_def new_proxy_def)
  show ?thesis
    using construction_single_flight [OF inst run] run
    by (intro exI conjI) (assumption, simp_all add: new_flight_def inst)
qed

definition flight_any :: "renv \<Rightarrow> flight \<Rightarrow> flight \<Rightarrow> bool" where
  "flight_any env s s' \<longleftrightarrow> flight_step env s s' \<or> flight_cancel s s'"

lemma flight_any_run: "(flight_step env)\<^sup>*\<^sup>* s s' \<Longrightarrow> (flight_any env)\<^sup>*\<^sup>* s s'"
  by (erule rtranclp_mono [THEN predicate2D, rotated]) (auto simp: flight_any_def)

lemma flight_cancelled:
  "fl_phase s i = InThread \<Longrightarrow> flight_any env s (s\<lparr>fl_lock := None, fl_phase := (fl_phase s)(i := Finished)\<rparr>)"
  using cancel_thread [of s i] by (simp add: flight_any_def to_phase_def)

text \<open>
  Cancelling a caller does not stop the worker thread that constructs the connector, but
  releases the lock: the next caller starts a second construction of the same device while the
  first one is still running.
\<close>

theorem cancelled_construction_overlaps:
  assumes "px_instance px = None" "px_failure px = None"
  shows "\<exists>s. (flight_any env)\<^sup>*\<^sup>* (new_flight px) s \<and> fl_running s = {0, 1}"
proof -
  define a where "a = (new_flight px)\<lparr>fl_lock := Some 0, fl_phase := (fl_phase (new_flight px))(0 := InThread),
    fl_running := insert 0 (fl_running (new_flight px))\<rparr>"
  define b where "b = a\<lparr>fl_lock := None, fl_phase := (fl_phase a)(0 := Finished)\<rparr>"
  define c where "c = b\<lparr>fl_lock := Some 1, fl_phase := (fl_phase b)(1 := InThread), fl_running := insert 1 (fl_running b)\<rparr>"
  have "(flight_any env)\<^sup>*\<^sup>* (new_flight px) a"
    unfolding a_def using assms by (intro flight_any_run flight_to_factory) (simp_all add: new_flight_def)
  moreover have "flight_any env a b" unfolding b_def by (rule flight_cancelled) (simp add: a_def)
  moreover have "(flight_any env)\<^sup>*\<^sup>* b c"
    unfolding c_def using assms by (intro flight_any_run flight_to_factory) (simp_all add: a_def b_def new_flight_def)
  ultimately have "(flight_any env)\<^sup>*\<^sup>* (new_flight px) c" by (meson rtranclp.rtrancl_into_rtrancl rtranclp_trans)
  moreover have "fl_running c = {0, 1}" by (simp add: a_def b_def c_def new_flight_def insert_commute)
  ultimately show ?thesis by blast
qed

theorem cancelled_construction_overlaps_witness:
  "\<exists>s. (flight_any demo_renv)\<^sup>*\<^sup>* (new_flight demo_proxy) s \<and> fl_running s = {0, 1}"
  by (rule cancelled_construction_overlaps) (simp_all add: demo_proxy_def new_proxy_def)

section \<open>Case-insensitive lookup\<close>

lemma letters_apart: "set LOWERCASE \<inter> set UPPERCASE = {}"
  by code_simp

lemma find_low: "\<forall>k \<in> set ks. low k = k \<Longrightarrow> x \<in> set ks \<Longrightarrow> find (\<lambda>k. low k = x) ks = Some x"
  by (induction ks) auto

lemma py_lower_idem [simp]: "py_lower (py_lower s) = py_lower s"
proof -
  have "char_lower (char_lower c) = char_lower c" for c
  proof (cases "map_of (zip UPPERCASE LOWERCASE) c")
    case None
    then show ?thesis by (simp add: char_lower_def dget_or_def)
  next
    case (Some d)
    then have "d \<in> set LOWERCASE" by (meson map_of_SomeD set_zip_rightD)
    then have "d \<notin> set UPPERCASE" using letters_apart by blast
    then have "map_of (zip UPPERCASE LOWERCASE) d = None"
      by (auto simp: map_of_eq_None_iff dest: set_zip_leftD)
    then show ?thesis using Some by (simp add: char_lower_def dget_or_def)
  qed
  then show ?thesis by (simp add: py_lower_def)
qed

text \<open>The configurations a registry holds once validated: filed under their LFDI, in lower case.\<close>

definition validated :: "ConnectorConfigRegistry \<Rightarrow> bool" where
  "validated rg = list_all (\<lambda>k. py_lower k = k) (map fst (rg_configs rg))"

lemma canonical_validated:
  assumes "validated rg"
  shows "canonical_lfdi rg lfdi = (if dhas (rg_configs rg) (py_lower lfdi) then Some (py_lower lfdi) else None)"
proof -
  have low: "py_lower k = k" if "k \<in> fst ` set (rg_configs rg)" for k
    using assms that by (auto simp: validated_def list_all_iff)
  show ?thesis
  proof (cases "dhas (rg_configs rg) (py_lower lfdi)")
    case True
    then have "find (\<lambda>k. py_lower k = py_lower lfdi) (map fst (rg_configs rg)) = Some (py_lower lfdi)"
      using low by (intro find_low) (auto simp: dhas_iff_keys)
    then show ?thesis using True low by (auto simp: canonical_lfdi_def dhas_iff_keys)
  next
    case False
    then have "\<not> dhas (rg_configs rg) lfdi" "find (\<lambda>k. py_lower k = py_lower lfdi) (map fst (rg_configs rg)) = None"
      using low by (force simp: dhas_iff_keys find_None_iff)+
    then show ?thesis using False by (simp add: canonical_lfdi_def)
  qed
qed

lemma canonical_proxies [simp]: "canonical_lfdi (rg\<lparr>rg_proxies := ps\<rparr>) lfdi = canonical_lfdi rg lfdi"
  by (simp add: canonical_lfdi_def)

lemma get_connector_again:
  assumes "fst (get_connector lfdi rg) = Inr (Some k)"
  shows "get_connector lfdi (snd (get_connector lfdi rg)) = (Inr (Some k), snd (get_connector lfdi rg))"
proof (cases "canonical_lfdi rg lfdi")
  case (Some c)
  then show ?thesis using assms
    by (cases "dhas (rg_proxies rg) c"; cases "map_of (rg_configs rg) c")
      (auto simp: get_connector_def split: sum.splits)
qed (use assms in \<open>simp add: get_connector_def\<close>)

text \<open>
  With validated configurations every spelling of an LFDI names the same device: the same
  proxy, created once however often it is asked for, and the same role.
\<close>

theorem any_spelling_same_device:
  assumes "validated rg" "py_lower lfdi' = py_lower lfdi"
  shows "get_connector lfdi' rg = get_connector lfdi rg \<and> role_of rg lfdi' = role_of rg lfdi \<and>
    (\<forall>k. fst (get_connector lfdi rg) = Inr (Some k) \<longrightarrow>
       get_connector lfdi' (snd (get_connector lfdi rg)) = (Inr (Some k), snd (get_connector lfdi rg)))"
proof -
  have same: "canonical_lfdi r lfdi' = canonical_lfdi r lfdi" if "validated r" for r
    using assms(2) by (simp add: canonical_validated [OF that])
  moreover have "validated (snd (get_connector lfdi rg))"
    using assms(1) by (auto simp: get_connector_def validated_def split: option.splits sum.splits)
  ultimately have "get_connector lfdi' rg = get_connector lfdi rg" "role_of rg lfdi' = role_of rg lfdi"
    "get_connector lfdi' (snd (get_connector lfdi rg)) = get_connector lfdi (snd (get_connector lfdi rg))"
    using assms(1) by (simp_all only: get_connector_def role_of_def)
  then show ?thesis using get_connector_again by simp
qed

theorem any_spelling_same_device_witness:
  "role_of demo_registry ''AB'' = ''der'' \<and> fst (get_connector ''aB'' demo_registry) = Inr (Some ''ab'') \<and>
   get_connector ''AB'' (snd (get_connector ''aB'' demo_registry)) = (Inr (Some ''ab''), snd (get_connector ''aB'' demo_registry))"
proof -
  have "validated demo_registry" "py_lower ''AB'' = py_lower ''aB''" "fst (get_connector ''aB'' demo_registry) = Inr (Some ''ab'')"
    "role_of demo_registry ''aB'' = ''der''"
    by code_simp+
  then show ?thesis using any_spelling_same_device [of demo_registry "''AB''" "''aB''"] by simp
qed

end
