(* ===== verification/Dispatcher.thy ===== *)
theory Dispatcher
  imports Connector_Registry Processor_State
begin

text \<open>
  \<open>connectors/dispatcher.py\<close>: how a control, a default control, a clear or an event-end withdrawal
  reaches a device. The state is what \<open>ConnectorDispatcher\<close> keeps plus the registry and a trace
  of what it did: calls of connector methods, entries of the write history, of the command observer
  and of the telemetry stream, diagnostics and relays. The parameters are the clock, the command
  gate, the outcome of each connector call, and the resolver from device href to LFDI, each
  possibly different at each await (\<open>d_tick\<close>).
\<close>

section \<open>Environment, state and trace\<close>

datatype call_result = CallDone | CallRaised exn | CallCancelled

record wenv =
  we_registry :: renv
  we_clock :: "nat \<Rightarrow> rat"
  we_mono :: "nat \<Rightarrow> rat"
  we_gate :: "nat \<Rightarrow> string \<Rightarrow> string \<Rightarrow> bool"
  we_call :: "nat \<Rightarrow> call_result"
  we_cancelled :: "nat \<Rightarrow> bool"
  we_lfdi :: "nat \<Rightarrow> string \<Rightarrow> string option"
  we_telemetry :: bool
  we_view :: "string \<Rightarrow> py_value"

datatype write_outcome = Applied | Failed | Refused

text \<open>One write, as the history and the telemetry stream record it.\<close>

record write_rec =
  wr_label :: string
  wr_control :: string
  wr_params :: params
  wr_outcome :: write_outcome
  wr_at :: rat
  wr_lfdi :: "string option"
  wr_origin :: string
  wr_applied :: "bytes option"
  wr_cause :: "bytes option"
  wr_error :: "string option"
  wr_error_type :: "string option"

record device_call =
  dv_connector :: nat
  dv_method :: string
  dv_params :: params
  dv_lfdi :: "string option"
  dv_origin :: string
  dv_tick :: nat
  dv_result :: call_result

datatype act =
    DeviceCall device_call
  | WriteKept write_rec
  | WriteStreamed write_rec
  | CommandKept string string params string rat "string option"
  | Diagnosed string
  | DiagnosisResolved string
  | UnusedMethods string "string list"
  | NotifiedConnector nat string ScheduleNotification call_result

record dispatcher =
  d_registry :: ConnectorConfigRegistry
  d_missing :: "string set"
  d_checked :: "string set"
  d_history :: bool
  d_tick :: nat
  d_trace :: "act list"

text \<open>A result: a value, an exception, or \<open>asyncio.CancelledError\<close>, which is no \<open>Exception\<close>.\<close>

datatype 'a res = Ok 'a | Raised exn | CancelledError

definition and_then :: "'a res \<times> 's \<Rightarrow> ('a \<Rightarrow> 's \<Rightarrow> 'b res \<times> 's) \<Rightarrow> 'b res \<times> 's" where
  "and_then m f =
     (case m of (Ok x, s) \<Rightarrow> f x s | (Raised e, s) \<Rightarrow> (Raised e, s) | (CancelledError, s) \<Rightarrow> (CancelledError, s))"

text \<open>A loop that collects one result per element and stops at the first exception.\<close>

fun for_calls :: "('a \<Rightarrow> 's \<Rightarrow> 'b res \<times> 's) \<Rightarrow> 'a list \<Rightarrow> 's \<Rightarrow> 'b list res \<times> 's" where
  "for_calls f [] s = (Ok [], s)"
| "for_calls f (x # xs) s =
     and_then (f x s) (\<lambda>b s1. and_then (for_calls f xs s1) (\<lambda>bs s2. (Ok (b # bs), s2)))"

definition log_act :: "act \<Rightarrow> dispatcher \<Rightarrow> dispatcher" where
  "log_act a s = s\<lparr>d_trace := d_trace s @ [a]\<rparr>"

definition log_if :: "bool \<Rightarrow> act \<Rightarrow> dispatcher \<Rightarrow> dispatcher" where
  "log_if b a s = (if b then log_act a s else s)"

definition tick_over :: "dispatcher \<Rightarrow> dispatcher" where
  "tick_over s = s\<lparr>d_tick := Suc (d_tick s)\<rparr>"

definition attach_write_history :: "bool \<Rightarrow> dispatcher \<Rightarrow> dispatcher" where
  "attach_write_history b s = s\<lparr>d_history := b\<rparr>"

text \<open>\<open>_keep_write\<close>: the entry is handed to the history, whose exceptions are swallowed; whether the
  history stores it (its queue may be full) is not part of the trace.\<close>

definition keep_write :: "write_rec \<Rightarrow> dispatcher \<Rightarrow> dispatcher" where
  "keep_write w s = log_if (d_history s) (WriteKept w) s"

section \<open>Tables\<close>

definition DISABLE_CALLS :: "(string \<times> params) list" where
  "DISABLE_CALLS = map (\<lambda>e. (ce_method e, DISABLED)) (CONTROL_ELEMENTS @ DOE_ELEMENTS)"

definition METER_ROLES :: "string set" where
  "METER_ROLES = {''site_meter'', ''der_meter''}"

definition KEPT_AT_EVENT_END :: "string set" where
  "KEPT_AT_EVENT_END = {''opModConnect'', ''opModEnergize'', ''opModGridConnectPermit'', ''opModIslandPermit''}"

definition FIELD_DISABLE_CALLS :: "(string, string \<times> params) dict" where
  "FIELD_DISABLE_CALLS =
     map (\<lambda>(mode, e). (mode, ce_method e, DISABLED))
       (filter (\<lambda>(mode, e). ce_element e \<notin> KEPT_AT_EVENT_END) ELEMENT_BY_MODE)"

definition unused_update_methods :: "Connector \<Rightarrow> string list" where
  "unused_update_methods c =
     sort (remdups (filter (\<lambda>n. startswith n ''update_'' \<and> n \<notin> snd ` set METHOD_BY_ELEMENT \<and> n \<notin> set BASE_UPDATE_METHODS)
       (cn_update_methods c)))"

section \<open>Meters\<close>

definition takes_controls :: "dispatcher \<Rightarrow> string option \<Rightarrow> bool" where
  "takes_controls s lfdi = (case lfdi of None \<Rightarrow> True | Some l \<Rightarrow> role_of (d_registry s) l \<notin> METER_ROLES)"

definition simple_exn :: "dispatch_exn \<Rightarrow> string \<Rightarrow> string \<Rightarrow> exn" where
  "simple_exn c ty text = \<lparr>ex_class = c, ex_text = text, ex_type = ty, ex_permanent = False\<rparr>"

definition refuse_meter :: "string option \<Rightarrow> dispatcher \<Rightarrow> unit res \<times> dispatcher" where
  "refuse_meter lfdi s =
     (if takes_controls s lfdi then (Ok (), s)
      else (Raised (simple_exn DeviceNotConfiguredError ''DeviceNotConfiguredError''
              (the lfdi @ '' is configured as a '' @ role_of (d_registry s) (the lfdi) @ '', which takes no controls'')), s))"

section \<open>Resolving a connector\<close>

definition warn_unused_update_methods :: "Connector \<Rightarrow> dispatcher \<Rightarrow> dispatcher" where
  "warn_unused_update_methods c s =
     (if cn_class c \<in> d_checked s then s
      else let s1 = s\<lparr>d_checked := insert (cn_class c) (d_checked s)\<rparr>
           in log_if (unused_update_methods c \<noteq> []) (UnusedMethods (cn_class c) (unused_update_methods c)) s1)"

text \<open>\<open>proxy.aresolve()\<close> for one caller: only a run of the factory suspends it.\<close>

definition aresolve :: "wenv \<Rightarrow> string \<Rightarrow> dispatcher \<Rightarrow> Connector res \<times> dispatcher" where
  "aresolve env key s =
     (case map_of (rg_proxies (d_registry s)) key of
        None \<Rightarrow> (Raised (registry_error key), s)
      | Some px \<Rightarrow>
          (case resolve (we_registry env) (we_mono env (d_tick s)) (we_mono env (Suc (d_tick s))) (d_tick s) px of
             (r, px', did) \<Rightarrow>
               (let rg = d_registry s;
                    s1 = s\<lparr>d_registry := rg\<lparr>rg_proxies := dset key px' (rg_proxies rg)\<rparr>\<rparr>;
                    s2 = (if did then tick_over s1 else s1)
                in if did \<and> we_cancelled env (d_tick s) then (CancelledError, s2)
                   else case r of Inl e \<Rightarrow> (Raised e, s2) | Inr c \<Rightarrow> (Ok c, s2))))"

definition report_missing :: "string \<Rightarrow> dispatcher \<Rightarrow> dispatcher" where
  "report_missing lfdi s =
     (if lfdi \<in> d_missing s then s
      else log_act (Diagnosed (''no_connector:'' @ lfdi)) (s\<lparr>d_missing := insert lfdi (d_missing s)\<rparr>))"

definition forget_missing :: "string \<Rightarrow> dispatcher \<Rightarrow> dispatcher" where
  "forget_missing lfdi s =
     (if lfdi \<in> d_missing s
      then log_act (DiagnosisResolved (''no_connector:'' @ lfdi)) (s\<lparr>d_missing := d_missing s - {lfdi}\<rparr>) else s)"

definition resolve_connector_by_lfdi :: "wenv \<Rightarrow> string \<Rightarrow> dispatcher \<Rightarrow> Connector option res \<times> dispatcher" where
  "resolve_connector_by_lfdi env lfdi s =
     (case get_connector lfdi (d_registry s) of
        (Inl e, rg) \<Rightarrow> (Raised e, s\<lparr>d_registry := rg\<rparr>)
      | (Inr None, rg) \<Rightarrow> (Ok None, report_missing lfdi (s\<lparr>d_registry := rg\<rparr>))
      | (Inr (Some key), rg) \<Rightarrow>
          and_then (aresolve env key (forget_missing lfdi (s\<lparr>d_registry := rg\<rparr>)))
            (\<lambda>c s1. (Ok (Some c), warn_unused_update_methods c s1)))"

definition resolve_connector :: "wenv \<Rightarrow> string \<Rightarrow> dispatcher \<Rightarrow> Connector option res \<times> dispatcher" where
  "resolve_connector env href s =
     (case we_lfdi env (d_tick s) href of
        None \<Rightarrow> (Ok None, log_act (Diagnosed (''unresolved_href:'' @ href)) s)
      | Some lfdi \<Rightarrow> resolve_connector_by_lfdi env lfdi s)"

text \<open>\<open>supported_modes2\<close> never constructs a connector.\<close>

definition dispatcher_modes2 :: "string \<Rightarrow> dispatcher \<Rightarrow> int option res \<times> dispatcher" where
  "dispatcher_modes2 lfdi s =
     (case get_connector lfdi (d_registry s) of
        (Inl e, rg) \<Rightarrow> (Raised e, s\<lparr>d_registry := rg\<rparr>)
      | (Inr None, rg) \<Rightarrow> (Ok None, s\<lparr>d_registry := rg\<rparr>)
      | (Inr (Some key), rg) \<Rightarrow>
          (case map_of (rg_proxies rg) key of
             None \<Rightarrow> (Ok None, s\<lparr>d_registry := rg\<rparr>)
           | Some px \<Rightarrow>
               (Ok (map_option (\<lambda>c. modes_supported2 (cn_stated c) (cn_support c)) (constructed px)), s\<lparr>d_registry := rg\<rparr>)))"

section \<open>One write\<close>

definition BY_DESIGN :: string where "BY_DESIGN = ''by_design''"
definition OFFER_MISSING :: string where "OFFER_MISSING = ''offer_missing''"

text \<open>\<open>_control_support\<close>: whether a method is bound, and otherwise the reason.\<close>

definition control_support :: "Connector \<Rightarrow> string \<Rightarrow> bool \<times> string option" where
  "control_support c m =
     (case cn_support c m of
        Inherited \<Rightarrow> (False, Some BY_DESIGN)
      | Missing \<Rightarrow> (False, Some OFFER_MISSING)
      | Implemented \<Rightarrow> (True, None))"

text \<open>\<open>if lfdi:\<close>, false for \<open>None\<close> and for the empty string.\<close>

definition given :: "string option \<Rightarrow> bool" where
  "given lfdi = (case lfdi of None \<Rightarrow> False | Some l \<Rightarrow> l \<noteq> [])"

definition removeprefix :: "string \<Rightarrow> string \<Rightarrow> string" where
  "removeprefix p s = (if startswith s p then drop (length p) s else s)"

record write_ctx =
  wx_lfdi :: "string option"
  wx_origin :: string
  wx_label :: string
  wx_applied :: "bytes option"
  wx_cause :: "bytes option"

definition write_of ::
  "write_ctx \<Rightarrow> string \<Rightarrow> params \<Rightarrow> write_outcome \<Rightarrow> rat \<Rightarrow> (string \<times> string) option \<Rightarrow> write_rec" where
  "write_of wx control p outcome now err =
     \<lparr>wr_label = wx_label wx, wr_control = control, wr_params = p, wr_outcome = outcome, wr_at = now,
      wr_lfdi = wx_lfdi wx, wr_origin = wx_origin wx, wr_applied = wx_applied wx, wr_cause = wx_cause wx,
      wr_error = map_option fst err, wr_error_type = map_option snd err\<rparr>"

definition permitted :: "wenv \<Rightarrow> write_ctx \<Rightarrow> nat \<Rightarrow> bool" where
  "permitted env wx t = (given (wx_lfdi wx) \<longrightarrow> we_gate env t (the (wx_lfdi wx)) (wx_origin wx))"

definition refuse_write :: "wenv \<Rightarrow> write_ctx \<Rightarrow> string \<Rightarrow> params \<Rightarrow> dispatcher \<Rightarrow> dispatcher" where
  "refuse_write env wx control p s =
     (let w = write_of wx control p Refused (we_clock env (d_tick s))
                (Some (wx_origin wx @ '' does not hold the command role for this device'', ''refused''))
      in log_if (we_telemetry env) (WriteStreamed w)
           (keep_write w (log_act (Diagnosed (''not-commanding-'' @ wx_origin wx @ ''-'' @ the (wx_lfdi wx))) s)))"

definition apply_one ::
  "wenv \<Rightarrow> Connector \<Rightarrow> write_ctx \<Rightarrow> string \<Rightarrow> params \<Rightarrow> dispatcher \<Rightarrow> bool res \<times> dispatcher" where
  "apply_one env c wx m p s =
     (let control = removeprefix ''update_'' m; t = d_tick s; now = we_clock env t; lfdi = wx_lfdi wx
      in if \<not> permitted env wx t then (Ok False, refuse_write env wx control p s)
         else
           let result = we_call env t;
               s1 = tick_over (log_act (DeviceCall \<lparr>dv_connector = cn_id c, dv_method = m, dv_params = p, dv_lfdi = lfdi,
                      dv_origin = wx_origin wx, dv_tick = t, dv_result = result\<rparr>) s)
           in case result of
                CallCancelled \<Rightarrow> (CancelledError, s1)
              | CallRaised e \<Rightarrow>
                  (let w = write_of wx control p Failed now (Some (ex_text e, ex_type e))
                   in (Raised e, log_if (we_telemetry env) (WriteStreamed w)
                        (log_if (given lfdi) (CommandKept (the lfdi) control p (wx_origin wx) now (Some (ex_text e)))
                          (keep_write w s1))))
              | CallDone \<Rightarrow>
                  (let w = write_of wx control p Applied now None
                   in (Ok True, log_if (given lfdi) (CommandKept (the lfdi) control p (wx_origin wx) now None)
                        (log_if (we_telemetry env) (WriteStreamed w) (keep_write w s1)))))"

definition device_label :: "string option \<Rightarrow> string option \<Rightarrow> string" where
  "device_label lfdi href =
     (if given lfdi then the lfdi else if given href then the href else ''<unknown>'')"

definition report_unimplemented_mode :: "string option \<Rightarrow> string option \<Rightarrow> string \<Rightarrow> dispatcher \<Rightarrow> dispatcher" where
  "report_unimplemented_mode lfdi href m s =
     log_act (Diagnosed (''unimplemented_mode:'' @ device_label lfdi href @ '':'' @ m)) s"

text \<open>One translated mode: the control name when the gate refused it.\<close>

definition apply_mode ::
  "wenv \<Rightarrow> Connector \<Rightarrow> write_ctx \<Rightarrow> string option \<Rightarrow> string \<times> params \<Rightarrow> dispatcher \<Rightarrow> string option res \<times> dispatcher" where
  "apply_mode env c wx href mp s =
     (case mp of (m, p) \<Rightarrow>
        (case control_support c m of
           (True, _) \<Rightarrow>
             and_then (apply_one env c wx m p s)
               (\<lambda>applied s1. (Ok (if applied then None else Some (removeprefix ''update_'' m)), s1))
         | (False, reason) \<Rightarrow>
             (Ok None, if reason = Some BY_DESIGN then s else report_unimplemented_mode (wx_lfdi wx) href m s)))"

section \<open>Controls and default controls\<close>

definition origin_name :: "CommandOrigin \<Rightarrow> string" where
  "origin_name origin =
     (case origin of ORIGIN_IEEE2030_5 \<Rightarrow> ''ieee2030_5'' | ORIGIN_DDERC_REAPPLY \<Rightarrow> ''dderc_reapply''
      | ORIGIN_COMMS_LOSS \<Rightarrow> ''comms_loss'' | ORIGIN_EVENT_END \<Rightarrow> ''event_end'')"

definition not_permitted :: "string \<Rightarrow> string \<Rightarrow> string \<Rightarrow> exn" where
  "not_permitted origin label controls =
     simple_exn CommandNotPermittedError ''CommandNotPermittedError''
       (origin @ '' may not command '' @ label @ '': another interface holds the command role, so '' @ controls
        @ '' was not applied'')"

definition comma_join :: "string list \<Rightarrow> string" where
  "comma_join xs = concat (case xs of [] \<Rightarrow> [] | y # ys \<Rightarrow> y # map (\<lambda>z. '', '' @ z) ys)"

definition apply_control_to_connector ::
  "wenv \<Rightarrow> Connector option \<Rightarrow> Dercontrol1 \<Rightarrow> string list \<Rightarrow> string option \<Rightarrow> string option \<Rightarrow> string
     \<Rightarrow> dispatcher \<Rightarrow> unit res \<times> dispatcher" where
  "apply_control_to_connector env conn derc curves lfdi href origin s =
     (case conn of
        None \<Rightarrow> (Ok (), s)
      | Some c \<Rightarrow>
          (let label = device_label lfdi href;
               wx = \<lparr>wx_lfdi = lfdi, wx_origin = origin, wx_label = label, wx_applied = Some (m_rid derc),
                     wx_cause = Some (m_rid derc)\<rparr>
           in and_then (for_calls (apply_mode env c wx href)
                          (translate_controls (we_view env) (derc_base derc) (map (we_view env) curves)) s)
                (\<lambda>rs s1. let refused = List.map_filter id rs
                         in if refused \<noteq> [] then (Raised (not_permitted origin label (comma_join refused)), s1)
                            else (Ok (), s1))))"

definition apply_control ::
  "wenv \<Rightarrow> string \<Rightarrow> Dercontrol1 \<Rightarrow> string list \<Rightarrow> string \<Rightarrow> dispatcher \<Rightarrow> unit res \<times> dispatcher" where
  "apply_control env href derc curves origin s =
     and_then (refuse_meter (we_lfdi env (d_tick s) href) s) (\<lambda>_ s1.
     and_then (resolve_connector env href s1) (\<lambda>conn s2.
       apply_control_to_connector env conn derc curves (we_lfdi env (d_tick s2) href) (Some href) origin s2))"

definition apply_control_by_lfdi ::
  "wenv \<Rightarrow> string \<Rightarrow> Dercontrol1 \<Rightarrow> string list \<Rightarrow> string \<Rightarrow> dispatcher \<Rightarrow> unit res \<times> dispatcher" where
  "apply_control_by_lfdi env lfdi derc curves origin s =
     and_then (refuse_meter (Some lfdi) s) (\<lambda>_ s1.
     and_then (resolve_connector_by_lfdi env lfdi s1) (\<lambda>conn s2.
       apply_control_to_connector env conn derc curves (Some lfdi) None origin s2))"

definition apply_operation ::
  "wenv \<Rightarrow> string \<Rightarrow> string \<Rightarrow> params \<Rightarrow> string \<Rightarrow> dispatcher \<Rightarrow> unit res \<times> dispatcher" where
  "apply_operation env lfdi control p origin s =
     and_then (refuse_meter (Some lfdi) s) (\<lambda>_ s1.
     and_then (resolve_connector_by_lfdi env lfdi s1) (\<lambda>conn s2.
       case conn of
         None \<Rightarrow> (Raised (simple_exn OtherError ''ConnectorError'' (''no connector for LFDI '' @ lfdi)), s2)
       | Some c \<Rightarrow>
           if \<not> fst (control_support c (''update_'' @ control))
           then (Raised (simple_exn OtherError ''ConnectorError'' (''connector does not implement update_'' @ control)), s2)
           else and_then (apply_one env c \<lparr>wx_lfdi = Some lfdi, wx_origin = origin, wx_label = lfdi, wx_applied = None,
                            wx_cause = None\<rparr> (''update_'' @ control) p s2)
                  (\<lambda>applied s3. if applied then (Ok (), s3) else (Raised (not_permitted origin lfdi control), s3))))"

text \<open>A write that sends no response is skipped for a meter, not refused.\<close>

definition apply_default_control_to_connector ::
  "wenv \<Rightarrow> Connector option \<Rightarrow> DefaultDercontrol \<Rightarrow> string list \<Rightarrow> string option \<Rightarrow> string option \<Rightarrow> string
     \<Rightarrow> bytes option \<Rightarrow> dispatcher \<Rightarrow> unit res \<times> dispatcher" where
  "apply_default_control_to_connector env conn dderc curves lfdi href origin cause s =
     (case conn of
        None \<Rightarrow> (Ok (), s)
      | Some c \<Rightarrow>
          (let wx = \<lparr>wx_lfdi = lfdi, wx_origin = origin, wx_label = device_label lfdi href,
                     wx_applied = Some (dderc_mrid dderc), wx_cause = cause\<rparr>
           in and_then (for_calls (apply_mode env c wx href)
                          (translate_default_controls (we_view env) dderc (map (we_view env) curves)) s)
                (\<lambda>_ s1. (Ok (), s1))))"

definition apply_default_control ::
  "wenv \<Rightarrow> string \<Rightarrow> DefaultDercontrol \<Rightarrow> string list \<Rightarrow> string \<Rightarrow> bytes option \<Rightarrow> dispatcher \<Rightarrow> unit res \<times> dispatcher" where
  "apply_default_control env href dderc curves origin cause s =
     (if \<not> takes_controls s (we_lfdi env (d_tick s) href) then (Ok (), s)
      else and_then (resolve_connector env href s) (\<lambda>conn s1.
             apply_default_control_to_connector env conn dderc curves (we_lfdi env (d_tick s1) href) (Some href) origin cause s1))"

definition apply_default_control_by_lfdi ::
  "wenv \<Rightarrow> string \<Rightarrow> DefaultDercontrol \<Rightarrow> string list \<Rightarrow> string \<Rightarrow> bytes option \<Rightarrow> dispatcher \<Rightarrow> unit res \<times> dispatcher" where
  "apply_default_control_by_lfdi env lfdi dderc curves origin cause s =
     (if \<not> takes_controls s (Some lfdi) then (Ok (), s)
      else and_then (resolve_connector_by_lfdi env lfdi s) (\<lambda>conn s1.
             apply_default_control_to_connector env conn dderc curves (Some lfdi) None origin cause s1))"

section \<open>Clearing and withdrawing\<close>

text \<open>One call of a fan-out: a method the connector does not implement is passed over.\<close>

definition disable_one :: "wenv \<Rightarrow> Connector \<Rightarrow> write_ctx \<Rightarrow> string \<times> params \<Rightarrow> dispatcher \<Rightarrow> bool res \<times> dispatcher" where
  "disable_one env c wx mp s =
     (if fst (control_support c (fst mp)) then apply_one env c wx (fst mp) (snd mp) s else (Ok False, s))"

definition plain_ctx :: "string option \<Rightarrow> CommandOrigin \<Rightarrow> string \<Rightarrow> bytes option \<Rightarrow> write_ctx" where
  "plain_ctx lfdi origin label cause =
     \<lparr>wx_lfdi = lfdi, wx_origin = origin_name origin, wx_label = label, wx_applied = None, wx_cause = cause\<rparr>"

definition clear_control_on_connector ::
  "wenv \<Rightarrow> Connector option \<Rightarrow> string option \<Rightarrow> string \<Rightarrow> bytes option \<Rightarrow> dispatcher \<Rightarrow> unit res \<times> dispatcher" where
  "clear_control_on_connector env conn lfdi label cause s =
     (case conn of
        None \<Rightarrow> (Ok (), s)
      | Some c \<Rightarrow>
          (let wx = plain_ctx lfdi ORIGIN_COMMS_LOSS label cause
           in if cn_native_clear c
              then and_then (apply_one env c wx ''clear_control'' [] s) (\<lambda>_ s1. (Ok (), s1))
              else and_then (for_calls (disable_one env c wx) DISABLE_CALLS s) (\<lambda>_ s1. (Ok (), s1))))"

definition clear_control :: "wenv \<Rightarrow> string \<Rightarrow> bytes option \<Rightarrow> dispatcher \<Rightarrow> unit res \<times> dispatcher" where
  "clear_control env href cause s =
     (if \<not> takes_controls s (we_lfdi env (d_tick s) href) then (Ok (), s)
      else and_then (resolve_connector env href s) (\<lambda>conn s1.
             clear_control_on_connector env conn (we_lfdi env (d_tick s1) href) href cause s1))"

definition clear_control_by_lfdi :: "wenv \<Rightarrow> string \<Rightarrow> bytes option \<Rightarrow> dispatcher \<Rightarrow> unit res \<times> dispatcher" where
  "clear_control_by_lfdi env lfdi cause s =
     (if \<not> takes_controls s (Some lfdi) then (Ok (), s)
      else and_then (resolve_connector_by_lfdi env lfdi s) (\<lambda>conn s1.
             clear_control_on_connector env conn (Some lfdi) lfdi cause s1))"

text \<open>The calls an event end makes for the modes: by method, the first entry kept.\<close>

definition withdraw_calls :: "string set \<Rightarrow> (string, params) dict" where
  "withdraw_calls modes =
     fold (\<lambda>mode calls. case map_of FIELD_DISABLE_CALLS mode of
                          None \<Rightarrow> calls
                        | Some (m, p) \<Rightarrow> if dhas calls m then calls else calls @ [(m, p)])
       (sorted_list_of_set modes) []"

definition disable_modes_on_connector ::
  "wenv \<Rightarrow> Connector option \<Rightarrow> string set \<Rightarrow> string option \<Rightarrow> string \<Rightarrow> bytes option \<Rightarrow> dispatcher \<Rightarrow> unit res \<times> dispatcher" where
  "disable_modes_on_connector env conn modes lfdi label cause s =
     (case conn of
        None \<Rightarrow> (Ok (), s)
      | Some c \<Rightarrow> and_then (for_calls (disable_one env c (plain_ctx lfdi ORIGIN_EVENT_END label cause)) (withdraw_calls modes) s)
                   (\<lambda>_ s1. (Ok (), s1)))"

definition disable_modes :: "wenv \<Rightarrow> string \<Rightarrow> string set \<Rightarrow> bytes option \<Rightarrow> dispatcher \<Rightarrow> unit res \<times> dispatcher" where
  "disable_modes env href modes cause s =
     (if \<not> takes_controls s (we_lfdi env (d_tick s) href) then (Ok (), s)
      else and_then (resolve_connector env href s) (\<lambda>conn s1.
             disable_modes_on_connector env conn modes (we_lfdi env (d_tick s1) href) href cause s1))"

definition disable_modes_by_lfdi :: "wenv \<Rightarrow> string \<Rightarrow> string set \<Rightarrow> bytes option \<Rightarrow> dispatcher \<Rightarrow> unit res \<times> dispatcher" where
  "disable_modes_by_lfdi env lfdi modes cause s =
     (if \<not> takes_controls s (Some lfdi) then (Ok (), s)
      else and_then (resolve_connector_by_lfdi env lfdi s) (\<lambda>conn s1.
             disable_modes_on_connector env conn modes (Some lfdi) lfdi cause s1))"

section \<open>Relaying schedule notifications\<close>

text \<open>\<open>connector.relay_group or id(connector)\<close>.\<close>

definition relay_key :: "Connector \<Rightarrow> string + nat" where
  "relay_key c = (case relay_group c of Some (x # xs) \<Rightarrow> Inl (x # xs) | _ \<Rightarrow> Inr (cn_id c))"

fun relay_targets ::
  "wenv \<Rightarrow> ScheduleNotification \<Rightarrow> string list \<Rightarrow> (string + nat) set \<Rightarrow> dispatcher \<Rightarrow> (string \<times> Connector) list res \<times> dispatcher" where
  "relay_targets env n [] seen s = (Ok [], s)"
| "relay_targets env n (lfdi # lfdis) seen s =
     (case resolve_connector_by_lfdi env lfdi s of
        (CancelledError, s1) \<Rightarrow> (CancelledError, s1)
      | (Raised e, s1) \<Rightarrow>
          relay_targets env n lfdis seen (log_act (Diagnosed (''schedule_notify_resolve:'' @ lfdi @ '':'' @ n_stream n)) s1)
      | (Ok None, s1) \<Rightarrow> relay_targets env n lfdis seen s1
      | (Ok (Some c), s1) \<Rightarrow>
          if relay_key c \<in> seen then relay_targets env n lfdis seen s1
          else and_then (relay_targets env n lfdis (insert (relay_key c) seen) s1) (\<lambda>ts s2. (Ok ((lfdi, c) # ts), s2)))"

definition notify_one :: "wenv \<Rightarrow> ScheduleNotification \<Rightarrow> string \<times> Connector \<Rightarrow> dispatcher \<Rightarrow> bool \<times> dispatcher" where
  "notify_one env n target s =
     (case target of (lfdi, c) \<Rightarrow>
        let result = we_call env (d_tick s); s1 = tick_over (log_act (NotifiedConnector (cn_id c) lfdi n result) s)
        in case result of
             CallDone \<Rightarrow> (False, s1)
           | CallCancelled \<Rightarrow> (True, s1)
           | CallRaised e \<Rightarrow>
               (False, log_act (Diagnosed (''schedule_notify:'' @ lfdi @ '':'' @ n_stream n @ '':'' @ n_mrid n)) s1))"

text \<open>The \<open>gather\<close>: every target is notified; a cancellation of one is raised after.\<close>

definition relay_schedule_notification ::
  "wenv \<Rightarrow> string list \<Rightarrow> ScheduleNotification \<Rightarrow> dispatcher \<Rightarrow> unit res \<times> dispatcher" where
  "relay_schedule_notification env lfdis n s =
     and_then (relay_targets env n lfdis {} s) (\<lambda>targets s1.
       case fold (\<lambda>t (cancelled, st). case notify_one env n t st of (c, st') \<Rightarrow> (cancelled \<or> c, st')) targets (False, s1) of
         (cancelled, s2) \<Rightarrow> (if cancelled then CancelledError else Ok (), s2))"

end
