(* ===== verification/Dispatch_Laws.thy ===== *)
theory Dispatch_Laws
  imports Dispatcher Interfaces
begin

text \<open>
  Properties of the connector dispatcher over runs of its operations. The locale \<open>dispatch_law\<close>
  is the interface between the operations and what is to be shown of them: a relation that every
  silent step, every diagnostic and every single write keeps is kept by every operation and every
  run. It is interpreted for authority (which calls may happen) and for accounting (what is
  recorded of them).
\<close>

section \<open>Runs of operations\<close>

datatype dop =
    OpControl target Dercontrol1 "string list" string
  | OpOperation string string params string
  | OpDefault target DefaultDercontrol "string list" string "bytes option"
  | OpClear target "bytes option"
  | OpDisable target "string set" "bytes option"
  | OpRelay "string list" ScheduleNotification
  | OpModes2 string

definition run_op :: "wenv \<Rightarrow> dop \<Rightarrow> dispatcher \<Rightarrow> dispatcher" where
  "run_op env oper s =
     (case oper of
        OpControl (ByHref h) derc curves origin \<Rightarrow> snd (apply_control env h derc curves origin s)
      | OpControl (ByLfdi l) derc curves origin \<Rightarrow> snd (apply_control_by_lfdi env l derc curves origin s)
      | OpOperation l control p origin \<Rightarrow> snd (apply_operation env l control p origin s)
      | OpDefault (ByHref h) dderc curves origin cause \<Rightarrow> snd (apply_default_control env h dderc curves origin cause s)
      | OpDefault (ByLfdi l) dderc curves origin cause \<Rightarrow> snd (apply_default_control_by_lfdi env l dderc curves origin cause s)
      | OpClear (ByHref h) cause \<Rightarrow> snd (clear_control env h cause s)
      | OpClear (ByLfdi l) cause \<Rightarrow> snd (clear_control_by_lfdi env l cause s)
      | OpDisable (ByHref h) modes cause \<Rightarrow> snd (disable_modes env h modes cause s)
      | OpDisable (ByLfdi l) modes cause \<Rightarrow> snd (disable_modes_by_lfdi env l modes cause s)
      | OpRelay lfdis n \<Rightarrow> snd (relay_schedule_notification env lfdis n s)
      | OpModes2 l \<Rightarrow> snd (dispatcher_modes2 l s))"

definition run_ops :: "wenv \<Rightarrow> dop list \<Rightarrow> dispatcher \<Rightarrow> dispatcher" where
  "run_ops env ops s = fold (run_op env) ops s"

section \<open>Steps that write nothing\<close>

definition silent :: "dispatcher \<Rightarrow> dispatcher \<Rightarrow> bool" where
  "silent s s' \<longleftrightarrow> d_trace s' = d_trace s \<and> rg_configs (d_registry s') = rg_configs (d_registry s) \<and> d_history s' = d_history s"

fun benign :: "act \<Rightarrow> bool" where
  "benign (DeviceCall _) = False"
| "benign (WriteKept _) = False"
| "benign (WriteStreamed _) = False"
| "benign (CommandKept _ _ _ _ _ _) = False"
| "benign _ = True"

lemma configs_get_connector: "rg_configs (snd (get_connector lfdi rg)) = rg_configs rg"
  by (auto simp: get_connector_def split: option.splits sum.splits)

lemma snd_aresolve_silent: "silent s (snd (aresolve env key s))"
  by (auto simp: aresolve_def silent_def tick_over_def Let_def split: option.splits prod.splits sum.splits)

lemma snd_modes2_silent: "silent s (snd (dispatcher_modes2 lfdi s))"
  using configs_get_connector [of lfdi "d_registry s"]
  by (auto simp: dispatcher_modes2_def silent_def split: option.splits prod.splits sum.splits)

lemma no_connector [simp]:
  "apply_control_to_connector env None derc curves lfdi h origin s = (Ok (), s)"
  "apply_default_control_to_connector env None dderc curves lfdi h origin cause s = (Ok (), s)"
  "clear_control_on_connector env None lfdi label cause s = (Ok (), s)"
  "disable_modes_on_connector env None modes lfdi label cause s = (Ok (), s)"
  by (simp_all add: apply_control_to_connector_def apply_default_control_to_connector_def
      clear_control_on_connector_def disable_modes_on_connector_def)

locale dispatch_law = step_contract R for R :: "dispatcher \<Rightarrow> dispatcher \<Rightarrow> bool" +
  fixes env :: wenv and allowed :: "dispatcher \<Rightarrow> string option \<Rightarrow> bool"
  assumes silent_step: "silent s s' \<Longrightarrow> R s s'"
    and benign_step: "benign a \<Longrightarrow> R s (log_act a s)"
    and write_step: "allowed s (wx_lfdi wx) \<Longrightarrow> R s (snd (apply_one env c wx m p s))"
    and allowed_step: "R s s' \<Longrightarrow> allowed s' lfdi = allowed s lfdi"
    and allowed_lfdi: "takes_controls s (Some l) \<Longrightarrow> allowed s (Some l)"
    and allowed_href: "resolve_connector env h s = (Ok (Some c), s1) \<Longrightarrow>
      takes_controls s (we_lfdi env (d_tick s) h) \<Longrightarrow> allowed s1 (we_lfdi env (d_tick s1) h)"
begin

lemma then_step: "R s (snd m) \<Longrightarrow> (\<And>x s1. m = (Ok x, s1) \<Longrightarrow> R s1 (snd (f x s1))) \<Longrightarrow> R s (snd (and_then m f))"
  by (cases m; cases "fst m") (auto simp: and_then_def intro: trans)

lemma log_if_step: "benign a \<Longrightarrow> R s (log_if b a s)"
  by (simp add: log_if_def benign_step)

lemma mode_step: "allowed s (wx_lfdi wx) \<Longrightarrow> R s (snd (apply_mode env c wx h mp s))"
  by (auto simp: apply_mode_def report_unimplemented_mode_def benign_step write_step
      split: prod.splits bool.splits intro: then_step)

lemma disable_step: "allowed s (wx_lfdi wx) \<Longrightarrow> R s (snd (disable_one env c wx mp s))"
  by (simp add: disable_one_def write_step)

lemma calls_step:
  assumes "\<And>x s. allowed s l \<Longrightarrow> R s (snd (f x s))" "allowed s l"
  shows "R s (snd (for_calls f xs s))"
  using assms(2)
proof (induction xs arbitrary: s)
  case Nil
  then show ?case by simp
next
  case (Cons x xs)
  have step: "R s (snd (f x s))" using assms(1) Cons.prems .
  have "R s1 (snd (for_calls f xs s1))" if "f x s = (Ok b, s1)" for b s1
    using Cons.IH [of s1] Cons.prems allowed_step [OF step] that by simp
  then show ?case using step by (auto intro!: then_step)
qed

lemma resolve_lfdi_step: "R s (snd (resolve_connector_by_lfdi env lfdi s))"
proof -
  obtain r rg where g: "get_connector lfdi (d_registry s) = (r, rg)" by fastforce
  have 0: "R s (s\<lparr>d_registry := rg\<rparr>)"
    using configs_get_connector [of lfdi "d_registry s"] g by (intro silent_step) (simp add: silent_def)
  have 1: "R u (report_missing lfdi u)" "R u (forget_missing lfdi u)" for u
    unfolding report_missing_def forget_missing_def
    by (auto intro: trans [OF silent_step benign_step] simp: silent_def)
  have 2: "R u (warn_unused_update_methods c u)" for u c
    unfolding warn_unused_update_methods_def Let_def
    by (auto intro: trans [OF silent_step log_if_step] simp: silent_def)
  show ?thesis
    using trans [OF 0 1(1)] trans [OF trans [OF 0 1(2)] silent_step [OF snd_aresolve_silent]] 0
    by (auto simp: resolve_connector_by_lfdi_def g 2 split: sum.splits option.splits intro!: then_step)
qed

lemma resolve_href_step: "R s (snd (resolve_connector env h s))"
  by (simp add: resolve_connector_def benign_step resolve_lfdi_step split: option.splits)

text \<open>A connector for an LFDI stays within what was allowed when it was asked for.\<close>

lemma resolved_allowed:
  "takes_controls s (Some l) \<Longrightarrow> resolve_connector_by_lfdi env l s = (r, s1) \<Longrightarrow> allowed s1 (Some l)"
  using allowed_step [OF resolve_lfdi_step [of s l]] allowed_lfdi [of s l] by simp

lemma control_on_step: "allowed s lfdi \<Longrightarrow> R s (snd (apply_control_to_connector env conn derc curves lfdi h origin s))"
  unfolding apply_control_to_connector_def Let_def
  by (auto split: option.splits intro!: then_step calls_step [where l = lfdi] mode_step)

lemma default_on_step:
  "allowed s lfdi \<Longrightarrow> R s (snd (apply_default_control_to_connector env conn dderc curves lfdi h origin cause s))"
  unfolding apply_default_control_to_connector_def Let_def
  by (auto split: option.splits intro!: then_step calls_step [where l = lfdi] mode_step)

lemma clear_on_step: "allowed s lfdi \<Longrightarrow> R s (snd (clear_control_on_connector env conn lfdi label cause s))"
  unfolding clear_control_on_connector_def Let_def plain_ctx_def
  by (auto split: option.splits intro!: then_step calls_step [where l = lfdi] disable_step write_step)

lemma disable_on_step: "allowed s lfdi \<Longrightarrow> R s (snd (disable_modes_on_connector env conn modes lfdi label cause s))"
  unfolding disable_modes_on_connector_def plain_ctx_def
  by (auto split: option.splits intro!: then_step calls_step [where l = lfdi] disable_step)

text \<open>The two shapes of an operation: by LFDI and by href.\<close>

lemma by_lfdi_step:
  assumes "takes_controls s (Some l)" "\<And>conn s1. allowed s1 (Some l) \<Longrightarrow> R s1 (snd (f conn s1))"
  shows "R s (snd (and_then (resolve_connector_by_lfdi env l s) f))"
  using assms resolved_allowed by (auto intro!: then_step resolve_lfdi_step)

lemma by_href_step:
  assumes "takes_controls s (we_lfdi env (d_tick s) h)" "\<And>s1. f None s1 = (Ok (), s1)"
    "\<And>c s1. allowed s1 (we_lfdi env (d_tick s1) h) \<Longrightarrow> R s1 (snd (f (Some c) s1))"
  shows "R s (snd (and_then (resolve_connector env h s) f))"
proof (rule then_step [OF resolve_href_step])
  fix conn s1
  assume r: "resolve_connector env h s = (Ok conn, s1)"
  show "R s1 (snd (f conn s1))"
  proof (cases conn)
    case None
    then show ?thesis by (simp add: assms(2))
  next
    case (Some c)
    then show ?thesis using allowed_href [of h s c s1] r assms(1,3) by simp
  qed
qed

lemma refuse_meter_cases:
  "(\<And>u. takes_controls s lfdi \<Longrightarrow> R s (snd (f u s))) \<Longrightarrow> R s (snd (and_then (refuse_meter lfdi s) f))"
  by (simp add: refuse_meter_def and_then_def)

lemma targets_step: "R s (snd (relay_targets env n lfdis seen s))"
proof (induction lfdis arbitrary: seen s)
  case Nil
  then show ?case by simp
next
  case (Cons l lfdis)
  obtain r s1 where r: "resolve_connector_by_lfdi env l s = (r, s1)" by fastforce
  have step: "R s s1" using resolve_lfdi_step [of s l] r by simp
  have rest: "R s (snd (relay_targets env n lfdis seen' s1))" for seen'
    using step Cons.IH by (rule trans)
  have "R s (snd (relay_targets env n lfdis seen (log_act a s1)))" if "benign a" for a
    using trans [OF trans [OF step benign_step [OF that]] Cons.IH] .
  then show ?case
    using step rest by (auto simp: r split: res.splits option.splits intro!: then_step)
qed

lemma notify_step: "R s (snd (notify_one env n t s))"
proof -
  have "R s (tick_over (log_act (NotifiedConnector i l n r) s))" for i l r
    by (rule trans [OF benign_step silent_step]) (simp_all add: silent_def tick_over_def)
  then show ?thesis
    by (auto simp: notify_one_def Let_def split: prod.splits call_result.splits intro: trans [OF _ benign_step])
qed

lemma notify_all_step:
  "R s (snd (fold (\<lambda>t (cancelled, st). case notify_one env n t st of (c, st') \<Rightarrow> (cancelled \<or> c, st')) ts (b, s)))"
proof (induction ts arbitrary: b s)
  case Nil
  then show ?case by simp
next
  case (Cons t ts)
  obtain c st where t: "notify_one env n t s = (c, st)" by fastforce
  then show ?case using trans [OF notify_step [of s n t] Cons.IH] by simp
qed

lemma op_step: "R s (run_op env oper s)"
proof (cases oper)
  case (OpControl tg derc curves origin)
  then show ?thesis
    by (cases tg) (auto simp: run_op_def apply_control_def apply_control_by_lfdi_def
        intro!: refuse_meter_cases by_lfdi_step by_href_step control_on_step)
next
  case (OpOperation l control p origin)
  then show ?thesis
    using resolved_allowed [of s l]
    by (auto simp: run_op_def apply_operation_def split: option.splits
        intro!: refuse_meter_cases then_step resolve_lfdi_step write_step)
next
  case (OpDefault tg dderc curves origin cause)
  then show ?thesis
    by (cases tg) (auto simp: run_op_def apply_default_control_def apply_default_control_by_lfdi_def
        intro!: by_lfdi_step by_href_step default_on_step)
next
  case (OpClear tg cause)
  then show ?thesis
    by (cases tg) (auto simp: run_op_def clear_control_def clear_control_by_lfdi_def
        intro!: by_lfdi_step by_href_step clear_on_step)
next
  case (OpDisable tg modes cause)
  then show ?thesis
    by (cases tg) (auto simp: run_op_def disable_modes_def disable_modes_by_lfdi_def
        intro!: by_lfdi_step by_href_step disable_on_step)
next
  case (OpRelay lfdis n)
  then show ?thesis
    using notify_all_step
    by (auto simp: run_op_def relay_schedule_notification_def split_beta intro!: then_step targets_step)
next
  case (OpModes2 l)
  then show ?thesis by (simp add: run_op_def silent_step snd_modes2_silent)
qed

lemma run_step: "R s (run_ops env ops s)"
  unfolding run_ops_def by (rule fold_step) (rule op_step)

end

section \<open>Authority\<close>

text \<open>The call was permitted by the gate at the time it was made, and is not to a meter.\<close>

definition authorized_call :: "wenv \<Rightarrow> dispatcher \<Rightarrow> device_call \<Rightarrow> bool" where
  "authorized_call env s d \<longleftrightarrow> dv_lfdi d \<noteq> None \<and> takes_controls s (dv_lfdi d) \<and>
     (dv_lfdi d = Some [] \<or> we_gate env (dv_tick d) (the (dv_lfdi d)) (dv_origin d))"

text \<open>The control writes of a trace; a relayed notification (\<open>NotifiedConnector\<close>) is none.\<close>

definition calls_of :: "act list \<Rightarrow> device_call list" where
  "calls_of as = List.map_filter (\<lambda>a. case a of DeviceCall d \<Rightarrow> Some d | _ \<Rightarrow> None) as"

definition authorized :: "wenv \<Rightarrow> dispatcher \<Rightarrow> dispatcher \<Rightarrow> bool" where
  "authorized env s s' \<longleftrightarrow> rg_configs (d_registry s') = rg_configs (d_registry s) \<and>
     (\<exists>as. d_trace s' = d_trace s @ as \<and> list_all (authorized_call env s) (calls_of as))"

text \<open>A resolver from href to LFDI whose answers do not change.\<close>

definition steady :: "wenv \<Rightarrow> (string \<Rightarrow> string option) \<Rightarrow> wenv" where
  "steady env f = env\<lparr>we_lfdi := \<lambda>_. f\<rparr>"

definition may_write :: "dispatcher \<Rightarrow> string option \<Rightarrow> bool" where
  "may_write s lfdi \<longleftrightarrow> lfdi \<noteq> None \<and> takes_controls s lfdi"

lemma calls_of_append [simp]: "calls_of (as @ bs) = calls_of as @ calls_of bs"
  by (simp add: calls_of_def List.map_filter_def)

lemma calls_of_simps [simp]: "calls_of [] = []" "calls_of (DeviceCall d # as) = d # calls_of as"
  "benign a \<Longrightarrow> calls_of (a # as) = calls_of as" "calls_of (WriteKept w # as) = calls_of as"
  "calls_of (WriteStreamed w # as) = calls_of as" "calls_of (CommandKept l c p org t e # as) = calls_of as"
  by (cases a; simp add: calls_of_def List.map_filter_def)+

lemma takes_controls_configs:
  "rg_configs (d_registry s') = rg_configs (d_registry s) \<Longrightarrow> takes_controls s' = takes_controls s"
  by (rule ext) (simp add: takes_controls_def role_of_def canonical_lfdi_def split: option.splits)

lemma authorized_trans: "authorized env s t \<Longrightarrow> authorized env t u \<Longrightarrow> authorized env s u"
proof -
  assume st: "authorized env s t" and tu: "authorized env t u"
  then have "authorized_call env t = authorized_call env s"
    using takes_controls_configs [of t s] by (auto simp: authorized_def authorized_call_def)
  moreover obtain as where "d_trace t = d_trace s @ as" "list_all (authorized_call env s) (calls_of as)"
    using st unfolding authorized_def by (elim conjE exE)
  moreover obtain bs where "d_trace u = d_trace t @ bs" "list_all (authorized_call env t) (calls_of bs)"
    using tu unfolding authorized_def by (elim conjE exE)
  ultimately have "d_trace u = d_trace s @ as @ bs" "list_all (authorized_call env s) (calls_of (as @ bs))" by simp_all
  then show ?thesis using st tu unfolding authorized_def by (metis (no_types, lifting))
qed

text \<open>What one write appends to the trace.\<close>

definition act_if :: "bool \<Rightarrow> act \<Rightarrow> act list" where
  "act_if b a = (if b then [a] else [])"

definition the_call :: "wenv \<Rightarrow> Connector \<Rightarrow> write_ctx \<Rightarrow> string \<Rightarrow> params \<Rightarrow> nat \<Rightarrow> device_call" where
  "the_call env c wx m p t = \<lparr>dv_connector = cn_id c, dv_method = m, dv_params = p, dv_lfdi = wx_lfdi wx,
     dv_origin = wx_origin wx, dv_tick = t, dv_result = we_call env t\<rparr>"

definition write_acts :: "wenv \<Rightarrow> Connector \<Rightarrow> write_ctx \<Rightarrow> string \<Rightarrow> params \<Rightarrow> dispatcher \<Rightarrow> act list" where
  "write_acts env c wx m p s =
     (let control = removeprefix ''update_'' m; t = d_tick s; now = we_clock env t; lfdi = wx_lfdi wx; org = wx_origin wx
      in if \<not> permitted env wx t
         then let w = write_of wx control p Refused now (Some (org @ '' does not hold the command role for this device'', ''refused''))
              in Diagnosed (''not-commanding-'' @ org @ ''-'' @ the lfdi) # act_if (d_history s) (WriteKept w)
                 @ act_if (we_telemetry env) (WriteStreamed w)
         else DeviceCall (the_call env c wx m p t) #
              (case we_call env t of
                 CallCancelled \<Rightarrow> []
               | CallRaised e \<Rightarrow>
                   let w = write_of wx control p Failed now (Some (ex_text e, ex_type e))
                   in act_if (d_history s) (WriteKept w) @ act_if (given lfdi) (CommandKept (the lfdi) control p org now (Some (ex_text e)))
                      @ act_if (we_telemetry env) (WriteStreamed w)
               | CallDone \<Rightarrow>
                   let w = write_of wx control p Applied now None
                   in act_if (d_history s) (WriteKept w) @ act_if (we_telemetry env) (WriteStreamed w)
                      @ act_if (given lfdi) (CommandKept (the lfdi) control p org now None)))"

lemma apply_one_trace: "d_trace (snd (apply_one env c wx m p s)) = d_trace s @ write_acts env c wx m p s"
  by (simp add: apply_one_def write_acts_def the_call_def act_if_def refuse_write_def keep_write_def log_if_def log_act_def
      tick_over_def Let_def split: call_result.splits)

lemma calls_of_act_if [simp]: "calls_of (act_if b (WriteKept w)) = []" "calls_of (act_if b (WriteStreamed w)) = []"
  "calls_of (act_if b (CommandKept l k p org t e)) = []"
  by (simp_all add: act_if_def)

lemma calls_of_write:
  "calls_of (write_acts env c wx m p s) = (if permitted env wx (d_tick s) then [the_call env c wx m p (d_tick s)] else [])"
  by (simp add: write_acts_def Let_def split: call_result.splits)

lemma apply_one_frame:
  "d_registry (snd (apply_one env c wx m p s)) = d_registry s" "d_history (snd (apply_one env c wx m p s)) = d_history s"
  by (simp_all add: apply_one_def refuse_write_def keep_write_def log_if_def log_act_def tick_over_def Let_def
      split: call_result.splits)

lemma authorized_write:
  "may_write s (wx_lfdi wx) \<Longrightarrow> authorized env s (snd (apply_one env c wx m p s))"
  unfolding authorized_def apply_one_trace apply_one_frame
  by (auto simp: calls_of_write authorized_call_def may_write_def permitted_def the_call_def given_def split: option.splits)

lemma steady_lfdi [simp]: "we_lfdi (steady env f) t = f"
  by (simp add: steady_def)

lemma configs_aresolve: "rg_configs (d_registry (snd (aresolve env key s))) = rg_configs (d_registry s)"
  using snd_aresolve_silent [of s env key] by (simp add: silent_def)

lemma and_then_keeps: "P (snd m) \<Longrightarrow> (\<And>x s1. P s1 \<Longrightarrow> P (snd (f x s1))) \<Longrightarrow> P (snd (and_then m f))"
  by (cases m; cases "fst m") (auto simp: and_then_def)

lemma configs_resolve_lfdi:
  "rg_configs (d_registry (snd (resolve_connector_by_lfdi env l s))) = rg_configs (d_registry s)"
proof -
  obtain r rg where g: "get_connector l (d_registry s) = (r, rg)" by fastforce
  have "rg_configs rg = rg_configs (d_registry s)" using configs_get_connector [of l "d_registry s"] g by simp
  moreover have "d_registry (report_missing l u) = d_registry u" "d_registry (forget_missing l u) = d_registry u"
    "d_registry (warn_unused_update_methods c u) = d_registry u" for u c
    by (simp_all add: report_missing_def forget_missing_def warn_unused_update_methods_def log_act_def log_if_def Let_def)
  ultimately show ?thesis
    by (auto simp: resolve_connector_by_lfdi_def g configs_aresolve split: sum.splits option.splits
        intro!: and_then_keeps [where P = "\<lambda>u. rg_configs (d_registry u) = rg_configs (d_registry s)"])
qed

lemma resolved_href:
  assumes "resolve_connector env h s = (Ok (Some c), s1)"
  shows "we_lfdi env (d_tick s) h \<noteq> None" "rg_configs (d_registry s1) = rg_configs (d_registry s)"
  using assms configs_resolve_lfdi [of env _ s] by (auto simp: resolve_connector_def split: option.splits) (metis snd_conv)

interpretation authority: dispatch_law "authorized (steady env f)" "steady env f" may_write for env f
proof unfold_locales
  show "authorized (steady env f) s s" for s by (simp add: authorized_def)
  show "authorized (steady env f) s t \<Longrightarrow> authorized (steady env f) t u \<Longrightarrow> authorized (steady env f) s u" for s t u
    by (rule authorized_trans)
  show "silent s s' \<Longrightarrow> authorized (steady env f) s s'" for s s' by (simp add: silent_def authorized_def)
  show "benign a \<Longrightarrow> authorized (steady env f) s (log_act a s)" for a s by (simp add: authorized_def log_act_def)
  show "may_write s (wx_lfdi wx) \<Longrightarrow> authorized (steady env f) s (snd (apply_one (steady env f) c wx m p s))" for s wx c m p
    by (rule authorized_write)
  show "authorized (steady env f) s s' \<Longrightarrow> may_write s' lfdi = may_write s lfdi" for s s' lfdi
    using takes_controls_configs [of s' s] by (simp add: authorized_def may_write_def)
  show "takes_controls s (Some l) \<Longrightarrow> may_write s (Some l)" for s l by (simp add: may_write_def)
  show "resolve_connector (steady env f) h s = (Ok (Some c), s1) \<Longrightarrow>
      takes_controls s (we_lfdi (steady env f) (d_tick s) h) \<Longrightarrow> may_write s1 (we_lfdi (steady env f) (d_tick s1) h)" for h s c s1
    using resolved_href [of "steady env f" h s c s1] takes_controls_configs [of s1 s] by (simp add: may_write_def)
qed

text \<open>
  A schedule notification is no control write: the relay asks neither the gate nor the role of the
  device, and reaches every connector it resolves, a meter's too.
\<close>

lemma relay_not_gated:
  assumes "resolve_connector_by_lfdi env l s = (Ok (Some c), s1)"
  shows "NotifiedConnector (cn_id c) l n (we_call env (d_tick s1)) \<in> set (d_trace (snd (relay_schedule_notification env [l] n s)))"
  using assms
  by (simp add: relay_schedule_notification_def and_then_def notify_one_def log_act_def tick_over_def Let_def split: call_result.split)

text \<open>
  C4. As long as the resolver from device href to LFDI keeps its answers, every control write of any
  run of operations (a call of an update method or of the connector's own clear; relayed schedule
  notifications are no writes and are not meant) names its device, the device is not configured as a
  meter, and the command gate permitted the device and the origin of the write at that moment, except
  that the gate is not asked for an empty LFDI.
\<close>

theorem writes_are_authorized:
  assumes "\<And>t h. we_lfdi env t h = f h" "d_trace s = []"
  shows "list_all (\<lambda>d. dv_lfdi d \<noteq> None \<and> takes_controls s (dv_lfdi d) \<and>
      (dv_lfdi d = Some [] \<or> we_gate env (dv_tick d) (the (dv_lfdi d)) (dv_origin d)))
    (calls_of (d_trace (run_ops env ops s)))"
proof -
  have "steady env f = env" using assms(1) by (simp add: steady_def fun_eq_iff)
  then have "authorized env s (run_ops env ops s)" using authority.run_step [of env f s ops] by simp
  then show ?thesis using assms(2) by (auto simp: authorized_def authorized_call_def [abs_def])
qed

section \<open>Accounting\<close>

text \<open>What a record says of a write: control, parameters, device, origin and whether it succeeded.\<close>

type_synonym write_key = "string \<times> params \<times> string option \<times> string \<times> bool"

definition settled_of :: "act list \<Rightarrow> write_key list" where
  "settled_of as =
     map (\<lambda>d. (removeprefix ''update_'' (dv_method d), dv_params d, dv_lfdi d, dv_origin d, dv_result d = CallDone))
       (filter (\<lambda>d. dv_result d \<noteq> CallCancelled) (calls_of as))"

definition kept_of :: "act list \<Rightarrow> write_key list" where
  "kept_of as =
     List.map_filter (\<lambda>a. case a of
         WriteKept w \<Rightarrow> if wr_outcome w = Refused then None
                        else Some (wr_control w, wr_params w, wr_lfdi w, wr_origin w, wr_outcome w = Applied)
       | _ \<Rightarrow> None) as"

definition commands_of :: "act list \<Rightarrow> write_key list" where
  "commands_of as =
     List.map_filter (\<lambda>a. case a of CommandKept l k p org t err \<Rightarrow> Some (k, p, Some l, org, err = None) | _ \<Rightarrow> None) as"

definition with_lfdi :: "write_key list \<Rightarrow> write_key list" where
  "with_lfdi ks = filter (\<lambda>(k, p, lfdi, org, b). given lfdi) ks"

definition accounted :: "dispatcher \<Rightarrow> dispatcher \<Rightarrow> bool" where
  "accounted s s' \<longleftrightarrow> d_history s' = d_history s \<and>
     (\<exists>as. d_trace s' = d_trace s @ as \<and> (d_history s \<longrightarrow> kept_of as = settled_of as) \<and> commands_of as = with_lfdi (settled_of as))"

lemma account_append [simp]:
  "settled_of (as @ bs) = settled_of as @ settled_of bs" "kept_of (as @ bs) = kept_of as @ kept_of bs"
  "commands_of (as @ bs) = commands_of as @ commands_of bs" "with_lfdi (ks @ ls) = with_lfdi ks @ with_lfdi ls"
  by (simp_all add: settled_of_def kept_of_def commands_of_def with_lfdi_def List.map_filter_def)

lemma account_Nil [simp]: "settled_of [] = []" "kept_of [] = []" "commands_of [] = []" "with_lfdi [] = []"
  by (simp_all add: settled_of_def kept_of_def commands_of_def with_lfdi_def List.map_filter_def)

lemma settled_of_Cons [simp]:
  "settled_of (DeviceCall d # as) = (if dv_result d = CallCancelled then [] else
     [(removeprefix ''update_'' (dv_method d), dv_params d, dv_lfdi d, dv_origin d, dv_result d = CallDone)]) @ settled_of as"
  "settled_of (WriteKept w # as) = settled_of as" "settled_of (WriteStreamed w # as) = settled_of as"
  "settled_of (CommandKept l k p org t err # as) = settled_of as" "benign a \<Longrightarrow> settled_of (a # as) = settled_of as"
  by (simp_all add: settled_of_def)

lemma kept_of_Cons [simp]:
  "kept_of (WriteKept w # as) = (if wr_outcome w = Refused then [] else
     [(wr_control w, wr_params w, wr_lfdi w, wr_origin w, wr_outcome w = Applied)]) @ kept_of as"
  "kept_of (DeviceCall d # as) = kept_of as" "kept_of (WriteStreamed w # as) = kept_of as"
  "kept_of (CommandKept l k p org t err # as) = kept_of as" "benign a \<Longrightarrow> kept_of (a # as) = kept_of as"
  by (cases a; simp add: kept_of_def List.map_filter_def)+

lemma commands_of_Cons [simp]:
  "commands_of (CommandKept l k p org t err # as) = (k, p, Some l, org, err = None) # commands_of as"
  "commands_of (WriteKept w # as) = commands_of as" "commands_of (DeviceCall d # as) = commands_of as"
  "commands_of (WriteStreamed w # as) = commands_of as" "benign a \<Longrightarrow> commands_of (a # as) = commands_of as"
  by (cases a; simp add: commands_of_def List.map_filter_def)+

lemma accounted_trans: "accounted s t \<Longrightarrow> accounted t u \<Longrightarrow> accounted s u"
proof -
  assume st: "accounted s t" and tu: "accounted t u"
  obtain as where as: "d_trace t = d_trace s @ as" "d_history s \<longrightarrow> kept_of as = settled_of as"
    "commands_of as = with_lfdi (settled_of as)" and h: "d_history t = d_history s"
    using st unfolding accounted_def by (elim conjE exE)
  obtain bs where bs: "d_trace u = d_trace t @ bs" "d_history t \<longrightarrow> kept_of bs = settled_of bs"
    "commands_of bs = with_lfdi (settled_of bs)" and h': "d_history u = d_history t"
    using tu unfolding accounted_def by (elim conjE exE)
  show ?thesis unfolding accounted_def
    by (rule conjI, use h h' in simp, rule exI [of _ "as @ bs"]) (use as bs h in auto)
qed

lemma accounted_write: "accounted s (snd (apply_one env c wx m p s))"
proof -
  have "d_history s \<longrightarrow> kept_of (write_acts env c wx m p s) = settled_of (write_acts env c wx m p s)"
    "commands_of (write_acts env c wx m p s) = with_lfdi (settled_of (write_acts env c wx m p s))"
    by (cases "wx_lfdi wx"; simp add: write_acts_def act_if_def the_call_def write_of_def Let_def with_lfdi_def given_def
        split: call_result.splits)+
  then show ?thesis unfolding accounted_def apply_one_trace apply_one_frame by blast
qed

interpretation accounting: dispatch_law accounted env "\<lambda>_ _. True" for env
proof unfold_locales
  show "accounted s s" for s by (simp add: accounted_def)
  show "accounted s t \<Longrightarrow> accounted t u \<Longrightarrow> accounted s u" for s t u by (rule accounted_trans)
  show "silent s s' \<Longrightarrow> accounted s s'" for s s' by (simp add: silent_def accounted_def)
  show "benign a \<Longrightarrow> accounted s (log_act a s)" for a s by (simp add: accounted_def log_act_def)
  show "accounted s (snd (apply_one env c wx m p s))" for s wx c m p by (rule accounted_write)
qed simp_all

text \<open>
  C5. With a history attached, any run of operations hands it exactly one entry for each
  control write that was not cancelled, in order, with the control, parameters, device, origin and
  outcome of the call; and the command observer has exactly one record for each such call that
  names a device.
\<close>

theorem every_write_accounted:
  assumes "d_history s" "d_trace s = []"
  shows "kept_of (d_trace (run_ops env ops s)) = settled_of (d_trace (run_ops env ops s)) \<and>
    commands_of (d_trace (run_ops env ops s)) = with_lfdi (settled_of (d_trace (run_ops env ops s)))"
  using accounting.run_step [of s env ops] assms by (auto simp: accounted_def)

end
