(* ===== verification/Dispatch_Props.thy ===== *)
theory Dispatch_Props
  imports Dispatch_Laws
begin

text \<open>
  What the operations of the dispatcher do to a device: a control is written in order up to the
  first call that fails, or not at all when the gate refuses; the end of an event withdraws the modes
  it names, a clear withdraws every mode; and four places where the code does less or more than it
  means to.
\<close>

section \<open>The calls of one operation\<close>

definition written :: "dispatcher \<Rightarrow> dispatcher \<Rightarrow> (string \<times> params) list" where
  "written s s' = map (\<lambda>d. (dv_method d, dv_params d)) (calls_of (drop (length (d_trace s)) (d_trace s')))"

definition implements :: "Connector \<Rightarrow> string \<Rightarrow> bool" where
  "implements c m \<longleftrightarrow> cn_support c m = Implemented"

lemma support_implements: "fst (control_support c m) = implements c m"
  by (simp add: control_support_def implements_def split: method_support.splits)

definition extends :: "dispatcher \<Rightarrow> dispatcher \<Rightarrow> bool" where
  "extends s s' \<longleftrightarrow> (\<exists>as. d_trace s' = d_trace s @ as)"

lemma extends_trans: "extends s t \<Longrightarrow> extends t u \<Longrightarrow> extends s u"
  unfolding extends_def by (elim exE) simp

lemma written_trans: "extends s t \<Longrightarrow> extends t u \<Longrightarrow> written s u = written s t @ written t u"
  unfolding extends_def written_def by (elim exE) simp

lemma written_refl [simp]: "written s s = []" "extends s s"
  by (simp_all add: written_def extends_def)

lemma apply_one_extends: "extends s (snd (apply_one env c wx m p s))"
  by (auto simp: extends_def apply_one_trace)

lemma apply_one_written:
  "written s (snd (apply_one env c wx m p s)) = (if permitted env wx (d_tick s) then [(m, p)] else [])"
  by (simp add: written_def apply_one_trace calls_of_write the_call_def)

lemma apply_one_result:
  "permitted env wx (d_tick s) \<Longrightarrow> we_call env (d_tick s) = CallDone \<Longrightarrow> fst (apply_one env c wx m p s) = Ok True"
  "\<not> permitted env wx (d_tick s) \<Longrightarrow> fst (apply_one env c wx m p s) = Ok False"
  by (simp_all add: apply_one_def Let_def)

text \<open>A gate that answers the same throughout, as \<open>CommandGate\<close> requires, and a device that
  carries out what reaches it.\<close>

definition steady_gate :: "wenv \<Rightarrow> write_ctx \<Rightarrow> bool \<Rightarrow> bool" where
  "steady_gate env wx b \<longleftrightarrow> (\<forall>t. permitted env wx t = b) \<and> (b \<longrightarrow> (\<forall>t. we_call env t = CallDone))"

lemma apply_one_steady:
  assumes "steady_gate env wx b"
  obtains s' where "apply_one env c wx m p s = (Ok b, s')" "extends s s'" "written s s' = (if b then [(m, p)] else [])"
proof -
  have "fst (apply_one env c wx m p s) = Ok b"
    using assms apply_one_result [of env wx s c m p] by (cases b) (auto simp: steady_gate_def)
  then show thesis
    using that [of "snd (apply_one env c wx m p s)"] apply_one_extends [of s env c wx m p] apply_one_written [of s env c wx m p] assms
    by (metis prod.collapse steady_gate_def)
qed

lemma modes_steady:
  assumes "steady_gate env wx b"
  obtains s' where
    "for_calls (apply_mode env c wx h) ts s
       = (Ok (map (\<lambda>(m, p). if implements c m \<and> \<not> b then Some (removeprefix ''update_'' m) else None) ts), s')"
    "extends s s'" "written s s' = (if b then filter (\<lambda>(m, p). implements c m) ts else [])"
proof (induction ts arbitrary: s thesis)
  case Nil
  then show ?case by simp
next
  case (Cons mp ts)
  obtain m p where mp: "mp = (m, p)" by fastforce
  obtain s1 where s1: "apply_mode env c wx h mp s
      = (Ok (if implements c m \<and> \<not> b then Some (removeprefix ''update_'' m) else None), s1)" "extends s s1"
      "written s s1 = (if b \<and> implements c m then [mp] else [])"
  proof (cases "implements c m")
    case True
    obtain s' where "apply_one env c wx m p s = (Ok b, s')" "extends s s'" "written s s' = (if b then [(m, p)] else [])"
      using apply_one_steady [OF assms] .
    then show thesis
      using that True by (simp add: apply_mode_def mp and_then_def control_support_def implements_def)
  next
    case False
    have "extends s (report_unimplemented_mode (wx_lfdi wx) h m s)" "written s (report_unimplemented_mode (wx_lfdi wx) h m s) = []"
      by (simp_all add: extends_def written_def report_unimplemented_mode_def log_act_def)
    moreover have "apply_mode env c wx h mp s = (Ok None,
        if cn_support c m = Inherited then s else report_unimplemented_mode (wx_lfdi wx) h m s)"
      using False by (simp add: apply_mode_def mp control_support_def implements_def BY_DESIGN_def OFFER_MISSING_def
          split: method_support.splits)
    ultimately show thesis using that False by (cases "cn_support c m = Inherited") simp_all
  qed
  obtain s2 where s2: "for_calls (apply_mode env c wx h) ts s1
       = (Ok (map (\<lambda>(m, p). if implements c m \<and> \<not> b then Some (removeprefix ''update_'' m) else None) ts), s2)"
    "extends s1 s2" "written s1 s2 = (if b then filter (\<lambda>(m, p). implements c m) ts else [])"
    using Cons.IH .
  show ?case
    using Cons.prems [of s2] extends_trans [OF s1(2) s2(2)] written_trans [OF s1(2) s2(2)] s1 s2
    by (simp add: mp and_then_def)
qed

lemma disables_steady:
  assumes "steady_gate env wx True"
  obtains bs s' where "for_calls (disable_one env c wx) ts s = (Ok bs, s')" "extends s s'"
    "written s s' = filter (\<lambda>(m, p). implements c m) ts"
proof (induction ts arbitrary: s thesis)
  case Nil
  then show ?case by simp
next
  case (Cons mp ts)
  obtain m p where mp: "mp = (m, p)" by fastforce
  obtain b s1 where s1: "disable_one env c wx mp s = (Ok b, s1)" "extends s s1"
      "written s s1 = (if implements c m then [mp] else [])"
  proof (cases "implements c m")
    case True
    obtain s' where "apply_one env c wx m p s = (Ok True, s')" "extends s s'" "written s s' = (if True then [(m, p)] else [])"
      using apply_one_steady [OF assms] .
    then show thesis using that True by (simp add: disable_one_def support_implements mp)
  qed (use that in \<open>simp add: disable_one_def support_implements mp\<close>)
  obtain bs s2 where s2: "for_calls (disable_one env c wx) ts s1 = (Ok bs, s2)" "extends s1 s2"
    "written s1 s2 = filter (\<lambda>(m, p). implements c m) ts"
    using Cons.IH .
  show ?case
    using Cons.prems [of "b # bs" s2] extends_trans [OF s1(2) s2(2)] written_trans [OF s1(2) s2(2)] s1 s2
    by (simp add: mp and_then_def)
qed

section \<open>What a fan-out asks of a device\<close>

definition calls_made :: "dispatcher \<Rightarrow> dispatcher \<Rightarrow> device_call list" where
  "calls_made s s' = calls_of (drop (length (d_trace s)) (d_trace s'))"

lemma calls_made_trans: "extends s t \<Longrightarrow> extends t u \<Longrightarrow> calls_made s u = calls_made s t @ calls_made t u"
  unfolding extends_def calls_made_def by (elim exE) simp

lemma calls_made_refl [simp]: "calls_made s s = []"
  by (simp add: calls_made_def)

lemma apply_one_calls:
  "calls_made s (snd (apply_one env c wx m p s)) =
     (if permitted env wx (d_tick s) then [the_call env c wx m p (d_tick s)] else [])"
  by (simp add: calls_made_def apply_one_trace calls_of_write)

text \<open>What a device is asked to do: the calls \<open>ws\<close> in order up to and including the first that does
  not succeed; how that one ended is how the operation ends.\<close>

definition carried_out :: "(string \<times> params) list \<Rightarrow> device_call list \<Rightarrow> 'a res \<Rightarrow> bool" where
  "carried_out ws ds r \<longleftrightarrow>
     map (\<lambda>d. (dv_method d, dv_params d)) ds = take (length ds) ws \<and> list_all (\<lambda>d. dv_result d = CallDone) (butlast ds) \<and>
     (case r of
        Ok _ \<Rightarrow> length ds = length ws \<and> list_all (\<lambda>d. dv_result d = CallDone) ds
      | Raised e \<Rightarrow> ds \<noteq> [] \<and> dv_result (last ds) = CallRaised e
      | CancelledError \<Rightarrow> ds \<noteq> [] \<and> dv_result (last ds) = CallCancelled)"

lemma carried_out_Nil [simp]: "carried_out [] ds r \<longleftrightarrow> ds = [] \<and> (\<exists>x. r = Ok x)"
  by (cases r) (auto simp: carried_out_def)

lemma carried_out_Cons:
  "dv_result d = CallDone \<Longrightarrow> carried_out (w # ws) (d # ds) r \<longleftrightarrow> (dv_method d, dv_params d) = w \<and> carried_out ws ds r"
  by (cases "ds = []"; cases r) (auto simp: carried_out_def)

lemma carried_out_stop:
  "(dv_method d, dv_params d) = w \<Longrightarrow> dv_result d = CallRaised e \<Longrightarrow> carried_out (w # ws) [d] (Raised e)"
  "(dv_method d, dv_params d) = w \<Longrightarrow> dv_result d = CallCancelled \<Longrightarrow> carried_out (w # ws) [d] CancelledError"
  by (auto simp: carried_out_def)

lemma carried_out_map:
  "carried_out ws ds r \<Longrightarrow> carried_out ws ds (fst (and_then (r, s) (\<lambda>x s. (Ok (f x s), s))))"
  by (cases r) (auto simp: carried_out_def and_then_def)

text \<open>A step of a fan-out: a call to an implemented method, or nothing.\<close>

definition asks :: "Connector \<Rightarrow> string option \<Rightarrow> string \<Rightarrow> ('b \<Rightarrow> bool) \<Rightarrow> (string \<times> params \<Rightarrow> dispatcher \<Rightarrow> 'b res \<times> dispatcher) \<Rightarrow> bool" where
  "asks c l org Q f \<longleftrightarrow> (\<forall>m p s. extends s (snd (f (m, p) s)) \<and>
     (if implements c m then \<exists>d. calls_made s (snd (f (m, p) s)) = [d] \<and> dv_method d = m \<and> dv_params d = p \<and> dv_lfdi d = l \<and>
          dv_origin d = org \<and> (case dv_result d of
              CallDone \<Rightarrow> \<exists>x. Q x \<and> fst (f (m, p) s) = Ok x
            | CallRaised e \<Rightarrow> fst (f (m, p) s) = Raised e
            | CallCancelled \<Rightarrow> fst (f (m, p) s) = CancelledError)
      else calls_made s (snd (f (m, p) s)) = [] \<and> (\<exists>x. Q x \<and> fst (f (m, p) s) = Ok x)))"

lemma fan_out_carried:
  assumes "asks c l org Q f" "for_calls f ts s = (r, s')"
  shows "extends s s' \<and> carried_out (filter (\<lambda>(m, p). implements c m) ts) (calls_made s s') r \<and>
    list_all (\<lambda>d. dv_lfdi d = l \<and> dv_origin d = org) (calls_made s s') \<and> (\<forall>xs. r = Ok xs \<longrightarrow> list_all Q xs)"
  using assms(2)
proof (induction ts arbitrary: s r s')
  case Nil
  then show ?case by (auto simp: extends_def)
next
  case (Cons mp ts)
  obtain m p where mp: "mp = (m, p)" by fastforce
  obtain q s1 where q: "f (m, p) s = (q, s1)" by fastforce
  note step = assms(1) [unfolded asks_def, rule_format, of s m p, unfolded q fst_conv snd_conv]
  have e: "extends s s1" using step by blast
  have rest: "\<exists>x r2. q = Ok x \<and> for_calls f ts s1 = (r2, s') \<and> r = fst (and_then (r2, s') (\<lambda>xs s2. (Ok (x # xs), s2)))"
    if "q = Ok x" for x
    using Cons.prems that by (cases "for_calls f ts s1"; cases "fst (for_calls f ts s1)") (auto simp: mp q and_then_def)
  have ok: "extends s s' \<and> carried_out ws (calls_made s1 s') r \<and> calls_made s s' = calls_made s s1 @ calls_made s1 s' \<and>
      list_all (\<lambda>d. dv_lfdi d = l \<and> dv_origin d = org) (calls_made s1 s') \<and> (\<forall>xs. r = Ok xs \<longrightarrow> list_all Q xs)"
    if x: "q = Ok x" "Q x" and ws: "ws = filter (\<lambda>(m, p). implements c m) ts" for x ws
  proof -
    obtain r2 where r2: "for_calls f ts s1 = (r2, s')" "r = fst (and_then (r2, s') (\<lambda>xs s2. (Ok (x # xs), s2)))"
      using rest [OF x(1)] x(1) by blast
    note ih = Cons.IH [OF r2(1)]
    have "carried_out ws (calls_made s1 s') r"
      using carried_out_map [of ws "calls_made s1 s'" r2 s' "\<lambda>xs _. x # xs"] ih r2(2) ws by simp
    moreover have "list_all Q xs" if "r = Ok xs" for xs
      using that ih r2(2) x(2) by (cases r2) (auto simp: and_then_def)
    ultimately show ?thesis using ih extends_trans [OF e] calls_made_trans [OF e] by blast
  qed
  show ?case
  proof (cases "implements c m")
    case False
    then obtain x where "q = Ok x" "Q x" "calls_made s s1 = []" using step by auto
    then show ?thesis using ok [OF _ _ refl] False by (simp add: mp)
  next
    case True
    then obtain d where d: "calls_made s s1 = [d]" "dv_method d = m" "dv_params d = p" "dv_lfdi d = l" "dv_origin d = org"
      "case dv_result d of CallDone \<Rightarrow> \<exists>x. Q x \<and> q = Ok x | CallRaised e \<Rightarrow> q = Raised e | CallCancelled \<Rightarrow> q = CancelledError"
      using step by auto
    show ?thesis
    proof (cases "dv_result d")
      case CallDone
      then obtain x where "q = Ok x" "Q x" using d(6) by auto
      then show ?thesis using ok [OF _ _ refl] True d CallDone by (simp add: mp carried_out_Cons)
    next
      case (CallRaised x)
      then show ?thesis using Cons.prems e True d carried_out_stop(1) [of d mp x] by (auto simp: mp q and_then_def)
    next
      case CallCancelled
      then show ?thesis using Cons.prems e True d carried_out_stop(2) [of d mp] by (auto simp: mp q and_then_def)
    qed
  qed
qed


lemma apply_one_asked:
  assumes "permitted env wx (d_tick s)"
  obtains d where "calls_made s (snd (apply_one env c wx m p s)) = [d]" "dv_method d = m" "dv_params d = p"
    "dv_lfdi d = wx_lfdi wx" "dv_origin d = wx_origin wx"
    "fst (apply_one env c wx m p s) =
       (case dv_result d of CallDone \<Rightarrow> Ok True | CallRaised e \<Rightarrow> Raised e | CallCancelled \<Rightarrow> CancelledError)"
proof (rule that)
  show "calls_made s (snd (apply_one env c wx m p s)) = [the_call env c wx m p (d_tick s)]"
    using assms by (simp add: apply_one_calls)
  show "fst (apply_one env c wx m p s) = (case dv_result (the_call env c wx m p (d_tick s)) of
      CallDone \<Rightarrow> Ok True | CallRaised e \<Rightarrow> Raised e | CallCancelled \<Rightarrow> CancelledError)"
    using assms by (simp add: apply_one_def the_call_def Let_def split: call_result.split)
qed (simp_all add: the_call_def)

lemma unimplemented_quiet:
  "extends s (report_unimplemented_mode l h m s)" "calls_made s (report_unimplemented_mode l h m s) = []"
  by (simp_all add: extends_def calls_made_def report_unimplemented_mode_def log_act_def)

lemma apply_mode_asks:
  assumes "\<And>t. permitted env wx t"
  shows "asks c (wx_lfdi wx) (wx_origin wx) (\<lambda>x. x = None) (apply_mode env c wx h)"
  unfolding asks_def
proof (intro allI conjI)
  fix m p s
  let ?r = "apply_mode env c wx h (m, p) s"
  show "extends s (snd ?r)"
    using apply_one_extends [of s env c wx m p] unimplemented_quiet(1)
    by (auto simp: apply_mode_def and_then_def split: prod.split bool.split res.split)
  show "if implements c m then \<exists>d. calls_made s (snd ?r) = [d] \<and> dv_method d = m \<and> dv_params d = p \<and> dv_lfdi d = wx_lfdi wx \<and>
      dv_origin d = wx_origin wx \<and> (case dv_result d of CallDone \<Rightarrow> \<exists>x. x = None \<and> fst ?r = Ok x
        | CallRaised e \<Rightarrow> fst ?r = Raised e | CallCancelled \<Rightarrow> fst ?r = CancelledError)
    else calls_made s (snd ?r) = [] \<and> (\<exists>x. x = None \<and> fst ?r = Ok x)"
  proof (cases "implements c m")
    case True
    obtain d where "calls_made s (snd (apply_one env c wx m p s)) = [d]" "dv_method d = m" "dv_params d = p"
      "dv_lfdi d = wx_lfdi wx" "dv_origin d = wx_origin wx" "fst (apply_one env c wx m p s) =
         (case dv_result d of CallDone \<Rightarrow> Ok True | CallRaised e \<Rightarrow> Raised e | CallCancelled \<Rightarrow> CancelledError)"
      using apply_one_asked [OF assms] .
    then show ?thesis using True
      by (cases "apply_one env c wx m p s"; cases "dv_result d")
        (simp_all add: apply_mode_def and_then_def control_support_def implements_def)
  next
    case False
    then show ?thesis using unimplemented_quiet(2)
      by (auto simp: apply_mode_def control_support_def implements_def split: method_support.splits)
  qed
qed

lemma disable_one_asks:
  assumes "\<And>t. permitted env wx t"
  shows "asks c (wx_lfdi wx) (wx_origin wx) (\<lambda>_. True) (disable_one env c wx)"
  unfolding asks_def
proof (intro allI conjI)
  fix m p s
  let ?r = "disable_one env c wx (m, p) s"
  show "extends s (snd ?r)" using apply_one_extends [of s env c wx m p] by (simp add: disable_one_def)
  obtain d where "calls_made s (snd (apply_one env c wx m p s)) = [d]" "dv_method d = m" "dv_params d = p"
    "dv_lfdi d = wx_lfdi wx" "dv_origin d = wx_origin wx" "fst (apply_one env c wx m p s) =
       (case dv_result d of CallDone \<Rightarrow> Ok True | CallRaised e \<Rightarrow> Raised e | CallCancelled \<Rightarrow> CancelledError)"
    using apply_one_asked [OF assms] .
  then show "if implements c m then \<exists>d. calls_made s (snd ?r) = [d] \<and> dv_method d = m \<and> dv_params d = p \<and> dv_lfdi d = wx_lfdi wx \<and>
      dv_origin d = wx_origin wx \<and> (case dv_result d of CallDone \<Rightarrow> \<exists>x. True \<and> fst ?r = Ok x
        | CallRaised e \<Rightarrow> fst ?r = Raised e | CallCancelled \<Rightarrow> fst ?r = CancelledError)
    else calls_made s (snd ?r) = [] \<and> (\<exists>x. True \<and> fst ?r = Ok x)"
    by (cases "dv_result d") (auto simp: disable_one_def support_implements)
qed

lemma disables_refused:
  assumes "\<And>t. \<not> permitted env wx t"
  obtains bs s' where "for_calls (disable_one env c wx) ts s = (Ok bs, s')" "extends s s'" "calls_made s s' = []"
proof (induction ts arbitrary: s thesis)
  case Nil
  then show ?case by simp
next
  case (Cons mp ts)
  obtain b s1 where s1: "disable_one env c wx mp s = (Ok b, s1)" "extends s s1" "calls_made s s1 = []"
    using that apply_one_result(2) [of env wx s c "fst mp" "snd mp", OF assms] apply_one_extends [of s env c wx "fst mp" "snd mp"]
      apply_one_calls [of s env c wx "fst mp" "snd mp"] assms
    by (cases "apply_one env c wx (fst mp) (snd mp) s"; cases "implements c (fst mp)")
      (auto simp: disable_one_def support_implements)
  obtain bs s2 where s2: "for_calls (disable_one env c wx) ts s1 = (Ok bs, s2)" "extends s1 s2" "calls_made s1 s2 = []"
    using Cons.IH .
  show ?case
    using Cons.prems [of "b # bs" s2] extends_trans [OF s1(2) s2(2)] calls_made_trans [OF s1(2) s2(2)] s1 s2
    by (simp add: and_then_def)
qed

lemma aresolve_trace: "d_trace (snd (aresolve env key s)) = d_trace s"
  using snd_aresolve_silent [of s env key] by (simp add: silent_def)

lemma resolve_quiet:
  assumes "resolve_connector_by_lfdi env l s = (q, s1)"
  shows "extends s s1" "calls_made s s1 = []"
proof -
  define R where "R = (\<lambda>t u. extends t u \<and> calls_made t u = [])"
  have trans: "R a b \<Longrightarrow> R b c \<Longrightarrow> R a c" for a b c
    unfolding R_def using extends_trans [of a b c] calls_made_trans [of a b c] by simp
  have 1 [simp]: "R t u" if "d_trace u = d_trace t" for t u using that by (simp add: R_def extends_def calls_made_def)
  have 2: "R t u" if "d_trace u = d_trace t @ [a]" "benign a" for t u a using that by (simp add: R_def extends_def calls_made_def)
  have 3: "R t (report_missing l t)" "R t (forget_missing l t)" "R t (warn_unused_update_methods c t)" for t c
    by (simp_all add: report_missing_def forget_missing_def warn_unused_update_methods_def log_if_def log_act_def Let_def 2)
  obtain g rg where g: "get_connector l (d_registry s) = (g, rg)" by fastforce
  have 0: "R s (s\<lparr>d_registry := rg\<rparr>)" by (rule 1) simp
  have "R s (snd (aresolve env key (forget_missing l (s\<lparr>d_registry := rg\<rparr>))))" for key
    using trans [OF trans [OF 0 3(2)] 1 [OF aresolve_trace]] .
  then have "R s s1"
    using assms 0 trans [OF 0 3(1)] trans [OF _ 3(3)]
    by (auto simp: resolve_connector_by_lfdi_def g and_then_def split: sum.splits option.splits prod.splits res.splits) (metis snd_conv)+
  then show "extends s s1" "calls_made s s1 = []" by (simp_all add: R_def)
qed

text \<open>An operation by LFDI, or by an href that resolves to it throughout, is its fan-out on the connector.\<close>

lemma control_fan_out:
  assumes "takes_controls s (Some l)" "l \<noteq> []" "resolve_connector_by_lfdi env l s = (Ok (Some c), s1)"
    "(r, s') = apply_control_by_lfdi env l derc curves origin s \<or>
     (\<exists>h. (\<forall>t. we_lfdi env t h = Some l) \<and> (r, s') = apply_control env h derc curves origin s)"
  obtains h where "(r, s') = apply_control_to_connector env (Some c) derc curves (Some l) h origin s1"
  using assms(4)
proof
  assume "(r, s') = apply_control_by_lfdi env l derc curves origin s"
  then show thesis
    using assms by (intro that [of None]) (simp add: apply_control_by_lfdi_def refuse_meter_def and_then_def)
next
  assume "\<exists>h. (\<forall>t. we_lfdi env t h = Some l) \<and> (r, s') = apply_control env h derc curves origin s"
  then obtain h where "\<forall>t. we_lfdi env t h = Some l" "(r, s') = apply_control env h derc curves origin s" by blast
  then show thesis
    using assms by (intro that [of "Some h"]) (simp add: apply_control_def refuse_meter_def and_then_def resolve_connector_def)
qed

section \<open>A control is written in order up to the first failure\<close>

text \<open>
  C15. With a gate that answers the same for the device and origin throughout, a control addressed to
  a device with a connector, by LFDI or by an href that resolves to it throughout, is written as far
  as the device carries it out. If the gate refuses, no method of the connector is called, and the
  control is reported as not permitted, unless the connector implements none of its modes. If the
  gate permits, the translated modes the connector implements are called in order up to and
  including the first call that does not succeed: all of them when every call succeeds, and then the
  control succeeds; otherwise the rest is not written and the control ends with the exception or
  cancellation of that call.
\<close>

theorem control_written_in_order:
  assumes "takes_controls s (Some l)" "l \<noteq> []" "resolve_connector_by_lfdi env l s = (Ok (Some c), s1)"
    "(r, s') = apply_control_by_lfdi env l derc curves origin s \<or>
     (\<exists>h. (\<forall>t. we_lfdi env t h = Some l) \<and> (r, s') = apply_control env h derc curves origin s)"
    "ws = filter (\<lambda>(m, p). implements c m) (translate_controls (we_view env) (derc_base derc) (map (we_view env) curves))"
  shows "((\<forall>t. \<not> we_gate env t l origin) \<longrightarrow> calls_made s s' = [] \<and>
      (if ws = [] then r = Ok () else \<exists>e. r = Raised e \<and> ex_class e = CommandNotPermittedError)) \<and>
    ((\<forall>t. we_gate env t l origin) \<longrightarrow> carried_out ws (calls_made s s') r \<and>
      list_all (\<lambda>d. dv_lfdi d = Some l \<and> dv_origin d = origin) (calls_made s s'))"
proof -
  let ?ts = "translate_controls (we_view env) (derc_base derc) (map (we_view env) curves)"
  obtain h where "(r, s') = apply_control_to_connector env (Some c) derc curves (Some l) h origin s1"
    using control_fan_out [OF assms(1-4)] .
  moreover define wx where "wx = \<lparr>wx_lfdi = Some l, wx_origin = origin, wx_label = device_label (Some l) h,
    wx_applied = Some (m_rid derc), wx_cause = Some (m_rid derc)\<rparr>"
  ultimately have app: "(r, s') = and_then (for_calls (apply_mode env c wx h) ?ts s1)
      (\<lambda>rs s1. let refused = List.map_filter id rs
               in if refused \<noteq> [] then (Raised (not_permitted origin (device_label (Some l) h) (comma_join refused)), s1)
                  else (Ok (), s1))"
    by (simp add: apply_control_to_connector_def Let_def)
  have perm: "permitted env wx t = we_gate env t l origin" for t
    using assms(2) by (simp add: permitted_def wx_def given_def)
  note quiet = resolve_quiet [OF assms(3)]
  have denied: "calls_made s s' = [] \<and> (if ws = [] then r = Ok () else \<exists>e. r = Raised e \<and> ex_class e = CommandNotPermittedError)"
    if "\<forall>t. \<not> we_gate env t l origin"
  proof -
    have "steady_gate env wx False" using that by (simp add: steady_gate_def perm)
    then obtain s2 where s2: "for_calls (apply_mode env c wx h) ?ts s1
        = (Ok (map (\<lambda>(m, p). if implements c m \<and> \<not> False then Some (removeprefix ''update_'' m) else None) ?ts), s2)"
      "extends s1 s2" "written s1 s2 = (if False then filter (\<lambda>(m, p). implements c m) ?ts else [])"
      by (rule modes_steady)
    have none: "List.map_filter id (map (\<lambda>(m, p). if implements c m \<and> \<not> False then Some (f m) else None) xs) = [] \<longleftrightarrow>
        filter (\<lambda>(m, p). implements c m) xs = []" for f :: "string \<Rightarrow> string" and xs :: "(string \<times> params) list"
      by (induction xs) (auto simp: List.map_filter_def split: if_splits)
    have "s' = s2 \<and> (if ws = [] then r = Ok () else \<exists>e. r = Raised e \<and> ex_class e = CommandNotPermittedError)"
      using app none [of "removeprefix ''update_''" ?ts] assms(5)
      by (auto simp: s2(1) and_then_def Let_def not_permitted_def simple_exn_def split: if_splits)
    moreover have "calls_made s1 s2 = []" using s2(3) by (simp add: written_def calls_made_def)
    ultimately show ?thesis using calls_made_trans [OF quiet(1) s2(2)] quiet(2) by simp
  qed
  have carried: "carried_out ws (calls_made s s') r \<and> list_all (\<lambda>d. dv_lfdi d = Some l \<and> dv_origin d = origin) (calls_made s s')"
    if "\<forall>t. we_gate env t l origin"
  proof -
    obtain q s2 where q: "for_calls (apply_mode env c wx h) ?ts s1 = (q, s2)" by fastforce
    have f: "extends s1 s2" "carried_out ws (calls_made s1 s2) q"
      "list_all (\<lambda>d. dv_lfdi d = Some l \<and> dv_origin d = origin) (calls_made s1 s2)" "\<And>xs. q = Ok xs \<Longrightarrow> list_all (\<lambda>x. x = None) xs"
      using fan_out_carried [OF apply_mode_asks [of env wx c h] q] that perm by (simp_all add: wx_def assms(5))
    have "list_all (\<lambda>x. x = None) xs \<Longrightarrow> List.map_filter id xs = []" for xs :: "string option list"
      by (induction xs) (auto simp: List.map_filter_def)
    then have "(r, s') = and_then (q, s2) (\<lambda>_ s. (Ok (), s))"
      using app f(4) by (cases q) (auto simp: q and_then_def Let_def)
    then show ?thesis
      using carried_out_map [OF f(2), of s2 "\<lambda>_ _. ()"] f calls_made_trans [OF quiet(1) f(1)] quiet(2)
      by (cases q) (auto simp: and_then_def)
  qed
  show ?thesis using denied carried by blast
qed

section \<open>Withdrawing modes\<close>

definition mode_table :: "(string \<times> ControlElement) list" where
  "mode_table = map (\<lambda>e. (ce_field e, e)) CONTROL_ELEMENTS @ map (\<lambda>e. (ce_element e, e)) DOE_ELEMENTS"

lemma mode_table_keys: "distinct (map fst mode_table)"
  by code_simp

lemma element_by_mode: "map_of ELEMENT_BY_MODE mode = Some e \<longleftrightarrow>
    e \<in> set CONTROL_ELEMENTS \<and> mode = ce_field e \<or> e \<in> set DOE_ELEMENTS \<and> mode = ce_element e"
proof -
  have "ELEMENT_BY_MODE = mode_table"
    using mode_table_keys by (simp add: ELEMENT_BY_MODE_def mode_table_def dict_of_distinct)
  then have "map_of ELEMENT_BY_MODE mode = Some e \<longleftrightarrow> (mode, e) \<in> set mode_table"
    using mode_table_keys by simp
  then show ?thesis by (auto simp: mode_table_def)
qed

lemma map_of_filtered:
  "distinct (map fst d) \<Longrightarrow> map_of (map (\<lambda>(k, v). (k, g v)) (filter (\<lambda>(k, v). P v) d)) k =
     (case map_of d k of None \<Rightarrow> None | Some v \<Rightarrow> if P v then Some (g v) else None)"
proof (induction d)
  case Nil
  then show ?case by simp
next
  case (Cons kv d)
  obtain a b where kv: "kv = (a, b)" by fastforce
  show ?case
  proof (cases "k = a")
    case True
    then have "map_of d k = None" using Cons.prems by (simp add: kv map_of_eq_None_iff)
    then show ?thesis using Cons True by (simp add: kv)
  qed (use Cons in \<open>simp add: kv\<close>)
qed

lemma field_disable_calls: "map_of FIELD_DISABLE_CALLS mode =
    (case map_of ELEMENT_BY_MODE mode of
       None \<Rightarrow> None | Some e \<Rightarrow> if ce_element e \<notin> KEPT_AT_EVENT_END then Some (ce_method e, DISABLED) else None)"
  unfolding FIELD_DISABLE_CALLS_def
  using mode_table_keys
  by (intro map_of_filtered [where g = "\<lambda>e. (ce_method e, DISABLED)"])
    (simp add: ELEMENT_BY_MODE_def mode_table_def dict_of_distinct)

text \<open>The elements an event end withdraws for a set of tracked modes.\<close>

definition withdrawn :: "string set \<Rightarrow> ControlElement set" where
  "withdrawn modes = {e. ce_element e \<notin> KEPT_AT_EVENT_END \<and> (\<exists>mode \<in> modes. map_of ELEMENT_BY_MODE mode = Some e)}"

definition add_withdrawal :: "string \<Rightarrow> (string, params) dict \<Rightarrow> (string, params) dict" where
  "add_withdrawal mode calls = (case map_of FIELD_DISABLE_CALLS mode of
     None \<Rightarrow> calls | Some (m, p) \<Rightarrow> if dhas calls m then calls else calls @ [(m, p)])"

lemma fold_withdrawals:
  assumes "distinct (map fst calls)" "snd ` set calls \<subseteq> {DISABLED}"
  shows "distinct (map fst (fold add_withdrawal modes calls)) \<and>
    set (fold add_withdrawal modes calls) = set calls \<union> (\<lambda>e. (ce_method e, DISABLED)) ` withdrawn (set modes)"
  using assms
proof (induction modes arbitrary: calls)
  case Nil
  then show ?case by (simp add: withdrawn_def)
next
  case (Cons mode modes)
  have split: "withdrawn (set (mode # modes)) = withdrawn {mode} \<union> withdrawn (set modes)" by (auto simp: withdrawn_def)
  have "distinct (map fst (add_withdrawal mode calls)) \<and>
      set (add_withdrawal mode calls) = set calls \<union> (\<lambda>e. (ce_method e, DISABLED)) ` withdrawn {mode}"
  proof (cases "map_of FIELD_DISABLE_CALLS mode")
    case None
    then show ?thesis using Cons.prems
      by (auto simp: add_withdrawal_def withdrawn_def field_disable_calls split: option.splits if_splits)
  next
    case (Some mp)
    then obtain e where e: "map_of ELEMENT_BY_MODE mode = Some e" "ce_element e \<notin> KEPT_AT_EVENT_END" "mp = (ce_method e, DISABLED)"
      by (auto simp: field_disable_calls split: option.splits if_splits)
    have w: "withdrawn {mode} = {e}" using e by (auto simp: withdrawn_def)
    show ?thesis
    proof (cases "dhas calls (ce_method e)")
      case True
      then obtain p where "(ce_method e, p) \<in> set calls" by (auto simp: dhas_iff_keys)
      then have "(ce_method e, DISABLED) \<in> set calls" using Cons.prems(2) by force
      then show ?thesis using Cons.prems True by (auto simp: add_withdrawal_def Some e w)
    next
      case False
      then show ?thesis using Cons.prems by (simp add: add_withdrawal_def Some e w dhas_iff_keys)
    qed
  qed
  moreover have "snd ` set (add_withdrawal mode calls) \<subseteq> {DISABLED}" using Cons.prems calculation by auto
  ultimately show ?case using Cons.IH [of "add_withdrawal mode calls"] split by (simp add: image_Un Un_assoc)
qed

lemma withdraw_calls_exact:
  assumes "finite modes"
  shows "distinct (map fst (withdraw_calls modes))" "set (withdraw_calls modes) = (\<lambda>e. (ce_method e, DISABLED)) ` withdrawn modes"
  using fold_withdrawals [of "[]" "sorted_list_of_set modes"] assms
  unfolding withdraw_calls_def add_withdrawal_def [abs_def] by simp_all

text \<open>
  C16. At the end of an event, on a device with a connector, addressed by LFDI or by an href that
  resolves to it throughout: with a gate that permits it throughout, exactly the elements of the
  modes named, less those the connector does not implement and less opModConnect, opModEnergize,
  opModGridConnectPermit and opModIslandPermit, are withdrawn, each once, up to and including the
  first call that does not succeed; all of them when every call succeeds, while after a call that
  fails the rest stays written. With a gate that refuses throughout nothing is withdrawn, and no
  error is raised.
\<close>

theorem event_end_withdraws_exactly:
  assumes "takes_controls s (Some l)" "resolve_connector_by_lfdi env l s = (Ok (Some c), s1)" "finite modes"
    "(r, s') = disable_modes_by_lfdi env l modes cause s \<or>
     (\<exists>h. (\<forall>t. we_lfdi env t h = Some l) \<and> (r, s') = disable_modes env h modes cause s)"
  shows "\<exists>ws. distinct (map fst ws) \<and>
    set ws = (\<lambda>e. (ce_method e, DISABLED)) ` {e. ce_element e \<notin> KEPT_AT_EVENT_END \<and> implements c (ce_method e) \<and>
      (\<exists>mode \<in> modes. map_of ELEMENT_BY_MODE mode = Some e)} \<and>
    (l \<noteq> [] \<and> (\<forall>t. \<not> we_gate env t l ''event_end'') \<longrightarrow> calls_made s s' = [] \<and> r = Ok ()) \<and>
    (l = [] \<or> (\<forall>t. we_gate env t l ''event_end'') \<longrightarrow> carried_out ws (calls_made s s') r)"
proof -
  let ?ws = "filter (\<lambda>(m, p). implements c m) (withdraw_calls modes)"
  obtain label where app: "(r, s') = disable_modes_on_connector env (Some c) modes (Some l) label cause s1"
    using assms(1,2,4) by (auto simp: disable_modes_by_lfdi_def disable_modes_def resolve_connector_def and_then_def)
  define wx where "wx = plain_ctx (Some l) ORIGIN_EVENT_END label cause"
  have perm: "permitted env wx t \<longleftrightarrow> l = [] \<or> we_gate env t l ''event_end''" for t
    by (auto simp: permitted_def wx_def plain_ctx_def given_def origin_name_def)
  note quiet = resolve_quiet [OF assms(2)]
  have on: "(r, s') = and_then (for_calls (disable_one env c wx) (withdraw_calls modes) s1) (\<lambda>_ s1. (Ok (), s1))"
    using app by (simp add: disable_modes_on_connector_def wx_def)
  have "calls_made s s' = [] \<and> r = Ok ()" if denied: "\<forall>t. \<not> permitted env wx t"
  proof -
    obtain bs s2 where s2: "for_calls (disable_one env c wx) (withdraw_calls modes) s1 = (Ok bs, s2)" "extends s1 s2" "calls_made s1 s2 = []"
      using disables_refused [of env wx c "withdraw_calls modes" s1] denied by blast
    then show ?thesis using on calls_made_trans [OF quiet(1) s2(2)] quiet(2) by (simp add: and_then_def)
  qed
  moreover have "carried_out ?ws (calls_made s s') r" if "\<forall>t. permitted env wx t"
  proof -
    obtain q s2 where q: "for_calls (disable_one env c wx) (withdraw_calls modes) s1 = (q, s2)" by fastforce
    have f: "extends s1 s2" "carried_out ?ws (calls_made s1 s2) q"
      using fan_out_carried [OF disable_one_asks q] that by simp_all
    then show ?thesis
      using carried_out_map [OF f(2), of s2 "\<lambda>_ _. ()"] on calls_made_trans [OF quiet(1) f(1)] quiet(2)
      by (cases q) (auto simp: q and_then_def)
  qed
  moreover have "distinct (map fst ?ws)"
    using withdraw_calls_exact(1) [OF assms(3)] by (simp add: distinct_map_filter)
  moreover have "set ?ws = (\<lambda>e. (ce_method e, DISABLED)) ` {e. ce_element e \<notin> KEPT_AT_EVENT_END \<and> implements c (ce_method e) \<and>
      (\<exists>mode \<in> modes. map_of ELEMENT_BY_MODE mode = Some e)}"
    using withdraw_calls_exact(2) [OF assms(3)] by (auto simp: withdrawn_def)
  ultimately show ?thesis by (intro exI [of _ ?ws]) (simp add: perm)
qed

lemma modes2_elements: "(f, b) \<in> set FIELD_TO_BIT2 \<Longrightarrow> \<exists>e \<in> set CONTROL_ELEMENTS. ce_field e = f \<and> ce_kind e = VALUE"
  by (auto simp: FIELD_TO_BIT2_def CONTROL_ELEMENTS_def)

lemma modes2_untracked: "fst ` set FIELD_TO_BIT2 \<inter> (fst ` set FIELD_TO_BIT \<union> DOE_LIMIT_NAMES) = {}"
  by code_simp

lemma same_method: "ce_method e = ce_method e' \<Longrightarrow> e \<in> set (CONTROL_ELEMENTS @ DOE_ELEMENTS) \<Longrightarrow>
    e' \<in> set (CONTROL_ELEMENTS @ DOE_ELEMENTS) \<Longrightarrow> e = e'"
  using distinct_control_methods by (metis distinct_map inj_onD)

lemma fields_apart: "e \<in> set CONTROL_ELEMENTS \<Longrightarrow> e \<in> set DOE_ELEMENTS \<Longrightarrow> False"
  by (auto simp: CONTROL_ELEMENTS_def DOE_ELEMENTS_def ctl_element_def)

lemma withdrawn_method:
  assumes "finite modes" "e \<in> set CONTROL_ELEMENTS" "ce_method e \<in> fst ` set (withdraw_calls modes)"
  shows "ce_field e \<in> modes"
proof -
  obtain e' mode where e': "ce_method e = ce_method e'" "mode \<in> modes" "map_of ELEMENT_BY_MODE mode = Some e'"
    using assms(3) by (auto simp: withdraw_calls_exact(2) [OF assms(1)] withdrawn_def)
  then have m: "e' \<in> set CONTROL_ELEMENTS \<and> mode = ce_field e' \<or> e' \<in> set DOE_ELEMENTS \<and> mode = ce_element e'"
    by (simp add: element_by_mode)
  then have "e' = e" using same_method [of e e'] e'(1) assms(2) by auto
  then show ?thesis using m e'(2) assms(2) fields_apart by blast
qed

lemma finite_mode_names: "finite (get_active_mode_names base)"
  by (simp add: get_active_mode_names_def)

text \<open>
  C17. The ten modes of DERControlType2 (the percentage and reactive limits, opModMaxLimWAbsorb,
  opModMaxLimWInject and opModTargetV) are written to the device when an event sets them, but they
  are not among the mode names the event processor tracks: no withdrawal at the end of the event
  calls their method.
\<close>

theorem additional_modes_never_withdrawn:
  assumes "(f, b) \<in> set FIELD_TO_BIT2" "base_get base f = Some t" "\<not> is_disabled (view t)" "modes \<subseteq> get_active_mode_names base"
  shows "\<exists>e p. ce_field e = f \<and> (ce_method e, p) \<in> set (translate_controls view base curves) \<and> is_enabled p \<and>
    ce_method e \<notin> fst ` set (withdraw_calls modes)"
proof -
  obtain e where e: "e \<in> set CONTROL_ELEMENTS" "ce_field e = f" "ce_kind e = VALUE"
    using modes2_elements [OF assms(1)] by blast
  have sets: "carries base e" "applies view base curves e" using e assms(2,3) by (simp_all add: carries_def applies_def)
  then have "(ce_method e, True) \<in> set (map (\<lambda>(m, p). (m, is_enabled p)) (translate_controls view base curves))"
    using e(1) unfolding translated_calls by force
  then obtain p where "(ce_method e, p) \<in> set (translate_controls view base curves)" "is_enabled p" by auto
  moreover have "f \<notin> get_active_mode_names base"
  proof -
    have "f \<in> fst ` set FIELD_TO_BIT2" using assms(1) by force
    then have "f \<notin> fst ` set FIELD_TO_BIT" "f \<notin> DOE_LIMIT_NAMES" using modes2_untracked by blast+
    moreover have "f \<notin> fst ` set (doe_limits base)"
      using calculation(2) doe_limits_names [of base f] by (auto simp: dhas_iff_keys)
    ultimately show ?thesis by (simp add: get_active_mode_names_def)
  qed
  then have "ce_method e \<notin> fst ` set (withdraw_calls modes)"
    using withdrawn_method [of modes e] e assms(4) finite_mode_names finite_subset by blast
  ultimately show ?thesis using e(2) by blast
qed

text \<open>
  Clearing a device that has no clear of its own, with a gate that permits it and calls that
  succeed, withdraws every control mode its connector implements: whatever control was applied
  before, each method it wrote is called again to withdraw its element.
\<close>

theorem clear_withdraws_everything:
  assumes "takes_controls s (Some l)" "resolve_connector_by_lfdi env l s = (Ok (Some c), s1)" "\<not> cn_native_clear c"
    "\<forall>t. (l = [] \<or> we_gate env t l ''comms_loss'') \<and> we_call env t = CallDone"
    "clear_control_by_lfdi env l cause s = (r, s')"
  shows "r = Ok () \<and> written s1 s' = filter (\<lambda>(m, p). implements c m) DISABLE_CALLS \<and>
    {m. \<exists>p. (m, p) \<in> set (translate_controls view base curves) \<and> implements c m} \<subseteq> {m. (m, DISABLED) \<in> set (written s1 s')}"
proof -
  let ?wx = "plain_ctx (Some l) ORIGIN_COMMS_LOSS l cause"
  have "steady_gate env ?wx True"
    using assms(4) by (auto simp: steady_gate_def permitted_def plain_ctx_def given_def origin_name_def)
  then obtain bs s2 where s2: "for_calls (disable_one env c ?wx) DISABLE_CALLS s1 = (Ok bs, s2)" "extends s1 s2"
    "written s1 s2 = filter (\<lambda>(m, p). implements c m) DISABLE_CALLS"
    by (rule disables_steady)
  have "r = Ok () \<and> s' = s2"
    using assms s2(1) by (simp add: clear_control_by_lfdi_def and_then_def clear_control_on_connector_def Let_def)
  moreover have "(m, DISABLED) \<in> set DISABLE_CALLS" if "(m, p) \<in> set (translate_controls view base curves)" for m p
    using in_translated [OF that] by (auto simp: DISABLE_CALLS_def)
  ultimately show ?thesis by (auto simp: s2(3))
qed

text \<open>
  A control for a device without a connector succeeds without reaching anything: no method is
  called, no write is recorded, and the caller, the event processor, sees no error and counts the
  device as running the control.
\<close>

theorem missing_connector_counts_as_applied:
  assumes "takes_controls s (Some l)" "resolve_connector_by_lfdi env l s = (Ok None, s1)"
  shows "apply_control_by_lfdi env l derc curves origin s = (Ok (), s1) \<and>
    (\<exists>as. d_trace s1 = d_trace s @ as \<and> calls_of as = [] \<and> kept_of as = [])"
proof -
  have "\<exists>as. d_trace s1 = d_trace s @ as \<and> list_all benign as"
    using assms(2)
    by (auto simp: resolve_connector_by_lfdi_def report_missing_def log_act_def and_then_def
        split: prod.splits sum.splits option.splits res.splits)
  moreover have "list_all benign as \<Longrightarrow> calls_of as = [] \<and> kept_of as = []" for as by (induction as) auto
  ultimately show ?thesis using assms by (auto simp: apply_control_by_lfdi_def refuse_meter_def and_then_def)
qed

text \<open>
  C18. A control addressed by href looks its LFDI up again after the connector was constructed. If the
  device has left the discovered state in between, the control is written to it without asking the
  gate, whatever the gate would say.
\<close>

theorem late_lookup_bypasses_gate:
  assumes "takes_controls s (we_lfdi env (d_tick s) h)" "resolve_connector env h s = (Ok (Some c), s1)"
    "we_lfdi env (d_tick s1) h = None" "\<forall>t. we_call env t = CallDone"
    "apply_control env h derc curves origin s = (r, s')"
  shows "r = Ok () \<and> written s1 s' = filter (\<lambda>(m, p). implements c m)
      (translate_controls (we_view env) (derc_base derc) (map (we_view env) curves))"
proof -
  let ?ts = "translate_controls (we_view env) (derc_base derc) (map (we_view env) curves)"
  define wx where "wx = \<lparr>wx_lfdi = None :: string option, wx_origin = origin, wx_label = device_label None (Some h),
    wx_applied = Some (m_rid derc), wx_cause = Some (m_rid derc)\<rparr>"
  have "steady_gate env wx True" using assms(4) by (simp add: steady_gate_def permitted_def wx_def given_def)
  then obtain s2 where s2: "for_calls (apply_mode env c wx (Some h)) ?ts s1
      = (Ok (map (\<lambda>(m, p). if implements c m \<and> \<not> True then Some (removeprefix ''update_'' m) else None) ?ts), s2)"
    "extends s1 s2" "written s1 s2 = (if True then filter (\<lambda>(m, p). implements c m) ?ts else [])"
    by (rule modes_steady)
  have "List.map_filter id (map (\<lambda>(m, p). if implements c m \<and> \<not> True then Some (f m) else None) xs) = []"
    for f :: "string \<Rightarrow> string" and xs :: "(string \<times> params) list"
    by (induction xs) (auto simp: List.map_filter_def)
  then have "(r, s') = (Ok (), s2)"
    using assms s2(1)
    by (simp add: apply_control_def refuse_meter_def and_then_def apply_control_to_connector_def Let_def wx_def)
  then show ?thesis using s2(3) by simp
qed

section \<open>Witnesses\<close>

definition demo_wenv :: "bool \<Rightarrow> wenv" where
  "demo_wenv b = \<lparr>we_registry = demo_renv, we_clock = (\<lambda>t. of_nat t), we_mono = (\<lambda>t. of_nat t), we_gate = (\<lambda>_ _ _. b),
     we_call = (\<lambda>_. CallDone), we_cancelled = (\<lambda>_. False), we_lfdi = (\<lambda>t h. if t = 0 then Some ''ab'' else None),
     we_telemetry = True, we_view = (\<lambda>t. PStr t)\<rparr>"

definition steady_wenv :: "bool \<Rightarrow> wenv" where
  "steady_wenv b = (demo_wenv b)\<lparr>we_lfdi := \<lambda>t h. Some ''ab''\<rparr>"

definition cold_dispatcher :: dispatcher where
  "cold_dispatcher = \<lparr>d_registry = demo_registry, d_missing = {}, d_checked = {}, d_history = True, d_tick = 0, d_trace = []\<rparr>"

text \<open>The connector of device \<open>ab\<close> is there already.\<close>

definition warm_dispatcher :: dispatcher where
  "warm_dispatcher = cold_dispatcher\<lparr>d_registry := demo_registry\<lparr>rg_proxies :=
     [(''ab'', demo_proxy\<lparr>px_instance := Some (demo_connector 0)\<rparr>)]\<rparr>, d_checked := {''Demo''}\<rparr>"

definition demo_base :: dercontrol_base where
  "demo_base = \<lparr>base_fields = [(''op_mod_max_lim_w'', ''50''), (''op_mod_target_v'', ''230'')], base_other_element = []\<rparr>"

definition demo_derc :: Dercontrol1 where
  "demo_derc = \<lparr>m_rid = [1], reply_to = None, response_required = None, creation_time = None, event_status = None,
     interval_start = 0, interval_duration = 60, randomize_start = None, randomize_duration = None, derc_base = demo_base\<rparr>"

lemmas demo_simps = demo_wenv_def steady_wenv_def cold_dispatcher_def warm_dispatcher_def demo_registry_def new_registry_def
  dict_of_def dset_def dhas_def demo_proxy_def new_proxy_def demo_connector_def demo_renv_def

lemma demo_takes: "takes_controls cold_dispatcher (Some ''ab'')" "takes_controls warm_dispatcher (Some ''ab'')"
  by (simp_all add: takes_controls_def role_of_def canonical_lfdi_def METER_ROLES_def demo_simps)

lemma warm_resolve: "we_registry env = demo_renv \<Longrightarrow>
    resolve_connector_by_lfdi env ''ab'' warm_dispatcher = (Ok (Some (demo_connector 0)), warm_dispatcher)"
  by (simp add: resolve_connector_by_lfdi_def get_connector_def canonical_lfdi_def forget_missing_def aresolve_def resolve_def
      and_then_def warn_unused_update_methods_def demo_simps)

lemma cold_resolve: "\<exists>s1. resolve_connector (demo_wenv b) ''/edev/1'' cold_dispatcher = (Ok (Some (demo_connector 0)), s1) \<and> d_tick s1 = 1"
  by (simp add: resolve_connector_def resolve_connector_by_lfdi_def get_connector_def canonical_lfdi_def build_lazy_proxy_def
      CONNECTOR_TYPE_MAP_def forget_missing_def aresolve_def resolve_def check_cached_permanent_failure_def run_factory_def
      import_class_def tick_over_def log_act_def log_if_def and_then_def warn_unused_update_methods_def unused_update_methods_def
      Let_def demo_simps)

lemma demo_implements [simp]: "implements (demo_connector n) m" "\<not> cn_native_clear (demo_connector n)"
  by (simp_all add: implements_def demo_connector_def)

lemma demo_filter [simp]: "filter (\<lambda>(m, p). implements (demo_connector n) m) ts = ts"
  by (simp add: case_prod_unfold)

lemma demo_translation:
  "translate_controls (\<lambda>t. PStr t) demo_base [] =
     [(''update_op_mod_max_lim_w'', enabled_with (PStr ''50'')), (''update_op_mod_target_v'', enabled_with (PStr ''230''))]"
  by code_simp

theorem writes_are_authorized_witness:
  "list_all (\<lambda>d. dv_lfdi d \<noteq> None \<and> takes_controls warm_dispatcher (dv_lfdi d) \<and> (dv_lfdi d = Some [] \<or> dv_origin d = ''ieee2030_5''))
     (calls_of (d_trace (run_ops ((steady_wenv True)\<lparr>we_gate := \<lambda>_ _ org. org = ''ieee2030_5''\<rparr>)
        [OpControl (ByHref ''/edev/1'') demo_derc [] ''ieee2030_5'', OpClear (ByLfdi ''ab'') None] warm_dispatcher)))"
proof -
  let ?env = "(steady_wenv True)\<lparr>we_gate := \<lambda>_ _ org. org = ''ieee2030_5''\<rparr>"
  have "we_lfdi ?env t h = Some ''ab''" for t h by (simp add: steady_wenv_def)
  moreover have "d_trace warm_dispatcher = []" by (simp add: warm_dispatcher_def cold_dispatcher_def)
  ultimately show ?thesis using writes_are_authorized [of ?env "\<lambda>_. Some ''ab''" warm_dispatcher] by simp
qed

theorem every_write_accounted_witness:
  "kept_of (d_trace (run_ops (demo_wenv True) [OpClear (ByLfdi ''ab'') None] warm_dispatcher))
     = settled_of (d_trace (run_ops (demo_wenv True) [OpClear (ByLfdi ''ab'') None] warm_dispatcher))"
  using every_write_accounted [of warm_dispatcher "demo_wenv True" "[OpClear (ByLfdi ''ab'') None]"]
  by (simp add: warm_dispatcher_def cold_dispatcher_def)

text \<open>A device that rejects its second call.\<close>

definition failing_wenv :: wenv where
  "failing_wenv = (demo_wenv True)\<lparr>we_call := \<lambda>t. if t = 1 then CallRaised (simple_exn OtherError ''ConnectorError'' ''busy'') else CallDone\<rparr>"

theorem control_written_in_order_witness:
  "calls_made warm_dispatcher (snd (apply_control_by_lfdi (demo_wenv False) ''ab'' demo_derc [] ''ieee2030_5'' warm_dispatcher)) = [] \<and>
   carried_out [(''update_op_mod_max_lim_w'', enabled_with (PStr ''50'')), (''update_op_mod_target_v'', enabled_with (PStr ''230''))]
     (calls_made warm_dispatcher (snd (apply_control_by_lfdi failing_wenv ''ab'' demo_derc [] ''ieee2030_5'' warm_dispatcher)))
     (fst (apply_control_by_lfdi failing_wenv ''ab'' demo_derc [] ''ieee2030_5'' warm_dispatcher))"
proof -
  have e: "we_registry failing_wenv = demo_renv" "we_view failing_wenv = (\<lambda>t. PStr t)" "derc_base demo_derc = demo_base"
    "we_gate failing_wenv t l org" for t l org
    by (simp_all add: failing_wenv_def demo_wenv_def demo_derc_def)
  have d: "we_registry (demo_wenv False) = demo_renv" "\<not> we_gate (demo_wenv False) t l org" for t l org
    by (simp_all add: demo_wenv_def)
  have ne: "''ab'' \<noteq> []" by simp
  have "carried_out [(''update_op_mod_max_lim_w'', enabled_with (PStr ''50'')), (''update_op_mod_target_v'', enabled_with (PStr ''230''))]
      (calls_made warm_dispatcher (snd (apply_control_by_lfdi failing_wenv ''ab'' demo_derc [] ''ieee2030_5'' warm_dispatcher)))
      (fst (apply_control_by_lfdi failing_wenv ''ab'' demo_derc [] ''ieee2030_5'' warm_dispatcher))"
    using control_written_in_order [OF demo_takes(2) ne warm_resolve [OF e(1)] disjI1 [OF prod.collapse] refl,
        where derc = demo_derc and curves = "[]" and origin = "''ieee2030_5''"] e by (simp add: demo_translation)
  moreover have "calls_made warm_dispatcher
      (snd (apply_control_by_lfdi (demo_wenv False) ''ab'' demo_derc [] ''ieee2030_5'' warm_dispatcher)) = []"
    using control_written_in_order [OF demo_takes(2) ne warm_resolve [OF d(1)] disjI1 [OF prod.collapse] refl,
        where derc = demo_derc and curves = "[]" and origin = "''ieee2030_5''"] d(2) by blast
  ultimately show ?thesis by blast
qed

theorem event_end_withdraws_exactly_witness:
  "\<exists>ws. distinct (map fst ws) \<and> carried_out ws
     (calls_made warm_dispatcher (snd (disable_modes_by_lfdi failing_wenv ''ab'' {''op_mod_max_lim_w'', ''op_mod_connect''} None warm_dispatcher)))
     (fst (disable_modes_by_lfdi failing_wenv ''ab'' {''op_mod_max_lim_w'', ''op_mod_connect''} None warm_dispatcher))"
proof -
  have e: "we_registry failing_wenv = demo_renv" "we_gate failing_wenv t l org" for t l org
    by (simp_all add: failing_wenv_def demo_wenv_def)
  define modes where "modes = {''op_mod_max_lim_w'', ''op_mod_connect''}"
  have "finite modes" by (simp add: modes_def)
  note r = event_end_withdraws_exactly [OF demo_takes(2) warm_resolve [OF e(1)] this disjI1 [OF prod.collapse], where cause = None]
  show ?thesis unfolding modes_def [symmetric]
    by (rule exE [OF r], elim conjE, rule exI, rule conjI, assumption) (use e(2) in simp)
qed

theorem additional_modes_never_withdrawn_witness:
  "\<exists>e p. ce_field e = ''op_mod_target_v'' \<and> (ce_method e, p) \<in> set (translate_controls (\<lambda>t. PStr t) demo_base []) \<and> is_enabled p \<and>
     ce_method e \<notin> fst ` set (withdraw_calls (get_active_mode_names demo_base))"
  by (rule additional_modes_never_withdrawn [of _ 9 _ "''230''"])
    (simp_all add: FIELD_TO_BIT2_def demo_base_def base_get_def is_disabled_def py_getattr_def)

theorem clear_withdraws_everything_witness:
  "fst (clear_control_by_lfdi (demo_wenv True) ''ab'' None warm_dispatcher) = Ok () \<and>
   written warm_dispatcher (snd (clear_control_by_lfdi (demo_wenv True) ''ab'' None warm_dispatcher)) = DISABLE_CALLS"
  using clear_withdraws_everything [OF demo_takes(2) warm_resolve [of "demo_wenv True"] _ _ surjective_pairing, of None]
  by (simp add: demo_wenv_def)

theorem missing_connector_counts_as_applied_witness:
  "fst (apply_control_by_lfdi (demo_wenv True) ''cd'' demo_derc [] ''ieee2030_5'' warm_dispatcher) = Ok ()"
proof -
  have "takes_controls warm_dispatcher (Some ''cd'')"
    "resolve_connector_by_lfdi (demo_wenv True) ''cd'' warm_dispatcher = (Ok None, report_missing ''cd'' warm_dispatcher)"
    by (simp_all add: takes_controls_def role_of_def resolve_connector_by_lfdi_def get_connector_def canonical_lfdi_def METER_ROLES_def
        py_lower_def char_lower_def dget_or_def UPPERCASE_def LOWERCASE_def demo_simps)
  from missing_connector_counts_as_applied [OF this, of demo_derc "[]" "''ieee2030_5''"] show ?thesis by simp
qed

theorem late_lookup_bypasses_gate_witness:
  "\<exists>s1. resolve_connector (demo_wenv False) ''/edev/1'' cold_dispatcher = (Ok (Some (demo_connector 0)), s1) \<and>
     written s1 (snd (apply_control (demo_wenv False) ''/edev/1'' demo_derc [] ''ieee2030_5'' cold_dispatcher))
       = [(''update_op_mod_max_lim_w'', enabled_with (PStr ''50'')), (''update_op_mod_target_v'', enabled_with (PStr ''230''))]"
proof -
  obtain s1 where s1: "resolve_connector (demo_wenv False) ''/edev/1'' cold_dispatcher = (Ok (Some (demo_connector 0)), s1)" "d_tick s1 = 1"
    using cold_resolve by blast
  have "takes_controls cold_dispatcher (we_lfdi (demo_wenv False) (d_tick cold_dispatcher) ''/edev/1'')"
    "we_lfdi (demo_wenv False) (d_tick s1) ''/edev/1'' = None" "\<forall>t. we_call (demo_wenv False) t = CallDone"
    "we_view (demo_wenv False) = (\<lambda>t. PStr t)" "derc_base demo_derc = demo_base"
    using demo_takes(1) s1(2) by (simp_all add: demo_wenv_def cold_dispatcher_def demo_derc_def)
  with late_lookup_bypasses_gate [OF this(1) s1(1) this(2,3) surjective_pairing,
      where derc = demo_derc and curves = "[]" and origin = "''ieee2030_5''"] s1(1)
  show ?thesis by (simp add: demo_translation)
qed

end
