(* ===== verification/Subscriptions.thy ===== *)
theory Subscriptions
  imports Control_Modes Interfaces
begin

text \<open>
  \<open>subscription/manager.py\<close>: creating, cancelling, renewing and reconciling subscriptions, and the
  bookkeeping of received notifications. The server's answers and the clock are parameters, indexed
  by a tick that every request advances; the requests made are a trace. The awaitables of one
  \<open>gather\<close> run one after the other, in an arbitrary order. An operation runs as a whole: other
  operations of the manager do not come in at its awaits; only \<open>subscribe\<close> is also given as its two
  halves around the POST (\<open>subscribe_request\<close>, \<open>subscribe_reply\<close>), for what overlapping callers do. \<open>subscribe\<close> and \<open>renew\<close> have the encoding,
  level and limit their callers leave at the default.
\<close>

section \<open>State\<close>

record SubscriptionState =
  subscription_uri :: string
  subscribed_resource :: string
  st_notification_uri :: string
  resource_type :: string
  sub_status :: string
  created_at :: rat
  is_list_subscription :: bool
  unmanaged :: bool
  sub_list_href :: "string option"

record StoredNotification =
  sn_resource :: string
  sn_status :: int
  sn_subscription_uri :: string
  sn_created_at :: rat
  sn_new_resource_uri :: "string option"

record ReconcileResult =
  kept_n :: nat
  cancelled_n :: nat
  created_n :: nat
  renewed_n :: nat
  cancel_errors_n :: nat
  create_errors_n :: nat

record Subscription =
  sb_resource :: string
  sb_encoding :: int
  sb_level :: string
  sb_limit :: int
  sb_notification_uri :: string

datatype RenewalMethod = RenewPost | RenewPut

text \<open>Answers of the server: the Location header of a created subscription (\<open>None\<close> when it is
  missing), the status of a \<open>Sep2ProtocolError\<close>, or the text of another exception.\<close>

datatype post_reply = Created "string option" | PostRejected int | PostRaised string
datatype put_reply = PutDone | PutRejected int | PutRaised string

record server_entry =
  se_href :: "string option"
  se_subscribed :: "string option"

record sub_env =
  sv_post :: "nat \<Rightarrow> string \<Rightarrow> Subscription \<Rightarrow> post_reply"
  sv_put :: "nat \<Rightarrow> string \<Rightarrow> Subscription \<Rightarrow> put_reply"
  sv_delete :: "nat \<Rightarrow> string \<Rightarrow> bool"
  sv_list :: "nat \<Rightarrow> string \<Rightarrow> server_entry list list option"
  sv_time :: "nat \<Rightarrow> rat"
  sv_order :: "string set \<Rightarrow> string list"

datatype sub_effect =
    SubPosted string Subscription
  | SubPut string Subscription
  | SubDeleted string
  | SubListed string
  | SubReported string
  | SubscriptionLost

record SubscriptionManager =
  sm_renewal :: RenewalMethod
  sm_uri :: string
  sm_subs :: "(string, SubscriptionState) dict"
  sm_notes :: "StoredNotification list"
  sm_max_notes :: nat
  sm_dedup :: "(string, rat) dict"
  sm_suppressed :: "string set"
  sm_fallback :: bool
  sm_on_lost :: bool
  sm_tick :: nat
  sm_trace :: "sub_effect list"

definition new_manager :: "string \<Rightarrow> nat \<Rightarrow> bool \<Rightarrow> bool \<Rightarrow> RenewalMethod \<Rightarrow> SubscriptionManager" where
  "new_manager uri max_notifications fallback on_lost method =
     \<lparr>sm_renewal = method, sm_uri = uri, sm_subs = [], sm_notes = [], sm_max_notes = max_notifications, sm_dedup = [],
      sm_suppressed = {}, sm_fallback = fallback, sm_on_lost = on_lost, sm_tick = 0, sm_trace = []\<rparr>"

definition SUBSCRIPTION_LOST_STATUSES :: "int set" where "SUBSCRIPTION_LOST_STATUSES = {401, 404}"
definition PUT_RENEWAL_FALLBACK_STATUSES :: "int set" where "PUT_RENEWAL_FALLBACK_STATUSES = {404, 405}"

definition log_sub :: "sub_effect \<Rightarrow> SubscriptionManager \<Rightarrow> SubscriptionManager" where
  "log_sub e m = m\<lparr>sm_trace := sm_trace m @ [e]\<rparr>"

definition request :: "sub_effect \<Rightarrow> SubscriptionManager \<Rightarrow> SubscriptionManager" where
  "request e m = m\<lparr>sm_trace := sm_trace m @ [e], sm_tick := Suc (sm_tick m)\<rparr>"

definition put_sub :: "string \<Rightarrow> SubscriptionState \<Rightarrow> SubscriptionManager \<Rightarrow> SubscriptionManager" where
  "put_sub uri st m = m\<lparr>sm_subs := dset uri st (sm_subs m)\<rparr>"

definition pop_sub :: "string \<Rightarrow> SubscriptionManager \<Rightarrow> SubscriptionManager" where
  "pop_sub uri m = m\<lparr>sm_subs := ddel uri (sm_subs m)\<rparr>"

definition sub_active :: "SubscriptionState \<Rightarrow> bool" where
  "sub_active st = (sub_status st = ''active'')"

definition active_subscriptions :: "SubscriptionManager \<Rightarrow> SubscriptionState list" where
  "active_subscriptions m = filter sub_active (map snd (sm_subs m))"

definition subscribed_resource_types :: "SubscriptionManager \<Rightarrow> string set" where
  "subscribed_resource_types m = resource_type ` set (active_subscriptions m)"

definition find_active_for_resource :: "SubscriptionManager \<Rightarrow> string \<Rightarrow> SubscriptionState option" where
  "find_active_for_resource m r = find (\<lambda>st. subscribed_resource st = r \<and> sub_active st) (map snd (sm_subs m))"

section \<open>Suppression of cancelled resources\<close>

definition suppress_resubscribe :: "string \<Rightarrow> SubscriptionManager \<Rightarrow> SubscriptionManager" where
  "suppress_resubscribe r m = m\<lparr>sm_suppressed := insert r (sm_suppressed m)\<rparr>"

definition resubscribe_suppressed :: "SubscriptionManager \<Rightarrow> string \<Rightarrow> bool" where
  "resubscribe_suppressed m r = (r \<in> sm_suppressed m)"

definition clear_resubscribe_suppression :: "SubscriptionManager \<Rightarrow> SubscriptionManager" where
  "clear_resubscribe_suppression m = m\<lparr>sm_suppressed := {}\<rparr>"

section \<open>Creating and cancelling\<close>

definition new_subscription :: "string \<Rightarrow> string \<Rightarrow> Subscription" where
  "new_subscription r uri =
     \<lparr>sb_resource = r, sb_encoding = 0, sb_level = ''+S1'', sb_limit = 1, sb_notification_uri = uri\<rparr>"

definition new_state :: "string \<Rightarrow> string \<Rightarrow> string \<Rightarrow> string \<Rightarrow> rat \<Rightarrow> bool \<Rightarrow> string option \<Rightarrow> SubscriptionState" where
  "new_state uri r notify rtype now un list_href =
     \<lparr>subscription_uri = uri, subscribed_resource = r, st_notification_uri = notify, resource_type = rtype,
      sub_status = ''active'', created_at = now, is_list_subscription = endswith rtype ''List'', unmanaged = un,
      sub_list_href = list_href\<rparr>"

text \<open>What \<open>subscribe\<close> does once the POST has been answered; other operations may have run since the
  request was sent.\<close>

definition subscribe_reply ::
  "sub_env \<Rightarrow> string \<Rightarrow> string \<Rightarrow> string \<Rightarrow> post_reply \<Rightarrow> SubscriptionManager \<Rightarrow> SubscriptionState option \<times> SubscriptionManager" where
  "subscribe_reply env list_href r rtype reply m =
     (let now = sv_time env (sm_tick m)
      in case reply of
           PostRejected code \<Rightarrow> (None, log_sub (SubReported (''subscribe:'' @ r)) m)
         | PostRaised e \<Rightarrow> (None, log_sub (SubReported (''subscribe:'' @ r)) m)
         | Created loc \<Rightarrow>
             (case loc of
                Some (c # cs) \<Rightarrow>
                  (let st = new_state (c # cs) r (sm_uri m) rtype now False (Some list_href)
                   in (Some st, put_sub (c # cs) st m))
              | _ \<Rightarrow>
                  if sm_fallback m
                  then let uri = ''_synthetic:'' @ r; st = new_state uri r (sm_uri m) rtype now True None
                       in (Some st, put_sub uri st m)
                  else (None, log_sub (SubReported (''sub_no_location:'' @ r)) m)))"

text \<open>The search for an active subscription and the POST; then the answer, with nothing in between.\<close>

definition subscribe_request :: "string \<Rightarrow> string \<Rightarrow> SubscriptionManager \<Rightarrow> SubscriptionManager" where
  "subscribe_request list_href r m = request (SubPosted list_href (new_subscription r (sm_uri m))) m"

definition subscribe ::
  "sub_env \<Rightarrow> string \<Rightarrow> string \<Rightarrow> string \<Rightarrow> SubscriptionManager \<Rightarrow> SubscriptionState option \<times> SubscriptionManager" where
  "subscribe env list_href r rtype m =
     (case find_active_for_resource m r of
        Some st \<Rightarrow> (Some st, m)
      | None \<Rightarrow> subscribe_reply env list_href r rtype (sv_post env (sm_tick m) list_href (new_subscription r (sm_uri m)))
                  (subscribe_request list_href r m))"

definition is_unmanaged :: "SubscriptionManager \<Rightarrow> string \<Rightarrow> bool" where
  "is_unmanaged m uri = (case map_of (sm_subs m) uri of Some st \<Rightarrow> unmanaged st | None \<Rightarrow> False)"

definition cancel :: "sub_env \<Rightarrow> string \<Rightarrow> SubscriptionManager \<Rightarrow> bool \<times> SubscriptionManager" where
  "cancel env uri m =
     (if is_unmanaged m uri then (True, pop_sub uri m)
      else (sv_delete env (sm_tick m) uri, pop_sub uri (request (SubDeleted uri) m)))"

definition cancel_one :: "sub_env \<Rightarrow> string \<Rightarrow> SubscriptionManager \<Rightarrow> bool \<times> SubscriptionManager" where
  "cancel_one env uri m =
     (if is_unmanaged m uri then (True, m) else (sv_delete env (sm_tick m) uri, request (SubDeleted uri) m))"

text \<open>\<open>asyncio.gather\<close> over a list of calls, with the list of their results.\<close>

fun gathered :: "('a \<Rightarrow> 's \<Rightarrow> 'b \<times> 's) \<Rightarrow> 'a list \<Rightarrow> 's \<Rightarrow> 'b list \<times> 's" where
  "gathered f [] s = ([], s)"
| "gathered f (x # xs) s = (case f x s of (y, s1) \<Rightarrow> (case gathered f xs s1 of (ys, s2) \<Rightarrow> (y # ys, s2)))"

definition cancel_all :: "sub_env \<Rightarrow> SubscriptionManager \<Rightarrow> SubscriptionManager" where
  "cancel_all env m =
     (let uris = map fst (sm_subs m)
      in if uris = [] then m else (snd (gathered (cancel_one env) uris m))\<lparr>sm_subs := []\<rparr>)"

section \<open>Renewal\<close>

definition renewal_rejected :: "string \<Rightarrow> int \<Rightarrow> SubscriptionManager \<Rightarrow> bool \<times> SubscriptionManager" where
  "renewal_rejected uri code m =
     (let m1 = log_sub (SubReported (''sub_renewal:'' @ uri)) m
      in (False, if code \<in> SUBSCRIPTION_LOST_STATUSES \<and> sm_on_lost m1 then log_sub SubscriptionLost m1 else m1))"

definition renewal_failed :: "string \<Rightarrow> SubscriptionManager \<Rightarrow> bool \<times> SubscriptionManager" where
  "renewal_failed uri m = (False, log_sub (SubReported (''sub_renewal:'' @ uri)) m)"

text \<open>\<open>uri.rsplit("/", 1)[0]\<close>: what is before the last slash, or all of it.\<close>

definition parent_path :: "string \<Rightarrow> string" where
  "parent_path p = (if CHR ''/'' \<in> set p then rev (tl (dropWhile (\<lambda>c. c \<noteq> CHR ''/'') (rev p))) else p)"

definition renewal_list :: "string \<Rightarrow> SubscriptionState \<Rightarrow> string" where
  "renewal_list uri st = (case sub_list_href st of Some (c # cs) \<Rightarrow> c # cs | _ \<Rightarrow> parent_path uri)"

text \<open>The re-POST to the list, with a change of URI when the server names another.\<close>

definition renew_by_post :: "sub_env \<Rightarrow> string \<Rightarrow> SubscriptionState \<Rightarrow> Subscription \<Rightarrow> SubscriptionManager \<Rightarrow> bool \<times> SubscriptionManager" where
  "renew_by_post env uri st sub m =
     (let reply = sv_post env (sm_tick m) (renewal_list uri st) sub;
          m1 = request (SubPosted (renewal_list uri st) sub) m;
          now = sv_time env (sm_tick m1)
      in case reply of
           PostRejected code \<Rightarrow> renewal_rejected uri code m1
         | PostRaised e \<Rightarrow> renewal_failed uri m1
         | Created loc \<Rightarrow>
             (case loc of
                Some (c # cs) \<Rightarrow>
                  (if c # cs \<noteq> uri
                   then (True, put_sub (c # cs) (st\<lparr>subscription_uri := c # cs, created_at := now\<rparr>) (pop_sub uri m1))
                   else (True, put_sub uri (st\<lparr>created_at := now\<rparr>) m1))
              | _ \<Rightarrow> (True, put_sub uri (st\<lparr>created_at := now\<rparr>) m1)))"

definition renew :: "sub_env \<Rightarrow> string \<Rightarrow> SubscriptionManager \<Rightarrow> bool \<times> SubscriptionManager" where
  "renew env uri m =
     (case map_of (sm_subs m) uri of
        None \<Rightarrow> (False, m)
      | Some st \<Rightarrow>
          if \<not> sub_active st then (False, m)
          else if unmanaged st then (True, put_sub uri (st\<lparr>created_at := sv_time env (sm_tick m)\<rparr>) m)
          else
            let sub = new_subscription (subscribed_resource st) (st_notification_uri st)
            in case sm_renewal m of
                 RenewPost \<Rightarrow> renew_by_post env uri st sub m
               | RenewPut \<Rightarrow>
                   (let reply = sv_put env (sm_tick m) uri sub; m1 = request (SubPut uri sub) m
                    in case reply of
                         PutDone \<Rightarrow> (True, put_sub uri (st\<lparr>created_at := sv_time env (sm_tick m1)\<rparr>) m1)
                       | PutRejected code \<Rightarrow>
                           if code \<notin> PUT_RENEWAL_FALLBACK_STATUSES then renewal_rejected uri code m1
                           else renew_by_post env uri st sub m1
                       | PutRaised e \<Rightarrow> renewal_failed uri m1))"

text \<open>Loops over \<open>list(self._subscriptions.keys())\<close>, looking each key up again.\<close>

definition renew_if :: "sub_env \<Rightarrow> (SubscriptionState \<Rightarrow> bool) \<Rightarrow> string \<Rightarrow> nat \<times> SubscriptionManager \<Rightarrow> nat \<times> SubscriptionManager" where
  "renew_if env due uri cm =
     (case cm of (n, m) \<Rightarrow>
        (case map_of (sm_subs m) uri of
           Some st \<Rightarrow>
             if sub_active st \<and> due st
             then case renew env uri m of (ok, m1) \<Rightarrow> (if ok then Suc n else n, m1)
             else (n, m)
         | None \<Rightarrow> (n, m)))"

definition renew_all :: "sub_env \<Rightarrow> SubscriptionManager \<Rightarrow> nat \<times> SubscriptionManager" where
  "renew_all env m = fold (renew_if env (\<lambda>_. True)) (map fst (sm_subs m)) (0, m)"

text \<open>One round of \<open>start_renewal_task\<close>, after its interval has elapsed.\<close>

definition renewal_round :: "sub_env \<Rightarrow> rat \<Rightarrow> SubscriptionManager \<Rightarrow> SubscriptionManager" where
  "renewal_round env interval m =
     (let now = sv_time env (sm_tick m)
      in snd (fold (renew_if env (\<lambda>st. now - created_at st \<ge> interval)) (map fst (sm_subs m)) (0, m)))"

definition validate_one :: "sub_env \<Rightarrow> string \<Rightarrow> (nat \<times> nat) \<times> SubscriptionManager \<Rightarrow> (nat \<times> nat) \<times> SubscriptionManager" where
  "validate_one env uri cm =
     (case cm of ((valid, removed), m) \<Rightarrow>
        (case map_of (sm_subs m) uri of
           None \<Rightarrow> ((valid, removed), m)
         | Some st \<Rightarrow>
             if \<not> sub_active st then ((valid, removed), m)
             else if unmanaged st then ((Suc valid, removed), m)
             else (case renew env uri m of
                     (True, m1) \<Rightarrow> ((Suc valid, removed), m1)
                   | (False, m1) \<Rightarrow> ((valid, Suc removed), pop_sub uri m1))))"

definition validate_restored_subscriptions :: "sub_env \<Rightarrow> SubscriptionManager \<Rightarrow> (nat \<times> nat) \<times> SubscriptionManager" where
  "validate_restored_subscriptions env m = fold (validate_one env) (map fst (sm_subs m)) ((0, 0), m)"

section \<open>Reconciliation\<close>

text \<open>The loop that drops cancelled entries and finds the active subscription of each resource.\<close>

definition collect_active ::
  "SubscriptionState \<Rightarrow> (string, SubscriptionState) dict \<times> SubscriptionManager \<Rightarrow> (string, SubscriptionState) dict \<times> SubscriptionManager" where
  "collect_active st om =
     (case om of (old, m) \<Rightarrow>
        if \<not> sub_active st then (old, pop_sub (subscription_uri st) m) else (dset (subscribed_resource st) st old, m))"

definition keep_of :: "(string, SubscriptionState) dict \<Rightarrow> (string, string) dict \<Rightarrow> string set" where
  "keep_of old want = {r \<in> fst ` set old. dhas want r \<and> map_option resource_type (map_of old r) = map_of want r}"

definition cancel_of :: "(string, SubscriptionState) dict \<Rightarrow> (string, string) dict \<Rightarrow> string set" where
  "cancel_of old want = fst ` set old - keep_of old want"

definition create_of :: "(string, SubscriptionState) dict \<Rightarrow> (string, string) dict \<Rightarrow> string set" where
  "create_of old want = fst ` set want - keep_of old want"

definition cancel_stale :: "sub_env \<Rightarrow> string list \<Rightarrow> ReconcileResult \<times> SubscriptionManager \<Rightarrow> ReconcileResult \<times> SubscriptionManager" where
  "cancel_stale env uris rm =
     (case rm of (res, m) \<Rightarrow>
        (case gathered (cancel_one env) uris m of (oks, m1) \<Rightarrow>
           (res\<lparr>cancelled_n := cancelled_n res + length uris,
                cancel_errors_n := cancel_errors_n res + length (filter Not oks)\<rparr>,
            m1\<lparr>sm_subs := ddel_all uris (sm_subs m1)\<rparr>)))"

text \<open>The renewal of what is kept: a subscription that could not be renewed is dropped and joins
  the resources to create.\<close>

definition settle_renewal ::
  "(string \<times> SubscriptionState) \<times> bool \<Rightarrow> string set \<times> ReconcileResult \<times> SubscriptionManager \<Rightarrow> string set \<times> ReconcileResult \<times> SubscriptionManager" where
  "settle_renewal ko crm =
     (case (ko, crm) of (((r, st), ok), (create, res, m)) \<Rightarrow>
        if ok then (create, res\<lparr>kept_n := Suc (kept_n res), renewed_n := Suc (renewed_n res)\<rparr>, m)
        else (insert r create, res\<lparr>cancelled_n := Suc (cancelled_n res)\<rparr>, pop_sub (subscription_uri st) m))"

definition renew_kept_subs ::
  "sub_env \<Rightarrow> (string \<times> SubscriptionState) list \<Rightarrow> string set \<Rightarrow> ReconcileResult \<times> SubscriptionManager \<Rightarrow> string set \<times> ReconcileResult \<times> SubscriptionManager" where
  "renew_kept_subs env keep create rm =
     (case rm of (res, m) \<Rightarrow>
        (case gathered (\<lambda>(r, st). renew env (subscription_uri st)) keep m of (oks, m1) \<Rightarrow>
           fold settle_renewal (zip keep oks) (create, res, m1)))"

definition create_missing ::
  "sub_env \<Rightarrow> string \<Rightarrow> (string \<times> string) list \<Rightarrow> ReconcileResult \<times> SubscriptionManager \<Rightarrow> ReconcileResult \<times> SubscriptionManager" where
  "create_missing env list_href create rm =
     (case rm of (res, m) \<Rightarrow>
        (case gathered (\<lambda>(r, rtype). subscribe env list_href r rtype) create m of (subs, m1) \<Rightarrow>
           (res\<lparr>created_n := created_n res + length (filter (\<lambda>x. x \<noteq> None) subs),
                create_errors_n := create_errors_n res + length (filter (\<lambda>x. x = None) subs)\<rparr>, m1)))"

text \<open>\<open>desired\<close> is a Python set; the list is its iteration order.\<close>

definition reconcile ::
  "sub_env \<Rightarrow> string \<Rightarrow> (string \<times> string) list \<Rightarrow> bool \<Rightarrow> SubscriptionManager \<Rightarrow> ReconcileResult \<times> SubscriptionManager" where
  "reconcile env list_href desired renew_kept m =
     (let (old, m1) = fold collect_active (map snd (sm_subs m)) ([], m);
          want = dict_of desired;
          ord = iter_set (sv_order env);
          res0 = \<lparr>kept_n = 0, cancelled_n = 0, created_n = 0, renewed_n = 0, cancel_errors_n = 0, create_errors_n = 0\<rparr>;
          state_of = (\<lambda>r. the (map_of old r));
          (res1, m2) = cancel_stale env (map (\<lambda>r. subscription_uri (state_of r)) (ord (cancel_of old want))) (res0, m1);
          keep = map (\<lambda>r. (r, state_of r)) (ord (keep_of old want));
          (create, res2, m3) = (if renew_kept then renew_kept_subs env keep (create_of old want) (res1, m2)
                                else (create_of old want, res1\<lparr>kept_n := kept_n res1 + length keep\<rparr>, m2))
      in create_missing env list_href (map (\<lambda>r. (r, the (map_of want r))) (ord create)) (res2, m3))"

text \<open>What the server lists: the resources, and the href of each that has one.\<close>

definition listed :: "server_entry list list \<Rightarrow> string set" where
  "listed pages = {r. \<exists>e \<in> set (concat pages). se_subscribed e = Some r \<and> r \<noteq> []}"

definition listed_uri :: "server_entry list list \<Rightarrow> (string, string) dict" where
  "listed_uri pages =
     fold (\<lambda>e d. case (se_subscribed e, se_href e) of
                   (Some (c # cs), Some (h # hs)) \<Rightarrow> dset (c # cs) (h # hs) d
                 | _ \<Rightarrow> d) (concat pages) []"

definition reconcile_entry ::
  "sub_env \<Rightarrow> string \<Rightarrow> bool \<Rightarrow> server_entry list list \<Rightarrow> SubscriptionState \<Rightarrow> nat \<times> SubscriptionManager \<Rightarrow> nat \<times> SubscriptionManager" where
  "reconcile_entry env list_href reestablish pages st nm =
     (case nm of (n, m) \<Rightarrow>
        if unmanaged st then (n, m)
        else if subscribed_resource st \<in> listed pages then
          (case map_of (listed_uri pages) (subscribed_resource st) of
             None \<Rightarrow> (n, m)
           | Some uri \<Rightarrow>
               if uri \<noteq> subscription_uri st
               then (n, put_sub uri (st\<lparr>subscription_uri := uri\<rparr>) (pop_sub (subscription_uri st) m))
               else (n, m))
        else if \<not> reestablish then (if listed pages \<noteq> {} then (n, pop_sub (subscription_uri st) m) else (n, m))
        else (case subscribe env list_href (subscribed_resource st) (resource_type st) (pop_sub (subscription_uri st) m) of
                (Some _, m1) \<Rightarrow> (Suc n, m1)
              | (None, m1) \<Rightarrow> (n, put_sub (subscription_uri st) st m1)))"

definition reconcile_with_server :: "sub_env \<Rightarrow> string \<Rightarrow> bool \<Rightarrow> SubscriptionManager \<Rightarrow> nat \<times> SubscriptionManager" where
  "reconcile_with_server env list_href reestablish m =
     (let reply = sv_list env (sm_tick m) list_href; m1 = request (SubListed list_href) m
      in case reply of
           None \<Rightarrow> (0, log_sub (SubReported (''sub_reconcile_get:'' @ list_href)) m1)
         | Some pages \<Rightarrow> fold (reconcile_entry env list_href reestablish pages) (active_subscriptions m1) (0, m1))"

section \<open>Notifications\<close>

text \<open>\<open>deque(maxlen=n)\<close>: the oldest go first.\<close>

definition record_notification :: "StoredNotification \<Rightarrow> SubscriptionManager \<Rightarrow> SubscriptionManager" where
  "record_notification n m =
     (let ns = sm_notes m @ [n] in m\<lparr>sm_notes := drop (length ns - sm_max_notes m) ns\<rparr>)"

definition mark_cancelled :: "string \<Rightarrow> SubscriptionManager \<Rightarrow> SubscriptionManager" where
  "mark_cancelled uri m =
     (case map_of (sm_subs m) uri of
        None \<Rightarrow> m
      | Some st \<Rightarrow> put_sub uri (st\<lparr>sub_status := ''cancelled''\<rparr>) m)"

definition remove_notifications_for :: "string \<Rightarrow> SubscriptionManager \<Rightarrow> SubscriptionManager" where
  "remove_notifications_for r m = m\<lparr>sm_notes := filter (\<lambda>n. sn_resource n \<noteq> r) (sm_notes m)\<rparr>"

definition should_process_notification :: "SubscriptionManager \<Rightarrow> string \<Rightarrow> string \<Rightarrow> bool" where
  "should_process_notification m uri href =
     (case map_of (sm_subs m) uri of None \<Rightarrow> True | Some st \<Rightarrow> is_list_subscription st \<or> href = subscribed_resource st)"

definition resource_type_for :: "SubscriptionManager \<Rightarrow> string \<Rightarrow> string option" where
  "resource_type_for m uri = map_option resource_type (map_of (sm_subs m) uri)"

definition DEDUP_WINDOW :: rat where "DEDUP_WINDOW = 5"

definition is_duplicate_notification :: "rat \<Rightarrow> string \<Rightarrow> SubscriptionManager \<Rightarrow> bool \<times> SubscriptionManager" where
  "is_duplicate_notification now href m =
     (case map_of (sm_dedup m) href of
        Some l \<Rightarrow> if now - l < DEDUP_WINDOW then (True, m) else (False, m\<lparr>sm_dedup := dset href now (sm_dedup m)\<rparr>)
      | None \<Rightarrow> (False, m\<lparr>sm_dedup := dset href now (sm_dedup m)\<rparr>))"

text \<open>\<open>path.strip("/").split("/")\<close>; the split of an empty path is one empty segment.\<close>

definition rstrip_slash :: "string \<Rightarrow> string" where
  "rstrip_slash p = rev (dropWhile (\<lambda>c. c = CHR ''/'') (rev p))"

definition strip_slash :: "string \<Rightarrow> string" where
  "strip_slash p = rstrip_slash (dropWhile (\<lambda>c. c = CHR ''/'') p)"

fun split_slash :: "string \<Rightarrow> string list" where
  "split_slash [] = [[]]"
| "split_slash (c # cs) =
     (if c = CHR ''/'' then [] # split_slash cs
      else case split_slash cs of [] \<Rightarrow> [[c]] | s # ss \<Rightarrow> (c # s) # ss)"

definition segments :: "string \<Rightarrow> string list" where
  "segments p = split_slash (strip_slash (rstrip_slash p))"

definition join_slash :: "string list \<Rightarrow> string" where
  "join_slash ps = concat (map (\<lambda>p. ''/'' @ p) ps)"

text \<open>The ancestors from the parent up, until a \<open>derp\<close> segment has been included.\<close>

fun ancestry :: "nat \<Rightarrow> string list \<Rightarrow> string list" where
  "ancestry 0 parts = []"
| "ancestry (Suc i) parts =
     join_slash (take (Suc i) parts) # (if parts ! i = ''derp'' then [] else ancestry i parts)"

definition record_notification_ancestry :: "rat \<Rightarrow> string \<Rightarrow> SubscriptionManager \<Rightarrow> SubscriptionManager" where
  "record_notification_ancestry now href m =
     (let parts = segments href
      in m\<lparr>sm_dedup := fold (\<lambda>p d. dset p now d) (ancestry (length parts - 1) parts) (sm_dedup m)\<rparr>)"

section \<open>Checkpoints\<close>

text \<open>An entry of a checkpoint; \<open>None\<close> is a key that is absent.\<close>

record sub_checkpoint =
  ck_uri :: string
  ck_resource :: string
  ck_notification_uri :: string
  ck_type :: string
  ck_status :: "string option"
  ck_created_at :: "rat option"
  ck_is_list :: "bool option"
  ck_unmanaged :: "bool option"
  ck_list_href :: "string option"

definition checkpoint_of :: "SubscriptionState \<Rightarrow> sub_checkpoint" where
  "checkpoint_of st =
     \<lparr>ck_uri = subscription_uri st, ck_resource = subscribed_resource st, ck_notification_uri = st_notification_uri st,
      ck_type = resource_type st, ck_status = Some (sub_status st), ck_created_at = Some (created_at st),
      ck_is_list = None, ck_unmanaged = Some (unmanaged st), ck_list_href = sub_list_href st\<rparr>"

definition to_checkpoint :: "SubscriptionManager \<Rightarrow> sub_checkpoint list" where
  "to_checkpoint m = map (\<lambda>(_, st). checkpoint_of st) (sm_subs m)"

definition state_of_checkpoint :: "sub_checkpoint \<Rightarrow> SubscriptionState" where
  "state_of_checkpoint c =
     \<lparr>subscription_uri = ck_uri c, subscribed_resource = ck_resource c, st_notification_uri = ck_notification_uri c,
      resource_type = ck_type c, sub_status = (case ck_status c of None \<Rightarrow> ''active'' | Some x \<Rightarrow> x),
      created_at = (case ck_created_at c of None \<Rightarrow> 0 | Some x \<Rightarrow> x),
      is_list_subscription = (case ck_is_list c of None \<Rightarrow> False | Some b \<Rightarrow> b),
      unmanaged = (case ck_unmanaged c of None \<Rightarrow> False | Some b \<Rightarrow> b), sub_list_href = ck_list_href c\<rparr>"

definition restore_from_checkpoint :: "sub_checkpoint list \<Rightarrow> SubscriptionManager \<Rightarrow> SubscriptionManager" where
  "restore_from_checkpoint cs m =
     m\<lparr>sm_subs := fold (\<lambda>c d. let st = state_of_checkpoint c in dset (subscription_uri st) st d) cs []\<rparr>"

end
