(* ===== verification/Subscription_Laws.thy ===== *)
theory Subscription_Laws
  imports Subscriptions
begin

text \<open>
  The table of subscriptions: a locale for relations that every operation of the manager keeps,
  interpreted for well-formedness and for what the operations leave alone; runs of operations one
  after the other; what two overlapping calls do.
\<close>

section \<open>Well-formed tables\<close>

definition one_active :: "SubscriptionManager \<Rightarrow> bool" where
  "one_active m \<longleftrightarrow> (\<forall>k k' st st'. map_of (sm_subs m) k = Some st \<longrightarrow> map_of (sm_subs m) k' = Some st' \<longrightarrow>
     sub_active st \<longrightarrow> sub_active st' \<longrightarrow> subscribed_resource st = subscribed_resource st' \<longrightarrow> k = k')"

definition keyed :: "SubscriptionManager \<Rightarrow> bool" where
  "keyed m \<longleftrightarrow> wf_dict (sm_subs m) \<and> (\<forall>k st. map_of (sm_subs m) k = Some st \<longrightarrow> subscription_uri st = k)"

definition wf_subs :: "SubscriptionManager \<Rightarrow> bool" where
  "wf_subs m \<longleftrightarrow> keyed m \<and> one_active m"

text \<open>The active entries of the resource of \<open>st\<close>, if any, are filed under \<open>k\<close>.\<close>

definition room :: "SubscriptionManager \<Rightarrow> string \<Rightarrow> SubscriptionState \<Rightarrow> bool" where
  "room m k st \<longleftrightarrow> (\<forall>k' st'. map_of (sm_subs m) k' = Some st' \<longrightarrow> sub_active st' \<longrightarrow>
     subscribed_resource st' = subscribed_resource st \<longrightarrow> k' = k)"

lemma frames [simp]:
  "sm_subs (log_sub e m) = sm_subs m" "sm_subs (request e m) = sm_subs m"
  "sm_subs (put_sub k st m) = dset k st (sm_subs m)" "sm_subs (pop_sub k m) = ddel k (sm_subs m)"
  "sm_suppressed (log_sub e m) = sm_suppressed m" "sm_suppressed (request e m) = sm_suppressed m"
  "sm_suppressed (put_sub k st m) = sm_suppressed m" "sm_suppressed (pop_sub k m) = sm_suppressed m"
  "sm_tick (log_sub e m) = sm_tick m" "sm_tick (request e m) = Suc (sm_tick m)"
  "sm_tick (put_sub k st m) = sm_tick m" "sm_tick (pop_sub k m) = sm_tick m"
  "sm_trace (log_sub e m) = sm_trace m @ [e]" "sm_trace (request e m) = sm_trace m @ [e]"
  "sm_trace (put_sub k st m) = sm_trace m" "sm_trace (pop_sub k m) = sm_trace m"
  by (simp_all add: log_sub_def request_def put_sub_def pop_sub_def)

lemma wf_subs_cong: "sm_subs m' = sm_subs m \<Longrightarrow> wf_subs m' = wf_subs m"
  by (simp add: wf_subs_def keyed_def one_active_def)

lemma wf_pop: "wf_subs m \<Longrightarrow> wf_subs (pop_sub k m)"
  by (simp add: wf_subs_def keyed_def one_active_def)

lemma wf_put:
  assumes "wf_subs m" "subscription_uri st = k" "sub_active st \<longrightarrow> room m k st"
  shows "wf_subs (put_sub k st m)"
  unfolding wf_subs_def
proof
  show "keyed (put_sub k st m)" using assms(1,2) by (auto simp: wf_subs_def keyed_def)
  show "one_active (put_sub k st m)"
    using assms by (auto simp: wf_subs_def one_active_def room_def)
qed

lemma room_same: "wf_subs m \<Longrightarrow> map_of (sm_subs m) k = Some st \<Longrightarrow> sub_active st \<Longrightarrow>
    subscribed_resource st' = subscribed_resource st \<Longrightarrow> room m k st'"
  unfolding wf_subs_def one_active_def room_def by metis

lemma room_pop: "room m k st \<Longrightarrow> room (pop_sub k m) k' st"
  by (auto simp: room_def)

lemma room_subs_cong: "sm_subs m' = sm_subs m \<Longrightarrow> room m k st \<Longrightarrow> room m' k st"
  by (simp add: room_def)

lemma room_cong [simp]: "room (request e m) k st = room m k st" "room (log_sub e m) k st = room m k st"
  by (simp_all add: room_def)

lemma find_none_room:
  assumes "find_active_for_resource m r = None" "subscribed_resource st = r"
  shows "room m k st"
proof -
  have "\<not> (subscribed_resource st' = r \<and> sub_active st')" if "map_of (sm_subs m) k' = Some st'" for k' st'
    using assms(1) map_of_SomeD [OF that] by (force simp: find_active_for_resource_def find_None_iff)
  then show ?thesis using assms(2) by (auto simp: room_def)
qed

lemma find_some_active:
  "find_active_for_resource m r = Some st \<Longrightarrow> sub_active st \<and> subscribed_resource st = r \<and> st \<in> snd ` set (sm_subs m)"
  by (auto simp: find_active_for_resource_def find_Some_iff)

lemma new_state_simps [simp]:
  "subscription_uri (new_state u r n t c un h) = u" "subscribed_resource (new_state u r n t c un h) = r"
  "resource_type (new_state u r n t c un h) = t" "sub_active (new_state u r n t c un h)"
  by (simp_all add: new_state_def sub_active_def)

lemma sub_active_upd [simp]:
  "sub_active (st\<lparr>created_at := c\<rparr>) = sub_active st" "sub_active (st\<lparr>subscription_uri := u\<rparr>) = sub_active st"
  "\<not> sub_active (st\<lparr>sub_status := ''cancelled''\<rparr>)"
  by (simp_all add: sub_active_def)

section \<open>What every operation keeps\<close>

locale subscription_steps = step_contract R for R :: "SubscriptionManager \<Rightarrow> SubscriptionManager \<Rightarrow> bool" +
  assumes wf: "R m m' \<Longrightarrow> wf_subs m \<Longrightarrow> wf_subs m'"
    and logged: "R m (log_sub e m)" "R m (request e m)"
    and popped: "R m (pop_sub k m)"
    and filed: "subscription_uri st = k \<Longrightarrow> sub_active st \<longrightarrow> room m k st \<Longrightarrow> R m (put_sub k st m)"
    and emptied: "R m (m\<lparr>sm_subs := []\<rparr>)"
begin

lemma gathered_keeps:
  assumes "\<And>x m. x \<in> set xs \<Longrightarrow> wf_subs m \<Longrightarrow> R m (snd (f x m))" "wf_subs m"
  shows "R m (snd (gathered f xs m))"
  using assms
proof (induction xs arbitrary: m)
  case (Cons x xs)
  have x: "R m (snd (f x m))" using Cons.prems by simp
  then have "R (snd (f x m)) (snd (gathered f xs (snd (f x m))))"
    using Cons.IH [of "snd (f x m)"] Cons.prems(1) wf [OF x Cons.prems(2)] by simp
  then show ?case using trans [OF x] by (simp add: case_prod_beta)
qed simp

lemma folded_keeps:
  assumes "\<And>x n m. x \<in> set xs \<Longrightarrow> wf_subs m \<Longrightarrow> R m (snd (f x (n, m)))" "wf_subs m"
  shows "R m (snd (fold f xs (n, m)))"
  using assms
proof (induction xs arbitrary: n m)
  case (Cons x xs)
  obtain n1 m1 where f: "f x (n, m) = (n1, m1)" by fastforce
  then have x: "R m m1" using Cons.prems(1) [of x m n] Cons.prems(2) by simp
  then have "R m1 (snd (fold f xs (n1, m1)))" using Cons wf by simp
  then show ?case using x trans f by simp
qed simp

lemma popped_all: "R m (m\<lparr>sm_subs := ddel_all ks (sm_subs m)\<rparr>)"
proof (induction ks arbitrary: m)
  case Nil
  have "m\<lparr>sm_subs := ddel_all [] (sm_subs m)\<rparr> = m" by (simp add: ddel_all_def)
  then show ?case by simp
next
  case (Cons k ks)
  have "R (pop_sub k m) ((pop_sub k m)\<lparr>sm_subs := ddel_all ks (sm_subs (pop_sub k m))\<rparr>)" by (rule Cons.IH)
  moreover have "(pop_sub k m)\<lparr>sm_subs := ddel_all ks (sm_subs (pop_sub k m))\<rparr> = m\<lparr>sm_subs := ddel_all (k # ks) (sm_subs m)\<rparr>"
    by (simp add: ddel_all_def pop_sub_def)
  ultimately show ?case using trans popped by metis
qed

lemma subscribe_keeps: "wf_subs m \<Longrightarrow> R m (snd (subscribe env h r t m))"
proof -
  assume w: "wf_subs m"
  let ?m1 = "request (SubPosted h (new_subscription r (sm_uri m))) m"
  have m1: "R m ?m1" by (rule logged)
  have put: "R m (put_sub u (new_state u r n t c un l) ?m1)" if "find_active_for_resource m r = None" for u n c un l
    using find_none_room [OF that] by (intro trans [OF m1] filed) auto
  have rep: "R m (log_sub e ?m1)" for e using trans [OF m1] logged by blast
  show ?thesis
    using put rep
    by (auto simp: subscribe_def subscribe_reply_def subscribe_request_def Let_def split: option.split post_reply.split list.split)
qed

lemma cancel_one_keeps: "R m (snd (cancel_one env uri m))"
  by (simp add: cancel_one_def logged)

lemma cancel_keeps: "R m (snd (cancel env uri m))"
  using trans [OF logged(2) popped] by (simp add: cancel_def popped)

lemma cancel_all_keeps: "wf_subs m \<Longrightarrow> R m (cancel_all env m)"
  using trans [OF gathered_keeps emptied, of "map fst (sm_subs m)" "cancel_one env" m] cancel_one_keeps
  by (simp add: cancel_all_def Let_def)

lemma renewal_rejected_keeps: "R m (snd (renewal_rejected uri code m))"
  using trans [OF logged(1) logged(1)] logged(1) by (simp add: renewal_rejected_def Let_def)

lemma renewal_failed_keeps: "R m (snd (renewal_failed uri m))"
  by (simp add: renewal_failed_def logged)

lemma renew_by_post_keeps:
  assumes "wf_subs m" "map_of (sm_subs m) uri = Some st" "sub_active st"
  shows "R m (snd (renew_by_post env uri st sub m))"
proof -
  let ?m1 = "request (SubPosted (renewal_list uri st) sub) m"
  have m1: "R m ?m1" by (rule logged)
  have w: "wf_subs ?m1" using assms(1) wf [OF m1] by simp
  have u: "subscription_uri st = uri" using assms by (simp add: wf_subs_def keyed_def)
  have room: "room ?m1 uri st'" if "subscribed_resource st' = subscribed_resource st" for st'
    using room_same [OF w _ assms(3) that] assms(2) by simp
  have same: "R m (put_sub uri (st\<lparr>created_at := c\<rparr>) ?m1)" for c
    using room u by (intro trans [OF m1] filed) auto
  have moved: "R m (put_sub l (st\<lparr>subscription_uri := l, created_at := c\<rparr>) (pop_sub uri ?m1))" for l c
  proof -
    have "room (pop_sub uri ?m1) l (st\<lparr>subscription_uri := l, created_at := c\<rparr>)"
      using room [of "st\<lparr>subscription_uri := l, created_at := c\<rparr>"] room_pop by simp
    then show ?thesis by (intro trans [OF trans [OF m1 popped] filed]) auto
  qed
  show ?thesis
    using same moved trans [OF m1 renewal_rejected_keeps] trans [OF m1 renewal_failed_keeps]
    by (auto simp: renew_by_post_def Let_def split: option.split post_reply.split list.split)
qed

lemma renew_keeps: "wf_subs m \<Longrightarrow> R m (snd (renew env uri m))"
proof (cases "map_of (sm_subs m) uri")
  case None
  then show ?thesis by (simp add: renew_def)
next
  case (Some st)
  assume w: "wf_subs m"
  show ?thesis
  proof (cases "sub_active st")
    case False
    then show ?thesis using Some by (simp add: renew_def)
  next
    case True
    let ?m1 = "request (SubPut uri (new_subscription (subscribed_resource st) (st_notification_uri st))) m"
    have u: "subscription_uri st = uri" using w Some by (simp add: wf_subs_def keyed_def)
    have same: "R m' (put_sub uri (st\<lparr>created_at := c\<rparr>) m')" if "sm_subs m' = sm_subs m" for c m'
      using room_same [of m' uri st "st\<lparr>created_at := c\<rparr>"] wf_subs_cong [OF that] w Some True that u by (intro filed) auto
    have m1: "R m ?m1" by (rule logged)
    have "wf_subs ?m1" using w wf [OF m1] by simp
    then show ?thesis
      using Some True renew_by_post_keeps [OF w Some True] trans [OF m1 renew_by_post_keeps] trans [OF m1 same]
        trans [OF m1 renewal_rejected_keeps] trans [OF m1 renewal_failed_keeps] same [of m]
      by (auto simp: renew_def Let_def split: RenewalMethod.split put_reply.split)
  qed
qed

lemma renew_if_keeps: "wf_subs m \<Longrightarrow> R m (snd (renew_if env due uri (n, m)))"
  using renew_keeps [of m env uri] by (auto simp: renew_if_def case_prod_beta split: option.split)

lemma renew_all_keeps: "wf_subs m \<Longrightarrow> R m (snd (renew_all env m))"
  unfolding renew_all_def by (rule folded_keeps) (auto intro: renew_if_keeps)

lemma renewal_round_keeps: "wf_subs m \<Longrightarrow> R m (renewal_round env i m)"
  unfolding renewal_round_def Let_def by (rule folded_keeps) (auto intro: renew_if_keeps)

lemma validate_one_keeps: "wf_subs m \<Longrightarrow> R m (snd (validate_one env uri (n, m)))"
  using renew_keeps [of m env uri] trans [OF renew_keeps [of m env uri] popped [where k = uri]]
  by (auto simp: validate_one_def case_prod_beta split: option.split prod.split bool.split)

lemma validate_keeps: "wf_subs m \<Longrightarrow> R m (snd (validate_restored_subscriptions env m))"
  unfolding validate_restored_subscriptions_def by (rule folded_keeps) (auto intro: validate_one_keeps)

lemma collect_keeps: "R m (snd (fold collect_active sts (old, m)))"
proof (induction sts arbitrary: old m)
  case (Cons st sts)
  show ?case
  proof (cases "sub_active st")
    case True
    then show ?thesis using Cons.IH [of m] by (simp add: collect_active_def)
  next
    case False
    then show ?thesis
      using trans [OF popped [of m "subscription_uri st"] Cons.IH [of "pop_sub (subscription_uri st) m" old]]
      by (simp add: collect_active_def)
  qed
qed simp

lemma cancel_stale_keeps: "wf_subs m \<Longrightarrow> R m (snd (cancel_stale env uris (res, m)))"
  using trans [OF gathered_keeps [of uris "cancel_one env" m] popped_all] cancel_one_keeps
  by (simp add: cancel_stale_def case_prod_beta)

lemma settle_keeps: "R m (snd (snd (fold settle_renewal kos (cr, res, m))))"
proof (induction kos arbitrary: cr res m)
  case (Cons ko kos)
  obtain r st ok where ko: "ko = ((r, st), ok)" by (metis surj_pair)
  show ?case
    using Cons.IH trans [OF popped [of m "subscription_uri st"] Cons.IH]
    by (cases ok) (simp_all add: ko settle_renewal_def)
qed simp

lemma renew_kept_keeps: "wf_subs (snd rm) \<Longrightarrow> R (snd rm) (snd (snd (renew_kept_subs env keep cr rm)))"
  unfolding renew_kept_subs_def
  using trans [OF gathered_keeps [of keep "\<lambda>(r, st). renew env (subscription_uri st)" "snd rm"] settle_keeps] renew_keeps
  by (simp add: case_prod_beta)

lemma create_missing_keeps: "wf_subs (snd rm) \<Longrightarrow> R (snd rm) (snd (create_missing env h create rm))"
  using gathered_keeps [of create "\<lambda>(r, rtype). subscribe env h r rtype" "snd rm"] subscribe_keeps
  by (simp add: create_missing_def case_prod_beta)

lemma reconcile_keeps: "wf_subs m \<Longrightarrow> R m (snd (reconcile env h desired renew_kept m))"
proof -
  assume w: "wf_subs m"
  obtain old m1 where 1: "fold collect_active (map snd (sm_subs m)) ([], m) = (old, m1)" by fastforce
  have r1: "R m m1" using collect_keeps [of m "map snd (sm_subs m)" "[]"] 1 by simp
  then have w1: "wf_subs m1" using w wf by blast
  define rm where "rm = cancel_stale env (map (\<lambda>r. subscription_uri (the (map_of old r))) (iter_set (sv_order env) (cancel_of old (dict_of desired))))
      (\<lparr>kept_n = 0, cancelled_n = 0, created_n = 0, renewed_n = 0, cancel_errors_n = 0, create_errors_n = 0\<rparr>, m1)"
  have c: "R m (snd rm)" using trans [OF r1 cancel_stale_keeps [OF w1]] by (simp add: rm_def)
  then have w2: "wf_subs (snd rm)" using w wf by blast
  have k: "R m (snd (snd (renew_kept_subs env keep cr rm)))" "wf_subs (snd (snd (renew_kept_subs env keep cr rm)))" for keep cr
    using trans [OF c renew_kept_keeps [OF w2]] wf [OF renew_kept_keeps [OF w2] w2] by blast+
  show ?thesis
    unfolding reconcile_def Let_def 1 prod.case rm_def [symmetric]
    using trans [OF k(1) create_missing_keeps [OF k(2)]] trans [OF c, OF create_missing_keeps [of "(res, snd rm)" for res, unfolded snd_conv, OF w2]]
    by (simp add: case_prod_beta)
qed

end

section \<open>Adopting what the server lists\<close>

text \<open>Entries of other resources than \<open>r\<close> only disappear.\<close>

definition only_for :: "string \<Rightarrow> SubscriptionManager \<Rightarrow> SubscriptionManager \<Rightarrow> bool" where
  "only_for r m m' \<longleftrightarrow> (\<forall>k st. map_of (sm_subs m') k = Some st \<longrightarrow> sub_active st \<longrightarrow> subscribed_resource st \<noteq> r \<longrightarrow>
     map_of (sm_subs m) k = Some st)"

lemma only_for_room: "only_for r m m' \<Longrightarrow> subscribed_resource st \<noteq> r \<Longrightarrow> room m k st \<Longrightarrow> room m' k st"
  by (auto simp: only_for_def room_def)

lemma subscribe_only_for: "only_for r m (snd (subscribe env h r t m))"
  by (auto simp: only_for_def subscribe_def subscribe_reply_def subscribe_request_def Let_def split: option.splits post_reply.splits list.splits if_splits)

lemma only_for_trans: "only_for r m m1 \<Longrightarrow> only_for r m1 m2 \<Longrightarrow> only_for r m m2"
  by (auto simp: only_for_def)

lemma only_for_put_pop:
  "only_for r m (pop_sub k m)" "subscribed_resource st = r \<Longrightarrow> only_for r m (put_sub k st m)"
  by (auto simp: only_for_def split: if_splits)

lemma reconcile_entry_only_for: "only_for (subscribed_resource st) m (snd (reconcile_entry env h b pages st (n, m)))"
proof -
  let ?r = "subscribed_resource st" and ?p = "pop_sub (subscription_uri st) m"
  have p: "only_for ?r m ?p" by (rule only_for_put_pop)
  have put: "only_for ?r m' (put_sub k st' m')" if "subscribed_resource st' = ?r" for k st' m'
    using that by (rule only_for_put_pop)
  have s: "only_for ?r m (snd (subscribe env h ?r (resource_type st) ?p))" using only_for_trans [OF p subscribe_only_for] .
  have id: "only_for ?r m m" by (simp add: only_for_def)
  show ?thesis
    using s id p only_for_trans [OF p put] only_for_trans [OF s put]
    by (auto simp: reconcile_entry_def case_prod_beta split: option.splits prod.splits)
qed

context subscription_steps
begin

lemma reconcile_entry_keeps:
  assumes "wf_subs m" "room m (subscription_uri st) st"
  shows "R m (snd (reconcile_entry env h b pages st (n, m)))"
proof -
  let ?p = "pop_sub (subscription_uri st) m"
  have p: "R m ?p" by (rule popped)
  have wp: "wf_subs ?p" using assms(1) wf [OF p] by simp
  have moved: "R m (put_sub u (st\<lparr>subscription_uri := u\<rparr>) ?p)" for u
  proof (intro trans [OF p filed])
    have "room m (subscription_uri st) (st\<lparr>subscription_uri := u\<rparr>)" using assms(2) by (simp add: room_def)
    then show "sub_active (st\<lparr>subscription_uri := u\<rparr>) \<longrightarrow> room ?p u (st\<lparr>subscription_uri := u\<rparr>)" using room_pop by blast
  qed simp
  have s: "R m (snd (subscribe env h r t ?p))" for r t using trans [OF p subscribe_keeps [OF wp]] .
  have restored: "R m (put_sub (subscription_uri st) st (snd (subscribe env h (subscribed_resource st) t ?p)))"
    if none: "fst (subscribe env h (subscribed_resource st) t ?p) = None" for t
  proof (intro trans [OF s filed])
    have "sm_subs (snd (subscribe env h (subscribed_resource st) t ?p)) = sm_subs ?p"
      using none by (auto simp: subscribe_def subscribe_reply_def subscribe_request_def Let_def split: option.splits post_reply.splits list.splits)
    then have "room (snd (subscribe env h (subscribed_resource st) t ?p)) (subscription_uri st) st"
      using room_pop [OF assms(2), of "subscription_uri st"] room_subs_cong by blast
    then show "sub_active st \<longrightarrow> room (snd (subscribe env h (subscribed_resource st) t ?p)) (subscription_uri st) st" ..
  qed simp
  obtain o' m2 where sub: "subscribe env h (subscribed_resource st) (resource_type st) ?p = (o', m2)" by fastforce
  have "R m m2" "o' = None \<Longrightarrow> R m (put_sub (subscription_uri st) st m2)"
    using s [of "subscribed_resource st" "resource_type st"] restored [of "resource_type st"] by (simp_all add: sub)
  then show ?thesis
    using moved p by (simp add: reconcile_entry_def sub split: option.split)
qed

lemma reconcile_entries_keep:
  assumes "wf_subs m" "distinct (map subscribed_resource sts)" "\<And>st. st \<in> set sts \<Longrightarrow> room m (subscription_uri st) st"
  shows "R m (snd (fold (reconcile_entry env h b pages) sts (n, m)))"
  using assms
proof (induction sts arbitrary: n m)
  case (Cons st sts)
  obtain n1 m1 where e: "reconcile_entry env h b pages st (n, m) = (n1, m1)" by fastforce
  have r: "R m m1" using reconcile_entry_keeps [of m st env h b pages n] Cons.prems e by simp
  have "room m1 (subscription_uri st') st'" if "st' \<in> set sts" for st'
  proof (rule only_for_room)
    show "only_for (subscribed_resource st) m m1" using reconcile_entry_only_for [of st m env h b pages n] e by simp
    show "subscribed_resource st' \<noteq> subscribed_resource st" using that Cons.prems(2) by (metis distinct.simps(2) image_eqI list.set_map list.simps(9))
    show "room m (subscription_uri st') st'" using that Cons.prems(3) by simp
  qed
  then have "R m1 (snd (fold (reconcile_entry env h b pages) sts (n1, m1)))"
    using Cons.IH [of m1 n1] Cons.prems wf [OF r] by simp
  then show ?case using trans [OF r] e by simp
qed simp

end

lemma active_subscriptions_iff:
  "keyed m \<Longrightarrow> (st \<in> set (active_subscriptions m)) \<longleftrightarrow> sub_active st \<and> map_of (sm_subs m) (subscription_uri st) = Some st"
proof -
  assume k: "keyed m"
  have "map_of (sm_subs m) (subscription_uri st) = Some st \<longleftrightarrow> st \<in> snd ` set (sm_subs m)"
  proof
    assume "st \<in> snd ` set (sm_subs m)"
    then obtain u where "(u, st) \<in> set (sm_subs m)" by auto
    then have "map_of (sm_subs m) u = Some st" using k by (simp add: keyed_def wf_dict_map_of)
    then show "map_of (sm_subs m) (subscription_uri st) = Some st" using k by (simp add: keyed_def)
  next
    assume "map_of (sm_subs m) (subscription_uri st) = Some st"
    then show "st \<in> snd ` set (sm_subs m)" using map_of_SomeD by force
  qed
  then show ?thesis by (auto simp: active_subscriptions_def)
qed

lemma distinct_active_resources:
  assumes "wf_subs m"
  shows "distinct (map subscribed_resource (active_subscriptions m))"
proof -
  have "inj_on subscribed_resource (set (active_subscriptions m))"
    using assms by (auto simp: inj_on_def wf_subs_def active_subscriptions_iff one_active_def) (metis option.inject)
  moreover have "distinct (map subscription_uri (active_subscriptions m))"
  proof -
    have "map subscription_uri (map snd (sm_subs m)) = map fst (sm_subs m)"
      using assms by (auto simp: wf_subs_def keyed_def wf_dict_map_of)
    moreover have "distinct (map fst (sm_subs m))" using assms by (simp add: wf_subs_def keyed_def wf_dict_def)
    ultimately have "distinct (map subscription_uri (map snd (sm_subs m)))" by presburger
    then show ?thesis unfolding active_subscriptions_def by (rule distinct_map_filter)
  qed
  ultimately show ?thesis by (simp add: distinct_map)
qed

context subscription_steps
begin

lemma reconcile_with_server_keeps: "wf_subs m \<Longrightarrow> R m (snd (reconcile_with_server env h b m))"
proof -
  assume w: "wf_subs m"
  let ?m1 = "request (SubListed h) m"
  have m1: "R m ?m1" by (rule logged)
  have w1: "wf_subs ?m1" using w wf [OF m1] by simp
  have "room ?m1 (subscription_uri st) st" if "st \<in> set (active_subscriptions ?m1)" for st
    using that w1 room_same [OF w1, of "subscription_uri st" st st] by (simp add: wf_subs_def active_subscriptions_iff)
  then have "R ?m1 (snd (fold (reconcile_entry env h b pages) (active_subscriptions ?m1) (0, ?m1)))" for pages
    using reconcile_entries_keep [OF w1 distinct_active_resources [OF w1]] by blast
  then show ?thesis
    using trans [OF m1] trans [OF m1 logged(1)] by (auto simp: reconcile_with_server_def Let_def split: option.split)
qed

end

section \<open>Checkpoints\<close>

lemma restored_table:
  assumes "keyed m"
  shows "sm_subs (restore_from_checkpoint (to_checkpoint m) m0) = map (\<lambda>(k, st). (k, st\<lparr>is_list_subscription := False\<rparr>)) (sm_subs m)"
proof -
  have st: "state_of_checkpoint (checkpoint_of st) = st\<lparr>is_list_subscription := False\<rparr>" for st
    by (simp add: state_of_checkpoint_def checkpoint_of_def)
  have uri: "subscription_uri (snd p) = fst p" if "p \<in> set (sm_subs m)" for p
    using assms that by (cases p) (simp add: keyed_def wf_dict_map_of)
  have "map (\<lambda>c. subscription_uri (state_of_checkpoint c)) (to_checkpoint m) = map fst (sm_subs m)"
    using uri by (auto simp: to_checkpoint_def st case_prod_beta)
  moreover have "distinct (map fst (sm_subs m))" using assms by (simp add: keyed_def wf_dict_def)
  ultimately have "distinct (map (\<lambda>c. subscription_uri (state_of_checkpoint c)) (to_checkpoint m))" by presburger
  from fold_dset_distinct [OF this, of "[]" state_of_checkpoint]
  have "sm_subs (restore_from_checkpoint (to_checkpoint m) m0) = map (\<lambda>c. (subscription_uri (state_of_checkpoint c), state_of_checkpoint c)) (to_checkpoint m)"
    by (simp add: restore_from_checkpoint_def Let_def)
  then show ?thesis using uri by (auto simp: to_checkpoint_def st case_prod_beta)
qed

lemma wf_restored:
  assumes "wf_subs m"
  shows "wf_subs (restore_from_checkpoint (to_checkpoint m) m0)"
proof -
  let ?f = "\<lambda>st :: SubscriptionState. st\<lparr>is_list_subscription := False\<rparr>"
  have t: "sm_subs (restore_from_checkpoint (to_checkpoint m) m0) = map (\<lambda>(k, st). (k, ?f st)) (sm_subs m)"
    using restored_table assms by (simp add: wf_subs_def)
  then have m: "map_of (sm_subs (restore_from_checkpoint (to_checkpoint m) m0)) k = map_option ?f (map_of (sm_subs m) k)" for k
    by (simp add: map_of_map)
  have "map fst (map (\<lambda>(k, st). (k, ?f st)) (sm_subs m)) = map fst (sm_subs m)" by (simp add: case_prod_beta comp_def)
  then have "wf_dict (sm_subs (restore_from_checkpoint (to_checkpoint m) m0))"
    using assms unfolding t wf_dict_def by (metis wf_subs_def keyed_def wf_dict_def)
  moreover have "one_active (restore_from_checkpoint (to_checkpoint m) m0)"
    using assms unfolding wf_subs_def one_active_def m sub_active_def by fastforce
  ultimately show ?thesis using assms by (auto simp: wf_subs_def keyed_def m)
qed

section \<open>Interpretations and runs\<close>

definition subs_kept :: "SubscriptionManager \<Rightarrow> SubscriptionManager \<Rightarrow> bool" where
  "subs_kept m m' \<longleftrightarrow> (wf_subs m \<longrightarrow> wf_subs m')"

interpretation table: subscription_steps subs_kept
proof unfold_locales
  show "subs_kept m (put_sub k st m)" if "subscription_uri st = k" "sub_active st \<longrightarrow> room m k st" for st k m
    using wf_put [OF _ that] by (simp add: subs_kept_def)
  show "subs_kept m (pop_sub k m)" for m k using wf_pop by (simp add: subs_kept_def)
  show "subs_kept m (log_sub e m)" "subs_kept m (request e m)" for m e
    using wf_subs_cong [of "log_sub e m" m] wf_subs_cong [of "request e m" m] by (simp_all add: subs_kept_def)
  show "subs_kept m (m\<lparr>sm_subs := []\<rparr>)" for m by (simp add: subs_kept_def wf_subs_def keyed_def one_active_def)
qed (auto simp: subs_kept_def)

text \<open>What the operations on the table leave alone: the suppressed resources, the stored
  notifications, the cache of recent ones, and what was done before.\<close>

definition aside_kept :: "SubscriptionManager \<Rightarrow> SubscriptionManager \<Rightarrow> bool" where
  "aside_kept m m' \<longleftrightarrow> subs_kept m m' \<and> sm_suppressed m' = sm_suppressed m \<and> sm_notes m' = sm_notes m \<and>
     sm_dedup m' = sm_dedup m \<and> (\<exists>es. sm_trace m' = sm_trace m @ es)"

interpretation aside: subscription_steps aside_kept
proof unfold_locales
  show "aside_kept m (put_sub k st m)" if "subscription_uri st = k" "sub_active st \<longrightarrow> room m k st" for st k m
    using table.filed [OF that] by (simp add: aside_kept_def put_sub_def)
  show "aside_kept m (pop_sub k m)" for m k using table.popped [of m k] by (simp add: aside_kept_def pop_sub_def)
  show "aside_kept m (log_sub e m)" "aside_kept m (request e m)" for m e
    using table.logged [of m e] by (simp_all add: aside_kept_def log_sub_def request_def)
  show "aside_kept m (m\<lparr>sm_subs := []\<rparr>)" for m using table.emptied [of m] by (simp add: aside_kept_def)
qed (auto simp: aside_kept_def subs_kept_def)

text \<open>A run: operations one after the other, each finished, its requests answered, before the next
  begins. A restart starts a new manager from the checkpoint of the old one.\<close>

datatype sub_op =
    OpSubscribe string string string | OpCancel string | OpCancelAll | OpReconcile string "(string \<times> string) list" bool
  | OpReconcileServer string bool | OpRenew string | OpRenewAll | OpRound rat | OpValidate
  | OpNotification StoredNotification | OpMarkCancelled string | OpForget string | OpSuppress string | OpReconnected
  | OpDuplicate rat string | OpAncestry rat string | OpRestart

fun sub_run_op :: "sub_env \<Rightarrow> sub_op \<Rightarrow> SubscriptionManager \<Rightarrow> SubscriptionManager" where
  "sub_run_op env (OpSubscribe h r t) m = snd (subscribe env h r t m)"
| "sub_run_op env (OpCancel u) m = snd (cancel env u m)"
| "sub_run_op env OpCancelAll m = cancel_all env m"
| "sub_run_op env (OpReconcile h d b) m = snd (reconcile env h d b m)"
| "sub_run_op env (OpReconcileServer h b) m = snd (reconcile_with_server env h b m)"
| "sub_run_op env (OpRenew u) m = snd (renew env u m)"
| "sub_run_op env OpRenewAll m = snd (renew_all env m)"
| "sub_run_op env (OpRound i) m = renewal_round env i m"
| "sub_run_op env OpValidate m = snd (validate_restored_subscriptions env m)"
| "sub_run_op env (OpNotification n) m = record_notification n m"
| "sub_run_op env (OpMarkCancelled u) m = mark_cancelled u m"
| "sub_run_op env (OpForget r) m = remove_notifications_for r m"
| "sub_run_op env (OpSuppress r) m = suppress_resubscribe r m"
| "sub_run_op env OpReconnected m = clear_resubscribe_suppression m"
| "sub_run_op env (OpDuplicate t r) m = snd (is_duplicate_notification t r m)"
| "sub_run_op env (OpAncestry t r) m = record_notification_ancestry t r m"
| "sub_run_op env OpRestart m = restore_from_checkpoint (to_checkpoint m)
     (new_manager (sm_uri m) (sm_max_notes m) (sm_fallback m) (sm_on_lost m) (sm_renewal m))"

definition sub_run :: "sub_env \<Rightarrow> sub_op list \<Rightarrow> SubscriptionManager \<Rightarrow> SubscriptionManager" where
  "sub_run env = fold (sub_run_op env)"

lemma wf_mark_cancelled:
  assumes "wf_subs m"
  shows "wf_subs (mark_cancelled u m)"
proof (cases "map_of (sm_subs m) u")
  case (Some st)
  then have "subscription_uri (st\<lparr>sub_status := ''cancelled''\<rparr>) = u" using assms by (simp add: wf_subs_def keyed_def)
  then show ?thesis using wf_put [OF assms, of "st\<lparr>sub_status := ''cancelled''\<rparr>" u] Some by (simp add: mark_cancelled_def)
qed (simp add: mark_cancelled_def assms)

lemma wf_sub_run_op:
  assumes "wf_subs m"
  shows "wf_subs (sub_run_op env op m)"
proof (cases op)
  case (OpMarkCancelled u)
  then show ?thesis using wf_mark_cancelled [OF assms] by simp
next
  case OpRestart
  then show ?thesis using wf_restored [OF assms] by simp
qed (use assms table.subscribe_keeps table.cancel_keeps table.cancel_all_keeps table.reconcile_keeps
       table.reconcile_with_server_keeps table.renew_keeps table.renew_all_keeps table.renewal_round_keeps table.validate_keeps
     in \<open>auto simp: subs_kept_def record_notification_def Let_def remove_notifications_for_def suppress_resubscribe_def
       clear_resubscribe_suppression_def is_duplicate_notification_def record_notification_ancestry_def
       intro: wf_subs_cong [THEN iffD2] split: option.split\<close>)

lemma wf_new_manager: "wf_subs (new_manager u n f l r)"
  by (simp add: wf_subs_def keyed_def one_active_def new_manager_def)

lemma wf_sub_run: "wf_subs m \<Longrightarrow> wf_subs (sub_run env ops m)"
  unfolding sub_run_def by (rule fold_invariant) (auto intro: wf_sub_run_op)

text \<open>
  C19. Whatever operations the manager runs one at a time, each finished before the next begins,
  restarts from its own checkpoint included, and whatever the server answers, each resource has at
  most one active subscription, no URI is filed twice, and every subscription is filed under its own
  URI, so a renewal or cancellation addresses the subscription it means. Operations that overlap at
  their requests are not covered: \<open>overlapping_subscribes\<close> shows two of them breaking it.
\<close>

theorem one_subscription_per_resource:
  "distinct (map subscribed_resource (active_subscriptions (sub_run env ops (new_manager u n f l r)))) \<and>
   map fst (sm_subs (sub_run env ops (new_manager u n f l r)))
     = map (subscription_uri \<circ> snd) (sm_subs (sub_run env ops (new_manager u n f l r))) \<and>
   distinct (map fst (sm_subs (sub_run env ops (new_manager u n f l r))))"
proof -
  have w: "wf_subs (sub_run env ops (new_manager u n f l r))" by (intro wf_sub_run wf_new_manager)
  then have "keyed (sub_run env ops (new_manager u n f l r))" by (simp add: wf_subs_def)
  then show ?thesis using distinct_active_resources [OF w] by (auto simp: keyed_def wf_dict_map_of wf_dict_def)
qed

section \<open>Overlapping calls\<close>

text \<open>
  Two calls of \<open>subscribe\<close> for one resource that overlap (the second looks for an active subscription
  while the POST of the first is under way) both post, and a server that creates a subscription for
  each leaves the resource with two active subscriptions.
\<close>

theorem overlapping_subscribes:
  assumes "find_active_for_resource m r = None" "u \<noteq> []" "u' \<noteq> []" "u \<noteq> u'"
    and "m1 = subscribe_request h r m" "m2 = subscribe_request h' r m1"
    and "m3 = snd (subscribe_reply env h r t (Created (Some u)) m2)"
      "m4 = snd (subscribe_reply env h' r t' (Created (Some u')) m3)"
  shows "find_active_for_resource m1 r = None \<and>
    (\<exists>st st'. map_of (sm_subs m4) u = Some st \<and> map_of (sm_subs m4) u' = Some st' \<and>
       sub_active st \<and> sub_active st' \<and> subscribed_resource st = r \<and> subscribed_resource st' = r)"
proof
  show "find_active_for_resource m1 r = None"
    using assms(1,5) by (simp add: find_active_for_resource_def subscribe_request_def)
  show "\<exists>st st'. map_of (sm_subs m4) u = Some st \<and> map_of (sm_subs m4) u' = Some st' \<and>
       sub_active st \<and> sub_active st' \<and> subscribed_resource st = r \<and> subscribed_resource st' = r"
    using assms(2-4,7,8) by (cases u; cases u') (auto simp: subscribe_reply_def Let_def)
qed

end
