(* ===== verification/Subscription_Props.thy ===== *)
theory Subscription_Props
  imports Subscription_Laws
begin

text \<open>
  What reconciliation, checkpoints and the adoption of the server's URIs do to the table of
  subscriptions.
\<close>

section \<open>Reconciliation reaches the desired set\<close>

definition pairs_of :: "SubscriptionManager \<Rightarrow> (string \<times> string) set" where
  "pairs_of m = {(subscribed_resource st, resource_type st) | k st. map_of (sm_subs m) k = Some st \<and> sub_active st}"

definition posted_resources :: "sub_effect list \<Rightarrow> string list" where
  "posted_resources es = List.map_filter (\<lambda>e. case e of SubPosted _ s \<Rightarrow> Some (sb_resource s) | _ \<Rightarrow> None) es"

lemma posted_resources_simps [simp]:
  "posted_resources [] = []" "posted_resources (es @ fs) = posted_resources es @ posted_resources fs"
  "posted_resources (SubPosted h s # es) = sb_resource s # posted_resources es"
  "posted_resources (SubDeleted u # es) = posted_resources es"
  by (simp_all add: posted_resources_def List.map_filter_def)

text \<open>A server that accepts every subscription, each under a Location of its own.\<close>

definition accepting :: "sub_env \<Rightarrow> (nat \<Rightarrow> string) \<Rightarrow> SubscriptionManager \<Rightarrow> bool" where
  "accepting env loc m \<longleftrightarrow> (\<forall>t h s. sv_post env t h s = Created (Some (loc t))) \<and> inj loc \<and> (\<forall>t. loc t \<noteq> []) \<and>
     (\<forall>t \<ge> sm_tick m. map_of (sm_subs m) (loc t) = None)"

lemma subscribe_accepted:
  assumes "accepting env loc m" "r \<notin> fst ` pairs_of m" "wf_dict (sm_subs m)"
  shows "\<exists>st. subscribe env h r t m
    = (Some st, put_sub (loc (sm_tick m)) st (request (SubPosted h (new_subscription r (sm_uri m))) m))
    \<and> sub_active st \<and> subscribed_resource st = r \<and> resource_type st = t"
proof -
  have "\<not> (subscribed_resource st = r \<and> sub_active st)" if "st \<in> snd ` set (sm_subs m)" for st
    using assms(2,3) that by (force simp: pairs_of_def wf_dict_map_of)
  then have "find_active_for_resource m r = None" by (simp add: find_active_for_resource_def find_None_iff)
  moreover obtain c cs where "loc (sm_tick m) = c # cs" using assms(1) by (metis accepting_def neq_Nil_conv)
  ultimately show ?thesis using assms(1) by (simp add: subscribe_def subscribe_reply_def subscribe_request_def accepting_def Let_def)
qed

lemma created_all:
  assumes "accepting env loc m" "wf_dict (sm_subs m)" "distinct (map fst cr)" "fst ` set cr \<inter> fst ` pairs_of m = {}"
    "gathered (\<lambda>(r, t). subscribe env h r t) cr m = (outs, m')"
  shows "pairs_of m' = pairs_of m \<union> set cr \<and> None \<notin> set outs \<and> length outs = length cr \<and>
    (\<forall>k st. map_of (sm_subs m) k = Some st \<longrightarrow> map_of (sm_subs m') k = Some st) \<and>
    posted_resources (sm_trace m') = posted_resources (sm_trace m) @ map fst cr"
  using assms
proof (induction cr arbitrary: m outs)
  case (Cons c cr)
  obtain r t where c: "c = (r, t)" by fastforce
  obtain st where st: "subscribe env h r t m
      = (Some st, put_sub (loc (sm_tick m)) st (request (SubPosted h (new_subscription r (sm_uri m))) m))"
      "sub_active st" "subscribed_resource st = r" "resource_type st = t"
    using subscribe_accepted [OF Cons.prems(1) _ Cons.prems(2), of r h t] Cons.prems(4) c by auto
  let ?m1 = "put_sub (loc (sm_tick m)) st (request (SubPosted h (new_subscription r (sm_uri m))) m)"
  obtain outs1 where g: "gathered (\<lambda>(r, t). subscribe env h r t) cr ?m1 = (outs1, m')" "outs = Some st # outs1"
    using Cons.prems(5) st(1) c by (auto split: prod.splits)
  have fresh: "map_of (sm_subs m) (loc (sm_tick m)) = None" and inj: "inj loc"
    using Cons.prems(1) by (auto simp: accepting_def)
  have p: "pairs_of ?m1 = insert (r, t) (pairs_of m)"
    using fresh st(2-4) unfolding pairs_of_def by (auto split: if_splits) (metis option.distinct(1))
  have "accepting env loc ?m1"
    using Cons.prems(1) inj by (auto simp: accepting_def dest: injD)
  moreover have "fst ` set cr \<inter> fst ` pairs_of ?m1 = {}" using Cons.prems(3,4) c p by auto
  ultimately have ih: "pairs_of m' = pairs_of ?m1 \<union> set cr \<and> None \<notin> set outs1 \<and> length outs1 = length cr \<and>
    (\<forall>k st. map_of (sm_subs ?m1) k = Some st \<longrightarrow> map_of (sm_subs m') k = Some st) \<and>
    posted_resources (sm_trace m') = posted_resources (sm_trace ?m1) @ map fst cr"
    using Cons.prems(2,3) g(1) by (intro Cons.IH) auto
  have "map_of (sm_subs m') k = Some s" if "map_of (sm_subs m) k = Some s" for k s
    using ih fresh that by (metis fun_upd_apply map_of_dset frames(2,3) option.distinct(1))
  then show ?case using ih p g(2) c by (auto simp: new_subscription_def)
qed simp

lemma cancelled_frame:
  "sm_subs (snd (gathered (cancel_one env) us m)) = sm_subs m \<and> sm_tick m \<le> sm_tick (snd (gathered (cancel_one env) us m)) \<and>
   posted_resources (sm_trace (snd (gathered (cancel_one env) us m))) = posted_resources (sm_trace m)"
proof (induction us arbitrary: m)
  case (Cons u us)
  show ?case using Cons.IH [of "snd (cancel_one env u m)"] by (auto simp: cancel_one_def case_prod_beta)
qed simp

lemma collected:
  "fold collect_active sts (old, m) =
     (fold (\<lambda>st d. dset (subscribed_resource st) st d) (filter sub_active sts) old,
      m\<lparr>sm_subs := ddel_all (map subscription_uri (filter (\<lambda>st. \<not> sub_active st) sts)) (sm_subs m)\<rparr>)"
  by (induction sts arbitrary: old m) (simp_all add: collect_active_def ddel_all_def pop_sub_def)

lemma collected_table:
  assumes "wf_subs m"
  shows "fold collect_active (map snd (sm_subs m)) ([], m) =
    (map (\<lambda>st. (subscribed_resource st, st)) (active_subscriptions m),
     m\<lparr>sm_subs := ddel_all (map subscription_uri (filter (\<lambda>st. \<not> sub_active st) (map snd (sm_subs m)))) (sm_subs m)\<rparr>)"
  using fold_dset_distinct [OF distinct_active_resources [OF assms], of "[]" "\<lambda>st. st"]
  by (simp add: collected active_subscriptions_def)

definition old_table :: "SubscriptionManager \<Rightarrow> (string, SubscriptionState) dict" where
  "old_table m = map (\<lambda>st. (subscribed_resource st, st)) (active_subscriptions m)"

lemma old_table_lookup:
  assumes "wf_subs m"
  shows "map_of (old_table m) r = Some st \<longleftrightarrow> st \<in> set (active_subscriptions m) \<and> subscribed_resource st = r"
  unfolding old_table_def using distinct_active_resources [OF assms] by (subst map_of_eq_Some_iff) (auto simp: comp_def)

lemma old_table_keys: "fst ` set (old_table m) = subscribed_resource ` set (active_subscriptions m)"
  by (force simp: old_table_def)

lemma pairs_active:
  assumes "keyed m"
  shows "pairs_of m = (\<lambda>st. (subscribed_resource st, resource_type st)) ` set (active_subscriptions m)"
proof -
  have "set (active_subscriptions m) = {st. \<exists>k. map_of (sm_subs m) k = Some st \<and> sub_active st}"
    using active_subscriptions_iff [OF assms] assms unfolding keyed_def by blast
  then show ?thesis unfolding pairs_of_def by blast
qed

lemma keep_pairs:
  assumes "wf_subs m" "distinct (map fst desired)"
  shows "keep_of (old_table m) desired = fst ` (set desired \<inter> pairs_of m)"
proof -
  have k: "keyed m" using assms(1) by (simp add: wf_subs_def)
  have d: "map_of desired r = Some t \<longleftrightarrow> (r, t) \<in> set desired" for r t using assms(2) by simp
  have a: "r \<in> keep_of (old_table m) desired \<longleftrightarrow> (\<exists>st. st \<in> set (active_subscriptions m) \<and> subscribed_resource st = r \<and>
      map_of desired r = Some (resource_type st))" for r
  proof (cases "map_of (old_table m) r")
    case None
    then have "r \<notin> subscribed_resource ` set (active_subscriptions m)" by (simp add: map_of_eq_None_iff old_table_keys)
    then show ?thesis by (auto simp: keep_of_def old_table_keys)
  next
    case (Some st)
    then have st: "st \<in> set (active_subscriptions m)" "subscribed_resource st = r" using old_table_lookup [OF assms(1)] by auto
    have "st' = st" if "st' \<in> set (active_subscriptions m)" "subscribed_resource st' = r" for st'
      using that old_table_lookup [OF assms(1), of r st'] Some by simp
    moreover have "r \<in> keep_of (old_table m) desired \<longleftrightarrow> map_of desired r = Some (resource_type st)"
      using st Some by (auto simp: keep_of_def old_table_keys dhas_def)
    ultimately show ?thesis using st by metis
  qed
  have b: "r \<in> fst ` (set desired \<inter> pairs_of m) \<longleftrightarrow> (\<exists>t. (r, t) \<in> set desired \<and> (r, t) \<in> pairs_of m)" for r
    by (simp add: in_fst_image)
  have c: "(r, t) \<in> pairs_of m \<longleftrightarrow> (\<exists>st. st \<in> set (active_subscriptions m) \<and> subscribed_resource st = r \<and> resource_type st = t)" for r t
    unfolding pairs_active [OF k] by auto
  show ?thesis
  proof (rule set_eqI)
    show "r \<in> keep_of (old_table m) desired \<longleftrightarrow> r \<in> fst ` (set desired \<inter> pairs_of m)" for r unfolding a b c d by blast
  qed
qed

lemma kept_pairs:
  assumes "wf_subs m" "distinct (map fst desired)"
  shows "{p \<in> pairs_of m. fst p \<in> keep_of (old_table m) desired} = set desired \<inter> pairs_of m"
proof -
  have u: "t = t'" if "(r, t) \<in> pairs_of m" "(r, t') \<in> pairs_of m" for r t t'
    using assms(1) that unfolding pairs_of_def wf_subs_def one_active_def by clarsimp (metis option.inject)
  have f: "r \<in> fst ` (set desired \<inter> pairs_of m) \<longleftrightarrow> (\<exists>t. (r, t) \<in> set desired \<and> (r, t) \<in> pairs_of m)" for r by (simp add: in_fst_image)
  show ?thesis
  proof (intro set_eqI)
    fix p :: "string \<times> string"
    obtain r t where "p = (r, t)" by fastforce
    then show "p \<in> {p \<in> pairs_of m. fst p \<in> keep_of (old_table m) desired} \<longleftrightarrow> p \<in> set desired \<inter> pairs_of m"
      using u f [of r] unfolding keep_pairs [OF assms] by auto
  qed
qed

definition after_cancel :: "sub_env \<Rightarrow> (string, string) dict \<Rightarrow> SubscriptionManager \<Rightarrow> string list" where
  "after_cancel env want m =
     map (\<lambda>r. subscription_uri (the (map_of (old_table m) r))) (iter_set (sv_order env) (cancel_of (old_table m) want))"

lemma cancelled_table:
  assumes "wf_subs m" "distinct (map fst desired)"
    "m1 = m\<lparr>sm_subs := ddel_all (map subscription_uri (filter (\<lambda>st. \<not> sub_active st) (map snd (sm_subs m)))) (sm_subs m)\<rparr>"
  shows "map_of (ddel_all (after_cancel env desired m) (sm_subs m1)) x = Some st \<longleftrightarrow>
    map_of (sm_subs m) x = Some st \<and> sub_active st \<and> subscribed_resource st \<in> keep_of (old_table m) desired"
proof -
  have k: "keyed m" using assms(1) by (simp add: wf_subs_def)
  then have w: "wf_dict (sm_subs m)" and uri: "map_of (sm_subs m) k' = Some s \<Longrightarrow> subscription_uri s = k'" for k' s
    by (simp_all add: keyed_def)
  have ina: "x \<in> subscription_uri ` {s \<in> snd ` set (sm_subs m). \<not> sub_active s} \<longleftrightarrow> (\<exists>s. map_of (sm_subs m) x = Some s \<and> \<not> sub_active s)"
    using uri by (auto simp: wf_dict_map_of [OF w]) force+
  have old: "st \<in> set (active_subscriptions m) \<Longrightarrow> the (map_of (old_table m) (subscribed_resource st)) = st" for st
    using old_table_lookup [OF assms(1), of "subscribed_resource st" st] by simp
  have "set (after_cancel env desired m) = (\<lambda>r. subscription_uri (the (map_of (old_table m) r))) ` cancel_of (old_table m) desired"
    unfolding after_cancel_def by (simp add: set_iter_set cancel_of_def old_table_keys)
  also have "\<dots> = {subscription_uri s | s. s \<in> set (active_subscriptions m) \<and> subscribed_resource s \<notin> keep_of (old_table m) desired}"
    unfolding cancel_of_def old_table_keys using old by (auto simp: image_iff) force+
  finally have us: "x \<in> set (after_cancel env desired m) \<longleftrightarrow>
      (\<exists>s. map_of (sm_subs m) x = Some s \<and> sub_active s \<and> subscribed_resource s \<notin> keep_of (old_table m) desired)"
    unfolding active_subscriptions_iff [OF k] using uri by (simp only: mem_Collect_eq) metis
  have "set (map subscription_uri (filter (\<lambda>st. \<not> sub_active st) (map snd (sm_subs m))))
      = subscription_uri ` {s \<in> snd ` set (sm_subs m). \<not> sub_active s}" by auto
  then show ?thesis unfolding assms(3) using us ina by (auto simp del: set_map)
qed

text \<open>The manager after the stale subscriptions are cancelled, and the list of those to create.\<close>

definition dropped_inactive :: "SubscriptionManager \<Rightarrow> SubscriptionManager" where
  "dropped_inactive m = m\<lparr>sm_subs := ddel_all (map subscription_uri (filter (\<lambda>st. \<not> sub_active st) (map snd (sm_subs m)))) (sm_subs m)\<rparr>"

definition survivors :: "sub_env \<Rightarrow> (string, string) dict \<Rightarrow> SubscriptionManager \<Rightarrow> SubscriptionManager" where
  "survivors env want m = (snd (gathered (cancel_one env) (after_cancel env want m) (dropped_inactive m)))
     \<lparr>sm_subs := ddel_all (after_cancel env want m) (sm_subs (dropped_inactive m))\<rparr>"

definition to_create :: "sub_env \<Rightarrow> (string, string) dict \<Rightarrow> SubscriptionManager \<Rightarrow> (string \<times> string) list" where
  "to_create env want m = map (\<lambda>r. (r, the (map_of want r))) (iter_set (sv_order env) (create_of (old_table m) want))"

lemma reconcile_split:
  assumes "wf_subs m" "distinct (map fst desired)" "reconcile env h desired False m = (res, m')"
  obtains outs where "gathered (\<lambda>(r, t). subscribe env h r t) (to_create env desired m) (survivors env desired m) = (outs, m')"
    "created_n res = length (filter (\<lambda>x. x \<noteq> None) outs)" "create_errors_n res = length (filter (\<lambda>x. x = None) outs)"
proof -
  obtain outs m3 where "gathered (\<lambda>(r, t). subscribe env h r t) (to_create env desired m) (survivors env desired m) = (outs, m3)"
    by fastforce
  then show ?thesis
    using assms(3) that
    unfolding reconcile_def collected_table [OF assms(1)] dict_of_distinct [OF assms(2)] Let_def prod.case
      cancel_stale_def create_missing_def old_table_def [symmetric] dropped_inactive_def [symmetric] after_cancel_def [symmetric]
    by (auto simp: case_prod_beta survivors_def to_create_def cancelled_frame)
qed

lemma survivors_lookup:
  assumes "wf_subs m" "distinct (map fst desired)"
  shows "map_of (sm_subs (survivors env desired m)) x = Some st \<longleftrightarrow>
    map_of (sm_subs m) x = Some st \<and> sub_active st \<and> subscribed_resource st \<in> keep_of (old_table m) desired"
  using cancelled_table [OF assms dropped_inactive_def, of env] by (simp add: survivors_def)

lemma survivors_pairs:
  assumes "wf_subs m" "distinct (map fst desired)"
  shows "pairs_of (survivors env desired m) = set desired \<inter> pairs_of m"
  unfolding kept_pairs [OF assms, symmetric] unfolding pairs_of_def survivors_lookup [OF assms] by (auto 0 3)

lemma survivors_frame:
  "sm_tick m \<le> sm_tick (survivors env desired m)"
  "posted_resources (sm_trace (survivors env desired m)) = posted_resources (sm_trace m)"
  "wf_dict (sm_subs m) \<Longrightarrow> wf_dict (sm_subs (survivors env desired m))"
  using cancelled_frame [of env "after_cancel env desired m" "dropped_inactive m"]
  by (simp_all add: survivors_def dropped_inactive_def)

lemma survivors_accepting:
  assumes "wf_subs m" "distinct (map fst desired)" "accepting env loc m"
  shows "accepting env loc (survivors env desired m)"
  unfolding accepting_def
proof (intro conjI allI impI)
  fix t assume "sm_tick (survivors env desired m) \<le> t"
  then have "map_of (sm_subs m) (loc t) = None"
    using assms(3) survivors_frame(1) [of m env desired] by (auto simp: accepting_def)
  then show "map_of (sm_subs (survivors env desired m)) (loc t) = None"
    using survivors_lookup [OF assms(1,2), of env "loc t"] by (metis not_Some_eq)
qed (use assms(3) in \<open>auto simp: accepting_def\<close>)

lemma keep_iff:
  assumes "wf_subs m" "distinct (map fst desired)" "(r, t) \<in> set desired"
  shows "r \<in> keep_of (old_table m) desired \<longleftrightarrow> (r, t) \<in> pairs_of m"
  unfolding keep_pairs [OF assms(1,2)] in_fst_image
  using assms(3) map_of_eq_Some_iff [OF assms(2), of r] by (metis IntD1 IntD2 IntI option.inject)

lemma to_create_set:
  assumes "wf_subs m" "distinct (map fst desired)"
  shows "set (to_create env desired m) = set desired - pairs_of m" "distinct (map fst (to_create env desired m))"
proof -
  have fin: "finite (create_of (old_table m) desired)" by (simp add: create_of_def)
  show "set (to_create env desired m) = set desired - pairs_of m"
  proof (rule set_eqI)
    fix p :: "string \<times> string"
    obtain r t where p: "p = (r, t)" by fastforce
    have "p \<in> set (to_create env desired m) \<longleftrightarrow> r \<in> fst ` set desired \<and> r \<notin> keep_of (old_table m) desired \<and> t = the (map_of desired r)"
      unfolding p to_create_def set_map set_iter_set [OF fin] by (auto simp: create_of_def)
    also have "\<dots> \<longleftrightarrow> (r, t) \<in> set desired \<and> r \<notin> keep_of (old_table m) desired"
      unfolding in_fst_image map_of_eq_Some_iff [OF assms(2), symmetric] by auto
    also have "\<dots> \<longleftrightarrow> p \<in> set desired - pairs_of m" using keep_iff [OF assms, of r t] p by auto
    finally show "p \<in> set (to_create env desired m) \<longleftrightarrow> p \<in> set desired - pairs_of m" .
  qed
  show "distinct (map fst (to_create env desired m))" by (simp add: to_create_def comp_def)
qed

lemma to_create_disjoint:
  assumes "wf_subs m" "distinct (map fst desired)"
  shows "fst ` set (to_create env desired m) \<inter> fst ` pairs_of (survivors env desired m) = {}"
proof -
  have False if "(r, t) \<in> set (to_create env desired m)" "(r, t') \<in> pairs_of (survivors env desired m)" for r t t'
    using that map_of_eq_Some_iff [OF assms(2), of r t] map_of_eq_Some_iff [OF assms(2), of r t']
    unfolding to_create_set [OF assms] survivors_pairs [OF assms] by auto
  then show ?thesis by (auto simp: in_fst_image)
qed

lemma kept_survives:
  assumes "wf_subs m" "distinct (map fst desired)" "st \<in> set (active_subscriptions m)"
    "(subscribed_resource st, resource_type st) \<in> set desired"
  shows "map_of (sm_subs (survivors env desired m)) (subscription_uri st) = Some st"
proof -
  have k: "keyed m" using assms(1) by (simp add: wf_subs_def)
  then have "(subscribed_resource st, resource_type st) \<in> pairs_of m" using assms(3) by (auto simp: pairs_active)
  then have "subscribed_resource st \<in> keep_of (old_table m) desired" using keep_iff [OF assms(1,2,4)] by simp
  moreover have "sub_active st" "map_of (sm_subs m) (subscription_uri st) = Some st"
    using assms(3) active_subscriptions_iff [OF k] by auto
  ultimately show ?thesis using survivors_lookup [OF assms(1,2)] by blast
qed

text \<open>
  C20. With a server that accepts every subscription under a Location of its own, reconciling without
  renewal leaves exactly the desired resources subscribed, each with the desired type; those
  already subscribed that way stay the very entries they were and nothing is posted for them, and
  exactly one subscription is posted for each of the others. No errors are counted.
\<close>

theorem reconcile_reaches_desired:
  assumes "wf_subs m" "accepting env loc m" "distinct (map fst desired)"
    "reconcile env h desired False m = (res, m')"
  shows "(\<lambda>st. (subscribed_resource st, resource_type st)) ` set (active_subscriptions m') = set desired \<and>
    {st \<in> set (active_subscriptions m). (subscribed_resource st, resource_type st) \<in> set desired} \<subseteq> set (active_subscriptions m') \<and>
    (\<exists>rs. posted_resources (sm_trace m') = posted_resources (sm_trace m) @ rs \<and> distinct rs \<and>
       set rs = fst ` (set desired - pairs_of m) \<and> created_n res = length rs) \<and> create_errors_n res = 0"
proof -
  let ?cr = "to_create env desired m" and ?m2 = "survivors env desired m"
  obtain outs where g: "gathered (\<lambda>(r, t). subscribe env h r t) ?cr ?m2 = (outs, m')"
    "created_n res = length (filter (\<lambda>x. x \<noteq> None) outs)" "create_errors_n res = length (filter (\<lambda>x. x = None) outs)"
    using reconcile_split [OF assms(1,3,4)] .
  have "wf_dict (sm_subs m)" using assms(1) by (simp add: wf_subs_def keyed_def)
  then have c: "pairs_of m' = pairs_of ?m2 \<union> set ?cr" "None \<notin> set outs" "length outs = length ?cr"
    "\<And>k st. map_of (sm_subs ?m2) k = Some st \<Longrightarrow> map_of (sm_subs m') k = Some st"
    "posted_resources (sm_trace m') = posted_resources (sm_trace m) @ map fst ?cr"
    using created_all [OF survivors_accepting [OF assms(1,3,2)] survivors_frame(3) to_create_set(2) [OF assms(1,3)]
        to_create_disjoint [OF assms(1,3)] g(1)] survivors_frame(2) [of env desired m] by auto
  have k': "keyed m'"
    using table.reconcile_keeps [OF assms(1), of env h desired False] assms by (simp add: subs_kept_def wf_subs_def)
  have p: "pairs_of m' = set desired" using c(1) to_create_set(1) [OF assms(1,3)] survivors_pairs [OF assms(1,3)] by auto
  have kept: "st \<in> set (active_subscriptions m')"
    if "st \<in> set (active_subscriptions m)" "(subscribed_resource st, resource_type st) \<in> set desired" for st
    using c(4) [OF kept_survives [OF assms(1,3) that]] that(1) active_subscriptions_iff [OF k']
    by (auto simp: active_subscriptions_def)
  have "x \<noteq> None" if "x \<in> set outs" for x using c(2) that by metis
  then have "filter (\<lambda>x. x \<noteq> None) outs = outs" "filter (\<lambda>x. x = None) outs = []"
    by (auto intro: filter_True filter_False)
  then have "created_n res = length (map fst ?cr)" "create_errors_n res = 0" using g(2,3) c(3) by simp_all
  then show ?thesis
    using p kept c(5) to_create_set [OF assms(1,3)] unfolding pairs_active [OF k', symmetric]
    by (intro conjI subsetI exI [of _ "map fst ?cr"]) simp_all
qed

section \<open>A manager for the witnesses\<close>

definition ex_sub_env :: sub_env where
  "ex_sub_env =
     \<lparr>sv_post = (\<lambda>t _ _. Created (Some (''/sub/'' @ replicate t (CHR ''i'')))), sv_put = (\<lambda>_ _ _. PutDone), sv_delete = (\<lambda>_ _. True),
      sv_list = (\<lambda>_ _. Some [[\<lparr>se_href = Some ''/s/2'', se_subscribed = Some ''/edev''\<rparr>,
                             \<lparr>se_href = Some ''/s/3'', se_subscribed = Some ''/derp/1/derc''\<rparr>]]),
      sv_time = (\<lambda>t. of_nat t), sv_order = sorted_list_of_set\<rparr>"

definition ex_sub :: "string \<Rightarrow> string \<Rightarrow> string \<Rightarrow> SubscriptionState" where
  "ex_sub u r t = new_state u r ''https://me/notify'' t 0 False (Some ''/sub'')"

definition ex_manager :: SubscriptionManager where
  "ex_manager = (new_manager ''https://me/notify'' 10 False True RenewPost)
     \<lparr>sm_subs := [(''/s/1'', ex_sub ''/s/1'' ''/edev'' ''EndDeviceList''), (''/s/2'', ex_sub ''/s/2'' ''/derp/1/derc'' ''DERControlList'')]\<rparr>"

lemma wf_ex_manager: "wf_subs ex_manager"
  by (auto simp: wf_subs_def keyed_def one_active_def ex_manager_def new_manager_def ex_sub_def wf_dict_def split: if_splits)

lemma accepting_ex: "accepting ex_sub_env (\<lambda>t. ''/sub/'' @ replicate t (CHR ''i'')) ex_manager"
  by (auto simp: accepting_def ex_sub_env_def ex_manager_def new_manager_def inj_def)

theorem reconcile_reaches_desired_witness:
  "(\<lambda>st. (subscribed_resource st, resource_type st)) ` set (active_subscriptions
     (snd (reconcile ex_sub_env ''/sub'' [(''/edev'', ''EndDeviceList''), (''/fsa'', ''FSAList'')] False ex_manager)))
   = {(''/edev'', ''EndDeviceList''), (''/fsa'', ''FSAList'')}"
  using reconcile_reaches_desired [OF wf_ex_manager accepting_ex, of "[(''/edev'', ''EndDeviceList''), (''/fsa'', ''FSAList'')]", OF _ prod.collapse [symmetric]]
  by simp

section \<open>Checkpoints\<close>

text \<open>
  C40. Saving the subscriptions in a checkpoint and restoring them gives back every subscription with
  every field, in order, except that it is no longer known to be of a list. Before, every
  notification of a list subscription was processed; after the restart only those that name the
  list itself are, and one that names another resource, such as a member of the list, is ignored.
\<close>

theorem checkpoint_forgets_lists:
  assumes "keyed m" "map_of (sm_subs m) uri = Some st" "is_list_subscription st"
  shows "sm_subs (restore_from_checkpoint (to_checkpoint m) m0) = map (\<lambda>(k, st). (k, st\<lparr>is_list_subscription := False\<rparr>)) (sm_subs m) \<and>
    should_process_notification m uri href \<and>
    (should_process_notification (restore_from_checkpoint (to_checkpoint m) m0) uri href \<longleftrightarrow> href = subscribed_resource st)"
proof -
  have "map_of (map (\<lambda>(k, st). (k, st\<lparr>is_list_subscription := False\<rparr>)) (sm_subs m)) uri = Some (st\<lparr>is_list_subscription := False\<rparr>)"
    using assms(2) by (simp add: map_of_map)
  then show ?thesis using assms restored_table [OF assms(1), of m0] by (simp add: should_process_notification_def)
qed

theorem checkpoint_forgets_lists_witness:
  "should_process_notification ex_manager ''/s/1'' ''/edev/1'' \<and>
   \<not> should_process_notification (restore_from_checkpoint (to_checkpoint ex_manager) ex_manager) ''/s/1'' ''/edev/1'' \<and>
   should_process_notification (restore_from_checkpoint (to_checkpoint ex_manager) ex_manager) ''/s/1'' ''/edev''"
proof -
  have k: "keyed ex_manager" using wf_ex_manager by (simp add: wf_subs_def)
  have "map_of (sm_subs ex_manager) ''/s/1'' = Some (ex_sub ''/s/1'' ''/edev'' ''EndDeviceList'')"
    "is_list_subscription (ex_sub ''/s/1'' ''/edev'' ''EndDeviceList'')" by code_simp+
  note r = checkpoint_forgets_lists [OF k this, of ex_manager, THEN conjunct2]
  have "subscribed_resource (ex_sub ''/s/1'' ''/edev'' ''EndDeviceList'') = ''/edev''" by code_simp
  then show ?thesis using r [of "''/edev/1''"] r [of "''/edev''"] by simp
qed

section \<open>Renumbered subscriptions\<close>

text \<open>
  When the server has renumbered its subscriptions so that the first of two local subscriptions
  now has the URI the second had, adopting the server's URIs drops the first: adopting the second
  removes the entry just filed under its old URI. The server still lists the resource, and no
  entry for it is left.
\<close>

theorem renumbering_loses_subscription:
  assumes "sm_subs m = [(u1, a), (u2, b)]" "subscription_uri a = u1" "subscription_uri b = u2" "sub_active a" "sub_active b"
    "\<not> unmanaged a" "\<not> unmanaged b" "subscribed_resource a = ra" "subscribed_resource b = rb" "ra \<noteq> rb" "ra \<noteq> []" "rb \<noteq> []"
    "sv_list env (sm_tick m) h = Some [[\<lparr>se_href = Some u2, se_subscribed = Some ra\<rparr>, \<lparr>se_href = Some u3, se_subscribed = Some rb\<rparr>]]"
    "u1 \<noteq> u2" "u3 \<noteq> u2" "u2 \<noteq> []" "u3 \<noteq> []"
  shows "ra \<in> listed (the (sv_list env (sm_tick m) h)) \<and>
    find_active_for_resource (snd (reconcile_with_server env h reestablish m)) ra = None"
proof -
  let ?pages = "[[\<lparr>se_href = Some u2, se_subscribed = Some ra\<rparr>, \<lparr>se_href = Some u3, se_subscribed = Some rb\<rparr>]]"
  have l: "listed ?pages = {ra, rb}" using assms(11,12) by (auto simp: listed_def)
  obtain c cs d ds e es f fs where "ra = c # cs" "rb = d # ds" "u2 = e # es" "u3 = f # fs"
    using assms(11,12,16,17) by (metis neq_Nil_conv)
  then have lu: "listed_uri ?pages = [(ra, u2), (rb, u3)]" using assms(10) by (simp add: listed_uri_def dset_def)
  have act: "active_subscriptions (request (SubListed h) m) = [a, b]" using assms(1,4,5) by (simp add: active_subscriptions_def)
  have "sm_subs (snd (reconcile_with_server env h reestablish m)) = [(u3, b\<lparr>subscription_uri := u3\<rparr>)]"
    unfolding reconcile_with_server_def Let_def assms(13) option.case act
    using assms by (simp add: reconcile_entry_def l lu) (simp add: dset_def ddel_def)
  then show ?thesis using assms(8-10,13) l by (simp add: find_active_for_resource_def)
qed

theorem renumbering_loses_subscription_witness:
  "find_active_for_resource ex_manager ''/edev'' \<noteq> None \<and>
   find_active_for_resource (snd (reconcile_with_server ex_sub_env ''/sub'' False ex_manager)) ''/edev'' = None"
proof -
  let ?a = "ex_sub ''/s/1'' ''/edev'' ''EndDeviceList''" and ?b = "ex_sub ''/s/2'' ''/derp/1/derc'' ''DERControlList''"
  have "sm_subs ex_manager = [(''/s/1'', ?a), (''/s/2'', ?b)]" by (simp add: ex_manager_def)
  from renumbering_loses_subscription [OF this, of "''/edev''" "''/derp/1/derc''" ex_sub_env "''/sub''" "''/s/3''"]
  have "find_active_for_resource (snd (reconcile_with_server ex_sub_env ''/sub'' False ex_manager)) ''/edev'' = None"
    by (simp add: ex_sub_def ex_sub_env_def) (simp add: new_state_def)
  moreover have "find_active_for_resource ex_manager ''/edev'' \<noteq> None" by code_simp
  ultimately show ?thesis by blast
qed

end
