(* ===== verification/Connectivity.thy ===== *)
theory Connectivity
  imports Py_Numbers Py_Prelude
begin

text \<open>
  Connectivity health of the HTTP client (\<open>client/http.py\<close>) and the operator-triggered outage
  (\<open>client/comm_loss_simulation.py\<close>): what each request outcome does to the record of contact,
  whether a silence is attributed to a simulation, and the gate that fails requests while a window
  is open, with the count of requests in flight.
\<close>

section \<open>Chains of exceptions\<close>

text \<open>Exception objects by identity: whether the object is a \<open>SimulatedTransportError\<close>, its
  \<open>__cause__\<close> and its \<open>__context__\<close>.\<close>

record exn_object =
  xo_simulated :: bool
  xo_cause :: "nat option"
  xo_context :: "nat option"

type_synonym exn_heap = "(nat \<times> exn_object) list"

definition next_exn :: "exn_object \<Rightarrow> nat option" where
  "next_exn x = (case xo_cause x of Some c \<Rightarrow> Some c | None \<Rightarrow> xo_context x)"

function chain_simulated :: "exn_heap \<Rightarrow> nat set \<Rightarrow> nat option \<Rightarrow> bool" where
  "chain_simulated h seen current =
     (case current of
        None \<Rightarrow> False
      | Some i \<Rightarrow>
          (if i \<in> seen then False
           else case map_of h i of
                  None \<Rightarrow> False
                | Some x \<Rightarrow> if xo_simulated x then True else chain_simulated h (insert i seen) (next_exn x)))"
  by pat_completeness auto
termination
proof (relation "measure (\<lambda>(h, seen, _). card (fst ` set h - seen))")
  fix h :: exn_heap and seen current i x
  assume "i \<notin> seen" "map_of h i = Some x"
  then have "fst ` set h - insert i seen \<subset> fst ` set h - seen"
    by (force dest: map_of_SomeD)
  then show "((h, insert i seen, next_exn x), (h, seen, current)) \<in> measure (\<lambda>(h, seen, _). card (fst ` set h - seen))"
    by (simp add: psubset_card_mono)
qed simp

declare chain_simulated.simps [simp del]

definition is_simulated_failure :: "exn_heap \<Rightarrow> nat option \<Rightarrow> bool" where
  "is_simulated_failure h error = chain_simulated h {} error"

section \<open>The record of contact\<close>

record health =
  server_alive :: bool
  last_error :: "string option"
  last_contact_epoch :: "int option"
  last_validated_epoch :: "int option"
  consecutive_failures :: nat
  silence_simulated :: "bool option"
  chain_validated :: bool

definition new_health :: health where
  "new_health = \<lparr>server_alive = True, last_error = None, last_contact_epoch = None, last_validated_epoch = None,
     consecutive_failures = 0, silence_simulated = None, chain_validated = False\<rparr>"

text \<open>\<open>_record_contact(reachable=False, error=...)\<close>, by whether the error was injected.\<close>

definition record_failure :: "bool \<Rightarrow> health \<Rightarrow> health" where
  "record_failure injected s =
     s\<lparr>silence_simulated := (case silence_simulated s of
          None \<Rightarrow> Some injected | Some b \<Rightarrow> if \<not> injected then Some False else Some b),
       server_alive := False, consecutive_failures := Suc (consecutive_failures s)\<rparr>"

text \<open>\<open>_record_contact(reachable=True)\<close> at the wall-clock time \<open>now\<close>.\<close>

definition record_reached :: "rat \<Rightarrow> health \<Rightarrow> health" where
  "record_reached now s =
     s\<lparr>last_contact_epoch := Some (py_int now), consecutive_failures := 0, server_alive := True,
       last_validated_epoch := Some (py_int now), silence_simulated := None\<rparr>"

text \<open>How a request ends, as the handlers tell it apart: a result, an answer the server gave
  (\<open>Sep2ProtocolError\<close>, 429, 301), an unusable body, no content, a failure of the certificate chain,
  of TLS or of the transport with its exception object, a bad URL, or anything else.\<close>

datatype request_end =
    Returned
  | Answered string
  | BadPayload string
  | NoContent
  | ChainFailed string nat
  | TlsFailed string nat
  | TransportFailed string nat
  | BadUrl string
  | OtherEnd string

text \<open>The recording of one attempt of a GET (\<open>_do_get\<close>); \<open>marked\<close> tells whether \<open>_validate_chain\<close> marked
  the session as validated.\<close>

definition after_get :: "exn_heap \<Rightarrow> rat \<Rightarrow> bool \<Rightarrow> request_end \<Rightarrow> health \<Rightarrow> health" where
  "after_get h now marked e s =
     (case e of
        Returned \<Rightarrow> (record_reached now (s\<lparr>chain_validated := chain_validated s \<or> marked\<rparr>))\<lparr>last_error := None\<rparr>
      | NoContent \<Rightarrow> (record_reached now (s\<lparr>chain_validated := chain_validated s \<or> marked\<rparr>))\<lparr>last_error := None\<rparr>
      | BadPayload t \<Rightarrow> (record_reached now (s\<lparr>chain_validated := chain_validated s \<or> marked\<rparr>))\<lparr>last_error := Some t\<rparr>
      | Answered t \<Rightarrow> (record_reached now s)\<lparr>last_error := None\<rparr>
      | ChainFailed t x \<Rightarrow> (record_failure (is_simulated_failure h (Some x)) s)\<lparr>chain_validated := False, last_error := Some t\<rparr>
      | TlsFailed t x \<Rightarrow> (record_failure (is_simulated_failure h (Some x)) s)\<lparr>chain_validated := False, last_error := Some t\<rparr>
      | TransportFailed t x \<Rightarrow> (record_failure (is_simulated_failure h (Some x)) s)\<lparr>chain_validated := False, last_error := Some t\<rparr>
      | BadUrl t \<Rightarrow> s
      | OtherEnd t \<Rightarrow> s)"

text \<open>\<open>_send_tracked\<close>: one recording per logical request of the other methods.\<close>

definition after_send :: "exn_heap \<Rightarrow> rat \<Rightarrow> request_end \<Rightarrow> health \<Rightarrow> health" where
  "after_send h now e s =
     (case e of
        Returned \<Rightarrow> (record_reached now s)\<lparr>last_error := None\<rparr>
      | Answered t \<Rightarrow> (record_reached now s)\<lparr>last_error := None\<rparr>
      | BadPayload t \<Rightarrow> (record_reached now s)\<lparr>last_error := None\<rparr>
      | NoContent \<Rightarrow> (record_reached now s)\<lparr>last_error := None\<rparr>
      | TlsFailed t x \<Rightarrow> (record_failure (is_simulated_failure h (Some x)) s)\<lparr>last_error := Some t\<rparr>
      | TransportFailed t x \<Rightarrow> (record_failure (is_simulated_failure h (Some x)) s)\<lparr>last_error := Some t\<rparr>
      | _ \<Rightarrow> s)"

definition reset_session :: "health \<Rightarrow> health" where
  "reset_session s =
     s\<lparr>chain_validated := False, server_alive := False, last_error := None, last_contact_epoch := None,
       last_validated_epoch := None, consecutive_failures := 0\<rparr>"

section \<open>The simulated outage\<close>

datatype sim_phase = PHASE_INACTIVE | PHASE_ACTIVE | PHASE_RECOVERING | PHASE_RECOVERED | PHASE_RECOVERY_FAILED

record CommLossSimulation =
  sim_active :: bool
  sim_started :: "rat option"
  sim_expires :: "rat option"
  sim_phase :: sim_phase
  sim_detail :: "string option"
  sim_in_flight :: int
  sim_idle :: bool

definition new_simulation :: CommLossSimulation where
  "new_simulation = \<lparr>sim_active = False, sim_started = None, sim_expires = None, sim_phase = PHASE_INACTIVE,
     sim_detail = None, sim_in_flight = 0, sim_idle = True\<rparr>"

definition arm :: "rat \<Rightarrow> rat \<Rightarrow> CommLossSimulation \<Rightarrow> CommLossSimulation" where
  "arm now expires s = s\<lparr>sim_active := True, sim_started := Some now, sim_expires := Some expires,
     sim_phase := PHASE_ACTIVE, sim_detail := None\<rparr>"

definition disarm :: "CommLossSimulation \<Rightarrow> CommLossSimulation" where
  "disarm s = s\<lparr>sim_active := False, sim_expires := None, sim_phase := PHASE_RECOVERING, sim_detail := None\<rparr>"

definition abort :: "CommLossSimulation \<Rightarrow> CommLossSimulation" where
  "abort s = s\<lparr>sim_active := False, sim_started := None, sim_expires := None, sim_phase := PHASE_INACTIVE, sim_detail := None\<rparr>"

definition note_recovered :: "CommLossSimulation \<Rightarrow> CommLossSimulation" where
  "note_recovered s = s\<lparr>sim_phase := PHASE_RECOVERED, sim_started := None, sim_detail := None\<rparr>"

definition note_recovery_failed :: "string \<Rightarrow> CommLossSimulation \<Rightarrow> CommLossSimulation" where
  "note_recovery_failed detail s = s\<lparr>sim_phase := PHASE_RECOVERY_FAILED, sim_detail := Some detail\<rparr>"

definition note_request_started :: "CommLossSimulation \<Rightarrow> CommLossSimulation" where
  "note_request_started s = s\<lparr>sim_in_flight := sim_in_flight s + 1, sim_idle := False\<rparr>"

definition note_request_finished :: "CommLossSimulation \<Rightarrow> CommLossSimulation" where
  "note_request_finished s =
     (let n = sim_in_flight s - 1 in if n \<le> 0 then s\<lparr>sim_in_flight := 0, sim_idle := True\<rparr> else s\<lparr>sim_in_flight := n\<rparr>)"

text \<open>
  Requests going through \<open>GatedSession\<close>: entering a request context fails while the gate is armed
  and otherwise counts the request; the count is released once, when the inner context fails to open
  or when the context is left. The second component is the set of requests talking to the server.
\<close>

inductive gate_step :: "CommLossSimulation \<times> nat set \<Rightarrow> CommLossSimulation \<times> nat set \<Rightarrow> bool" where
  enter: "\<not> sim_active s \<Longrightarrow> i \<notin> reqs \<Longrightarrow> gate_step (s, reqs) (note_request_started s, insert i reqs)"
| refused: "sim_active s \<Longrightarrow> gate_step (s, reqs) (s, reqs)"
| leave: "i \<in> reqs \<Longrightarrow> gate_step (s, reqs) (note_request_finished s, reqs - {i})"
| armed: "gate_step (s, reqs) (arm now expires s, reqs)"
| recovered: "gate_step (s, reqs) (note_recovered s, reqs)"
| recovery_failed: "gate_step (s, reqs) (note_recovery_failed detail s, reqs)"

inductive reopen_step :: "CommLossSimulation \<times> nat set \<Rightarrow> CommLossSimulation \<times> nat set \<Rightarrow> bool" where
  disarmed: "reopen_step (s, reqs) (disarm s, reqs)"
| aborted: "reopen_step (s, reqs) (abort s, reqs)"

section \<open>Properties\<close>

subsection \<open>Which failures count as simulated\<close>

fun follow :: "exn_heap \<Rightarrow> nat \<Rightarrow> nat \<Rightarrow> nat option" where
  "follow h 0 i = Some i"
| "follow h (Suc n) i =
     (case map_of h i of None \<Rightarrow> None | Some x \<Rightarrow> (case next_exn x of None \<Rightarrow> None | Some j \<Rightarrow> follow h n j))"

definition injected_at :: "exn_heap \<Rightarrow> nat \<Rightarrow> bool" where
  "injected_at h i \<longleftrightarrow> (\<exists>x. map_of h i = Some x \<and> xo_simulated x)"

lemma follow_add: "follow h (m + n) i = (case follow h m i of None \<Rightarrow> None | Some k \<Rightarrow> follow h n k)"
  by (induction m arbitrary: i) (auto split: option.splits)

lemma chain_sound: "chain_simulated h seen cur \<Longrightarrow> \<exists>i n j. cur = Some i \<and> follow h n i = Some j \<and> injected_at h j"
proof (induction h seen cur rule: chain_simulated.induct)
  case (1 h seen cur)
  then obtain i x where cur: "cur = Some i" "i \<notin> seen" "map_of h i = Some x"
    by (subst (asm) chain_simulated.simps) (auto split: option.splits if_splits)
  show ?case
  proof (cases "xo_simulated x")
    case True
    then have "follow h 0 i = Some i" "injected_at h i" using cur by (auto simp: injected_at_def)
    then show ?thesis using cur(1) by blast
  next
    case False
    then have "chain_simulated h (insert i seen) (next_exn x)"
      using "1.prems" cur by (subst (asm) chain_simulated.simps) simp
    then obtain k n j where "next_exn x = Some k" "follow h n k = Some j" "injected_at h j"
      using "1.IH" [OF cur False] by blast
    then have "follow h (Suc n) i = Some j" using cur by simp
    then show ?thesis using cur(1) \<open>injected_at h j\<close> by blast
  qed
qed

lemma chain_complete:
  assumes "follow h n i = Some j" "injected_at h j" "j \<notin> seen"
    "\<And>m k. m < n \<Longrightarrow> follow h m i = Some k \<Longrightarrow> k \<notin> seen \<and> \<not> injected_at h k"
    "\<And>m l k. m < l \<Longrightarrow> l \<le> n \<Longrightarrow> follow h m i = Some k \<Longrightarrow> follow h l i \<noteq> Some k"
  shows "chain_simulated h seen (Some i)"
  using assms
proof (induction n arbitrary: i seen)
  case 0
  then show ?case by (subst chain_simulated.simps) (auto simp: injected_at_def)
next
  case (Suc n)
  have i: "i \<notin> seen" "\<not> injected_at h i" using Suc.prems(4) [of 0 i] by simp_all
  obtain x k where x: "map_of h i = Some x" "next_exn x = Some k" "follow h n k = Some j"
    using Suc.prems(1) by (auto split: option.splits)
  have step: "follow h (Suc m) i = follow h m k" for m using x by simp
  have ne: "follow h m k \<noteq> Some i" if "m \<le> n" for m
    using Suc.prems(5) [of 0 "Suc m" i] that step [of m] by simp
  have "chain_simulated h (insert i seen) (Some k)"
  proof (rule Suc.IH [OF x(3) Suc.prems(2)])
    show "j \<notin> insert i seen" using Suc.prems(3) ne [of n] x(3) by auto
    show "k' \<notin> insert i seen \<and> \<not> injected_at h k'" if "m < n" "follow h m k = Some k'" for m k'
      using Suc.prems(4) [of "Suc m" k'] that step [of m] ne [of m] by auto
    show "follow h l k \<noteq> Some k'" if "m < l" "l \<le> n" "follow h m k = Some k'" for m l k'
      using Suc.prems(5) [of "Suc m" "Suc l" k'] that step by simp
  qed
  then show ?case using i x by (subst chain_simulated.simps) (auto simp: injected_at_def)
qed

lemma simulated_failure_iff: "is_simulated_failure h (Some i) \<longleftrightarrow> (\<exists>n j. follow h n i = Some j \<and> injected_at h j)"
proof
  assume "\<exists>n j. follow h n i = Some j \<and> injected_at h j"
  then obtain n where n: "\<exists>j. follow h n i = Some j \<and> injected_at h j"
    and least: "\<And>m. m < n \<Longrightarrow> \<not> (\<exists>j. follow h m i = Some j \<and> injected_at h j)"
    using exists_least_iff [of "\<lambda>n. \<exists>j. follow h n i = Some j \<and> injected_at h j"] by auto
  then obtain j where j: "follow h n i = Some j" "injected_at h j" by blast
  have "follow h l i \<noteq> Some k" if "m < l" "l \<le> n" "follow h m i = Some k" for m l k
  proof
    assume "follow h l i = Some k"
    then have "follow h (m + (n - l)) i = Some j"
      using that j(1) follow_add [of h l "n - l" i] follow_add [of h m "n - l" i] by simp
    moreover have "m + (n - l) < n" using that by arith
    ultimately show False using least [of "m + (n - l)"] j(2) by blast
  qed
  then show "is_simulated_failure h (Some i)"
    unfolding is_simulated_failure_def using j least by (intro chain_complete [of h n i j]) blast+
next
  assume "is_simulated_failure h (Some i)"
  then show "\<exists>n j. follow h n i = Some j \<and> injected_at h j"
    using chain_sound [of h "{}" "Some i"] by (simp add: is_simulated_failure_def)
qed

subsection \<open>Attribution of a silence\<close>

datatype contact = Reached rat | Unreached bool

definition note_contact :: "contact \<Rightarrow> health \<Rightarrow> health" where
  "note_contact c s = (case c of Reached now \<Rightarrow> record_reached now s | Unreached injected \<Rightarrow> record_failure injected s)"

text \<open>The failures since the last contact, the latest first.\<close>

definition silence :: "contact list \<Rightarrow> bool list" where
  "silence cs = List.map_filter (\<lambda>c. case c of Unreached b \<Rightarrow> Some b | _ \<Rightarrow> None)
     (takeWhile (\<lambda>c. case c of Unreached _ \<Rightarrow> True | _ \<Rightarrow> False) (rev cs))"

lemma silence_snoc [simp]: "silence (cs @ [Reached t]) = []" "silence (cs @ [Unreached b]) = b # silence cs" "silence [] = []"
  by (simp_all add: silence_def List.map_filter_def)

text \<open>
  C35. After any sequence of request outcomes since the start, with no \<open>reset_session\<close> in between, the
  record of contact is a function of the sequence: the failure count is the number of failures since the last contact, the server
  counts as alive exactly when no failure has come since the last contact, and a silence is attributed to the
  simulation exactly when there is one and every failure in it was injected.
\<close>

theorem silence_attribution:
  "consecutive_failures (fold note_contact cs new_health) = length (silence cs) \<and>
   silence_simulated (fold note_contact cs new_health) = (if silence cs = [] then None else Some (list_all id (silence cs))) \<and>
   server_alive (fold note_contact cs new_health) = (silence cs = []) \<and>
   last_contact_epoch (fold note_contact cs new_health)
     = map_option py_int (find (\<lambda>_. True) (List.map_filter (\<lambda>c. case c of Reached t \<Rightarrow> Some t | _ \<Rightarrow> None) (rev cs)))"
proof (induction cs rule: rev_induct)
  case Nil
  then show ?case by (simp add: new_health_def List.map_filter_def)
next
  case (snoc c cs)
  then show ?case
    by (cases c) (auto simp: note_contact_def record_reached_def record_failure_def List.map_filter_def split: option.splits if_splits)
qed

subsection \<open>A drained window is silent\<close>

definition counted :: "CommLossSimulation \<times> nat set \<Rightarrow> bool" where
  "counted sr \<longleftrightarrow> finite (snd sr) \<and> sim_in_flight (fst sr) = int (card (snd sr)) \<and> sim_idle (fst sr) = (snd sr = {})"

lemma counted_step: "gate_step a b \<or> reopen_step a b \<Longrightarrow> counted a \<Longrightarrow> counted b"
proof (elim disjE)
  assume "gate_step a b" "counted a"
  then show "counted b"
  proof (induction rule: gate_step.induct)
    case (leave i reqs s)
    then have fin: "finite reqs" and fl: "sim_in_flight s = int (card reqs)" and idle: "\<not> sim_idle s" by (auto simp: counted_def)
    have c: "card reqs > 0" "card (reqs - {i}) = card reqs - 1" using leave.hyps fin by (auto simp: card_gt_0_iff)
    have e: "reqs - {i} = {} \<longleftrightarrow> card reqs - 1 = 0" using c(2) fin card_0_eq [of "reqs - {i}"] by simp
    show ?case
    proof (cases "card reqs = 1")
      case True
      then have "reqs - {i} = {}" using e by simp
      then show ?thesis using fin by (simp add: counted_def note_request_finished_def fl True)
    next
      case False
      then have "reqs - {i} \<noteq> {}" "int (card reqs) - 1 > 0" using e c(1) by auto
      then show ?thesis using fin idle c by (simp add: counted_def note_request_finished_def fl Let_def of_nat_diff)
    qed
  qed (auto simp: counted_def note_request_started_def arm_def note_recovered_def note_recovery_failed_def)
next
  assume "reopen_step a b" "counted a"
  then show "counted b" by (induction rule: reopen_step.induct) (auto simp: counted_def disarm_def abort_def)
qed

lemma counted_run: "(sup gate_step reopen_step)\<^sup>*\<^sup>* a b \<Longrightarrow> counted a \<Longrightarrow> counted b"
  by (induction rule: rtranclp_induct) (use counted_step in \<open>auto simp: sup_fun_def\<close>)

lemma shut_step: "gate_step a b \<Longrightarrow> sim_active (fst a) \<and> snd a = {} \<Longrightarrow> sim_active (fst b) \<and> snd b = {}"
  by (induction rule: gate_step.induct) (auto simp: arm_def note_recovered_def note_recovery_failed_def)

text \<open>
  Once the gate is armed and the drain has completed (the idle event is set), no request talks to
  the server until the window is closed, however requests, retries and further windows interleave,
  and whatever happened before.
\<close>

theorem drained_window_is_silent:
  assumes "(sup gate_step reopen_step)\<^sup>*\<^sup>* (new_simulation, {}) (s, reqs)" "sim_active s" "sim_idle s"
    "gate_step\<^sup>*\<^sup>* (s, reqs) (s', reqs')"
  shows "reqs' = {} \<and> sim_active s' \<and> sim_in_flight s' = 0"
proof -
  have c: "counted (s, reqs)"
    using assms(1) by (rule counted_run) (simp add: counted_def new_simulation_def)
  then have "sim_active (fst (s, reqs)) \<and> snd (s, reqs) = {}" using assms(2,3) by (simp add: counted_def)
  with assms(4) have "sim_active (fst (s', reqs')) \<and> snd (s', reqs') = {}"
    by (induction rule: rtranclp_induct) (auto dest: shut_step)
  moreover have "counted (s', reqs')"
    using assms(4) c by (induction rule: rtranclp_induct) (use counted_step in blast)+
  ultimately show ?thesis by (simp add: counted_def)
qed

theorem drained_window_is_silent_witness:
  "gate_step\<^sup>*\<^sup>* (arm 5 65 new_simulation, {}) (arm 5 65 new_simulation, {}) \<and> sim_in_flight (arm 5 65 new_simulation) = 0"
proof -
  have "(sup gate_step reopen_step)\<^sup>*\<^sup>* (new_simulation, {}) (arm 5 65 new_simulation, {})"
    using gate_step.armed by (intro r_into_rtranclp) (simp add: sup_fun_def)
  moreover have "sim_active (arm 5 65 new_simulation)" "sim_idle (arm 5 65 new_simulation)"
    by (simp_all add: arm_def new_simulation_def)
  moreover have run: "gate_step\<^sup>*\<^sup>* (arm 5 65 new_simulation, {}) (arm 5 65 new_simulation, {})"
    using gate_step.refused [of "arm 5 65 new_simulation" "{}"] calculation(2) by (intro r_into_rtranclp)
  ultimately show ?thesis using drained_window_is_silent by blast
qed

end
