(* ===== verification/Comms_Loss.thy ===== *)
theory Comms_Loss
  imports Connectivity Example_Run
begin

text \<open>
  Loss of communications in the client (\<open>client/csip_client.py\<close>): the probe that enters and leaves
  the mode, recovery, and the resume boundary, on top of the record of contact and of the event
  processor. Clock readings, what the server says about the client's own EndDevice and the
  rediscovery are parameters of a probe; \<open>Client_Behaviour\<close> puts the \<open>trigger_rediscovery\<close> of
  \<open>Client_Driver\<close> in its place.
\<close>

section \<open>State and environment of a probe\<close>

datatype comms_event =
    CommsEntered int bool
  | CommsRecovering int bool
  | CommsCleared int bool "int option"
  | CommsReported string

record comms_client =
  cc_proc :: proc
  cc_health :: health
  cc_entered :: "rat option"
  cc_simulated :: bool
  cc_trail :: "comms_event list"

text \<open>How the in-band reregistration of the own EndDevice goes: no own LFDI, still listed, posted,
  a \<open>Sep2Error\<close> or \<open>ValueError\<close> (logged), or another exception, which ends the recovery.\<close>

datatype reregistration = NoOwnLfdi | StillListed | Reregistered | RegistrationFailed | RegistrationRaised

record probe_env =
  pe_env :: env
  pe_seconds :: int
  pe_wall :: rat
  pe_mono :: rat
  pe_server :: rat
  pe_server_end :: rat
  pe_register :: reregistration
  pe_rediscover :: "proc \<Rightarrow> bool \<times> proc"

definition cc_log :: "comms_event \<Rightarrow> comms_client \<Rightarrow> comms_client" where
  "cc_log e c = c\<lparr>cc_trail := cc_trail c @ [e]\<rparr>"

definition comms_active :: "comms_client \<Rightarrow> bool" where
  "comms_active c = p_comms_active (cc_proc c)"

definition boundary :: "comms_client \<Rightarrow> int option" where
  "boundary c = p_resume_after (cc_proc c)"

section \<open>The probe\<close>

definition client_enter_comms_loss :: "probe_env \<Rightarrow> int \<Rightarrow> comms_client \<Rightarrow> comms_client" where
  "client_enter_comms_loss pe elapsed c =
     (if comms_active c then c
      else let simulated = (silence_simulated (cc_health c) = Some True);
               c1 = cc_log (CommsReported (if simulated then ''comms_loss:entered:simulated'' else ''comms_loss:entered''))
                      (c\<lparr>cc_proc := (cc_proc c)\<lparr>p_comms_active := True\<rparr>\<rparr>);
               c2 = cc_log (CommsEntered elapsed simulated) (c1\<lparr>cc_simulated := simulated, cc_entered := Some (pe_mono pe)\<rparr>)
           in c2\<lparr>cc_proc := enter_comms_loss (pe_env pe) None (cc_proc c2)\<rparr>)"

definition comms_loss_duration :: "probe_env \<Rightarrow> comms_client \<Rightarrow> int" where
  "comms_loss_duration pe c = (case cc_entered c of None \<Rightarrow> 0 | Some t \<Rightarrow> py_int (pe_mono pe - t))"

text \<open>The boundary goes once the server clock, in whole seconds, is past it.\<close>

definition drop_boundary :: "rat \<Rightarrow> proc \<Rightarrow> proc" where
  "drop_boundary server p =
     (case p_resume_after p of
        None \<Rightarrow> p
      | Some b \<Rightarrow> if py_int server > b then p\<lparr>p_resume_after := None\<rparr> else p)"

definition recover_from_comms_loss :: "probe_env \<Rightarrow> comms_client \<Rightarrow> comms_client" where
  "recover_from_comms_loss pe c =
     (let c1 = cc_log (CommsRecovering (comms_loss_duration pe c) (cc_simulated c)) c
      in if pe_register pe = RegistrationRaised then c1
         else case pe_rediscover pe (cc_proc c1) of
                (False, p) \<Rightarrow> c1\<lparr>cc_proc := p\<rparr>
              | (True, p) \<Rightarrow>
                  let c2 = c1\<lparr>cc_proc := drop_boundary (pe_server_end pe) (p\<lparr>p_comms_active := False\<rparr>)\<rparr>;
                      c3 = cc_log (CommsCleared (comms_loss_duration pe c2) (cc_simulated c2) (boundary c2)) c2
                  in c3\<lparr>cc_entered := None\<rparr>)"

definition comms_loss_probe :: "probe_env \<Rightarrow> comms_client \<Rightarrow> comms_client" where
  "comms_loss_probe pe c =
     (let c1 = (if comms_active c then c else c\<lparr>cc_proc := drop_boundary (pe_server pe) (cc_proc c)\<rparr>)
      in case last_contact_epoch (cc_health c1) of
           None \<Rightarrow> c1
         | Some lce \<Rightarrow>
             (let elapsed = py_int (pe_wall pe - of_int lce)
              in if \<not> comms_active c1
                 then if elapsed \<ge> pe_seconds pe then client_enter_comms_loss pe elapsed c1 else c1
                 else if elapsed < pe_seconds pe then recover_from_comms_loss pe c1 else c1))"

section \<open>The processor between probes\<close>

text \<open>Everything the processor does on its own, and the rediscovered state; only the client sets
  the flag of the mode.\<close>

inductive engine_step :: "env \<Rightarrow> proc \<Rightarrow> proc \<Rightarrow> bool" for env where
  EnginePoll: "engine_step env s (process_controls env None prog s)"
| EngineTimer: "\<not> displaced s (tt_record (tm_heap (p_timers s) i)) \<Longrightarrow> engine_step env s (wake_task env i s)"
| EngineRemoved: "engine_step env s (cancel_program env None prog s)"
| EngineShutdown: "engine_step env s (shutdown s)"
| EngineLate: "(a, l) \<in> set (p_late s) \<Longrightarrow> engine_step env s (log_late_dispatch env a l exc s)"
| EngineState: "engine_step env s (s\<lparr>p_state := d\<rparr>)"
| EngineTime: "engine_step env s (s\<lparr>p_tick := Suc (p_tick s)\<rparr>)"

definition keeps_gate :: "proc \<Rightarrow> proc \<Rightarrow> bool" where
  "keeps_gate s s' \<longleftrightarrow> wf_kept s s' \<and> p_comms_active s' = p_comms_active s \<and> boundary_le (p_resume_after s) (p_resume_after s')"

lemma gate_frames [simp]:
  "p_comms_active (emit e s) = p_comms_active s" "p_resume_after (shutdown s) = p_resume_after s"
  "p_comms_active (shutdown s) = p_comms_active s"
  by (simp_all add: emit_def shutdown_def)

lemma gate_post_one: "p_comms_active (post_one env d c l s) = p_comms_active s" "p_resume_after (post_one env d c l s) = p_resume_after s"
  by (auto simp: post_one_def Let_def case_prod_beta await_point_def shutdown_def emit_def split: option.splits)

interpretation kg: event_steps keeps_gate env for env
proof unfold_locales
  fix s t u
  show "keeps_gate s t \<Longrightarrow> keeps_gate t u \<Longrightarrow> keeps_gate s u"
    by (auto simp: keeps_gate_def wf_kept_def intro: boundary_le_trans)
  show "keeps_gate s (post_one env d c l s)" for d c l
    by (simp add: keeps_gate_def wf_same_store gate_post_one)
  show "keeps_identity f \<Longrightarrow> keeps_gate s (upd_rec a f s)" for f a
    using wf_upd by (simp add: keeps_gate_def upd_rec_def)
  show "keeps_gate s (upd_rec a (\<lambda>r. r\<lparr>ev_state := st\<rparr>) s)" for a st
    using wf_move by (simp add: keeps_gate_def upd_rec_def)
  show "keeps_gate s (snd (store_new r s))" for r
    using wf_store_new by (simp add: keeps_gate_def store_new_def case_prod_beta)
  show "keeps_gate s (s\<lparr>p_store := snd (prune_expired now g (p_store s))\<rparr>)" for now g
    using wf_prune_proc by (simp add: keeps_gate_def)
qed (auto simp: keeps_gate_def wf_kept_def same_core_def)

lemma engine_keeps_gate: "engine_step env s s' \<Longrightarrow> wf_store (p_store s) \<Longrightarrow> keeps_gate s s'"
proof (induction rule: engine_step.induct)
  case (EngineTimer s i)
  let ?a = "tt_record (tm_heap (p_timers s) i)"
  show ?case
  proof (cases "stored s ?a")
    case True
    then show ?thesis using kg.wake_step [OF EngineTimer.prems] by blast
  next
    case False
    then have "get_event (p_store s) (ev_mrid (record_of s ?a)) = None" using stored_or_absent EngineTimer.hyps by blast
    from wake_absent_cases [OF this, of env] show ?thesis
      using kg.finish_task_step kg.trans [OF kg.finish_task_step kg.fallback_step] by (metis kg.refl)
  qed
next
  case (EngineState s d)
  show ?case by (simp add: keeps_gate_def wf_kept_def)
next
  case (EngineTime s)
  show ?case by (simp add: keeps_gate_def wf_kept_def)
qed (auto intro: kg.process_controls_step kg.cancel_program_step kg.close kg.late_step)

lemma engine_run_keeps_gate: "(engine_step env)\<^sup>*\<^sup>* s s' \<Longrightarrow> wf_store (p_store s) \<Longrightarrow> keeps_gate s s'"
proof (induction rule: rtranclp_induct)
  case (step t u)
  then have st: "keeps_gate s t" by blast
  then have "keeps_gate t u" using engine_keeps_gate [OF step.hyps(2)] step.prems by (simp add: keeps_gate_def wf_kept_def)
  with st show ?case by (rule kg.trans)
qed simp

section \<open>Entering and leaving the mode\<close>

text \<open>A rediscovery is a run of the engine: it replaces the discovered state and polls.\<close>

definition rediscovers :: "probe_env \<Rightarrow> bool" where
  "rediscovers pe \<longleftrightarrow> (\<forall>p. (engine_step (pe_env pe))\<^sup>*\<^sup>* p (snd (pe_rediscover pe p)))"

lemma drop_boundary_frame [simp]: "p_comms_active (drop_boundary t p) = p_comms_active p" "p_store (drop_boundary t p) = p_store p"
  by (auto simp: drop_boundary_def split: option.splits)

lemma enter_keeps_gate: "wf_store (p_store p) \<Longrightarrow> keeps_gate p (enter_comms_loss env None p)"
  by (rule kg.comms_loss_step)

lemma client_enter_active: "wf_store (p_store (cc_proc c)) \<Longrightarrow> comms_active (client_enter_comms_loss pe elapsed c)"
  using enter_keeps_gate [of "(cc_proc c)\<lparr>p_comms_active := True\<rparr>" "pe_env pe"]
  by (simp add: client_enter_comms_loss_def comms_active_def cc_log_def Let_def keeps_gate_def)

lemma recover_active:
  assumes "comms_active c" "rediscovers pe" "wf_store (p_store (cc_proc c))"
  shows "comms_active (recover_from_comms_loss pe c) \<longleftrightarrow>
    pe_register pe = RegistrationRaised \<or> \<not> fst (pe_rediscover pe (cc_proc c))"
proof -
  have "keeps_gate (cc_proc c) (snd (pe_rediscover pe (cc_proc c)))"
    using assms(2,3) engine_run_keeps_gate unfolding rediscovers_def by blast
  then show ?thesis
    using assms(1)
    by (auto simp: recover_from_comms_loss_def comms_active_def cc_log_def Let_def keeps_gate_def split: prod.splits bool.splits)
qed

text \<open>
  C36. The probe enters the mode exactly when it is not in it, the server has been reached before and
  the last contact is at least the configured number of whole seconds ago; never before the first
  contact. It leaves the mode exactly when the last contact is fresher than that, the
  reregistration did not raise and the rediscovery, any run of the engine, completed; otherwise it
  stays and the next probe tries again. (The rediscovery of the running client, called from the
  scheduled probe, never completes: \<open>scheduled_recovery_never_completes\<close> in \<open>Client_Behaviour\<close>.)
\<close>

theorem comms_loss_edges:
  assumes "rediscovers pe" "wf_store (p_store (cc_proc c))"
  shows "comms_active (comms_loss_probe pe c) =
    (case last_contact_epoch (cc_health c) of
       None \<Rightarrow> comms_active c
     | Some l \<Rightarrow>
         if \<not> comms_active c then pe_seconds pe \<le> py_int (pe_wall pe - of_int l)
         else pe_seconds pe \<le> py_int (pe_wall pe - of_int l) \<or> pe_register pe = RegistrationRaised
              \<or> \<not> fst (pe_rediscover pe (cc_proc c)))"
proof (cases "last_contact_epoch (cc_health c)")
  case None
  then show ?thesis by (simp add: comms_loss_probe_def comms_active_def Let_def)
next
  case (Some l)
  let ?d = "c\<lparr>cc_proc := drop_boundary (pe_server pe) (cc_proc c)\<rparr>"
  have "comms_active ?d = comms_active c" by (simp add: comms_active_def)
  moreover have "comms_active (client_enter_comms_loss pe e ?d)" for e
    using assms(2) by (intro client_enter_active) simp
  ultimately show ?thesis
    using Some recover_active [OF _ assms] by (auto simp: comms_loss_probe_def Let_def not_le)
qed

section \<open>The boundary outlives the mode\<close>

inductive client_step :: "int \<Rightarrow> comms_client \<Rightarrow> comms_client \<Rightarrow> bool" for limit where
  Engine: "engine_step env (cc_proc c) p \<Longrightarrow> client_step limit c (c\<lparr>cc_proc := p\<rparr>)"
| Contact: "client_step limit c (c\<lparr>cc_health := note_contact x (cc_health c)\<rparr>)"
| Probe: "rediscovers pe \<Longrightarrow> py_int (pe_server pe) \<le> limit \<Longrightarrow> py_int (pe_server_end pe) \<le> limit \<Longrightarrow>
    client_step limit c (comms_loss_probe pe c)"

lemma drop_early:
  "boundary_le (Some b) (p_resume_after p) \<Longrightarrow> py_int t \<le> b \<Longrightarrow> boundary_le (Some b) (p_resume_after (drop_boundary t p))"
  by (auto simp: drop_boundary_def boundary_le_def split: option.splits)

definition holds_back :: "int \<Rightarrow> comms_client \<Rightarrow> bool" where
  "holds_back b c \<longleftrightarrow> wf_store (p_store (cc_proc c)) \<and> boundary_le (Some b) (boundary c)"

lemma holds_back_gate:
  "holds_back b c \<Longrightarrow> keeps_gate (cc_proc c) p \<Longrightarrow> cc_proc c' = p \<Longrightarrow> holds_back b c'"
  by (auto simp: holds_back_def keeps_gate_def wf_kept_def boundary_def intro: boundary_le_trans)

lemma holds_back_probe:
  assumes "holds_back b c" "rediscovers pe" "py_int (pe_server pe) \<le> b" "py_int (pe_server_end pe) \<le> b"
  shows "holds_back b (comms_loss_probe pe c)"
proof -
  have dropped: "holds_back b (c'\<lparr>cc_proc := drop_boundary (pe_server pe) (cc_proc c')\<rparr>)" if "holds_back b c'" for c'
    using that drop_early [OF _ assms(3)] by (simp add: holds_back_def boundary_def)
  have entered: "holds_back b (client_enter_comms_loss pe e c')" if "holds_back b c'" for c' e
  proof -
    have "keeps_gate ((cc_proc c')\<lparr>p_comms_active := True\<rparr>) (enter_comms_loss (pe_env pe) None ((cc_proc c')\<lparr>p_comms_active := True\<rparr>))"
      using that by (intro enter_keeps_gate) (simp add: holds_back_def)
    then show ?thesis
      using that by (auto simp: client_enter_comms_loss_def cc_log_def Let_def holds_back_def keeps_gate_def wf_kept_def boundary_def
          intro: boundary_le_trans)
  qed
  have recovered: "holds_back b (recover_from_comms_loss pe c')" if "holds_back b c'" for c'
  proof -
    obtain ok p where r: "pe_rediscover pe (cc_proc c') = (ok, p)" by fastforce
    have kg: "keeps_gate (cc_proc c') p"
      using assms(2) that engine_run_keeps_gate [of "pe_env pe" "cc_proc c'" p] r
      by (metis holds_back_def rediscovers_def snd_conv)
    then have "holds_back b (c'\<lparr>cc_proc := p\<rparr>)" using that holds_back_gate by simp
    then have "wf_store (p_store p)" "boundary_le (Some b) (p_resume_after p)" by (simp_all add: holds_back_def boundary_def)
    then show ?thesis
      using that r drop_early [OF _ assms(4), of "p\<lparr>p_comms_active := False\<rparr>"]
      by (cases ok) (auto simp: recover_from_comms_loss_def cc_log_def Let_def holds_back_def boundary_def)
  qed
  show ?thesis
    using assms(1) dropped entered recovered
    by (auto simp: comms_loss_probe_def Let_def split: option.splits)
qed

text \<open>
  C37. While no probe reads a server time past it, the resume boundary set by an outage is never
  dropped or lowered, whatever polls, timers, contacts, failed and completed recoveries and new
  outages come in between: every event that starts in the window opted out of keeps being held back.
\<close>

theorem boundary_outlives_recovery:
  assumes "(client_step b)\<^sup>*\<^sup>* c c'" "boundary c = Some b" "wf_store (p_store (cc_proc c))"
  shows "\<exists>b' \<ge> b. boundary c' = Some b'"
proof -
  have "holds_back b c" using assms(2,3) by (simp add: holds_back_def boundary_le_def)
  with assms(1) have "holds_back b c'"
  proof (induction rule: rtranclp_induct)
    case (step t u)
    from step.hyps(2) step.IH [OF step.prems] show ?case
    proof (induction rule: client_step.induct)
      case (Engine env c p)
      then have "keeps_gate (cc_proc c) p" using engine_keeps_gate by (simp add: holds_back_def)
      then show ?case using holds_back_gate [OF Engine.prems] by simp
    next
      case (Contact c x)
      then show ?case by (simp add: holds_back_def boundary_def)
    next
      case (Probe pe c)
      then show ?case using holds_back_probe by blast
    qed
  qed
  then show ?thesis by (auto simp: holds_back_def boundary_le_def split: option.splits)
qed

section \<open>An event that outlasts the boundary\<close>

lemma timing_ignores_boundary:
  assumes "effective_timing env prog derc s = (es, ed, t)"
  shows "effective_timing env prog derc (s\<lparr>p_resume_after := x\<rparr>) = (es, ed, t\<lparr>p_resume_after := x\<rparr>)"
proof -
  have rec: "record_of (u\<lparr>p_resume_after := x, p_rand := r\<rparr>) = record_of (u\<lparr>p_rand := r\<rparr>)" for u r
    by (simp add: record_of_def fun_eq_iff)
  then have pred: "find_successive_predecessor (u\<lparr>p_resume_after := x, p_rand := r\<rparr>) = find_successive_predecessor (u\<lparr>p_rand := r\<rparr>)" for u r
    by (simp add: find_successive_predecessor_def fun_eq_iff)
  show ?thesis
    using assms unfolding effective_timing_def Let_def case_prod_beta
    by (auto simp: rec pred split: option.splits if_splits)
qed

lemma timing_keeps_boundary:
  "effective_timing env prog derc s = (es, ed, t) \<Longrightarrow> p_resume_after t = p_resume_after s"
  by (auto simp: effective_timing_def Let_def case_prod_beta split: option.splits if_splits)

text \<open>
  An event that starts at or before the boundary and ends after it is skipped by every poll
  before the boundary has passed; once the server clock is past it the probe drops the boundary, and
  the next poll takes the same event for a new one that is running and starts it late, although the
  client stayed out of the window it starts in.
\<close>

theorem boundary_forgets_long_events:
  assumes "effective_timing env prog derc (cc_proc c) = (es, ed, t)" "get_event (p_store t) (m_rid derc) = None"
    "boundary c = Some b" "es \<le> b" "b < now" "now \<le> es + ed" "\<not> is_server_cancelled derc"
    "\<not> comms_active c" "b < py_int (pe_server pe)" "last_contact_epoch (cc_health c) = Some l"
    "py_int (pe_wall pe - of_int l) < pe_seconds pe"
    "store_new (new_EventRecord (m_rid derc) derc prog (dp_primacy derp) ACTIVE es ed (server_status_time_of derc)
        (case creation_time derc of None \<Rightarrow> 0 | Some ct \<Rightarrow> ct)) (t\<lparr>p_resume_after := None\<rparr>) = (a, s1)"
  shows "process_one env cur prog derp earlier derc (cc_proc c)
      = (audit_unstored env derc prog (dp_primacy derp) es ed ''skipped'' t, False) \<and>
    fst (process_one env cur prog derp now derc (cc_proc (comms_loss_probe pe c)))
      = handle_late_discovery env cur a (clear_stale_defaults prog s1)"
proof -
  have "p_resume_after (cc_proc c) = Some b" "p_resume_after t = Some b"
    using assms(3) timing_keeps_boundary [OF assms(1)] by (simp_all add: boundary_def)
  moreover from this have "cc_proc (comms_loss_probe pe c) = (cc_proc c)\<lparr>p_resume_after := None\<rparr>"
    using assms(8-11) by (simp add: comms_loss_probe_def comms_active_def Let_def drop_boundary_def)
  ultimately show ?thesis
    using assms timing_ignores_boundary [OF assms(1), of None]
    by (simp add: process_one_def admit_new_def Let_def)
qed

section \<open>A client on the example\<close>

definition ex_probe :: "rat \<Rightarrow> rat \<Rightarrow> probe_env" where
  "ex_probe wall server =
     \<lparr>pe_env = ex_env, pe_seconds = 60, pe_wall = wall, pe_mono = wall, pe_server = server, pe_server_end = server,
      pe_register = NoOwnLfdi, pe_rediscover = (\<lambda>p. (True, p))\<rparr>"

definition ex_client :: "int option \<Rightarrow> comms_client" where
  "ex_client b =
     \<lparr>cc_proc = (ex_proc [''/a''] [ex_record [1] ''/a'' 1 ACTIVE 50 150])\<lparr>p_resume_after := b\<rparr>,
      cc_health = record_reached 20 new_health, cc_entered = None, cc_simulated = False, cc_trail = []\<rparr>"

lemma rediscovers_ex_probe: "rediscovers (ex_probe w t)"
  by (simp add: rediscovers_def ex_probe_def)

lemma wf_ex_client: "wf_store (p_store (cc_proc (ex_client b)))"
  by (simp add: ex_client_def wf_ex_proc)

theorem comms_loss_edges_witness:
  "\<not> comms_active (ex_client None) \<and> comms_active (comms_loss_probe (ex_probe 100 100) (ex_client None)) \<and>
   \<not> comms_active (comms_loss_probe (ex_probe 70 100) (ex_client None))"
proof -
  note edge = comms_loss_edges [OF rediscovers_ex_probe wf_ex_client [of None]]
  have "last_contact_epoch (cc_health (ex_client None)) = Some 20" "\<not> comms_active (ex_client None)"
    by (simp_all add: ex_client_def record_reached_def comms_active_def ex_proc_def py_int_def)
  moreover have "py_int (100 - of_int 20) = 80" "py_int (70 - of_int 20) = 50" by code_simp+
  ultimately show ?thesis using edge [of 100 100] edge [of 70 100] by (simp add: ex_probe_def)
qed

theorem boundary_outlives_recovery_witness:
  "\<exists>b' \<ge> 200. boundary (comms_loss_probe (ex_probe 100 150) (ex_client (Some 200))) = Some b'"
proof (rule boundary_outlives_recovery)
  have "py_int 150 \<le> 200" by code_simp
  then show "(client_step 200)\<^sup>*\<^sup>* (ex_client (Some 200)) (comms_loss_probe (ex_probe 100 150) (ex_client (Some 200)))"
    by (intro r_into_rtranclp client_step.Probe rediscovers_ex_probe) (simp_all add: ex_probe_def)
  show "boundary (ex_client (Some 200)) = Some 200" by (simp add: boundary_def ex_client_def)
qed (rule wf_ex_client)

theorem boundary_forgets_long_events_witness:
  "snd (process_one ex_env None ''/a'' (ex_program ''/a'' 1 []) 150 (ex_derc [2] 150 300 None) (cc_proc (ex_client (Some 200)))) = False \<and>
   (\<exists>a s1. fst (process_one ex_env None ''/a'' (ex_program ''/a'' 1 []) 210 (ex_derc [2] 150 300 None)
              (cc_proc (comms_loss_probe (ex_probe 70 205) (ex_client (Some 200)))))
           = handle_late_discovery ex_env None a (clear_stale_defaults ''/a'' s1))"
proof -
  let ?d = "ex_derc [2] 150 300 None" and ?c = "ex_client (Some 200)"
  obtain es ed t where t: "effective_timing ex_env ''/a'' ?d (cc_proc ?c) = (es, ed, t)" by (metis prod_cases3)
  have "fst (effective_timing ex_env ''/a'' ?d (cc_proc ?c)) = 150"
    "fst (snd (effective_timing ex_env ''/a'' ?d (cc_proc ?c))) = 300"
    "get_event (p_store (cc_proc ?c)) (m_rid ?d) = None" by code_simp+
  moreover have "p_store t = p_store (cc_proc ?c)" using kg.timing_store [of ex_env "''/a''" ?d "cc_proc ?c"] t by simp
  ultimately have e: "es = 150" "ed = 300" "get_event (p_store t) (m_rid ?d) = None" using t by simp_all
  have b: "boundary ?c = Some 200" "\<not> is_server_cancelled ?d" "\<not> comms_active ?c" "last_contact_epoch (cc_health ?c) = Some 20"
    "200 < py_int (pe_server (ex_probe 70 205))" "py_int (pe_wall (ex_probe 70 205) - of_int 20) < pe_seconds (ex_probe 70 205)"
    by code_simp+
  show ?thesis
    using boundary_forgets_long_events [OF t e(3) b(1), of 210 "ex_probe 70 205", OF _ _ _ b(2,3,5,4,6) prod.collapse [symmetric]] e(1,2)
    by simp blast
qed

end
