(* ===== verification/Client_Driver.thy ===== *)
theory Client_Driver
  imports Subscription_Props Polling Retry Tariff Comms_Loss
begin

text \<open>
  \<open>client/csip_client.py\<close>: the polls, their recovery, subscriptions, notifications and rediscovery,
  over the event processor, the tariff processor, the subscription manager and the poll scheduler.
  The walks of \<open>client/discovery.py\<close> are parameters that transform the discovered state and the
  timebase and may fail. Notifications that come in while a rediscovery awaits are handled there, between
  its calls; other handlers run one at a time.
\<close>

section \<open>State and environment\<close>

text \<open>The exceptions of \<open>client/http.py\<close>; a \<open>Sep2NoContentError\<close> is a protocol error of status 204.\<close>

datatype http_error = ProtocolError int | NoContentError | RedirectError string | PayloadError | TransportError string

record Notification =
  nt_subscription_uri :: string
  nt_resource :: string
  nt_status :: int
  nt_new_uri :: "string option"

type_synonym found = "DiscoveredState \<times> ServerTimebase"
type_synonym 'a walk = "nat \<Rightarrow> found \<Rightarrow> (http_error + 'a) \<times> found"

datatype client_event =
    PassStarted | StructuralChangeCalled | DeviceRemovedCalled string | RediscoveredCalled | ReconnectCalled
  | ClientReported string

text \<open>The settings of the client and the world around it. \<open>ce_on_structural\<close> says whether the
  structural-change callback is set and, if so, whether it rediscovers. \<open>ce_confirmed\<close> is the reading of
  \<open>server_alive\<close> and \<open>last_validated_epoch\<close> that lets the connectivity probe skip its request.\<close>

record client_env =
  ce_proc :: env
  ce_tariff :: tariff_env
  ce_sub :: sub_env
  ce_clock :: "nat \<Rightarrow> tb_clock"
  ce_pair_order :: "(string \<times> string) set \<Rightarrow> (string \<times> string) list"
  ce_name_order :: "string set \<Rightarrow> string list"
  ce_discover :: "unit walk"
  ce_refresh_end_devices :: "unit walk"
  ce_refresh_fsa :: "string set \<Rightarrow> string list walk"
  ce_refresh_programs :: "string list walk"
  ce_refresh_controls :: "unit walk"
  ce_refresh_controls_for :: "string \<Rightarrow> bool walk"
  ce_refresh_tariffs :: "unit walk"
  ce_get_time :: "nat \<Rightarrow> string \<Rightarrow> http_error + TimeResource"
  ce_get_dcap :: "nat \<Rightarrow> http_error + DeviceCapability"
  ce_confirmed :: "nat \<Rightarrow> bool"
  ce_arrivals :: "nat \<Rightarrow> Notification list"
  ce_heartbeat_enabled :: bool
  ce_heartbeat_seconds :: "rat option"
  ce_connection_heartbeat :: int
  ce_comms_loss :: int
  ce_comms_eval :: int
  ce_reconcile :: bool
  ce_reconcile_interval :: int
  ce_on_structural :: "bool option"
  ce_on_device_removed :: bool
  ce_on_rediscovered :: bool
  ce_reconnect_callbacks :: nat

record client =
  cl_proc :: proc
  cl_tariff :: TariffProcessor
  cl_mgr :: "SubscriptionManager option"
  cl_sched :: PollScheduler
  cl_failures :: nat
  cl_locked :: bool
  cl_pending :: bool
  cl_warned :: bool
  cl_renewing :: bool
  cl_ready :: bool
  cl_tick :: nat
  cl_trace :: "client_event list"

text \<open>The discovered state and the timebase are objects the processors share.\<close>

definition cl_state :: "client \<Rightarrow> DiscoveredState" where
  "cl_state c = p_state (cl_proc c)"

definition cl_timebase :: "client \<Rightarrow> ServerTimebase" where
  "cl_timebase c = tf_timebase (cl_tariff c)"

definition set_found :: "found \<Rightarrow> client \<Rightarrow> client" where
  "set_found f c =
     c\<lparr>cl_proc := (cl_proc c)\<lparr>p_state := fst f\<rparr>, cl_tariff := (cl_tariff c)\<lparr>tf_state := fst f, tf_timebase := snd f\<rparr>\<rparr>"

definition cl_log :: "client_event \<Rightarrow> client \<Rightarrow> client" where
  "cl_log e c = c\<lparr>cl_trace := cl_trace c @ [e]\<rparr>"

definition on_mgr :: "(SubscriptionManager \<Rightarrow> SubscriptionManager) \<Rightarrow> client \<Rightarrow> client" where
  "on_mgr f c = c\<lparr>cl_mgr := map_option f (cl_mgr c)\<rparr>"

definition on_sched :: "(PollScheduler \<Rightarrow> PollScheduler) \<Rightarrow> client \<Rightarrow> client" where
  "on_sched f c = c\<lparr>cl_sched := f (cl_sched c)\<rparr>"

definition ce_wall :: "client_env \<Rightarrow> client \<Rightarrow> rat" where
  "ce_wall env c = wall_time (ce_clock env (cl_tick c))"

text \<open>An awaited walk over the server.\<close>

definition run_walk :: "'a walk \<Rightarrow> client \<Rightarrow> (http_error + 'a) \<times> client" where
  "run_walk w c =
     (case w (cl_tick c) (cl_state c, cl_timebase c) of (r, f) \<Rightarrow> (r, set_found f (c\<lparr>cl_tick := Suc (cl_tick c)\<rparr>)))"

section \<open>Constants and classification\<close>

definition RESOURCE_TYPE_TO_POLL_KEY :: "(string, string) dict" where
  "RESOURCE_TYPE_TO_POLL_KEY =
     [(''EndDeviceList'', ''edev''), (''FSAList'', ''fsa''), (''DERProgramList'', ''derp''), (''DERControlList'', ''derp''),
      (''DefaultDERControl'', ''derp''), (''TariffProfileList'', ''tariff''), (''TimeTariffIntervalList'', ''tariff'')]"

definition STRUCTURAL_RESOURCE_TYPES :: "string set" where "STRUCTURAL_RESOURCE_TYPES = {''EndDeviceList'', ''FSAList''}"
definition CONTROL_RESOURCE_TYPES :: "string set" where "CONTROL_RESOURCE_TYPES = {''DERControlList'', ''DefaultDERControl''}"
definition TARIFF_RESOURCE_TYPES :: "string set" where "TARIFF_RESOURCE_TYPES = {''TariffProfileList'', ''TimeTariffIntervalList''}"
definition MAX_REDISCOVERY_PASSES :: nat where "MAX_REDISCOVERY_PASSES = 5"
definition SERVER_RESTART_DETECTION_THRESHOLD :: nat where "SERVER_RESTART_DETECTION_THRESHOLD = 3"

definition STATUS_DEFAULT :: int where "STATUS_DEFAULT = 0"
definition STATUS_CANCELLED :: int where "STATUS_CANCELLED = 1"
definition STATUS_RESOURCE_MOVED :: int where "STATUS_RESOURCE_MOVED = 2"
definition STATUS_DEFINITION_CHANGED :: int where "STATUS_DEFINITION_CHANGED = 3"
definition STATUS_RESOURCE_DELETED :: int where "STATUS_RESOURCE_DELETED = 4"

definition status_code :: "http_error \<Rightarrow> int option" where
  "status_code e = (case e of ProtocolError n \<Rightarrow> Some n | NoContentError \<Rightarrow> Some 204 | _ \<Rightarrow> None)"

definition is_absent_fsa_time :: "http_error \<Rightarrow> bool \<Rightarrow> bool" where
  "is_absent_fsa_time e is_global = (\<not> is_global \<and> status_code e \<in> {Some 404, Some 204})"

definition needs_poll_recovery :: "http_error \<Rightarrow> bool \<Rightarrow> bool" where
  "needs_poll_recovery e is_global =
     (case e of RedirectError _ \<Rightarrow> True | _ \<Rightarrow> is_global \<and> status_code e \<noteq> None)"

text \<open>\<open>_extract_href\<close>: an empty href is none.\<close>

definition extract_href :: "string option \<Rightarrow> string option" where
  "extract_href h = (case h of Some (c # cs) \<Rightarrow> Some (c # cs) | _ \<Rightarrow> None)"

text \<open>\<open>parts.index("edev")\<close>, for a list that has it.\<close>

definition index_of :: "string \<Rightarrow> string list \<Rightarrow> nat" where
  "index_of x xs = length (takeWhile (\<lambda>y. y \<noteq> x) xs)"

definition is_structural_resource :: "string \<Rightarrow> bool" where
  "is_structural_resource p =
     (let parts = segments p
      in if parts = [] then True
         else if ''edev'' \<in> set parts \<and> length parts - index_of ''edev'' parts \<le> 2 then True
         else ''fsa'' \<in> set parts \<and> ''derp'' \<notin> set parts \<and> \<not> (''derc'' \<in> set parts \<or> ''dderc'' \<in> set parts))"

definition is_control_resource :: "string \<Rightarrow> bool" where
  "is_control_resource p = (let path = rstrip_slash p in endswith path ''/derc'' \<or> endswith path ''/dderc'')"

definition is_tariff_resource :: "string \<Rightarrow> bool" where
  "is_tariff_resource p = (let path = rstrip_slash p in endswith path ''/tti'' \<or> endswith path ''/tp'')"

definition is_structural :: "string \<Rightarrow> string option \<Rightarrow> bool" where
  "is_structural p rt = (case rt of Some t \<Rightarrow> t \<in> STRUCTURAL_RESOURCE_TYPES | None \<Rightarrow> is_structural_resource p)"

definition is_control :: "string \<Rightarrow> string option \<Rightarrow> bool" where
  "is_control p rt = (case rt of Some t \<Rightarrow> t \<in> CONTROL_RESOURCE_TYPES | None \<Rightarrow> is_control_resource p)"

definition is_tariff :: "string \<Rightarrow> string option \<Rightarrow> bool" where
  "is_tariff p rt = (case rt of Some t \<Rightarrow> t \<in> TARIFF_RESOURCE_TYPES | None \<Rightarrow> is_tariff_resource p)"

section \<open>Scheduling\<close>

text \<open>\<open>_new_scheduler\<close>: the settings were accepted when the client was constructed.\<close>

definition fresh_scheduler :: "client_env \<Rightarrow> PollScheduler \<Rightarrow> PollScheduler" where
  "fresh_scheduler env s =
     (case new_scheduler (ce_heartbeat_enabled env) (ce_heartbeat_seconds env) (ps_now s) of None \<Rightarrow> s | Some s' \<Rightarrow> s')"

definition poll_rate :: "string \<Rightarrow> client \<Rightarrow> int option" where
  "poll_rate key c = Option.bind (map_of (poll_rates (cl_state c)) key) id"

definition sub_poll_rate :: "client_env \<Rightarrow> client \<Rightarrow> int option" where
  "sub_poll_rate env c =
     (let override = ce_reconcile_interval env;
          raw_rate = (if override > 0 then Some override else poll_rate ''sub'' c)
      in fst (normalize_poll_rate raw_rate ''sub'' DEFAULT_POLL_RATE))"

definition schedule_if :: "string \<Rightarrow> int option \<Rightarrow> client \<Rightarrow> client" where
  "schedule_if key rate c = (case rate of None \<Rightarrow> c | Some r \<Rightarrow> on_sched (schedule key r) c)"

text \<open>The timebase is told how often the time is polled.\<close>

definition note_time_rate :: "client \<Rightarrow> client" where
  "note_time_rate c =
     (case poll_rate ''time'' c of
        None \<Rightarrow> c
      | Some r \<Rightarrow> c\<lparr>cl_tariff := (cl_tariff c)\<lparr>tf_timebase := note_time_poll_rate (Some r) (cl_timebase c)\<rparr>\<rparr>)"

text \<open>\<open>rates.get("tariff") or DEFAULT_POLL_RATE\<close>.\<close>

definition tariff_rate :: "client \<Rightarrow> int" where
  "tariff_rate c = (case poll_rate ''tariff'' c of None \<Rightarrow> DEFAULT_POLL_RATE | Some r \<Rightarrow> if r = 0 then DEFAULT_POLL_RATE else r)"

definition start_polls :: "client_env \<Rightarrow> client \<Rightarrow> client" where
  "start_polls env c =
     (let c1 = fold (\<lambda>key c. schedule_if key (poll_rate key c) c) [''dcap'', ''edev'', ''fsa'', ''derp''] c;
          c2 = schedule_if ''tariff'' (if pricing_enabled (cl_state c1) then Some (tariff_rate c1) else None) c1;
          c3 = schedule_if ''time'' (poll_rate ''time'' c2) (note_time_rate c2);
          c4 = schedule_if ''connectivity'' (if ce_connection_heartbeat env > 0 then Some (ce_connection_heartbeat env) else None) c3;
          c5 = schedule_if ''comms_loss'' (if ce_comms_loss env > 0 then Some (ce_comms_eval env) else None) c4
      in schedule_if ''sub'' (if ce_reconcile env \<and> cl_mgr c5 \<noteq> None then sub_poll_rate env c5 else None) c5)"

section \<open>Subscriptions\<close>

definition subscribed_fsa_hrefs :: "client \<Rightarrow> string set" where
  "subscribed_fsa_hrefs c =
     (case cl_mgr c of
        None \<Rightarrow> {}
      | Some m \<Rightarrow> subscribed_resource ` {s \<in> set (active_subscriptions m). resource_type s = ''FSAList''})"

definition all_fsa_lists :: "DiscoveredState \<Rightarrow> string set" where
  "all_fsa_lists d = the ` (extract_href ` ed_fsa_list_link ` snd ` set (end_devices d) - {None})"

definition covered_keys :: "SubscriptionManager \<Rightarrow> string set" where
  "covered_keys m = the ` (map_of RESOURCE_TYPE_TO_POLL_KEY ` subscribed_resource_types m - {None})"

definition suppressed_poll_keys :: "client \<Rightarrow> SubscriptionManager \<Rightarrow> string set" where
  "suppressed_poll_keys c m =
     (let keys = covered_keys m;
          keys1 = (if all_fsa_lists (cl_state c) - subscribed_fsa_hrefs c \<noteq> {} then keys - {''fsa''} else keys)
      in keys1 - {''tariff''})"

definition update_poll_suppression :: "client_env \<Rightarrow> client \<Rightarrow> client" where
  "update_poll_suppression env c =
     (case cl_mgr c of
        None \<Rightarrow> c
      | Some m \<Rightarrow>
          let active = suppressed_poll_keys c m
          in on_sched (\<lambda>s. fold (\<lambda>k s. if k \<notin> active then unsuppress k s else s) (map snd RESOURCE_TYPE_TO_POLL_KEY)
                            (fold suppress (iter_set (ce_name_order env) active) s)) c)"

definition find_agg_sub_href :: "DiscoveredState \<Rightarrow> string option" where
  "find_agg_sub_href d =
     Option.bind (find (\<lambda>e. extract_href (ed_subscription_list_href (snd e)) \<noteq> None) (end_devices d))
       (\<lambda>e. ed_subscription_list_href (snd e))"

definition compute_desired_subscriptions :: "DiscoveredState \<Rightarrow> (string \<times> string) set" where
  "compute_desired_subscriptions d =
     (case Option.bind (ds_dcap d) (extract_href \<circ> dc_end_device_list_link) of Some h \<Rightarrow> {(h, ''EndDeviceList'')} | None \<Rightarrow> {}) \<union>
     (\<Union>(_, ed) \<in> set (end_devices d).
        (case extract_href (ed_fsa_list_link ed) of
           Some h \<Rightarrow> if ed_fsa_list_subscribable ed then {(h, ''FSAList'')} else {} | None \<Rightarrow> {}) \<union>
        (if ed_derp_list_subscribable ed
         then (\<lambda>h. (the h, ''DERProgramList'')) ` (extract_href ` set (ed_program_list_links ed) - {None}) else {})) \<union>
     (\<Union>(_, ps) \<in> set (der_programs d).
        (case extract_href (dp_controls_link ps) of
           Some h \<Rightarrow> if derc_list_subscribable ps then {(h, ''DERControlList'')} else {} | None \<Rightarrow> {}) \<union>
        (case extract_href (dp_default_link ps) of
           Some h \<Rightarrow> if dderc_subscribable ps then {(h, ''DefaultDERControl'')} else {} | None \<Rightarrow> {})) \<union>
     (if pricing_enabled d
      then \<Union>(_, tp) \<in> set (tariff_profiles d). \<Union>rc \<in> set (rate_components tp).
             (case extract_href (tti_list_href rc) of
                Some h \<Rightarrow> if tti_list_subscribable rc then {(h, ''TimeTariffIntervalList'')} else {} | None \<Rightarrow> {})
      else {})"

definition subscribe_unless_suppressed :: "sub_env \<Rightarrow> string \<Rightarrow> string \<times> string \<Rightarrow> SubscriptionManager \<Rightarrow> SubscriptionManager" where
  "subscribe_unless_suppressed env h rt m =
     (if resubscribe_suppressed m (fst rt) then m else snd (subscribe env h (fst rt) (snd rt) m))"

definition auto_subscribe :: "client_env \<Rightarrow> client \<Rightarrow> client" where
  "auto_subscribe env c =
     (case cl_mgr c of
        None \<Rightarrow> c
      | Some m \<Rightarrow>
          (case find_agg_sub_href (cl_state c) of
             None \<Rightarrow> c\<lparr>cl_warned := True\<rparr>
           | Some h \<Rightarrow>
               c\<lparr>cl_warned := False,
                 cl_mgr := Some (fold (subscribe_unless_suppressed (ce_sub env) h)
                   (iter_set (ce_pair_order env) (compute_desired_subscriptions (cl_state c))) m)\<rparr>))"

definition poll_sub_reconcile :: "client_env \<Rightarrow> client \<Rightarrow> client" where
  "poll_sub_reconcile env c =
     (case cl_mgr c of
        None \<Rightarrow> c
      | Some m \<Rightarrow>
          (case find_agg_sub_href (cl_state c) of
             None \<Rightarrow> c
           | Some h \<Rightarrow> if active_subscriptions m = [] then c
                       else c\<lparr>cl_mgr := Some (snd (reconcile_with_server (ce_sub env) h True m))\<rparr>))"

section \<open>Polls\<close>

datatype poll_result = PollOk | PollRaised http_error | PollCancelled

text \<open>\<open>_do_poll_time\<close>: the distinct hrefs with the scopes that read them, the global one first.\<close>

definition time_scopes :: "DiscoveredState \<Rightarrow> (string, string option list) dict" where
  "time_scopes d =
     fold (\<lambda>(fsa, h) s. dset h (dget_or s h [] @ [Some fsa]) s) (fsa_time_hrefs d)
       (case extract_href (ds_time_href d) of Some h \<Rightarrow> [(h, [None])] | None \<Rightarrow> [])"

record time_poll =
  tp_refreshed :: nat
  tp_recoverable :: "http_error option"
  tp_last :: "http_error option"

definition as_time :: "TimeResource \<Rightarrow> time_resource" where
  "as_time r = \<lparr>res_current_time = tr_current_time r, res_quality = tr_quality r\<rparr>"

definition observe_scope :: "client_env \<Rightarrow> string \<Rightarrow> TimeResource \<Rightarrow> string option \<Rightarrow> client \<Rightarrow> client" where
  "observe_scope env href r scope c =
     (let d = cl_state c;
          d1 = (case scope of None \<Rightarrow> d\<lparr>ds_time := Some r\<rparr> | Some f \<Rightarrow> d\<lparr>fsa_time := dset f (href, r) (fsa_time d)\<rparr>)
      in set_found (d1, observe_time_resource (ce_clock env (cl_tick c)) (as_time r) scope href (cl_timebase c)) c)"

definition poll_time_href :: "client_env \<Rightarrow> string \<times> string option list \<Rightarrow> time_poll \<times> client \<Rightarrow> time_poll \<times> client" where
  "poll_time_href env hs tc =
     (case (hs, tc) of ((href, scopes), (tp, c)) \<Rightarrow>
        let is_global = (None \<in> set scopes); c1 = c\<lparr>cl_tick := Suc (cl_tick c)\<rparr>
        in case ce_get_time env (cl_tick c) href of
             Inl e \<Rightarrow>
               if is_absent_fsa_time e is_global then (tp, c1)
               else (tp\<lparr>tp_last := Some e,
                        tp_recoverable := (if tp_recoverable tp = None \<and> needs_poll_recovery e is_global then Some e
                                           else tp_recoverable tp)\<rparr>, c1)
           | Inr r \<Rightarrow> (tp\<lparr>tp_refreshed := Suc (tp_refreshed tp)\<rparr>, fold (observe_scope env href r) scopes c1))"

definition do_poll_time :: "client_env \<Rightarrow> client \<Rightarrow> poll_result \<times> client" where
  "do_poll_time env c =
     (case fold (poll_time_href env) (time_scopes (cl_state c)) (\<lparr>tp_refreshed = 0, tp_recoverable = None, tp_last = None\<rparr>, c) of
        (tp, c1) \<Rightarrow>
          (case tp_recoverable tp of
             Some e \<Rightarrow> (PollRaised e, c1)
           | None \<Rightarrow> (case tp_last tp of
                        Some e \<Rightarrow> (if tp_refreshed tp = 0 then PollRaised e else PollOk, c1)
                      | None \<Rightarrow> (PollOk, c1))))"

text \<open>Running a walk and going on unless it raised.\<close>

definition after_walk :: "'a walk \<Rightarrow> ('a \<Rightarrow> client \<Rightarrow> poll_result \<times> client) \<Rightarrow> client \<Rightarrow> poll_result \<times> client" where
  "after_walk w k c = (case run_walk w c of (Inl e, c1) \<Rightarrow> (PollRaised e, c1) | (Inr x, c1) \<Rightarrow> k x c1)"

definition cancel_programs :: "client_env \<Rightarrow> string list \<Rightarrow> client \<Rightarrow> client" where
  "cancel_programs env ps c = c\<lparr>cl_proc := fold (cancel_program (ce_proc env) None) ps (cl_proc c)\<rparr>"

definition process_all :: "client_env \<Rightarrow> client \<Rightarrow> client" where
  "process_all env c =
     c\<lparr>cl_proc := fold (process_controls (ce_proc env) None) (map fst (der_programs (cl_state c))) (cl_proc c)\<rparr>"

definition do_poll_edev :: "client_env \<Rightarrow> client \<Rightarrow> poll_result \<times> client" where
  "do_poll_edev env = after_walk (ce_refresh_end_devices env) (\<lambda>_ c. (PollOk, c))"

text \<open>\<open>_do_poll_fsa\<close>: every program removed is cancelled and dropped from the state.\<close>

definition drop_program :: "client_env \<Rightarrow> string \<Rightarrow> client \<Rightarrow> client" where
  "drop_program env p c =
     (let c1 = cancel_programs env [p] c; d = cl_state c1
      in set_found (d\<lparr>der_programs := ddel p (der_programs d)\<rparr>, cl_timebase c1) c1)"

definition do_poll_fsa :: "client_env \<Rightarrow> client \<Rightarrow> poll_result \<times> client" where
  "do_poll_fsa env c =
     after_walk (ce_refresh_fsa env (subscribed_fsa_hrefs c)) (\<lambda>removed c. (PollOk, fold (drop_program env) removed c)) c"

definition do_poll_derp :: "client_env \<Rightarrow> client \<Rightarrow> poll_result \<times> client" where
  "do_poll_derp env =
     after_walk (ce_refresh_programs env) (\<lambda>removed c.
       after_walk (ce_refresh_controls env) (\<lambda>_ c. (PollOk, process_all env c)) (cancel_programs env removed c))"

definition do_poll_tariff :: "client_env \<Rightarrow> client \<Rightarrow> poll_result \<times> client" where
  "do_poll_tariff env =
     after_walk (ce_refresh_tariffs env) (\<lambda>_ c. (PollOk, c\<lparr>cl_tariff := process_tariffs (ce_tariff env) (cl_tariff c)\<rparr>))"

text \<open>\<open>_do_poll_derp_targeted\<close>: whether the program was found, or the exception.\<close>

definition do_poll_derp_targeted :: "client_env \<Rightarrow> string \<Rightarrow> client \<Rightarrow> (http_error + bool) \<times> client" where
  "do_poll_derp_targeted env r c =
     (case find_program_for_resource r (cl_state c) of
        None \<Rightarrow> (Inr False, c)
      | Some p \<Rightarrow>
          (case run_walk (ce_refresh_controls_for env p) c of
             (Inr True, c1) \<Rightarrow> (Inr True, c1\<lparr>cl_proc := process_controls (ce_proc env) None p (cl_proc c1)\<rparr>)
           | (x, c1) \<Rightarrow> (x, c1)))"

definition poll_now :: "client_env \<Rightarrow> client \<Rightarrow> (http_error + nat) \<times> client" where
  "poll_now env c =
     (case do_poll_derp env c of
        (PollRaised e, c1) \<Rightarrow> (Inl e, c1)
      | (_, c1) \<Rightarrow> (Inr (length (der_programs (cl_state c1))), c1))"

section \<open>Notifications\<close>

text \<open>\<open>redo\<close> is the rediscovery the handler asks for: the whole of it, or only the pending flag while
  one is under way.\<close>

definition structural_change :: "client_env \<Rightarrow> (client \<Rightarrow> client) \<Rightarrow> client \<Rightarrow> client" where
  "structural_change env redo c =
     (case ce_on_structural env of
        None \<Rightarrow> redo c
      | Some b \<Rightarrow> let c1 = cl_log StructuralChangeCalled c in if b then redo c1 else c1)"

definition route_default_notification ::
  "client_env \<Rightarrow> (client \<Rightarrow> client) \<Rightarrow> string \<Rightarrow> string option \<Rightarrow> client \<Rightarrow> poll_result \<times> client" where
  "route_default_notification env redo r rt c =
     (if is_structural r rt then (PollOk, structural_change env redo c)
      else if cl_locked c then (PollOk, c)
      else if is_tariff r rt then do_poll_tariff env c
      else if is_control r rt then
        (case do_poll_derp_targeted env r (on_mgr (record_notification_ancestry (ce_wall env c) r) c) of
           (Inl e, c1) \<Rightarrow> (PollRaised e, c1)
         | (Inr True, c1) \<Rightarrow> (PollOk, c1)
         | (Inr False, c1) \<Rightarrow> do_poll_derp env c1)
      else do_poll_derp env c)"

definition handle_resource_deleted :: "client_env \<Rightarrow> (client \<Rightarrow> client) \<Rightarrow> string \<Rightarrow> client \<Rightarrow> client" where
  "handle_resource_deleted env redo r c =
     (let parts = segments r
      in if length parts = 2 \<and> hd parts = ''edev''
         then (if ce_on_device_removed env then cl_log (DeviceRemovedCalled r) c else c)
         else structural_change env redo c)"

definition stored_notification :: "client_env \<Rightarrow> client \<Rightarrow> Notification \<Rightarrow> string option \<Rightarrow> StoredNotification" where
  "stored_notification env c n uri =
     \<lparr>sn_resource = nt_resource n, sn_status = nt_status n, sn_subscription_uri = nt_subscription_uri n,
      sn_created_at = ce_wall env c, sn_new_resource_uri = uri\<rparr>"

text \<open>Whether the notification is dropped as a duplicate; only then-new ones are noted.\<close>

definition check_duplicate :: "client_env \<Rightarrow> Notification \<Rightarrow> SubscriptionManager \<Rightarrow> client \<Rightarrow> bool \<times> client" where
  "check_duplicate env n m c =
     (if nt_status n = STATUS_DEFAULT \<and> \<not> is_control (nt_resource n) (resource_type_for m (nt_subscription_uri n))
      then case is_duplicate_notification (ce_wall env c) (nt_resource n) m of (dup, m1) \<Rightarrow> (dup, c\<lparr>cl_mgr := Some m1\<rparr>)
      else (False, c))"

definition handle_with :: "client_env \<Rightarrow> (client \<Rightarrow> client) \<Rightarrow> Notification \<Rightarrow> client \<Rightarrow> poll_result \<times> client" where
  "handle_with env redo n c =
     (case cl_mgr c of
        None \<Rightarrow> (PollOk, c)
      | Some m \<Rightarrow>
          let uri = nt_subscription_uri n; r = nt_resource n; rt = resource_type_for m uri;
              (dup, c1) = check_duplicate env n m c
          in if dup then (PollOk, if is_structural r rt \<and> cl_locked c1 then c1\<lparr>cl_pending := True\<rparr> else c1)
             else if \<not> should_process_notification m uri r then (PollOk, c1)
             else if nt_status n = STATUS_DEFAULT
               then route_default_notification env redo r rt (on_mgr (record_notification (stored_notification env c1 n None)) c1)
             else if nt_status n = STATUS_CANCELLED
               then (PollOk, update_poll_suppression env
                      (on_mgr (suppress_resubscribe r \<circ> remove_notifications_for r \<circ> mark_cancelled uri) c1))
             else if nt_status n = STATUS_RESOURCE_MOVED
               then (let c2 = update_poll_suppression env (on_mgr (mark_cancelled uri) c1);
                         c3 = (case extract_href (nt_new_uri n) of
                                 Some u \<Rightarrow> on_mgr (record_notification (stored_notification env c2 n (Some u))) c2
                               | None \<Rightarrow> c2)
                     in (PollOk, structural_change env redo c3))
             else if nt_status n = STATUS_DEFINITION_CHANGED
               then (PollOk, update_poll_suppression env (on_mgr (mark_cancelled uri) c1))
             else if nt_status n = STATUS_RESOURCE_DELETED
               then (PollOk, handle_resource_deleted env redo r
                      (update_poll_suppression env (on_mgr (mark_cancelled uri) c1)))
             else (PollOk, c1))"

section \<open>Rediscovery\<close>

text \<open>How a call ends: a completed rediscovery, a failed one, one that joined the one under way, or
  the \<open>CancelledError\<close> of a caller whose own task was cancelled.\<close>

datatype rediscovery = RCompleted | RFailed | RCoalesced | RCancelled

definition coalesce :: "client \<Rightarrow> client" where
  "coalesce c = c\<lparr>cl_pending := True\<rparr>"

text \<open>What comes in while the rediscovery awaits.\<close>

definition arrive :: "client_env \<Rightarrow> client \<Rightarrow> client" where
  "arrive env c =
     fold (\<lambda>n c. snd (handle_with env coalesce n c)) (ce_arrivals env (cl_tick c)) (c\<lparr>cl_tick := Suc (cl_tick c)\<rparr>)"

definition own_task :: "nat option \<Rightarrow> PollScheduler \<Rightarrow> bool" where
  "own_task cur s = (case cur of None \<Rightarrow> False | Some t \<Rightarrow> t \<in> snd ` set (ps_tasks s))"

text \<open>\<open>_scheduler.cancel_all()\<close>, which cancels every poll task and waits for them: a caller that is
  one of these tasks is cancelled at this wait. Otherwise the scheduler is replaced, and the renewal task ends.\<close>

definition reset_polls :: "client_env \<Rightarrow> nat option \<Rightarrow> client \<Rightarrow> bool \<times> client" where
  "reset_polls env cur c =
     (let c1 = on_sched cancel_all_polls c
      in if own_task cur (cl_sched c) then (False, c1)
         else (True, (on_sched (fresh_scheduler env \<circ> clear_tasks) (arrive env c1))\<lparr>cl_renewing := False\<rparr>))"

definition reconcile_subscriptions :: "client_env \<Rightarrow> client \<Rightarrow> client" where
  "reconcile_subscriptions env c =
     (if cl_mgr c = None then c
      else
        let desired = compute_desired_subscriptions (cl_state c);
            c1 = (case find_agg_sub_href (cl_state c) of
                    Some h \<Rightarrow>
                      if desired \<noteq> {}
                      then arrive env (on_mgr (\<lambda>m. snd (reconcile_with_server (ce_sub env) h False m))
                             (arrive env (on_mgr (\<lambda>m. snd (reconcile (ce_sub env) h (iter_set (ce_pair_order env) desired) False m)) c)))
                      else arrive env (on_mgr (cancel_all (ce_sub env)) c)
                  | None \<Rightarrow> arrive env (on_mgr (cancel_all (ce_sub env)) c));
            c2 = update_poll_suppression env c1
        in case cl_mgr c2 of
             Some m \<Rightarrow> if active_subscriptions m \<noteq> [] then c2\<lparr>cl_renewing := True\<rparr> else c2
           | None \<Rightarrow> c2)"

definition resubscribe :: "client_env \<Rightarrow> client \<Rightarrow> client" where
  "resubscribe env c = (if cl_mgr c = None then c else update_poll_suppression env (arrive env (auto_subscribe env c)))"

text \<open>A walk of the pass; what comes in during the walk is handled before its result is.\<close>

definition pass_walk :: "client_env \<Rightarrow> 'a walk \<Rightarrow> ('a \<Rightarrow> client \<Rightarrow> http_error option \<times> client) \<Rightarrow> client \<Rightarrow> http_error option \<times> client" where
  "pass_walk env w k c =
     (case run_walk w c of (r, c1) \<Rightarrow>
        let c2 = arrive env c1 in case r of Inl e \<Rightarrow> (Some e, c2) | Inr x \<Rightarrow> k x c2)"

text \<open>The body of one pass, from the cleared state on.\<close>

definition finish_pass :: "client_env \<Rightarrow> string set \<Rightarrow> string list \<Rightarrow> client \<Rightarrow> http_error option \<times> client" where
  "finish_pass env previous pruned c =
     (let c1 = resubscribe env c;
          gone = (previous - fst ` set (der_programs (cl_state c1))) \<union> set pruned;
          c2 = cancel_programs env (iter_set (ce_name_order env) gone) c1
      in pass_walk env (ce_refresh_controls env) (\<lambda>_ c. (None, start_polls env (arrive env (process_all env c)))) c2)"

definition rebuild :: "client_env \<Rightarrow> string set \<Rightarrow> client \<Rightarrow> http_error option \<times> client" where
  "rebuild env previous c =
     (case run_walk (ce_discover env) (set_found (clear_state (cl_state c), cl_timebase c) c) of (r, c1) \<Rightarrow>
        let c2 = (arrive env c1)\<lparr>cl_ready := True\<rparr>
        in case r of
             Inl e \<Rightarrow> (Some e, c2)
           | Inr _ \<Rightarrow>
               pass_walk env (ce_refresh_fsa env {}) (\<lambda>_.
                 pass_walk env (ce_refresh_programs env) (finish_pass env previous)) (reconcile_subscriptions env c2))"

definition rediscovery_pass :: "client_env \<Rightarrow> nat option \<Rightarrow> client \<Rightarrow> rediscovery \<times> client" where
  "rediscovery_pass env cur c =
     (case reset_polls env cur (cl_log PassStarted (c\<lparr>cl_pending := False\<rparr>)) of
        (False, c1) \<Rightarrow> (RCancelled, c1)
      | (True, c1) \<Rightarrow>
          (case rebuild env (fst ` set (der_programs (cl_state c1))) (c1\<lparr>cl_ready := False\<rparr>) of
             (None, c2) \<Rightarrow> (RCompleted, c2)
           | (Some e, c2) \<Rightarrow> (RFailed, start_polls env (cl_log (ClientReported ''rediscovery:failed'') c2))))"

text \<open>The loop; the first argument is the number of passes left. Later passes find the caller's task no
  longer among those of the new scheduler.\<close>

fun rediscovery_loop :: "client_env \<Rightarrow> nat \<Rightarrow> nat option \<Rightarrow> client \<Rightarrow> rediscovery \<times> client" where
  "rediscovery_loop env 0 cur c = (RCompleted, c)"
| "rediscovery_loop env (Suc n) cur c =
     (case rediscovery_pass env cur c of
        (RCompleted, c1) \<Rightarrow>
          if \<not> cl_pending c1 then (RCompleted, c1)
          else if n = 0 then (RCompleted, cl_log (ClientReported ''rediscovery:max_passes'') (c1\<lparr>cl_pending := False\<rparr>))
          else rediscovery_loop env n None c1
      | (r, c1) \<Rightarrow> (r, c1))"

definition trigger_rediscovery :: "client_env \<Rightarrow> nat option \<Rightarrow> client \<Rightarrow> rediscovery \<times> client" where
  "trigger_rediscovery env cur c =
     (if cl_locked c then (RCoalesced, coalesce c)
      else case rediscovery_loop env MAX_REDISCOVERY_PASSES cur (c\<lparr>cl_locked := True\<rparr>) of (r, c1) \<Rightarrow>
        let c2 = c1\<lparr>cl_locked := False\<rparr>
        in (r, if r = RCompleted \<and> ce_on_rediscovered env then cl_log RediscoveredCalled c2 else c2))"

definition handle_notification :: "client_env \<Rightarrow> Notification \<Rightarrow> client \<Rightarrow> poll_result \<times> client" where
  "handle_notification env = handle_with env (\<lambda>c. snd (trigger_rediscovery env None c))"

section \<open>Recovery of polls\<close>

text \<open>A rediscovery from inside a poll: the \<open>CancelledError\<close> goes through, its result is ignored.\<close>

definition rediscover_in_poll :: "client_env \<Rightarrow> nat option \<Rightarrow> client \<Rightarrow> poll_result \<times> client" where
  "rediscover_in_poll env cur c =
     (case trigger_rediscovery env cur c of (r, c1) \<Rightarrow> (if r = RCancelled then PollCancelled else PollOk, c1))"

definition note_successful_contact :: "client_env \<Rightarrow> nat option \<Rightarrow> client \<Rightarrow> poll_result \<times> client" where
  "note_successful_contact env cur c =
     (if cl_failures c = 0 then (PollOk, c)
      else let recovered_after = cl_failures c; c1 = c\<lparr>cl_failures := 0\<rparr>
           in if recovered_after \<ge> SERVER_RESTART_DETECTION_THRESHOLD
              then rediscover_in_poll env cur
                     (((cl_log ReconnectCalled) ^^ ce_reconnect_callbacks env) (on_mgr clear_resubscribe_suppression c1))
              else (PollOk, auto_subscribe env c1))"

definition poll_with_404_recovery ::
  "client_env \<Rightarrow> nat option \<Rightarrow> (client \<Rightarrow> poll_result \<times> client) \<Rightarrow> client \<Rightarrow> poll_result \<times> client" where
  "poll_with_404_recovery env cur poll_fn c =
     (case poll_fn c of
        (PollOk, c1) \<Rightarrow> note_successful_contact env cur c1
      | (PollCancelled, c1) \<Rightarrow> (PollCancelled, c1)
      | (PollRaised e, c1) \<Rightarrow>
          (case e of
             NoContentError \<Rightarrow> note_successful_contact env cur c1
           | RedirectError _ \<Rightarrow> rediscover_in_poll env cur (c1\<lparr>cl_failures := 0\<rparr>)
           | ProtocolError n \<Rightarrow>
               if n = 404 then rediscover_in_poll env cur (c1\<lparr>cl_failures := 0\<rparr>)
               else (PollRaised e, c1\<lparr>cl_failures := Suc (cl_failures c1)\<rparr>)
           | PayloadError \<Rightarrow> (PollOk, c1\<lparr>cl_failures := Suc (cl_failures c1)\<rparr>)
           | TransportError _ \<Rightarrow> (PollRaised e, c1\<lparr>cl_failures := Suc (cl_failures c1)\<rparr>)))"

text \<open>\<open>_do_poll_dcap\<close>, with the adoption of a MirrorUsagePoint link that appears later.\<close>

definition do_poll_dcap :: "client_env \<Rightarrow> nat option \<Rightarrow> client \<Rightarrow> poll_result \<times> client" where
  "do_poll_dcap env cur c =
     (let c1 = c\<lparr>cl_tick := Suc (cl_tick c)\<rparr>
      in case ce_get_dcap env (cl_tick c) of
           Inl e \<Rightarrow> (PollRaised e, c1)
         | Inr dc \<Rightarrow>
             let c2 = set_found ((cl_state c1)\<lparr>ds_dcap := Some dc\<rparr>, cl_timebase c1) c1
             in if ds_mup_list_href (cl_state c2) = None \<and> extract_href (dc_mirror_usage_point_list_link dc) \<noteq> None
                then case ce_on_structural env of
                       None \<Rightarrow> (PollOk, c2)
                     | Some b \<Rightarrow> let c3 = cl_log StructuralChangeCalled c2 in if b then rediscover_in_poll env cur c3 else (PollOk, c3)
                else (PollOk, c2))"

definition connectivity_probe :: "client_env \<Rightarrow> client \<Rightarrow> poll_result \<times> client" where
  "connectivity_probe env c =
     (if ce_confirmed env (cl_tick c) then (PollOk, c)
      else let c1 = c\<lparr>cl_tick := Suc (cl_tick c)\<rparr>
           in case extract_href (ds_time_href (cl_state c)) of
                Some h \<Rightarrow>
                  (case ce_get_time env (cl_tick c) h of
                     Inl e \<Rightarrow> (PollRaised e, c1)
                   | Inr r \<Rightarrow> (PollOk, set_found (cl_state c1,
                       observe_time_resource (ce_clock env (cl_tick c)) (as_time r) None h (cl_timebase c1)) c1))
              | None \<Rightarrow> (case ce_get_dcap env (cl_tick c) of Inl e \<Rightarrow> (PollRaised e, c1) | Inr _ \<Rightarrow> (PollOk, c1)))"

text \<open>The callbacks of the scheduled polls, except the probe of \<open>Comms_Loss\<close>.\<close>

definition poll_callback :: "client_env \<Rightarrow> nat option \<Rightarrow> string \<Rightarrow> client \<Rightarrow> poll_result \<times> client" where
  "poll_callback env cur key =
     (if key = ''dcap'' then poll_with_404_recovery env cur (do_poll_dcap env cur)
      else if key = ''edev'' then poll_with_404_recovery env cur (do_poll_edev env)
      else if key = ''fsa'' then poll_with_404_recovery env cur (do_poll_fsa env)
      else if key = ''derp'' then poll_with_404_recovery env cur (do_poll_derp env)
      else if key = ''tariff'' then poll_with_404_recovery env cur (do_poll_tariff env)
      else if key = ''time'' then poll_with_404_recovery env cur (do_poll_time env)
      else if key = ''connectivity'' then connectivity_probe env
      else if key = ''sub'' then (\<lambda>c. (PollOk, poll_sub_reconcile env c))
      else Pair PollOk)"

section \<open>Start and end\<close>

definition connect :: "client_env \<Rightarrow> client \<Rightarrow> poll_result \<times> client" where
  "connect env =
     after_walk (ce_discover env) (\<lambda>_ c.
       (PollOk,
        if cl_mgr c = None then c
        else let c1 = on_mgr (\<lambda>m. if active_subscriptions m \<noteq> [] then snd (validate_restored_subscriptions (ce_sub env) m) else m) c;
                 c2 = update_poll_suppression env (auto_subscribe env c1)
             in case cl_mgr c2 of
                  Some m \<Rightarrow> if active_subscriptions m \<noteq> [] then c2\<lparr>cl_renewing := True\<rparr> else c2
                | None \<Rightarrow> c2))"

text \<open>\<open>run\<close> up to its wait for the shutdown.\<close>

definition run_client :: "client_env \<Rightarrow> client \<Rightarrow> client" where
  "run_client env c = start_polls env (process_all env c)"

definition shutdown_client :: "client_env \<Rightarrow> client \<Rightarrow> client" where
  "shutdown_client env c =
     (let c1 = on_mgr (cancel_all (ce_sub env)) (c\<lparr>cl_renewing := False\<rparr>);
          c2 = c1\<lparr>cl_proc := shutdown (cl_proc c1), cl_tariff := tariff_shutdown (cl_tariff c1)\<rparr>
      in on_sched (clear_tasks \<circ> cancel_all_polls) c2)"

end
