(* ===== verification/Client_Props.thy ===== *)
theory Client_Props
  imports Client_Driver
begin

text \<open>
  What the client promises: how a rediscovery ends and what it leaves armed, which polls are
  suppressed, what a poll of the time reports, and what happens to notifications meanwhile.
\<close>

section \<open>Frames\<close>

lemma client_frames [simp]:
  "cl_state (cl_log e c) = cl_state c" "cl_state (on_mgr f c) = cl_state c" "cl_state (on_sched g c) = cl_state c"
  "cl_sched (cl_log e c) = cl_sched c" "cl_sched (on_mgr f c) = cl_sched c" "cl_sched (on_sched g c) = g (cl_sched c)"
  "cl_mgr (cl_log e c) = cl_mgr c" "cl_mgr (on_mgr f c) = map_option f (cl_mgr c)" "cl_mgr (on_sched g c) = cl_mgr c"
  "cl_locked (cl_log e c) = cl_locked c" "cl_locked (on_mgr f c) = cl_locked c" "cl_locked (on_sched g c) = cl_locked c"
  "cl_pending (cl_log e c) = cl_pending c" "cl_pending (on_mgr f c) = cl_pending c" "cl_pending (on_sched g c) = cl_pending c"
  "cl_trace (cl_log e c) = cl_trace c @ [e]" "cl_trace (on_mgr f c) = cl_trace c" "cl_trace (on_sched g c) = cl_trace c"
  "cl_proc (cl_log e c) = cl_proc c" "cl_proc (on_mgr f c) = cl_proc c" "cl_proc (on_sched g c) = cl_proc c"
  "cl_tariff (cl_log e c) = cl_tariff c" "cl_tariff (on_mgr f c) = cl_tariff c" "cl_tariff (on_sched g c) = cl_tariff c"
  "cl_ready (cl_log e c) = cl_ready c" "cl_ready (on_mgr f c) = cl_ready c" "cl_ready (on_sched g c) = cl_ready c"
  by (simp_all add: cl_log_def on_mgr_def on_sched_def cl_state_def)

lemma found_frames [simp]:
  "cl_state (set_found f c) = fst f" "cl_timebase (set_found f c) = snd f" "cl_sched (set_found f c) = cl_sched c"
  "cl_mgr (set_found f c) = cl_mgr c" "cl_locked (set_found f c) = cl_locked c" "cl_pending (set_found f c) = cl_pending c"
  "cl_trace (set_found f c) = cl_trace c" "cl_ready (set_found f c) = cl_ready c"
  by (simp_all add: set_found_def cl_state_def cl_timebase_def)

lemma state_upd [simp]:
  "cl_state (c\<lparr>cl_mgr := m\<rparr>) = cl_state c" "cl_state (c\<lparr>cl_sched := s\<rparr>) = cl_state c" "cl_state (c\<lparr>cl_failures := n\<rparr>) = cl_state c"
  "cl_state (c\<lparr>cl_locked := b\<rparr>) = cl_state c" "cl_state (c\<lparr>cl_pending := b\<rparr>) = cl_state c" "cl_state (c\<lparr>cl_warned := b\<rparr>) = cl_state c"
  "cl_state (c\<lparr>cl_renewing := b\<rparr>) = cl_state c" "cl_state (c\<lparr>cl_ready := b\<rparr>) = cl_state c" "cl_state (c\<lparr>cl_tick := n\<rparr>) = cl_state c"
  by (simp_all add: cl_state_def)

section \<open>A rediscovery that starts in a poll\<close>

lemma cancel_coro_tasks [simp]:
  "ps_tasks (cancel_coro t s) = ps_tasks s" "ps_shutdown (cancel_coro t s) = ps_shutdown s" "ps_suppressed (cancel_coro t s) = ps_suppressed s"
  by (simp_all add: cancel_coro_def upd_coro_def split: option.split)

lemma fold_cancel_tasks [simp]:
  "ps_tasks (fold cancel_coro ts s) = ps_tasks s" "ps_shutdown (fold cancel_coro ts s) = ps_shutdown s"
  "ps_suppressed (fold cancel_coro ts s) = ps_suppressed s"
  by (induction ts arbitrary: s) auto

lemma cancel_coro_cancelled:
  "map_of (ps_coros (cancel_coro t s)) t' = Some co \<Longrightarrow>
     t' = t \<or> (\<forall>co'. map_of (ps_coros s) t' = Some co' \<longrightarrow> co_cancelled co') \<Longrightarrow> co_cancelled co"
  by (auto simp: cancel_coro_def upd_coro_def split: option.splits if_splits)

lemma fold_cancel_cancelled:
  assumes "t \<in> set ts \<or> (\<forall>co. map_of (ps_coros s) t = Some co \<longrightarrow> co_cancelled co)"
    "map_of (ps_coros (fold cancel_coro ts s)) t = Some co"
  shows "co_cancelled co"
  using assms
proof (induction ts arbitrary: s)
  case (Cons u ts)
  have "t \<in> set ts \<or> (\<forall>co. map_of (ps_coros (cancel_coro u s)) t = Some co \<longrightarrow> co_cancelled co)"
    using Cons.prems(1) cancel_coro_cancelled [of u s t] by auto
  then show ?case using Cons.IH Cons.prems(2) by simp
qed simp

text \<open>A scheduler that polls no more: it is shut down and all its tasks are cancelled.\<close>

definition dead_polls :: "PollScheduler \<Rightarrow> bool" where
  "dead_polls s \<longleftrightarrow> ps_shutdown s \<and> (\<forall>t \<in> snd ` set (ps_tasks s). \<forall>co. map_of (ps_coros s) t = Some co \<longrightarrow> co_cancelled co)"

lemma dead_cancel_all: "dead_polls (cancel_all_polls s)"
  using fold_cancel_cancelled [of _ "map snd (ps_tasks s)" "s\<lparr>ps_shutdown := True\<rparr>"]
  by (auto simp: dead_polls_def cancel_all_polls_def)

lemma own_task_cancelled:
  assumes "t \<in> snd ` set (ps_tasks (cl_sched c))" "\<not> cl_locked c"
  shows "trigger_rediscovery env (Some t) c =
     (RCancelled, (cl_log PassStarted (c\<lparr>cl_pending := False\<rparr>))\<lparr>cl_sched := cancel_all_polls (cl_sched c), cl_locked := False\<rparr>)"
proof -
  have m: "MAX_REDISCOVERY_PASSES = Suc 4" by (simp add: MAX_REDISCOVERY_PASSES_def)
  show ?thesis
    using assms unfolding trigger_rediscovery_def m rediscovery_loop.simps
    by (simp add: rediscovery_pass_def reset_polls_def own_task_def Let_def cl_log_def on_sched_def)
qed

text \<open>Whether the outcome of a poll makes the recovery rediscover.\<close>

definition asks_rediscovery :: "poll_result \<Rightarrow> client \<Rightarrow> bool" where
  "asks_rediscovery r c \<longleftrightarrow>
     r = PollRaised (ProtocolError 404) \<or> (\<exists>l. r = PollRaised (RedirectError l)) \<or>
     r \<in> {PollOk, PollRaised NoContentError} \<and> cl_failures c \<ge> SERVER_RESTART_DETECTION_THRESHOLD"

lemma reconnect_log_frames [simp]:
  "cl_sched (((cl_log ReconnectCalled) ^^ n) c) = cl_sched c" "cl_locked (((cl_log ReconnectCalled) ^^ n) c) = cl_locked c"
  "cl_state (((cl_log ReconnectCalled) ^^ n) c) = cl_state c"
  by (induction n) auto

text \<open>
  C7. A rediscovery that a scheduled poll asks for (its resource is gone or has moved, or the
  server is back after at least three failures) never happens. It begins by cancelling every poll task,
  which includes the one it runs in: the poll ends cancelled, nothing is rediscovered, and the client
  is left with a scheduler that is shut down and whose tasks are all cancelled.
\<close>

theorem rediscovery_in_poll_ends_polling:
  assumes "poll_fn c = (r, c1)" "asks_rediscovery r c1" "\<not> cl_locked c1" "t \<in> snd ` set (ps_tasks (cl_sched c1))"
  shows "\<exists>c'. poll_with_404_recovery env (Some t) poll_fn c = (PollCancelled, c') \<and> cl_state c' = cl_state c1 \<and>
     dead_polls (cl_sched c') \<and> map fst (ps_tasks (cl_sched c')) = map fst (ps_tasks (cl_sched c1))"
proof -
  have gone: "\<exists>c'. rediscover_in_poll env (Some t) c2 = (PollCancelled, c') \<and> cl_state c' = cl_state c1 \<and>
      dead_polls (cl_sched c') \<and> map fst (ps_tasks (cl_sched c')) = map fst (ps_tasks (cl_sched c1))"
    if "cl_sched c2 = cl_sched c1" "\<not> cl_locked c2" "cl_state c2 = cl_state c1" for c2
    using own_task_cancelled [of t c2 env] that assms(4) dead_cancel_all [of "cl_sched c1"]
    by (simp add: rediscover_in_poll_def cancel_all_polls_def)
  have thr: "0 < SERVER_RESTART_DETECTION_THRESHOLD" by (simp add: SERVER_RESTART_DETECTION_THRESHOLD_def)
  have contact: "note_successful_contact env (Some t) c1 = rediscover_in_poll env (Some t)
      (((cl_log ReconnectCalled) ^^ ce_reconnect_callbacks env) (on_mgr clear_resubscribe_suppression (c1\<lparr>cl_failures := 0\<rparr>)))"
    if "cl_failures c1 \<ge> SERVER_RESTART_DETECTION_THRESHOLD"
    using that thr by (simp add: note_successful_contact_def Let_def)
  show ?thesis
    using assms(1-3) unfolding asks_rediscovery_def poll_with_404_recovery_def
    by (auto simp: contact intro!: gone)
qed

section \<open>What a rediscovery leaves alone\<close>

definition passes :: "client \<Rightarrow> nat" where
  "passes c = length (filter (\<lambda>e. e = PassStarted) (cl_trace c))"

text \<open>Handlers and walks keep the lock, the passes made and the tasks of the scheduler; they may set the
  pending flag.\<close>

definition steady :: "client \<Rightarrow> client \<Rightarrow> bool" where
  "steady c c' \<longleftrightarrow> cl_locked c' = cl_locked c \<and> passes c' = passes c \<and> cl_ready c' = cl_ready c \<and>
     (cl_pending c \<longrightarrow> cl_pending c') \<and> (\<exists>S. cl_sched c' = (cl_sched c)\<lparr>ps_suppressed := S\<rparr>)"

interpretation steady: step_contract steady
proof unfold_locales
  show "steady c c" for c unfolding steady_def by (auto intro: exI [of _ "ps_suppressed (cl_sched c)"])
  show "steady a c" if "steady a b" "steady b c" for a b c
  proof -
    obtain S T where "cl_sched b = (cl_sched a)\<lparr>ps_suppressed := S\<rparr>" "cl_sched c = (cl_sched b)\<lparr>ps_suppressed := T\<rparr>"
      using \<open>steady a b\<close> \<open>steady b c\<close> unfolding steady_def by blast
    then have "cl_sched c = (cl_sched a)\<lparr>ps_suppressed := T\<rparr>" by simp
    then show ?thesis using \<open>steady a b\<close> \<open>steady b c\<close> unfolding steady_def by metis
  qed
qed

lemma steadyI:
  assumes "cl_locked c' = cl_locked c" "passes c' = passes c" "cl_ready c' = cl_ready c" "cl_pending c \<Longrightarrow> cl_pending c'" "cl_sched c' = cl_sched c"
  shows "steady c c'"
proof -
  have "cl_sched c' = (cl_sched c)\<lparr>ps_suppressed := ps_suppressed (cl_sched c)\<rparr>" using assms(5) by simp
  then show ?thesis using assms(1-4) unfolding steady_def by blast
qed

lemma steady_basic [intro]:
  "steady c (on_mgr f c)" "steady c (set_found fd c)" "e \<noteq> PassStarted \<Longrightarrow> steady c (cl_log e c)" "steady c (coalesce c)"
  "steady c (c\<lparr>cl_tick := n\<rparr>)" "steady c (c\<lparr>cl_renewing := b\<rparr>)" "steady c (c\<lparr>cl_mgr := m\<rparr>)" "steady c (c\<lparr>cl_warned := b\<rparr>)"
  "steady c (c\<lparr>cl_warned := b, cl_mgr := m\<rparr>)" "steady c (c\<lparr>cl_proc := p\<rparr>)" "steady c (c\<lparr>cl_tariff := t\<rparr>)" "steady c (c\<lparr>cl_pending := True\<rparr>)"
  by (rule steadyI; simp add: passes_def on_mgr_def set_found_def cl_log_def coalesce_def)+

lemma fold_suppress: "fold suppress ks s = s\<lparr>ps_suppressed := ps_suppressed s \<union> set ks\<rparr>"
  by (induction ks arbitrary: s) (simp_all add: suppress_def)

lemma fold_unsuppress:
  "fold (\<lambda>k s. if P k then unsuppress k s else s) ks s = s\<lparr>ps_suppressed := ps_suppressed s - {k \<in> set ks. P k}\<rparr>"
  by (induction ks arbitrary: s) (auto simp: unsuppress_def intro!: arg_cong [of _ _ "\<lambda>S. _\<lparr>ps_suppressed := S\<rparr>"])

lemma suppression_sched:
  "cl_mgr c = Some m \<Longrightarrow> update_poll_suppression env c =
     on_sched (\<lambda>s. s\<lparr>ps_suppressed := (ps_suppressed s \<union> set (iter_set (ce_name_order env) (suppressed_poll_keys c m)))
                      - {k \<in> snd ` set RESOURCE_TYPE_TO_POLL_KEY. k \<notin> suppressed_poll_keys c m}\<rparr>) c"
  by (simp add: update_poll_suppression_def Let_def fold_suppress fold_unsuppress)

lemma steady_suppression [intro]: "steady c (update_poll_suppression env c)"
proof (cases "cl_mgr c")
  case (Some m)
  show ?thesis unfolding suppression_sched [OF Some] by (auto simp: on_sched_def steady_def passes_def)
qed (simp add: update_poll_suppression_def)

lemma steady_walk: "run_walk w c = (r, c') \<Longrightarrow> steady c c'"
  using steady.trans [OF steady_basic(5) steady_basic(2)] by (auto simp: run_walk_def split: prod.splits)

lemma steady_after_walk:
  assumes "\<And>x c. steady c (snd (k x c))"
  shows "steady c (snd (after_walk w k c))"
  using steady_walk [of w c] steady.trans assms by (auto simp: after_walk_def split: prod.split sum.split)

lemma steady_cancel [intro]: "steady c (cancel_programs env ps c)" "steady c (process_all env c)"
  by (auto simp: cancel_programs_def process_all_def)

lemma steady_polls [intro]: "steady c (snd (do_poll_derp env c))" "steady c (snd (do_poll_tariff env c))"
proof -
  have "steady c (snd (after_walk (ce_refresh_controls env) (\<lambda>_ c. (PollOk, process_all env c)) (cancel_programs env ps c)))" for ps c
    by (rule steady.trans [OF steady_cancel(1) steady_after_walk]) auto
  then show "steady c (snd (do_poll_derp env c))" unfolding do_poll_derp_def by (intro steady_after_walk)
  show "steady c (snd (do_poll_tariff env c))" unfolding do_poll_tariff_def by (rule steady_after_walk) auto
qed

lemma steady_targeted [intro]: "steady c (snd (do_poll_derp_targeted env r c))"
  using steady_walk [of "ce_refresh_controls_for env p" c for p] steady.trans [OF steady_walk steady_basic(10)]
  by (auto simp: do_poll_derp_targeted_def split: option.split prod.split sum.split bool.split)

lemma steady_structural: "(\<And>c. steady c (redo c)) \<Longrightarrow> steady c (structural_change env redo c)"
  using steady.trans [OF steady_basic(3)] by (auto simp: structural_change_def Let_def split: option.split)

lemma steady_route:
  assumes "\<And>c. steady c (redo c)"
  shows "steady c (snd (route_default_notification env redo r rt c))"
proof -
  let ?c = "on_mgr (record_notification_ancestry (ce_wall env c) r) c"
  have t: "steady c (snd (do_poll_derp_targeted env r ?c))" by (blast intro: steady.trans)
  then have "steady c (snd (do_poll_derp env (snd (do_poll_derp_targeted env r ?c))))" by (blast intro: steady.trans)
  then show ?thesis
    using t steady_structural [OF assms] steady_polls [of c env]
    by (auto simp: route_default_notification_def split: prod.split sum.split bool.split)
qed

lemma steady_handle:
  assumes redo: "\<And>c. steady c (redo c)"
  shows "steady c (snd (handle_with env redo n c))"
proof (cases "cl_mgr c")
  case (Some m)
  obtain dup c1 where d: "check_duplicate env n m c = (dup, c1)" by fastforce
  then have c1: "steady c c1" by (auto simp: check_duplicate_def split: prod.splits if_splits)
  note go = steady.trans [OF c1]
  have upd: "steady c (update_poll_suppression env (on_mgr f c1))" for f
    by (rule go [OF steady.trans [OF steady_basic(1) steady_suppression]])
  have route: "steady c (snd (route_default_notification env redo r rt (on_mgr f c1)))" for r rt f
    by (rule go [OF steady.trans [OF steady_basic(1) steady_route]]) (rule redo)
  have sc: "steady c (structural_change env redo c2)" if "steady c c2" for c2
    by (rule steady.trans [OF that steady_structural]) (rule redo)
  have del: "steady c (handle_resource_deleted env redo r c2)" if "steady c c2" for c2 r
    using sc [OF that] that steady.trans [OF that steady_basic(3) [of "DeviceRemovedCalled r"]]
    by (simp add: handle_resource_deleted_def Let_def)
  have pend: "steady c (c1\<lparr>cl_pending := True\<rparr>)" by (rule go [OF steady_basic(12)])
  show ?thesis
    using Some d upd route sc del pend c1 steady.trans [OF upd steady_basic(1)]
    by (simp add: handle_with_def Let_def split: option.split)
qed (simp add: handle_with_def)

lemma steady_arrive [intro]: "steady c (arrive env c)"
  unfolding arrive_def
  by (rule steady.trans [OF steady_basic(5) steady.fold_step]) (auto intro: steady_handle)

section \<open>Arming the polls\<close>

text \<open>A running scheduler whose live tasks are those of the keys \<open>K\<close>.\<close>

definition arms :: "string set \<Rightarrow> PollScheduler \<Rightarrow> bool" where
  "arms K s \<longleftrightarrow> \<not> ps_shutdown s \<and> fst ` set (ps_tasks s) = K \<and>
     (\<forall>(k, t) \<in> set (ps_tasks s). t < ps_next s \<and> (\<exists>co. map_of (ps_coros s) t = Some co \<and> co_pc co \<noteq> coro_pc.Finished))"

lemma arms_keys: "arms K s \<Longrightarrow> set (active_keys s) = K"
  by (force simp: arms_def active_keys_def)

lemma dset_set: "set (dset k v d) \<subseteq> insert (k, v) (set d)" "fst ` set (dset k v d) = insert k (fst ` set d)"
  by (induction d) (auto simp: dset_def)

lemma arms_cancel: "arms K s \<Longrightarrow> arms K (cancel_coro t s)"
  by (force simp: arms_def cancel_coro_def upd_coro_def split: option.splits)

lemma arms_schedule:
  assumes "arms K s"
  shows "arms (insert k K) (schedule k r s)"
proof -
  define s1 where "s1 = ensure_lock k (case map_of (ps_tasks s) k of None \<Rightarrow> s | Some c \<Rightarrow> cancel_coro c s)"
  have "arms K s1" using assms arms_cancel by (auto simp: s1_def ensure_lock_def arms_def split: option.split)
  moreover have "ps_tasks (schedule k r s) = dset k (ps_next s1) (ps_tasks s1)" "ps_shutdown (schedule k r s) = ps_shutdown s1"
    "ps_next (schedule k r s) = Suc (ps_next s1)"
    "ps_coros (schedule k r s) = dset (ps_next s1) \<lparr>co_key = k, co_loop = True, co_pc = AtTop, co_cancelled = False\<rparr> (ps_coros s1)"
    by (simp_all add: schedule_def s1_def Let_def spawn_def)
  moreover have "t < Suc (ps_next s1) \<and> (\<exists>co. map_of (ps_coros (schedule k r s)) t = Some co \<and> co_pc co \<noteq> coro_pc.Finished)"
    if "(k', t) \<in> set (dset k (ps_next s1) (ps_tasks s1))" "arms K s1" for k' t
  proof (cases "(k', t) = (k, ps_next s1)")
    case False
    then have "(k', t) \<in> set (ps_tasks s1)" using that(1) dset_set(1) by fast
    then show ?thesis using that(2) calculation(5) by (force simp: arms_def)
  qed (simp add: calculation(5))
  ultimately show ?thesis unfolding arms_def by (simp add: dset_set(2)) fastforce
qed

lemma schedule_if_frames [simp]:
  "cl_state (schedule_if k r c) = cl_state c" "cl_mgr (schedule_if k r c) = cl_mgr c" "cl_locked (schedule_if k r c) = cl_locked c"
  "cl_pending (schedule_if k r c) = cl_pending c" "cl_trace (schedule_if k r c) = cl_trace c" "cl_ready (schedule_if k r c) = cl_ready c"
  "cl_tariff (schedule_if k r c) = cl_tariff c" "poll_rate k' (schedule_if k r c) = poll_rate k' c"
  "sub_poll_rate env (schedule_if k r c) = sub_poll_rate env c" "tariff_rate (schedule_if k r c) = tariff_rate c"
  by (simp_all add: schedule_if_def poll_rate_def sub_poll_rate_def tariff_rate_def Let_def split: option.split)

text \<open>The polls the settings and the discovered state call for, with their intervals.\<close>

definition poll_table :: "client_env \<Rightarrow> client \<Rightarrow> (string \<times> int option) list" where
  "poll_table env c =
     [(''dcap'', poll_rate ''dcap'' c), (''edev'', poll_rate ''edev'' c), (''fsa'', poll_rate ''fsa'' c), (''derp'', poll_rate ''derp'' c),
      (''tariff'', if pricing_enabled (cl_state c) then Some (tariff_rate c) else None), (''time'', poll_rate ''time'' c),
      (''connectivity'', if ce_connection_heartbeat env > 0 then Some (ce_connection_heartbeat env) else None),
      (''comms_loss'', if ce_comms_loss env > 0 then Some (ce_comms_eval env) else None),
      (''sub'', if ce_reconcile env \<and> cl_mgr c \<noteq> None then sub_poll_rate env c else None)]"

definition wanted_keys :: "client_env \<Rightarrow> client \<Rightarrow> string set" where
  "wanted_keys env c = fst ` {e \<in> set (poll_table env c). snd e \<noteq> None}"

lemma wanted_subset: "(\<And>e. e \<in> set (poll_table env c) \<Longrightarrow> snd e = None \<or> fst e \<in> A) \<Longrightarrow> wanted_keys env c \<subseteq> A"
  unfolding wanted_keys_def by (rule image_subsetI) (metis (mono_tags, lifting) mem_Collect_eq)

definition schedule_each :: "(string \<times> int option) list \<Rightarrow> PollScheduler \<Rightarrow> PollScheduler" where
  "schedule_each = fold (\<lambda>(k, r) s. case r of None \<Rightarrow> s | Some i \<Rightarrow> schedule k i s)"

lemma arms_schedule_each: "arms J s \<Longrightarrow> arms (J \<union> fst ` {e \<in> set es. snd e \<noteq> None}) (schedule_each es s)"
proof (induction es arbitrary: J s)
  case (Cons e es)
  obtain k r where e: "e = (k, r)" by fastforce
  have keys: "fst ` {x \<in> set (e # es). snd x \<noteq> None} = (if r = None then {} else {k}) \<union> fst ` {x \<in> set es. snd x \<noteq> None}"
    unfolding e by (cases r) force+
  have "arms (J \<union> (if r = None then {} else {k})) (case r of None \<Rightarrow> s | Some i \<Rightarrow> schedule k i s)"
    using Cons.prems arms_schedule [OF Cons.prems, of k] by (cases r) auto
  from Cons.IH [OF this] show ?case unfolding keys Un_assoc [symmetric] by (simp add: e schedule_each_def)
qed (simp add: schedule_each_def)

lemma sched_schedule_if: "cl_sched (schedule_if k r c) = (case r of None \<Rightarrow> cl_sched c | Some i \<Rightarrow> schedule k i (cl_sched c))"
  by (simp add: schedule_if_def split: option.split)

lemma time_rate_frames [simp]:
  "cl_state (note_time_rate c) = cl_state c" "cl_mgr (note_time_rate c) = cl_mgr c" "cl_locked (note_time_rate c) = cl_locked c"
  "cl_pending (note_time_rate c) = cl_pending c" "cl_trace (note_time_rate c) = cl_trace c" "cl_ready (note_time_rate c) = cl_ready c"
  "cl_sched (note_time_rate c) = cl_sched c" "poll_rate k (note_time_rate c) = poll_rate k c"
  "sub_poll_rate env (note_time_rate c) = sub_poll_rate env c"
  by (simp_all add: note_time_rate_def poll_rate_def sub_poll_rate_def cl_state_def Let_def split: option.split)

lemma start_polls_frames [simp]:
  "cl_state (start_polls env c) = cl_state c" "cl_mgr (start_polls env c) = cl_mgr c" "cl_locked (start_polls env c) = cl_locked c"
  "cl_pending (start_polls env c) = cl_pending c" "cl_trace (start_polls env c) = cl_trace c" "cl_ready (start_polls env c) = cl_ready c"
  by (simp_all add: start_polls_def Let_def)

lemma wanted_cong: "cl_state c' = cl_state c \<Longrightarrow> cl_mgr c' = cl_mgr c \<Longrightarrow> wanted_keys env c' = wanted_keys env c"
proof -
  assume "cl_state c' = cl_state c" "cl_mgr c' = cl_mgr c"
  moreover then have "poll_rate k c' = poll_rate k c" "sub_poll_rate env c' = sub_poll_rate env c" "tariff_rate c' = tariff_rate c" for k
    by (simp_all add: poll_rate_def sub_poll_rate_def tariff_rate_def Let_def)
  ultimately show ?thesis by (simp only: wanted_keys_def poll_table_def)
qed

lemma start_polls_sched: "cl_sched (start_polls env c) = schedule_each (poll_table env c) (cl_sched c)"
  unfolding start_polls_def Let_def fold.simps comp_apply id_apply schedule_if_frames time_rate_frames sched_schedule_if
    schedule_each_def poll_table_def prod.case ..

lemma start_polls_arms:
  assumes "ps_tasks (cl_sched c) = []" "\<not> ps_shutdown (cl_sched c)"
  shows "arms (wanted_keys env (start_polls env c)) (cl_sched (start_polls env c))"
proof -
  have "arms {} (cl_sched c)" using assms by (simp add: arms_def)
  from arms_schedule_each [OF this, of "poll_table env c"] show ?thesis
    unfolding wanted_cong [OF start_polls_frames(1,2)] unfolding start_polls_sched wanted_keys_def by simp
qed

section \<open>How a rediscovery ends\<close>

definition unarmed :: "client \<Rightarrow> bool" where
  "unarmed c \<longleftrightarrow> ps_tasks (cl_sched c) = [] \<and> \<not> ps_shutdown (cl_sched c)"

lemma unarmed_steady: "steady c c' \<Longrightarrow> unarmed c \<Longrightarrow> unarmed c'"
  by (auto simp: steady_def unarmed_def)

text \<open>The end of a pass: with the polls armed, or with an error and nothing armed yet.\<close>

definition ended :: "client_env \<Rightarrow> client \<Rightarrow> http_error option \<times> client \<Rightarrow> bool" where
  "ended env c ec \<longleftrightarrow>
     (case ec of (e, c') \<Rightarrow>
        cl_locked c' = cl_locked c \<and> passes c' = passes c \<and> cl_ready c' = cl_ready c \<and>
        (if e = None then arms (wanted_keys env c') (cl_sched c') else unarmed c'))"

lemma ended_steady: "steady c c1 \<Longrightarrow> ended env c1 ec \<Longrightarrow> ended env c ec"
  by (auto simp: steady_def ended_def split: prod.splits if_splits)

lemma ended_error: "unarmed c \<Longrightarrow> ended env c (Some e, c)"
  by (simp add: ended_def)

lemma ended_pass_walk:
  assumes "\<And>x c. unarmed c \<Longrightarrow> ended env c (k x c)" "unarmed c"
  shows "ended env c (pass_walk env w k c)"
proof -
  obtain r c1 where w: "run_walk w c = (r, c1)" by fastforce
  have s: "steady c (arrive env c1)" by (rule steady.trans [OF steady_walk [OF w] steady_arrive])
  have i: "unarmed (arrive env c1)" by (rule unarmed_steady [OF s assms(2)])
  have "ended env (arrive env c1) (case r of Inl e \<Rightarrow> (Some e, arrive env c1) | Inr x \<Rightarrow> k x (arrive env c1))"
    using assms(1) [OF i] ended_error [OF i] by (cases r) auto
  then show ?thesis using ended_steady [OF s] w by (simp add: pass_walk_def Let_def)
qed

lemma steady_auto_subscribe [intro]: "steady c (auto_subscribe env c)"
  by (auto simp: auto_subscribe_def split: option.split)

lemma steady_resubscribe [intro]: "steady c (resubscribe env c)"
  unfolding resubscribe_def
  by (auto intro!: steady.trans [OF steady.trans [OF steady_auto_subscribe steady_arrive] steady_suppression])

lemma steady_mgr_arrive: "steady c (arrive env (on_mgr f c))"
  by (rule steady.trans [OF steady_basic(1) steady_arrive])

lemma steady_renewing: "steady c c' \<Longrightarrow> steady c (c'\<lparr>cl_renewing := b\<rparr>)"
  by (rule steady.trans [OF _ steady_basic(6)])

lemma steady_reconcile [intro]: "steady c (reconcile_subscriptions env c)"
proof -
  have up: "steady c c1 \<Longrightarrow> steady c (update_poll_suppression env c1)" for c1
    by (rule steady.trans [OF _ steady_suppression])
  have twice: "steady c (arrive env (on_mgr g (arrive env (on_mgr f c))))" for f g
    by (rule steady.trans [OF steady_mgr_arrive steady_mgr_arrive])
  show ?thesis
    using up [OF twice] up [OF steady_mgr_arrive] steady_renewing [OF up [OF twice]] steady_renewing [OF up [OF steady_mgr_arrive]]
    by (simp add: reconcile_subscriptions_def Let_def split: option.split)
qed

lemma ended_start_polls: "unarmed c \<Longrightarrow> steady d c \<Longrightarrow> ended env d (None, start_polls env c)"
  using start_polls_arms [of c env] by (auto simp: unarmed_def ended_def steady_def passes_def)

lemma ended_finish: "unarmed c \<Longrightarrow> ended env c (finish_pass env prev pruned c)"
proof -
  assume i: "unarmed c"
  let ?c1 = "resubscribe env c"
  let ?c2 = "cancel_programs env (iter_set (ce_name_order env) ((prev - fst ` set (der_programs (cl_state ?c1))) \<union> set pruned)) ?c1"
  have s: "steady c ?c2" by (rule steady.trans [OF steady_resubscribe steady_cancel(1)])
  have last: "ended env d (None, start_polls env (arrive env (process_all env d)))" if "unarmed d" for d
    using steady.trans [OF steady_cancel(2) steady_arrive, of d env env] unarmed_steady that ended_start_polls by blast
  show ?thesis
    unfolding finish_pass_def Let_def
    by (rule ended_steady [OF s ended_pass_walk]) (use unarmed_steady [OF s i] last in auto)
qed

lemma ended_rebuild:
  assumes "unarmed c"
  shows "ended env (c\<lparr>cl_ready := True\<rparr>) (rebuild env prev c)"
proof -
  let ?c0 = "set_found (clear_state (cl_state c), cl_timebase c) c"
  obtain r c1 where w: "run_walk (ce_discover env) ?c0 = (r, c1)" by fastforce
  have "steady c (arrive env c1)"
    by (rule steady.trans [OF steady_basic(2) steady.trans [OF steady_walk [OF w] steady_arrive]])
  then have s: "steady (c\<lparr>cl_ready := True\<rparr>) ((arrive env c1)\<lparr>cl_ready := True\<rparr>)" by (auto simp: steady_def passes_def)
  then have i: "unarmed ((arrive env c1)\<lparr>cl_ready := True\<rparr>)" using unarmed_steady [OF s] assms by (simp add: unarmed_def)
  have go: "ended env ((arrive env c1)\<lparr>cl_ready := True\<rparr>)
      (pass_walk env (ce_refresh_fsa env {}) (\<lambda>_. pass_walk env (ce_refresh_programs env) (finish_pass env prev))
        (reconcile_subscriptions env ((arrive env c1)\<lparr>cl_ready := True\<rparr>)))"
    by (rule ended_steady [OF steady_reconcile [of _ env]])
      (intro ended_pass_walk ended_finish unarmed_steady [OF steady_reconcile i])
  show ?thesis
    using w ended_steady [OF s go] ended_steady [OF s ended_error [OF i]] by (simp add: rebuild_def Let_def split: sum.split)
qed

definition sound_settings :: "client_env \<Rightarrow> bool" where
  "sound_settings env \<longleftrightarrow> (case ce_heartbeat_seconds env of None \<Rightarrow> True | Some h \<Rightarrow> h > 0)"

lemma reset_polls_spec:
  assumes "sound_settings env" "\<not> own_task cur (cl_sched c)" "reset_polls env cur c = (ok, c')"
  shows "ok \<and> unarmed c' \<and> cl_locked c' = cl_locked c \<and> passes c' = passes c"
proof -
  have fresh: "ps_tasks (fresh_scheduler env s) = [] \<and> \<not> ps_shutdown (fresh_scheduler env s)" for s
    using assms(1) by (auto simp: fresh_scheduler_def new_scheduler_def sound_settings_def split: option.splits)
  have "steady (on_sched cancel_all_polls c) (arrive env (on_sched cancel_all_polls c))" by blast
  then show ?thesis
    using assms(2,3) fresh by (auto simp: reset_polls_def Let_def unarmed_def steady_def passes_def on_sched_def)
qed

text \<open>One pass outside of any poll task.\<close>

lemma rediscovery_pass_spec:
  assumes "sound_settings env" "\<not> own_task cur (cl_sched c)" "rediscovery_pass env cur c = (r, c')"
  shows "r \<in> {RCompleted, RFailed} \<and> cl_locked c' = cl_locked c \<and> cl_ready c' \<and> passes c' = Suc (passes c) \<and>
     arms (wanted_keys env c') (cl_sched c')"
proof -
  let ?c0 = "cl_log PassStarted (c\<lparr>cl_pending := False\<rparr>)"
  obtain ok c1 where res: "reset_polls env cur ?c0 = (ok, c1)" by fastforce
  have c1: "ok" "unarmed c1" "cl_locked c1 = cl_locked c" "passes c1 = Suc (passes c)"
    using reset_polls_spec [OF assms(1) _ res] assms(2) by (simp_all add: passes_def)
  obtain e c2 where reb: "rebuild env (fst ` set (der_programs (cl_state c1))) (c1\<lparr>cl_ready := False\<rparr>) = (e, c2)" by fastforce
  have "unarmed (c1\<lparr>cl_ready := False\<rparr>)" using c1(2) by (simp add: unarmed_def)
  from ended_rebuild [OF this, of env "fst ` set (der_programs (cl_state c1))"]
  have en: "ended env (c1\<lparr>cl_ready := True\<rparr>) (e, c2)" using reb by simp
  have failed: "arms (wanted_keys env (start_polls env (cl_log x c2))) (cl_sched (start_polls env (cl_log x c2)))" if "unarmed c2" for x
    using start_polls_arms [of "cl_log x c2" env] that by (simp add: unarmed_def)
  show ?thesis
    using assms(3) res c1 reb en failed [of "ClientReported ''rediscovery:failed''"]
    by (cases e) (auto simp: rediscovery_pass_def ended_def passes_def)
qed

lemma rediscovery_loop_spec:
  assumes "sound_settings env" "\<not> own_task cur (cl_sched c)" "0 < n" "rediscovery_loop env n cur c = (r, c')"
  shows "r \<in> {RCompleted, RFailed} \<and> cl_locked c' = cl_locked c \<and> cl_ready c' \<and> passes c < passes c' \<and> passes c' \<le> passes c + n \<and>
     arms (wanted_keys env c') (cl_sched c') \<and> (r = RCompleted \<longrightarrow> \<not> cl_pending c')"
  using assms
proof (induction n arbitrary: cur c)
  case (Suc n)
  obtain r1 c1 where p: "rediscovery_pass env cur c = (r1, c1)" by fastforce
  note pass = rediscovery_pass_spec [OF Suc.prems(1,2) p]
  show ?case
  proof (cases "r1 = RCompleted \<and> cl_pending c1 \<and> n \<noteq> 0")
    case True
    then have "rediscovery_loop env n None c1 = (r, c')" using Suc.prems(4) p by simp
    from Suc.IH [OF Suc.prems(1) _ _ this] show ?thesis using pass True by (simp add: own_task_def)
  next
    case False
    have mgr: "wanted_keys env (cl_log e (c1\<lparr>cl_pending := b\<rparr>)) = wanted_keys env c1" for e b by (rule wanted_cong) simp_all
    show ?thesis
      using False pass p Suc.prems(4) mgr by (cases r1) (auto simp: passes_def split: if_splits)
  qed
qed simp

lemma rediscovery_ends:
  assumes "sound_settings env" "\<not> cl_locked c" "\<not> own_task cur (cl_sched c)" "trigger_rediscovery env cur c = (r, c')"
  shows "r \<in> {RCompleted, RFailed} \<and> \<not> cl_locked c' \<and> cl_ready c' \<and> passes c < passes c' \<and> passes c' \<le> passes c + 5 \<and>
     \<not> ps_shutdown (cl_sched c') \<and> set (active_keys (cl_sched c')) = wanted_keys env c' \<and> (r = RCompleted \<longrightarrow> \<not> cl_pending c')"
proof -
  obtain r1 c1 where l: "rediscovery_loop env MAX_REDISCOVERY_PASSES cur (c\<lparr>cl_locked := True\<rparr>) = (r1, c1)" by fastforce
  have p: "passes (c\<lparr>cl_locked := b\<rparr>) = passes c" "cl_sched (c\<lparr>cl_locked := b\<rparr>) = cl_sched c" for b c by (simp_all add: passes_def)
  note spec = rediscovery_loop_spec [OF assms(1) _ _ l, unfolded p, OF assms(3)]
  have w: "wanted_keys env (c1\<lparr>cl_locked := b\<rparr>) = wanted_keys env c1" "wanted_keys env (cl_log e (c1\<lparr>cl_locked := b\<rparr>)) = wanted_keys env c1" for b e
    by (rule wanted_cong; simp)+
  have "passes (cl_log RediscoveredCalled d) = passes d" for d by (simp add: passes_def)
  then show ?thesis
    using assms(2,4) l spec w p arms_keys [of "wanted_keys env c1" "cl_sched c1"]
    by (auto simp: trigger_rediscovery_def Let_def MAX_REDISCOVERY_PASSES_def arms_def split: if_splits)
qed

text \<open>
  C6. A rediscovery called from outside the poll tasks always comes to an end after one to five
  passes, whatever the server answers and whatever notifications come in. The lock is free and timers
  can run again; exactly the polls that the settings and the new state call for are armed, also after a
  failure; and a rediscovery that completes leaves no structural change pending.
\<close>

theorem rediscovery_contract:
  assumes "sound_settings env" "\<not> cl_locked c" "\<not> own_task cur (cl_sched c)" "trigger_rediscovery env cur c = (r, c')"
  shows "r \<in> {RCompleted, RFailed} \<and> \<not> cl_locked c' \<and> cl_ready c' \<and> passes c < passes c' \<and> passes c' \<le> passes c + 5 \<and>
     \<not> ps_shutdown (cl_sched c') \<and> set (active_keys (cl_sched c')) = wanted_keys env c' \<and> (r = RCompleted \<longrightarrow> \<not> cl_pending c')"
  by (rule rediscovery_ends [OF assms])

section \<open>Notifications while the lock is held\<close>

text \<open>Nothing but the subscription manager, the suppression, the pending flag and the trace changes.\<close>

definition still :: "client \<Rightarrow> client \<Rightarrow> bool" where
  "still c c' \<longleftrightarrow> cl_proc c' = cl_proc c \<and> cl_tariff c' = cl_tariff c \<and> cl_tick c' = cl_tick c \<and> cl_locked c' = cl_locked c"

interpretation still: step_contract still
  by unfold_locales (auto simp: still_def)

lemma still_basic [intro]:
  "still c (on_mgr f c)" "still c (cl_log e c)" "still c (coalesce c)" "still c (c\<lparr>cl_pending := b\<rparr>)" "still c (c\<lparr>cl_mgr := m\<rparr>)"
  "still c (on_sched g c)"
  by (auto simp: still_def on_mgr_def cl_log_def coalesce_def on_sched_def)

lemma still_suppression [intro]: "still c (update_poll_suppression env c)"
  by (auto simp: update_poll_suppression_def Let_def split: option.split)

lemma still_structural [intro]: "still c (structural_change env coalesce c)"
  using still.trans [OF still_basic(2) still_basic(3)] by (auto simp: structural_change_def Let_def split: option.split)

lemma locked_route:
  "cl_locked c \<Longrightarrow> route_default_notification env redo r rt c =
     (PollOk, if is_structural r rt then structural_change env redo c else c)"
  by (simp add: route_default_notification_def)

lemma still_handle:
  assumes "cl_locked c"
  shows "still c (snd (handle_with env coalesce n c))"
proof (cases "cl_mgr c")
  case (Some m)
  obtain dup c1 where d: "check_duplicate env n m c = (dup, c1)" by fastforce
  then have c1: "still c c1" by (auto simp: check_duplicate_def split: prod.splits if_splits)
  note go = still.trans [OF c1]
  have upd: "still c (update_poll_suppression env (on_mgr f c1))" for f
    by (rule go [OF still.trans [OF still_basic(1) still_suppression]])
  have "cl_locked (on_mgr f c1)" for f using c1 assms by (simp add: still_def)
  then have route: "still c (snd (route_default_notification env coalesce r rt (on_mgr f c1)))" for r rt f
    using go [OF still_basic(1)] still.trans [OF go [OF still_basic(1)] still_structural] by (simp add: locked_route)
  have sc: "still c (structural_change env coalesce c2)" if "still c c2" for c2
    by (rule still.trans [OF that still_structural])
  have del: "still c (handle_resource_deleted env coalesce r c2)" if "still c c2" for c2 r
    using sc [OF that] that still.trans [OF that still_basic(2)] by (simp add: handle_resource_deleted_def Let_def)
  show ?thesis
    using Some d upd route sc del c1 still.trans [OF upd still_basic(1)] go [OF still_basic(4)]
    by (simp add: handle_with_def Let_def split: option.split)
qed (simp add: handle_with_def)

lemma still_handle_all: "cl_locked c \<Longrightarrow> still c (fold (\<lambda>n c. snd (handle_with env coalesce n c)) ns c)"
proof (induction ns arbitrary: c)
  case (Cons n ns)
  have s: "still c (snd (handle_with env coalesce n c))" by (rule still_handle [OF Cons.prems])
  then have "cl_locked (snd (handle_with env coalesce n c))" using Cons.prems by (simp add: still_def)
  from still.trans [OF s Cons.IH [OF this]] show ?case by simp
qed simp

lemma arrive_still:
  assumes "cl_locked c"
  shows "cl_proc (arrive env c) = cl_proc c" "cl_tariff (arrive env c) = cl_tariff c" "cl_tick (arrive env c) = Suc (cl_tick c)"
    "cl_locked (arrive env c)"
  using still_handle_all [of "c\<lparr>cl_tick := Suc (cl_tick c)\<rparr>" env "ce_arrivals env (cl_tick c)"] assms
  by (simp_all add: arrive_def still_def)

section \<open>A failed rediscovery\<close>

lemma failed_pass:
  assumes "cl_locked c" "\<not> own_task cur (cl_sched c)" "\<And>f. ce_discover env (Suc (cl_tick c)) f = (Inl e, f)"
  shows "fst (rediscovery_pass env cur c) = RFailed \<and> cl_state (snd (rediscovery_pass env cur c)) = clear_state (cl_state c)"
proof -
  let ?c0 = "cl_log PassStarted (c\<lparr>cl_pending := False\<rparr>)"
  let ?c1 = "(on_sched (fresh_scheduler env \<circ> clear_tasks) (arrive env (on_sched cancel_all_polls ?c0)))\<lparr>cl_renewing := False\<rparr>"
  let ?a = "arrive env (on_sched cancel_all_polls ?c0)"
  have a: "cl_proc ?a = cl_proc c" "cl_tick ?a = Suc (cl_tick c)" "cl_locked ?a"
    using arrive_still [of "on_sched cancel_all_polls ?c0" env] assms(1) by (simp_all add: on_sched_def cl_log_def)
  have reset: "reset_polls env cur ?c0 = (True, ?c1)" using assms(2) by (simp add: reset_polls_def Let_def)
  let ?c2 = "set_found (clear_state (cl_state ?c1), cl_timebase (?c1\<lparr>cl_ready := False\<rparr>)) (?c1\<lparr>cl_ready := False, cl_tick := Suc (cl_tick ?c1)\<rparr>)"
  have tick: "cl_tick (set_found f (?c1\<lparr>cl_ready := False\<rparr>)) = Suc (cl_tick c)" for f
    using a(2) by (simp add: set_found_def on_sched_def)
  have "run_walk (ce_discover env) (set_found (clear_state (cl_state (?c1\<lparr>cl_ready := False\<rparr>)), cl_timebase (?c1\<lparr>cl_ready := False\<rparr>)) (?c1\<lparr>cl_ready := False\<rparr>))
      = (Inl e, set_found (clear_state (cl_state ?c1), cl_timebase (?c1\<lparr>cl_ready := False\<rparr>))
          ((set_found (clear_state (cl_state ?c1), cl_timebase (?c1\<lparr>cl_ready := False\<rparr>)) (?c1\<lparr>cl_ready := False\<rparr>))\<lparr>cl_tick := Suc (Suc (cl_tick c))\<rparr>))"
    unfolding run_walk_def tick assms(3) by simp
  moreover have "cl_state (arrive env d) = cl_state d" if "cl_locked d" for d using arrive_still(1) [OF that] by (simp add: cl_state_def)
  moreover have "cl_locked ?c1" "cl_state ?c1 = cl_state c" using a by (simp_all add: cl_state_def)
  ultimately show ?thesis
    unfolding rediscovery_pass_def reset prod.case bool.case rebuild_def by (simp add: Let_def)
qed

lemma probe_frames:
  "cl_state (snd (connectivity_probe env c)) = cl_state c" "passes (snd (connectivity_probe env c)) = passes c"
  "cl_sched (snd (connectivity_probe env c)) = cl_sched c"
  by (simp_all add: connectivity_probe_def Let_def passes_def split: option.split sum.split)

text \<open>
  C9. When discovery fails at its first request, the failure path re-arms the polls from a state that was
  just cleared: no device and no program is known, no resource is polled any more, and (without
  pricing and loss-of-communications detection) only the connectivity probe and the reconciliation of
  subscriptions are left. However often these run, also once the server answers again, they start no
  rediscovery: the state stays empty.
\<close>

theorem failed_rediscovery_stalls:
  assumes "sound_settings env" "\<not> cl_locked c" "\<not> own_task cur (cl_sched c)"
    "\<And>f. ce_discover env (Suc (cl_tick c)) f = (Inl e, f)" "\<not> pricing_enabled (cl_state c)" "ce_comms_loss env \<le> 0"
    "trigger_rediscovery env cur c = (r, c')" "set ks \<subseteq> set (active_keys (cl_sched c'))"
    "d = fold (\<lambda>(k, t) c. snd (poll_callback env t k c)) (zip ks ts) c'"
  shows "r = RFailed \<and> set (active_keys (cl_sched c')) \<subseteq> {''connectivity'', ''sub''} \<and>
     end_devices (cl_state d) = [] \<and> der_programs (cl_state d) = [] \<and> passes d = passes c' \<and> cl_sched d = cl_sched c'"
proof -
  let ?p = "rediscovery_pass env cur (c\<lparr>cl_locked := True\<rparr>)"
  have m: "MAX_REDISCOVERY_PASSES = Suc 4" by (simp add: MAX_REDISCOVERY_PASSES_def)
  have p: "fst ?p = RFailed" "cl_state (snd ?p) = clear_state (cl_state c)"
    using failed_pass [of "c\<lparr>cl_locked := True\<rparr>" cur env e] assms(3,4) by simp_all
  have "rediscovery_loop env MAX_REDISCOVERY_PASSES cur (c\<lparr>cl_locked := True\<rparr>) = (RFailed, snd ?p)"
    unfolding m rediscovery_loop.simps using p(1) by (cases ?p) simp
  then have r: "r = RFailed" and st: "cl_state c' = clear_state (cl_state c)"
    using assms(2,7) p(2) by (auto simp: trigger_rediscovery_def Let_def)
  have "set (active_keys (cl_sched c')) = wanted_keys env c'" using rediscovery_ends [OF assms(1-3,7)] by blast
  moreover have "snd e = None \<or> fst e \<in> {''connectivity'', ''sub''}" if "e \<in> set (poll_table env c')" for e
  proof -
    have "poll_rate k c' = None" for k by (simp add: poll_rate_def st clear_state_def)
    moreover have "\<not> pricing_enabled (cl_state c')" "\<not> 0 < ce_comms_loss env" using assms(5,6) by (simp_all add: st clear_state_def)
    ultimately show ?thesis using that by (auto simp: poll_table_def)
  qed
  ultimately have keys: "set (active_keys (cl_sched c')) \<subseteq> {''connectivity'', ''sub''}"
    using wanted_subset [of env c' "{''connectivity'', ''sub''}"] by metis
  have step: "cl_state (snd (poll_callback env t k b)) = cl_state b \<and> passes (snd (poll_callback env t k b)) = passes b \<and>
      cl_sched (snd (poll_callback env t k b)) = cl_sched b"
    if "k \<in> {''connectivity'', ''sub''}" "end_devices (cl_state b) = []" for k t b
    using that(1)
  proof (elim insertE emptyE)
    assume k: "k = ''connectivity''"
    show ?thesis unfolding k using probe_frames by (simp add: poll_callback_def)
  next
    assume k: "k = ''sub''"
    show ?thesis unfolding k using that(2) by (simp add: poll_callback_def poll_sub_reconcile_def find_agg_sub_href_def split: option.split)
  qed
  have "cl_state d = cl_state c' \<and> passes d = passes c' \<and> cl_sched d = cl_sched c'"
    unfolding assms(9)
  proof (rule fold_invariant)
    fix kt b assume kt: "kt \<in> set (zip ks ts)" and b: "cl_state b = cl_state c' \<and> passes b = passes c' \<and> cl_sched b = cl_sched c'"
    have "fst kt \<in> set ks" by (rule set_zip_leftD [of _ "snd kt" ks ts]) (simp add: kt)
    then show "cl_state ((\<lambda>(k, t) c. snd (poll_callback env t k c)) kt b) = cl_state c' \<and>
        passes ((\<lambda>(k, t) c. snd (poll_callback env t k c)) kt b) = passes c' \<and>
        cl_sched ((\<lambda>(k, t) c. snd (poll_callback env t k c)) kt b) = cl_sched c'"
      using b step [of "fst kt" b "snd kt"] keys assms(8) by (auto simp: case_prod_beta st clear_state_def)
  qed simp
  then show ?thesis using r keys by (simp add: st clear_state_def)
qed

end
