(* ===== verification/Client_Behaviour.thy ===== *)
theory Client_Behaviour
  imports Client_Props
begin

text \<open>
  What single operations of the client do: recovery from a loss of communications, subscriptions the
  server has cancelled, suppression of polls, the poll of the time. A concrete client for the witnesses.
\<close>

section \<open>Recovery from a loss of communications\<close>

text \<open>
  C8. The scheduled probe never leaves loss-of-communications mode. Its recovery rediscovers from
  the probe's own poll task, which that rediscovery cancels first: the probe ends with the mode still
  active and the event processor as it was.
\<close>

theorem scheduled_recovery_never_completes:
  assumes "comms_active c" "t \<in> snd ` set (ps_tasks (cl_sched b))" "\<not> cl_locked b"
    "pe_rediscover pe = (\<lambda>p. case trigger_rediscovery env (Some t) (b\<lparr>cl_proc := p\<rparr>) of (r, b') \<Rightarrow> (r = RCompleted, cl_proc b'))"
  shows "comms_active (comms_loss_probe pe c) \<and> cc_proc (comms_loss_probe pe c) = cc_proc c"
proof -
  have "pe_rediscover pe p = (False, p)" for p
    using own_task_cancelled [of t "b\<lparr>cl_proc := p\<rparr>" env] assms(2-4) by simp
  then have "cc_proc (recover_from_comms_loss pe c) = cc_proc c"
    by (simp add: recover_from_comms_loss_def cc_log_def Let_def)
  then have "cc_proc (comms_loss_probe pe c) = cc_proc c"
    using assms(1) by (simp add: comms_loss_probe_def Let_def split: option.split)
  then show ?thesis using assms(1) by (simp add: comms_active_def)
qed

section \<open>Suppression of polls\<close>

text \<open>Whether active subscriptions take the place of a poll.\<close>

definition pushed :: "client \<Rightarrow> SubscriptionManager \<Rightarrow> string \<Rightarrow> bool" where
  "pushed c m k \<longleftrightarrow>
     (\<exists>st \<in> set (active_subscriptions m). map_of RESOURCE_TYPE_TO_POLL_KEY (resource_type st) = Some k) \<and> k \<noteq> ''tariff'' \<and>
     (k = ''fsa'' \<longrightarrow> (\<forall>e \<in> set (end_devices (cl_state c)). \<forall>h. extract_href (ed_fsa_list_link (snd e)) = Some h \<longrightarrow>
        (\<exists>st \<in> set (active_subscriptions m). resource_type st = ''FSAList'' \<and> subscribed_resource st = h)))"

lemma in_the_image: "k \<in> the ` (A - {None}) \<longleftrightarrow> Some k \<in> A"
proof
  assume "k \<in> the ` (A - {None})"
  then obtain x where "x \<in> A" "x \<noteq> None" "k = the x" by blast
  then show "Some k \<in> A" by simp
next
  assume "Some k \<in> A"
  then show "k \<in> the ` (A - {None})" by (intro image_eqI [of _ _ "Some k"]) simp_all
qed

lemma suppressed_keys_iff:
  assumes "cl_mgr c = Some m"
  shows "k \<in> suppressed_poll_keys c m \<longleftrightarrow> pushed c m k"
proof -
  have cov: "k \<in> covered_keys m \<longleftrightarrow> (\<exists>st \<in> set (active_subscriptions m). map_of RESOURCE_TYPE_TO_POLL_KEY (resource_type st) = Some k)"
    unfolding covered_keys_def in_the_image subscribed_resource_types_def by force
  have a: "h \<in> all_fsa_lists (cl_state c) \<longleftrightarrow> (\<exists>e \<in> set (end_devices (cl_state c)). extract_href (ed_fsa_list_link (snd e)) = Some h)" for h
    unfolding all_fsa_lists_def in_the_image by force
  have s: "h \<in> subscribed_fsa_hrefs c \<longleftrightarrow> (\<exists>st \<in> set (active_subscriptions m). resource_type st = ''FSAList'' \<and> subscribed_resource st = h)" for h
    using assms by (auto simp: subscribed_fsa_hrefs_def)
  have f: "all_fsa_lists (cl_state c) - subscribed_fsa_hrefs c = {} \<longleftrightarrow>
      (\<forall>e \<in> set (end_devices (cl_state c)). \<forall>h. extract_href (ed_fsa_list_link (snd e)) = Some h \<longrightarrow>
        (\<exists>st \<in> set (active_subscriptions m). resource_type st = ''FSAList'' \<and> subscribed_resource st = h))"
    unfolding Diff_eq_empty_iff subset_iff a s by blast
  show ?thesis unfolding suppressed_poll_keys_def Let_def pushed_def cov [symmetric] f [symmetric] by auto
qed

lemma finite_suppressed: "finite (suppressed_poll_keys c m)"
  by (simp add: suppressed_poll_keys_def Let_def covered_keys_def subscribed_resource_types_def)

text \<open>
  C21. After the suppression is updated, of the polls subscriptions can replace exactly those are
  suppressed that active subscriptions cover: the price poll never, and the poll of the function set
  assignments only when the list of every known device is subscribed. Other polls are left alone.
\<close>

theorem suppression_exact:
  assumes "cl_mgr c = Some m"
  shows "k \<in> ps_suppressed (cl_sched (update_poll_suppression env c)) \<longleftrightarrow>
     (if k \<in> {''edev'', ''fsa'', ''derp'', ''tariff''} then pushed c m k else k \<in> ps_suppressed (cl_sched c))"
proof -
  have keys: "snd ` set RESOURCE_TYPE_TO_POLL_KEY = {''edev'', ''fsa'', ''derp'', ''tariff''}"
    by (auto simp: RESOURCE_TYPE_TO_POLL_KEY_def)
  have "pushed c m k \<Longrightarrow> k \<in> snd ` set RESOURCE_TYPE_TO_POLL_KEY"
    by (force simp: pushed_def dest: map_of_SomeD)
  then show ?thesis
    unfolding suppression_sched [OF assms] keys [symmetric]
    by (simp add: set_iter_set finite_suppressed suppressed_keys_iff [OF assms]) blast
qed

section \<open>The poll of the time\<close>

lemma time_scopes_distinct: "distinct (map fst (time_scopes d))"
proof -
  have "wf_dict (fold (\<lambda>(fsa, h) s. dset h (dget_or s h [] @ [Some fsa]) s) xs s)" if "wf_dict s" for xs s
    using that by (induction xs arbitrary: s) auto
  from this [of "case extract_href (ds_time_href d) of Some h \<Rightarrow> [(h, [None])] | None \<Rightarrow> []" "fsa_time_hrefs d"] show ?thesis
    unfolding time_scopes_def wf_dict_def by (cases "extract_href (ds_time_href d)") simp_all
qed

lemma time_scopes_first:
  assumes "extract_href (ds_time_href d) = Some h"
  obtains sc rest where "time_scopes d = (h, None # sc) # rest"
proof -
  have "\<exists>sc rest. fold (\<lambda>(fsa, h) s. dset h (dget_or s h [] @ [Some fsa]) s) xs ((h, None # sc0) # rest0) = (h, None # sc) # rest" for xs sc0 rest0
  proof (induction xs arbitrary: sc0 rest0)
    case (Cons x xs)
    obtain f g where "x = (f, g)" by fastforce
    then show ?case
      using Cons.IH [of "sc0 @ [Some f]" rest0] Cons.IH [of sc0 "dset g (dget_or rest0 g [] @ [Some f]) rest0"]
      by (cases "g = h") (auto simp: dset_def dget_or_def)
  qed simp
  then obtain sc rest where "time_scopes d = (h, None # sc) # rest" unfolding time_scopes_def assms option.case by blast
  then show ?thesis by (rule that)
qed

lemma poll_time_recoverable:
  "tp_recoverable (fst tc) = Some e \<Longrightarrow> tp_recoverable (fst (fold (poll_time_href env) hs tc)) = Some e"
proof (induction hs arbitrary: tc)
  case (Cons hsc hs)
  have "tp_recoverable (fst (poll_time_href env hsc tc)) = Some e"
    using Cons.prems by (auto simp: poll_time_href_def Let_def split: prod.splits sum.split)
  then show ?case using Cons.IH by simp
qed simp

lemma observe_scope_tick: "cl_tick (fold (observe_scope env h r) scs c) = cl_tick c"
  by (induction scs arbitrary: c) (simp_all add: observe_scope_def set_found_def Let_def)

lemma poll_time_tick: "cl_tick (snd (fold (poll_time_href env) hs tc)) = cl_tick (snd tc) + length hs"
proof (induction hs arbitrary: tc)
  case (Cons hsc hs)
  have "cl_tick (snd (poll_time_href env hsc tc)) = Suc (cl_tick (snd tc))"
    by (auto simp: poll_time_href_def Let_def observe_scope_tick split: prod.splits sum.split)
  then show ?case using Cons.IH by simp
qed simp

text \<open>
  C38. When the server's own Time resource answers with a protocol error or a redirect, the poll of the
  time raises exactly this error, whatever the other Time resources answer, so it reaches the
  recovery; and each distinct href is requested once, however many scopes share it.
\<close>

theorem time_poll_reports_global:
  assumes "extract_href (ds_time_href (cl_state c)) = Some h" "ce_get_time env (cl_tick c) h = Inl e"
    "status_code e \<noteq> None \<or> (\<exists>l. e = RedirectError l)"
  shows "fst (do_poll_time env c) = PollRaised e \<and>
     cl_tick (snd (do_poll_time env c)) = cl_tick c + card (fst ` set (time_scopes (cl_state c)))"
proof -
  let ?tp = "\<lparr>tp_refreshed = 0, tp_recoverable = None, tp_last = None\<rparr>"
  let ?f = "fold (poll_time_href env) (time_scopes (cl_state c)) (?tp, c)"
  obtain sc rest where ts: "time_scopes (cl_state c) = (h, None # sc) # rest" using time_scopes_first [OF assms(1)] .
  have "needs_poll_recovery e True" using assms(3) by (auto simp: needs_poll_recovery_def status_code_def split: http_error.splits)
  then have "tp_recoverable (fst (poll_time_href env (h, None # sc) (?tp, c))) = Some e"
    using assms(2) by (simp add: poll_time_href_def Let_def is_absent_fsa_time_def)
  then have r: "tp_recoverable (fst ?f) = Some e" using poll_time_recoverable [of _ e env rest] by (simp add: ts)
  have "card (fst ` set (time_scopes (cl_state c))) = length (time_scopes (cl_state c))"
    using distinct_card [OF time_scopes_distinct [of "cl_state c"]] by simp
  then show ?thesis
    using r poll_time_tick [of env "time_scopes (cl_state c)" "(?tp, c)"]
    by (simp add: do_poll_time_def case_prod_beta)
qed

section \<open>Cancelled subscriptions\<close>

lemma posted_reported [simp]: "posted_resources [SubReported x] = []" "posted_resources [SubListed h] = []"
  by (simp_all add: posted_resources_def List.map_filter_def)

lemma find_active_none:
  assumes "wf_dict (sm_subs m)"
  shows "find_active_for_resource m r = None \<longleftrightarrow> r \<notin> fst ` pairs_of m"
proof -
  have "find_active_for_resource m r = None \<longleftrightarrow> (\<forall>k st. (k, st) \<in> set (sm_subs m) \<longrightarrow> \<not> (subscribed_resource st = r \<and> sub_active st))"
    unfolding find_active_for_resource_def find_None_iff by auto
  also have "\<dots> \<longleftrightarrow> r \<notin> fst ` pairs_of m"
    unfolding in_fst_image pairs_of_def using wf_dict_map_of [OF assms] by auto
  finally show ?thesis .
qed

lemma subscribe_posts:
  assumes "find_active_for_resource m r = None"
  shows "posted_resources (sm_trace (snd (subscribe env h r t m))) = posted_resources (sm_trace m) @ [r]"
  using assms by (auto simp: subscribe_def subscribe_reply_def subscribe_request_def Let_def new_subscription_def split: post_reply.split option.split list.split)

text \<open>A subscription to \<open>r\<close> is posted on the way from one manager to another.\<close>

definition posts :: "string \<Rightarrow> SubscriptionManager \<Rightarrow> SubscriptionManager \<Rightarrow> bool" where
  "posts r m m' \<longleftrightarrow> (\<exists>rs. posted_resources (sm_trace m') = posted_resources (sm_trace m) @ rs \<and> r \<in> set rs)"

lemma posts_after: "posts r m m1 \<Longrightarrow> aside_kept m1 m2 \<Longrightarrow> posts r m m2"
  by (fastforce simp: posts_def aside_kept_def)

lemma posts_before: "aside_kept m m1 \<Longrightarrow> posts r m1 m2 \<Longrightarrow> posts r m m2"
  by (fastforce simp: posts_def aside_kept_def)

lemma gathered_aside:
  assumes "wf_subs m"
  shows "aside_kept m (snd (gathered (\<lambda>(r, t). subscribe env h r t) xs m))"
  by (rule aside.gathered_keeps) (auto intro: aside.subscribe_keeps assms)

text \<open>Subscribing to a list of resources posts for each that has no active subscription yet.\<close>

lemma gathered_posts:
  assumes "r \<in> fst ` set xs" "find_active_for_resource m r = None" "wf_subs m"
  shows "posts r m (snd (gathered (\<lambda>(r, t). subscribe env h r t) xs m))"
  using assms
proof (induction xs arbitrary: m)
  case (Cons x xs)
  obtain r' t where x: "x = (r', t)" by fastforce
  let ?m1 = "snd (subscribe env h r' t m)"
  have g: "snd (gathered (\<lambda>(r, t). subscribe env h r t) (x # xs) m) = snd (gathered (\<lambda>(r, t). subscribe env h r t) xs ?m1)"
    by (simp add: x case_prod_beta)
  have w: "wf_subs ?m1" using table.subscribe_keeps [OF Cons.prems(3)] Cons.prems(3) by (simp add: subs_kept_def)
  show ?case
  proof (cases "r' = r")
    case True
    have "posts r m ?m1" using subscribe_posts [OF Cons.prems(2)] True by (simp add: posts_def)
    then show ?thesis unfolding g using gathered_aside [OF w] by (rule posts_after)
  next
    case False
    have d: "wf_dict (sm_subs m)" "wf_dict (sm_subs ?m1)" using Cons.prems(3) w by (simp_all add: wf_subs_def keyed_def)
    have "r \<notin> fst ` pairs_of ?m1"
    proof
      assume "r \<in> fst ` pairs_of ?m1"
      then obtain k st where st: "map_of (sm_subs ?m1) k = Some st" "sub_active st" "subscribed_resource st = r"
        unfolding in_fst_image pairs_of_def by auto
      then have "map_of (sm_subs m) k = Some st" using subscribe_only_for [of r' m env h t] False by (auto simp: only_for_def)
      then show False using Cons.prems(2) st unfolding find_active_none [OF d(1)] in_fst_image pairs_of_def by auto
    qed
    then have "find_active_for_resource ?m1 r = None" unfolding find_active_none [OF d(2)] .
    then have "posts r ?m1 (snd (gathered (\<lambda>(r, t). subscribe env h r t) xs ?m1))" using Cons.IH [OF _ _ w] Cons.prems(1) False by (auto simp: x)
    then show ?thesis unfolding g by (rule posts_before [OF aside.subscribe_keeps [OF Cons.prems(3)]])
  qed
qed simp

lemma reconcile_posts:
  assumes "wf_subs m" "distinct (map fst desired)" "r \<in> fst ` set desired" "find_active_for_resource m r = None"
  shows "posts r m (snd (reconcile env h desired False m))"
proof -
  obtain res m' where rec: "reconcile env h desired False m = (res, m')" by fastforce
  obtain outs where g: "gathered (\<lambda>(r, t). subscribe env h r t) (to_create env desired m) (survivors env desired m) = (outs, m')"
    using reconcile_split [OF assms(1,2) rec] by metis
  have d: "wf_dict (sm_subs m)" using assms(1) by (simp add: wf_subs_def keyed_def)
  have none: "(r, t) \<notin> pairs_of m" for t using assms(4) unfolding find_active_none [OF d] in_fst_image by blast
  have "r \<in> fst ` set (to_create env desired m)"
    unfolding to_create_set(1) [OF assms(1,2)] in_fst_image using assms(3) none unfolding in_fst_image by auto
  moreover have "find_active_for_resource (survivors env desired m) r = None"
    unfolding find_active_none [OF survivors_frame(3) [OF d]] survivors_pairs [OF assms(1,2)] in_fst_image using none by auto
  moreover have "wf_subs (survivors env desired m)"
    using assms(1) survivors_frame(3) [OF d] survivors_lookup [OF assms(1,2)]
    unfolding wf_subs_def keyed_def one_active_def by metis
  ultimately have "posts r (survivors env desired m) m'"
    using gathered_posts [of r "to_create env desired m" "survivors env desired m" env h] g by simp
  then show ?thesis using rec survivors_frame(2) [of env desired m] by (simp add: posts_def)
qed

section \<open>The manager in a rediscovery\<close>

text \<open>What the rest of a rediscovery without notifications does to the manager.\<close>

definition mgr_aside :: "client \<Rightarrow> client \<Rightarrow> bool" where
  "mgr_aside c c' \<longleftrightarrow> (\<forall>m. cl_mgr c = Some m \<longrightarrow> wf_subs m \<longrightarrow> (\<exists>m'. cl_mgr c' = Some m' \<and> wf_subs m' \<and> aside_kept m m'))"

interpretation mgr_aside: step_contract mgr_aside
proof unfold_locales
  show "mgr_aside c c" for c by (simp add: mgr_aside_def)
  show "mgr_aside a c" if "mgr_aside a b" "mgr_aside b c" for a b c
    using that aside.trans unfolding mgr_aside_def by meson
qed

lemma mgr_asideI: "cl_mgr c' = cl_mgr c \<Longrightarrow> mgr_aside c c'"
  by (simp add: mgr_aside_def)

lemma mgr_aside_on:
  assumes "\<And>m. wf_subs m \<Longrightarrow> aside_kept m (f m)"
  shows "mgr_aside c (on_mgr f c)"
  using assms by (auto simp: mgr_aside_def aside_kept_def subs_kept_def)

lemma quiet_arrive: "(\<And>n. ce_arrivals env n = []) \<Longrightarrow> arrive env c = c\<lparr>cl_tick := Suc (cl_tick c)\<rparr>"
  by (simp add: arrive_def)

lemma mgr_aside_walk: "run_walk w c = (r, c') \<Longrightarrow> mgr_aside c c'"
  by (rule mgr_asideI) (auto simp: run_walk_def split: prod.splits)

lemma mgr_suppression [simp]: "cl_mgr (update_poll_suppression env c) = cl_mgr c"
  by (simp add: update_poll_suppression_def Let_def split: option.split)

lemma mgr_aside_auto: "mgr_aside c (auto_subscribe env c)"
proof -
  have "aside_kept m (fold (subscribe_unless_suppressed (ce_sub env) h) xs m)" if "wf_subs m" for h xs m
    using that
  proof (induction xs arbitrary: m)
    case (Cons x xs)
    have "aside_kept m (subscribe_unless_suppressed (ce_sub env) h x m)"
      using aside.subscribe_keeps [OF Cons.prems] by (simp add: subscribe_unless_suppressed_def)
    then show ?case using Cons aside.trans by (auto simp: aside_kept_def subs_kept_def)
  qed simp
  then show ?thesis by (auto simp: auto_subscribe_def mgr_aside_def aside_kept_def subs_kept_def split: option.split)
qed

lemma mgr_frames [simp]:
  "cl_mgr (cancel_programs env ps c) = cl_mgr c" "cl_mgr (process_all env c) = cl_mgr c"
  by (simp_all add: cancel_programs_def process_all_def)

lemma mgr_aside_pass_walk:
  assumes "\<And>n. ce_arrivals env n = []" "\<And>x c. mgr_aside c (snd (k x c))"
  shows "mgr_aside c (snd (pass_walk env w k c))"
proof -
  obtain r c1 where w: "run_walk w c = (r, c1)" by fastforce
  have "mgr_aside c (arrive env c1)"
    by (rule mgr_aside.trans [OF mgr_aside_walk [OF w]]) (simp add: quiet_arrive [OF assms(1)] mgr_asideI)
  then show ?thesis using w mgr_aside.trans [OF _ assms(2)] by (auto simp: pass_walk_def Let_def split: sum.split)
qed

lemma mgr_aside_finish:
  assumes "\<And>n. ce_arrivals env n = []"
  shows "mgr_aside c (snd (finish_pass env prev pruned c))"
proof -
  have "cl_mgr (update_poll_suppression env (arrive env (auto_subscribe env c))) = cl_mgr (auto_subscribe env c)"
    by (simp add: quiet_arrive [OF assms])
  then have "mgr_aside c (resubscribe env c)"
    using mgr_aside.trans [OF mgr_aside_auto mgr_asideI] by (simp add: resubscribe_def)
  moreover have "mgr_aside d (snd (None :: http_error option, start_polls env (arrive env (process_all env d))))" for d
    by (rule mgr_asideI) (simp add: quiet_arrive [OF assms])
  ultimately show ?thesis
    unfolding finish_pass_def Let_def
    by (intro mgr_aside.trans [OF _ mgr_aside_pass_walk [OF assms]] mgr_aside.trans [OF _ mgr_asideI [of "cancel_programs env _ _"]]) auto
qed

lemma reconcile_subscriptions_mgr:
  assumes "\<And>n. ce_arrivals env n = []" "find_agg_sub_href (cl_state c) = Some h" "compute_desired_subscriptions (cl_state c) \<noteq> {}"
  shows "cl_mgr (reconcile_subscriptions env c) = map_option (\<lambda>m. snd (reconcile_with_server (ce_sub env) h False (snd (reconcile (ce_sub env) h
     (iter_set (ce_pair_order env) (compute_desired_subscriptions (cl_state c))) False m)))) (cl_mgr c)"
  using assms(2,3)
  by (cases "cl_mgr c") (simp_all add: reconcile_subscriptions_def Let_def quiet_arrive [OF assms(1)] on_mgr_def)

lemma mgr_aside_reconcile:
  assumes "\<And>n. ce_arrivals env n = []"
  shows "mgr_aside c (reconcile_subscriptions env c)"
proof (cases "find_agg_sub_href (cl_state c) = None \<or> compute_desired_subscriptions (cl_state c) = {}")
  case True
  then have "cl_mgr (reconcile_subscriptions env c) = cl_mgr (on_mgr (cancel_all (ce_sub env)) c)"
    by (auto simp: reconcile_subscriptions_def Let_def quiet_arrive [OF assms] on_mgr_def split: option.split)
  then show ?thesis using mgr_aside.trans [OF mgr_aside_on mgr_asideI] aside.cancel_all_keeps by blast
next
  case False
  then obtain h where h: "find_agg_sub_href (cl_state c) = Some h" by auto
  let ?f = "\<lambda>m. snd (reconcile_with_server (ce_sub env) h False (snd (reconcile (ce_sub env) h
     (iter_set (ce_pair_order env) (compute_desired_subscriptions (cl_state c))) False m)))"
  have "aside_kept m (?f m)" if "wf_subs m" for m
  proof (rule aside.trans [OF aside.reconcile_keeps [OF that] aside.reconcile_with_server_keeps])
    show "wf_subs (snd (reconcile (ce_sub env) h (iter_set (ce_pair_order env) (compute_desired_subscriptions (cl_state c))) False m))"
      using table.reconcile_keeps [OF that] that by (simp add: subs_kept_def)
  qed
  then have "mgr_aside c (on_mgr ?f c)" by (rule mgr_aside_on)
  then show ?thesis using reconcile_subscriptions_mgr [OF assms h] False by (simp add: mgr_aside_def)
qed

lemma mgr_aside_rebuild:
  assumes "\<And>n. ce_arrivals env n = []"
  shows "mgr_aside c (snd (rebuild env prev c))"
proof -
  obtain r c1 where w: "run_walk (ce_discover env) (set_found (clear_state (cl_state c), cl_timebase c) c) = (r, c1)" by fastforce
  let ?c2 = "(arrive env c1)\<lparr>cl_ready := True\<rparr>"
  have "mgr_aside c c1" by (rule mgr_aside.trans [OF mgr_asideI mgr_aside_walk [OF w]]) simp
  then have c2: "mgr_aside c ?c2" by (rule mgr_aside.trans [OF _ mgr_asideI]) (simp add: quiet_arrive [OF assms])
  have inner: "mgr_aside d (snd (pass_walk env (ce_refresh_programs env) (finish_pass env prev) d))" for d
    by (rule mgr_aside_pass_walk [OF assms mgr_aside_finish [OF assms]])
  have "mgr_aside ?c2 (snd (pass_walk env (ce_refresh_fsa env {}) (\<lambda>_. pass_walk env (ce_refresh_programs env) (finish_pass env prev))
      (reconcile_subscriptions env ?c2)))"
    by (rule mgr_aside.trans [OF mgr_aside_reconcile [OF assms] mgr_aside_pass_walk [OF assms]]) (rule inner)
  then show ?thesis using w mgr_aside.trans [OF c2] c2 by (simp add: rebuild_def Let_def split: sum.split)
qed

lemma mgr_aside_pass:
  assumes "\<And>n. ce_arrivals env n = []"
  shows "mgr_aside c (snd (rediscovery_pass env cur c))"
proof -
  let ?c0 = "cl_log PassStarted (c\<lparr>cl_pending := False\<rparr>)"
  obtain ok c1 where res: "reset_polls env cur ?c0 = (ok, c1)" by fastforce
  then have c1: "cl_mgr c1 = cl_mgr c" by (auto simp: reset_polls_def Let_def quiet_arrive [OF assms] split: if_splits)
  obtain e c2 where reb: "rebuild env (fst ` set (der_programs (cl_state c1))) (c1\<lparr>cl_ready := False\<rparr>) = (e, c2)" by fastforce
  have "mgr_aside (c1\<lparr>cl_ready := False\<rparr>) c2"
    using mgr_aside_rebuild [OF assms, of "c1\<lparr>cl_ready := False\<rparr>" "fst ` set (der_programs (cl_state c1))"] reb by simp
  then have "mgr_aside c c2" by (simp add: mgr_aside_def c1)
  moreover have "mgr_aside c c1" by (simp add: mgr_asideI c1)
  ultimately show ?thesis
    using res reb by (cases ok; cases e) (simp_all add: rediscovery_pass_def mgr_aside_def)
qed

lemma mgr_aside_loop:
  assumes "\<And>n. ce_arrivals env n = []"
  shows "mgr_aside c (snd (rediscovery_loop env n cur c))"
proof (induction n arbitrary: cur c)
  case (Suc n)
  obtain r c1 where p: "rediscovery_pass env cur c = (r, c1)" by fastforce
  then have c1: "mgr_aside c c1" using mgr_aside_pass [OF assms, of c cur] by simp
  moreover have "mgr_aside c (cl_log e (c1\<lparr>cl_pending := False\<rparr>))" for e by (rule mgr_aside.trans [OF c1 mgr_asideI]) simp
  ultimately show ?case using mgr_aside.trans [OF c1 Suc.IH] by (cases r) (simp_all add: p)
qed simp

text \<open>A pass whose discovered state wants a resource that has no active subscription.\<close>

lemma reconcile_subscriptions_posts:
  assumes "\<And>n. ce_arrivals env n = []" "cl_mgr c = Some m" "wf_subs m" "find_active_for_resource m r = None"
    "find_agg_sub_href (cl_state c) = Some h" "(r, t) \<in> compute_desired_subscriptions (cl_state c)"
    "finite (compute_desired_subscriptions (cl_state c))" "inj_on fst (compute_desired_subscriptions (cl_state c))"
  shows "\<exists>m'. cl_mgr (reconcile_subscriptions env c) = Some m' \<and> wf_subs m' \<and> posts r m m' \<and> sm_suppressed m' = sm_suppressed m"
proof -
  let ?D = "iter_set (ce_pair_order env) (compute_desired_subscriptions (cl_state c))"
  have D: "set ?D = compute_desired_subscriptions (cl_state c)" by (rule set_iter_set [OF assms(7)])
  have dist: "distinct (map fst ?D)" using assms(8) D by (simp add: distinct_map)
  have "r \<in> fst ` set ?D" unfolding D in_fst_image using assms(6) by blast
  note p = reconcile_posts [OF assms(3) dist this assms(4), of "ce_sub env" h]
  let ?m1 = "snd (reconcile (ce_sub env) h ?D False m)"
  have m1: "aside_kept m ?m1" "wf_subs ?m1"
    using aside.reconcile_keeps [OF assms(3)] table.reconcile_keeps [OF assms(3)] assms(3) by (simp_all add: subs_kept_def)
  let ?m2 = "snd (reconcile_with_server (ce_sub env) h False ?m1)"
  have m2: "aside_kept ?m1 ?m2" "wf_subs ?m2"
    using aside.reconcile_with_server_keeps [OF m1(2)] table.reconcile_with_server_keeps [OF m1(2)] m1(2) by (simp_all add: subs_kept_def)
  have "compute_desired_subscriptions (cl_state c) \<noteq> {}" using assms(6) by blast
  from reconcile_subscriptions_mgr [OF assms(1,5) this] have "cl_mgr (reconcile_subscriptions env c) = Some ?m2" using assms(2) by simp
  moreover have "sm_suppressed ?m2 = sm_suppressed m" using m1(1) m2(1) by (simp add: aside_kept_def)
  ultimately show ?thesis using m2(2) posts_after [OF p m2(1)] by blast
qed

lemma rebuild_posts:
  assumes "\<And>n. ce_arrivals env n = []" "cl_mgr c = Some m" "wf_subs m" "find_active_for_resource m r = None"
    "\<And>f. ce_discover env (cl_tick c) f = (Inr (), g)" "find_agg_sub_href (fst g) = Some h" "(r, t) \<in> compute_desired_subscriptions (fst g)"
    "finite (compute_desired_subscriptions (fst g))" "inj_on fst (compute_desired_subscriptions (fst g))"
  shows "\<exists>m'. cl_mgr (snd (rebuild env prev c)) = Some m' \<and> wf_subs m' \<and> posts r m m' \<and> sm_suppressed m' = sm_suppressed m"
proof -
  let ?c0 = "set_found (clear_state (cl_state c), cl_timebase c) c"
  obtain c1 where c1: "c1 = set_found g (?c0\<lparr>cl_tick := Suc (cl_tick ?c0)\<rparr>)" by blast
  have "cl_tick ?c0 = cl_tick c" by (simp add: set_found_def)
  then have walk: "run_walk (ce_discover env) ?c0 = (Inr (), c1)" unfolding run_walk_def c1 using assms(5) by simp
  obtain c2 where c2: "c2 = (arrive env c1)\<lparr>cl_ready := True\<rparr>" by blast
  have "cl_mgr c2 = Some m" "cl_state c2 = fst g" using assms(2) by (simp_all add: c1 c2 quiet_arrive [OF assms(1)])
  then obtain m2 where m2: "cl_mgr (reconcile_subscriptions env c2) = Some m2" "wf_subs m2" "posts r m m2" "sm_suppressed m2 = sm_suppressed m"
    using reconcile_subscriptions_posts [OF assms(1), of c2 m r h t] assms(3,4,6-9) by auto
  obtain rest where rest: "rest = pass_walk env (ce_refresh_fsa env {}) (\<lambda>_. pass_walk env (ce_refresh_programs env) (finish_pass env prev))
      (reconcile_subscriptions env c2)" by blast
  have "mgr_aside (reconcile_subscriptions env c2) (snd rest)"
    unfolding rest by (rule mgr_aside_pass_walk [OF assms(1) mgr_aside_pass_walk [OF assms(1) mgr_aside_finish [OF assms(1)]]])
  then obtain m3 where m3: "cl_mgr (snd rest) = Some m3" "wf_subs m3" "aside_kept m2 m3" using m2(1,2) unfolding mgr_aside_def by blast
  have "rebuild env prev c = rest" unfolding rebuild_def walk rest c2 by (simp add: Let_def)
  moreover have "sm_suppressed m3 = sm_suppressed m" using m2(4) m3(3) by (simp add: aside_kept_def)
  ultimately show ?thesis using m3(1,2) posts_after [OF m2(3) m3(3)] by simp
qed

lemma first_pass_posts:
  assumes "\<And>n. ce_arrivals env n = []" "cl_mgr c = Some m" "wf_subs m" "find_active_for_resource m r = None" "\<not> own_task cur (cl_sched c)"
    "\<And>f. ce_discover env (Suc (cl_tick c)) f = (Inr (), g)" "find_agg_sub_href (fst g) = Some h"
    "(r, t) \<in> compute_desired_subscriptions (fst g)" "finite (compute_desired_subscriptions (fst g))" "inj_on fst (compute_desired_subscriptions (fst g))"
  shows "\<exists>m'. cl_mgr (snd (rediscovery_pass env cur c)) = Some m' \<and> wf_subs m' \<and> posts r m m' \<and> sm_suppressed m' = sm_suppressed m"
proof -
  let ?c0 = "cl_log PassStarted (c\<lparr>cl_pending := False\<rparr>)"
  obtain ok c1 where res: "reset_polls env cur ?c0 = (ok, c1)" by fastforce
  have c1: "ok" "cl_mgr c1 = Some m" "cl_tick c1 = Suc (cl_tick c)"
    using res assms(2,5) by (auto simp: reset_polls_def Let_def quiet_arrive [OF assms(1)] on_sched_def cl_log_def)
  obtain e c2 where reb: "rebuild env (fst ` set (der_programs (cl_state c1))) (c1\<lparr>cl_ready := False\<rparr>) = (e, c2)" by fastforce
  obtain m' where "cl_mgr c2 = Some m'" "wf_subs m'" "posts r m m'" "sm_suppressed m' = sm_suppressed m"
    using rebuild_posts [OF assms(1), of "c1\<lparr>cl_ready := False\<rparr>" m r g h t "fst ` set (der_programs (cl_state c1))"] assms(3,4,6-10) c1 reb
    by auto
  then show ?thesis using res c1(1) reb by (cases e) (simp_all add: rediscovery_pass_def)
qed

lemma finite_desired: "finite (compute_desired_subscriptions d)"
  unfolding compute_desired_subscriptions_def by (auto split: option.split)

text \<open>
  C39. A resource whose subscription the server has cancelled is subscribed again by the next rediscovery
  that finds it: the resource is still marked not to be re-subscribed, and the reconciliation
  posts a subscription for it all the same.
\<close>

theorem cancelled_resource_resubscribed:
  assumes "\<And>n. ce_arrivals env n = []" "\<not> cl_locked c" "\<not> own_task cur (cl_sched c)" "cl_mgr c = Some m" "wf_subs m"
    "resubscribe_suppressed m r" "find_active_for_resource m r = None"
    "\<And>f. ce_discover env (Suc (cl_tick c)) f = (Inr (), g)" "find_agg_sub_href (fst g) = Some h"
    "(r, t) \<in> compute_desired_subscriptions (fst g)" "inj_on fst (compute_desired_subscriptions (fst g))"
    "trigger_rediscovery env cur c = (x, c')"
  shows "\<exists>m'. cl_mgr c' = Some m' \<and> resubscribe_suppressed m' r \<and> posts r m m'"
proof -
  have mx: "MAX_REDISCOVERY_PASSES = Suc 4" by (simp add: MAX_REDISCOVERY_PASSES_def)
  let ?c = "c\<lparr>cl_locked := True\<rparr>"
  obtain y c1 where p: "rediscovery_pass env cur ?c = (y, c1)" by fastforce
  obtain m1 where m1: "cl_mgr c1 = Some m1" "wf_subs m1" "posts r m m1" "sm_suppressed m1 = sm_suppressed m"
    using first_pass_posts [OF assms(1), of ?c m r cur g h t] assms p finite_desired by auto
  have "mgr_aside c1 (snd (rediscovery_loop env MAX_REDISCOVERY_PASSES cur ?c))"
    unfolding mx rediscovery_loop.simps p
    using mgr_aside_loop [OF assms(1), of c1 4 None] mgr_asideI [of "cl_log _ (c1\<lparr>cl_pending := False\<rparr>)" c1]
    by (cases y) simp_all
  then obtain m2 where m2: "cl_mgr (snd (rediscovery_loop env MAX_REDISCOVERY_PASSES cur ?c)) = Some m2" "aside_kept m1 m2"
    using m1(1,2) unfolding mgr_aside_def by blast
  have "cl_mgr c' = Some m2" using m2(1) assms(2,12) by (auto simp: trigger_rediscovery_def Let_def split: prod.splits if_splits)
  then show ?thesis
    using posts_after [OF m1(3) m2(2)] assms(6) m1(4) m2(2) by (auto simp: resubscribe_suppressed_def aside_kept_def)
qed

section \<open>A client for the witnesses\<close>

definition walk_ok :: "'a \<Rightarrow> 'a walk" where
  "walk_ok x = (\<lambda>_ f. (Inr x, f))"

definition walk_fails :: "http_error \<Rightarrow> 'a walk" where
  "walk_fails e = (\<lambda>_ f. (Inl e, f))"

definition ex_driver_env :: "unit walk \<Rightarrow> client_env" where
  "ex_driver_env disc =
     \<lparr>ce_proc = ex_env, ce_tariff = ex_tariff_env, ce_sub = ex_sub_env, ce_clock = (\<lambda>n. ex_clock (of_nat n) (of_nat n)),
      ce_pair_order = sorted_list_of_set, ce_name_order = sorted_list_of_set, ce_discover = disc,
      ce_refresh_end_devices = walk_fails (ProtocolError 404), ce_refresh_fsa = (\<lambda>_. walk_ok []), ce_refresh_programs = walk_ok [],
      ce_refresh_controls = walk_ok (), ce_refresh_controls_for = (\<lambda>_. walk_ok True), ce_refresh_tariffs = walk_ok (),
      ce_get_time = (\<lambda>_ h. if h = ''/tm'' then Inl (ProtocolError 404) else Inr \<lparr>tr_current_time = Some 5, tr_quality = Some 3\<rparr>),
      ce_get_dcap = (\<lambda>_. Inl (ProtocolError 503)), ce_confirmed = (\<lambda>_. False), ce_arrivals = (\<lambda>_. []),
      ce_heartbeat_enabled = True, ce_heartbeat_seconds = None, ce_connection_heartbeat = 120, ce_comms_loss = 0, ce_comms_eval = 30,
      ce_reconcile = True, ce_reconcile_interval = 0, ce_on_structural = None, ce_on_device_removed = False, ce_on_rediscovered = False,
      ce_reconnect_callbacks = 0\<rparr>"

definition ex_found :: DiscoveredState where
  "ex_found = (ex_state [])\<lparr>ds_dcap := Some \<lparr>dc_end_device_list_link = Some ''/edev'', dc_mirror_usage_point_list_link = None\<rparr>,
     ds_time_href := Some ''/tm'', fsa_time_hrefs := [(''/fsa/1'', ''/tm''), (''/fsa/2'', ''/tm/2'')],
     end_devices := [(''/edev/1'', ex_device\<lparr>ed_subscription_list_href := Some ''/sub''\<rparr>)]\<rparr>"

definition ex_driver :: "SubscriptionManager \<Rightarrow> client" where
  "ex_driver m =
     \<lparr>cl_proc = (ex_proc [] [])\<lparr>p_state := ex_found\<rparr>, cl_tariff = ex_tariff\<lparr>tf_state := ex_found\<rparr>, cl_mgr = Some m,
      cl_sched = schedule ''edev'' 300 (the (new_scheduler True None 0)), cl_failures = 0, cl_locked = False, cl_pending = False,
      cl_warned = False, cl_renewing = False, cl_ready = True, cl_tick = 0, cl_trace = []\<rparr>"

lemma ex_driver_simps [simp]:
  "cl_locked (ex_driver m) = False" "cl_mgr (ex_driver m) = Some m" "cl_tick (ex_driver m) = 0" "cl_state (ex_driver m) = ex_found"
  "ps_tasks (cl_sched (ex_driver m)) = [(''edev'', 0)]" "\<not> own_task None s" "sound_settings (ex_driver_env w)"
  by (simp_all add: ex_driver_def cl_state_def schedule_def new_scheduler_def ensure_lock_def spawn_def Let_def dset_def own_task_def
      sound_settings_def ex_driver_env_def)

lemma ex_driver_env_simps [simp]:
  "ce_discover (ex_driver_env w) = w" "ce_comms_loss (ex_driver_env w) = 0" "ce_arrivals (ex_driver_env w) = (\<lambda>_. [])"
  "ce_connection_heartbeat (ex_driver_env w) = 120" "ce_refresh_end_devices (ex_driver_env w) = walk_fails (ProtocolError 404)"
  by (simp_all add: ex_driver_env_def)

theorem rediscovery_in_poll_ends_polling_witness:
  "fst (poll_callback (ex_driver_env (walk_ok ())) (Some 0) ''edev'' (ex_driver ex_manager)) = PollCancelled \<and>
   dead_polls (cl_sched (snd (poll_callback (ex_driver_env (walk_ok ())) (Some 0) ''edev'' (ex_driver ex_manager))))"
proof -
  let ?E = "ex_driver_env (walk_ok ())" and ?c = "ex_driver ex_manager"
  let ?c1 = "set_found (cl_state ?c, cl_timebase ?c) (?c\<lparr>cl_tick := 1\<rparr>)"
  have "do_poll_edev ?E ?c = (PollRaised (ProtocolError 404), ?c1)"
    by (simp add: do_poll_edev_def after_walk_def run_walk_def walk_fails_def)
  from rediscovery_in_poll_ends_polling [of "do_poll_edev ?E" ?c _ _ 0 ?E, OF this] show ?thesis by (auto simp: poll_callback_def asks_rediscovery_def)
qed

definition ex_lost_client :: comms_client where
  "ex_lost_client = (ex_client None)\<lparr>cc_proc := (cc_proc (ex_client None))\<lparr>p_comms_active := True\<rparr>\<rparr>"

definition ex_driver_probe :: probe_env where
  "ex_driver_probe = (ex_probe 30 100)\<lparr>pe_rediscover := (\<lambda>p. case trigger_rediscovery (ex_driver_env (walk_ok ())) (Some 0)
      ((ex_driver ex_manager)\<lparr>cl_proc := p\<rparr>) of (r, b') \<Rightarrow> (r = RCompleted, cl_proc b'))\<rparr>"

theorem scheduled_recovery_never_completes_witness:
  "comms_active ex_lost_client \<and> comms_active (comms_loss_probe ex_driver_probe ex_lost_client)"
proof -
  have "comms_active ex_lost_client" by (simp add: ex_lost_client_def comms_active_def)
  moreover have "0 \<in> snd ` set (ps_tasks (cl_sched (ex_driver ex_manager)))" by simp
  moreover have "pe_rediscover ex_driver_probe = (\<lambda>p. case trigger_rediscovery (ex_driver_env (walk_ok ())) (Some 0)
      ((ex_driver ex_manager)\<lparr>cl_proc := p\<rparr>) of (r, b') \<Rightarrow> (r = RCompleted, cl_proc b'))" by (simp add: ex_driver_probe_def)
  ultimately show ?thesis using scheduled_recovery_never_completes [of ex_lost_client 0 "ex_driver ex_manager"] by simp
qed

theorem rediscovery_contract_witness:
  "set (active_keys (cl_sched (snd (trigger_rediscovery (ex_driver_env (walk_ok ())) None (ex_driver ex_manager))))) =
   wanted_keys (ex_driver_env (walk_ok ())) (snd (trigger_rediscovery (ex_driver_env (walk_ok ())) None (ex_driver ex_manager)))"
  using rediscovery_contract [of "ex_driver_env (walk_ok ())" "ex_driver ex_manager" None, OF _ _ _ prod.collapse [symmetric]] by simp

theorem failed_rediscovery_stalls_witness:
  "fst (trigger_rediscovery (ex_driver_env (walk_fails NoContentError)) None (ex_driver ex_manager)) = RFailed \<and>
   end_devices (cl_state (snd (poll_callback (ex_driver_env (walk_fails NoContentError)) None ''connectivity''
     (snd (trigger_rediscovery (ex_driver_env (walk_fails NoContentError)) None (ex_driver ex_manager)))))) = []"
proof -
  let ?E = "ex_driver_env (walk_fails NoContentError)" and ?c = "ex_driver ex_manager"
  let ?r = "trigger_rediscovery ?E None ?c"
  have "set (active_keys (cl_sched (snd ?r))) = wanted_keys ?E (snd ?r)"
    using rediscovery_ends [of ?E ?c None, OF _ _ _ prod.collapse [symmetric]] by simp
  moreover have "(''connectivity'', Some 120) \<in> set (poll_table ?E (snd ?r))" by (simp add: poll_table_def)
  then have "''connectivity'' \<in> wanted_keys ?E (snd ?r)"
    unfolding wanted_keys_def by (intro image_eqI [of _ _ "(''connectivity'', Some 120)"]) simp_all
  ultimately have "set [''connectivity''] \<subseteq> set (active_keys (cl_sched (snd ?r)))" by simp
  from failed_rediscovery_stalls [of ?E ?c None NoContentError "fst ?r" "snd ?r", OF _ _ _ _ _ _ _ this, of _ "[None]"] show ?thesis
    by (simp add: walk_fails_def ex_found_def ex_state_def)
qed

definition ex_cancelled :: SubscriptionManager where
  "ex_cancelled = suppress_resubscribe ''/edev'' (mark_cancelled ''/s/1'' ex_manager)"

definition ex_walk :: "unit walk" where
  "ex_walk = (\<lambda>_ _. (Inr (), (ex_found, new_timebase True 30 None)))"

theorem cancelled_resource_resubscribed_witness:
  "resubscribe_suppressed ex_cancelled ''/edev'' \<and>
   (\<exists>m. cl_mgr (snd (trigger_rediscovery (ex_driver_env ex_walk) None (ex_driver ex_cancelled))) = Some m \<and> posts ''/edev'' ex_cancelled m)"
proof -
  have s: "resubscribe_suppressed ex_cancelled ''/edev''" by (simp add: ex_cancelled_def suppress_resubscribe_def resubscribe_suppressed_def)
  have w: "wf_subs ex_cancelled"
    unfolding ex_cancelled_def using wf_mark_cancelled [OF wf_ex_manager, of "''/s/1''"]
    by (rule wf_subs_cong [THEN iffD2, rotated]) (simp add: suppress_resubscribe_def)
  have f: "find_active_for_resource ex_cancelled ''/edev'' = None" by code_simp
  have d: "compute_desired_subscriptions ex_found = {(''/edev'', ''EndDeviceList'')}"
    by (simp add: compute_desired_subscriptions_def ex_found_def ex_state_def ex_device_def extract_href_def)
  have h: "find_agg_sub_href ex_found = Some ''/sub''"
    by (simp add: find_agg_sub_href_def ex_found_def extract_href_def)
  show ?thesis
    using cancelled_resource_resubscribed [of "ex_driver_env ex_walk" "ex_driver ex_cancelled" None ex_cancelled "''/edev''"
        "(ex_found, new_timebase True 30 None)" "''/sub''" "''EndDeviceList''", OF _ _ _ _ _ _ _ _ _ _ _ prod.collapse [symmetric]] s w f d h
    by (auto simp: ex_walk_def)
qed

theorem suppression_exact_witness:
  "''derp'' \<in> ps_suppressed (cl_sched (update_poll_suppression (ex_driver_env (walk_ok ())) (ex_driver ex_manager)))"
  using suppression_exact [of "ex_driver ex_manager" ex_manager "''derp''" "ex_driver_env (walk_ok ())"]
  by (simp add: pushed_def ex_manager_def new_manager_def active_subscriptions_def ex_sub_def RESOURCE_TYPE_TO_POLL_KEY_def)

theorem time_poll_reports_global_witness:
  "fst (do_poll_time (ex_driver_env (walk_ok ())) (ex_driver ex_manager)) = PollRaised (ProtocolError 404)"
  using time_poll_reports_global [of "ex_driver ex_manager" "''/tm''" "ex_driver_env (walk_ok ())" "ProtocolError 404"]
  by (simp add: ex_found_def extract_href_def ex_driver_env_def status_code_def)

end
