(* ===== verification/Spec2Isabelle.thy ===== *)
theory Spec2Isabelle
  imports Example_Run Posters Dns_Wire Retry Polling Tariff Scale_Factor Dispatch_Props Client_Behaviour
begin

text \<open>
  A model of py20305, an IEEE 2030.5 (CSIP, CSIP-AUS) client for distributed energy
  resources: its event engine and the client machinery around it, and their properties. Paths are under \<open>src/src/py20305/\<close>.

  \<^bold>\<open>The program.\<close> The client discovers a server's end devices, programs and controls
  (\<open>client/\<close>), keeps them in a \<open>DiscoveredState\<close>, and hands every polled program to an
  \<open>EventProcessor\<close> (\<open>events/processor.py\<close>). The processor keeps a store of event records,
  randomizes their timing, arms timers, dispatches controls to devices through a connector
  dispatcher, answers the server with one response per device and lifecycle step, resolves
  which of several overlapping events controls a device, and puts devices back on their
  default control when an event ends. What goes on the wire depends on the edition of the
  standard the server speaks (\<open>server_profile.py\<close>, \<open>schema_editions.py\<close>). Beside it a
  \<open>TariffProcessor\<close> relays prices. Both read the server's clock off a shared timebase;
  requests are retried with backoff, polls are scheduled per resource, and servers are found
  over multicast DNS. Controls reach devices through connectors (\<open>connectors/\<close>): a registry
  constructs them on demand, a dispatcher translates a control to calls and asks a gate before
  each. When the server falls silent a probe puts the client in loss-of-communications mode.
  A subscription manager (\<open>subscription/manager.py\<close>) has the server push changes instead of being
  polled; the driver (\<open>client/csip_client.py\<close>) routes notifications, recovers failed polls and
  rediscovers the server when its structure changes.

  \<^bold>\<open>Theories, in the order of the code.\<close>
  \<^item> \<open>Py_Prelude\<close>: Python's insertion-ordered dicts, bytes, bitmaps, set iteration order,
    \<open>gather\<close> order, loops that return early; shared lemmas.
  \<^item> \<open>Interfaces\<close>: the locales. \<open>expiring_cache\<close> (interpreted by the event store, the
    randomization cache and the response tracker), \<open>mode_ownership\<close> (the active-mode
    tracker), \<open>step_contract\<close> (relations every handler of the processor keeps).
  \<^item> \<open>Sep_Model\<close>: the fields of \<open>models/sep/sep.py\<close> the engine reads, and the CSIP-AUS
    limits of \<open>models/csipaus/elements.py\<close>.
  \<^item> \<open>State_Machine\<close>, \<open>Modes\<close>, \<open>Supersession\<close>, \<open>Randomization\<close>, \<open>Trackers\<close>: the modules of
    the same names in \<open>events/\<close>, the last for \<open>active_modes\<close>, \<open>dderc\<close>, \<open>current_controls\<close>.
  \<^item> \<open>Server_Profile\<close>: \<open>schema_editions.py\<close> and \<open>server_profile.py\<close>; \<open>Response\<close>:
    \<open>events/response.py\<close>; \<open>Posters\<close>: concurrent callers of its tracker, as interleaved steps;
    \<open>Timers\<close>: \<open>events/timers.py\<close>; \<open>Discovered_State\<close>: \<open>client/state.py\<close>.
  \<^item> \<open>Processor_State\<close>, \<open>Processor\<close>: \<open>events/processor.py\<close>, every method. \<open>Processor_Contract\<close>
    stacks the locales \<open>quiet_steps\<close>, \<open>posting_steps\<close>, \<open>event_steps\<close> on \<open>step_contract\<close> and
    proves once, for any relation with a few laws, that every handler keeps it;
    \<open>Processor_Props\<close> interprets them (lifecycle, legal responses, shutdown) and gives the
    step relation \<open>proc_step\<close>; \<open>Processor_Behaviour\<close> has what single handlers do.
  \<^item> \<open>Timebase\<close>: \<open>client/timebase.py\<close>, with runs as lists of calls; \<open>Tariff\<close>:
    \<open>events/tariff.py\<close>, over the timebase, the randomization cache and the response tracker;
    \<open>Retry\<close>: \<open>client/retry.py\<close> and \<open>client/poll_rate.py\<close>; \<open>Polling\<close>: \<open>client/polling.py\<close>,
    coroutines interleaving at their awaits; \<open>Dns_Wire\<close>: \<open>client/dnssd/wire.py\<close>.
  \<^item> \<open>Py_Numbers\<close>: Python's \<open>int\<close> and \<open>round\<close> on rationals; \<open>Scale_Factor\<close>:
    \<open>telemetry/scaling.py\<close> and \<open>telemetry/scale_factor.py\<close>.
  \<^item> \<open>Control_Modes\<close>: \<open>connectors/modes.py\<close> and the method names of \<open>connectors/base.py\<close>;
    \<open>Connector_Registry\<close>: \<open>connectors/registry.py\<close>, with callers and worker threads
    interleaving; \<open>Dispatcher\<close>: \<open>connectors/dispatcher.py\<close>. \<open>Dispatch_Laws\<close> has the locale
    \<open>dispatch_law\<close> (a relation every dispatcher operation keeps), interpreted for authority
    (of control writes; relayed schedule notifications are not gated) and for the accounting of writes; \<open>Dispatch_Props\<close> has what single operations do.
  \<^item> \<open>Connectivity\<close>: the record of contact of \<open>client/http.py\<close> and the simulated outage of
    \<open>client/comm_loss_simulation.py\<close>; \<open>Comms_Loss\<close>: the probe, entry and recovery of
    \<open>client/csip_client.py\<close>, on top of the event processor.
  \<^item> \<open>Subscriptions\<close>: \<open>subscription/manager.py\<close>, every operation. \<open>Subscription_Laws\<close> has the
    locale \<open>subscription_steps\<close> (a relation every operation keeps), interpreted for the
    well-formed table and for what operations leave alone, and two overlapping calls; \<open>Subscription_Props\<close> has
    reconciliation, checkpoints and renumbering.
  \<^item> \<open>Client_Driver\<close>: \<open>client/csip_client.py\<close>, its polls, subscriptions, notifications and
    rediscovery, over all of the above; the walks of \<open>client/discovery.py\<close> are parameters that
    transform the discovered state and the timebase. \<open>Client_Props\<close> shows how a rediscovery
    ends (with \<open>step_contract\<close> interpreted for what handlers leave alone), \<open>Client_Behaviour\<close>
    what single operations do, together with \<open>Comms_Loss\<close> and \<open>Subscriptions\<close>.
  \<^item> \<open>Example_Run\<close>: concrete states for the witnesses.

  \<^bold>\<open>Correspondence.\<close> One definition per function or method, under its name (without the
  leading underscore; a suffix where it would clash). \<open>proc\<close> is the processor's fields, its
  collaborators' state included, and \<open>p_trace\<close> the list of what it did to the outside:
  responses posted, writes to devices, relays, audit records. Records live in a heap and are
  passed by address, so that a handler holding a record sees what others do to it. The
  outside world is the record \<open>env\<close>: clocks, results of POSTs and dispatches, iteration
  orders, and whether a shutdown comes in while a handler awaits, all as functions of a tick
  that every await advances. A handler runs without interleaving of other handlers except
  shutdown, and a shutdown that comes in lets a handler go on under the closed flag, where the
  code would end a timer callback at its await; an operation of the subscription manager or of
  the dispatcher runs as a whole. Properties over runs are therefore about handlers and
  operations carried through one after the other; \<open>overtaken_completion\<close> and
  \<open>overlapping_subscribes\<close> show what the code does where they overlap. \<open>Posters\<close>, \<open>Polling\<close>
  and \<open>Connector_Registry\<close> do interleave their callers, which is what that code is built for. In
  \<open>Client_Driver\<close> notifications that arrive while a rediscovery awaits are handled between its
  calls, and the task a rediscovery runs in is an argument, because it may be one it cancels.

  \<^bold>\<open>Bounds and fuel.\<close> No definition runs on fuel. The schema walks recurse on the types not
  seen yet; the waiting loop of a timer is a \<open>partial_function\<close> into option, and
  \<open>timer_fires_on_time\<close> shows that it returns; the callers of the tracker take at most
  \<open>2 * n * (n + 1)\<close> steps (\<open>posters_terminate\<close>); the passes of a rediscovery recurse on what is
  left of \<open>_MAX_REDISCOVERY_PASSES\<close>; the retry loop recurses on what is left of
  its allowances, and reading a DNS name on the labels left and then the offset. The event
  engine counts whole seconds, as in the code, and its timers milliseconds; where the code
  computes with floats (timebase, retry, polling, scaling of telemetry) the model has rational
  numbers, without rounding, infinities or the \<open>OverflowError\<close> of huge values. Python integers are
  unbounded.

  \<^bold>\<open>Found on the way\<close> (each is a theorem): a rediscovery started by a scheduled poll cancels
  the task it runs in and with it all polling, so loss-of-communications mode is never left by the
  scheduled probe; an event that completes while another handler awaits can still be cancelled or
  superseded; two overlapping calls can subscribe to one resource twice; a rediscovery that fails at once leaves no resource poll armed; a subscription the
  server cancelled comes back with the next rediscovery; a checkpoint forgets which subscriptions
  are of lists; renumbered subscriptions can be lost. The fallback after a randomized
  cancellation never runs, and it blocks the program's default until the record is pruned;
  an event that was itself superseded still supersedes a running one; a record pruned while
  its completion timer sleeps never completes; a price that ended can come back when its
  randomization is pruned and drawn again. A suppressed poll is polled later than its
  documentation says, and a loop of DNS compression pointers is possible and ended only by
  the limit on labels. The modes of the second bitmap are written at the start of an event and
  never withdrawn at its end; a device that leaves the discovered state while its connector is
  constructed is written without asking the gate; a device without a connector counts as
  applied; cancelling a caller lets two constructions of one connector overlap; a scale factor
  given with a float loses its multiplier; an event that outlasts the resume boundary of an
  outage is started late once the boundary is dropped.

  \<^bold>\<open>Not modelled.\<close> HTTP transfer, TLS, XML parsing and the rest of the generated bindings, the
  discovery walk, registration of devices and the life cycle of a simulated outage in the
  client, the notification server, the concrete connectors (Modbus, SunSpec), telemetry posting,
  history database, REST API, command line: input and output, or generated code. Logging is left
  out everywhere.
\<close>

section \<open>Runs of the event processor\<close>

text \<open>
  C1. Over any sequence of handlers of the processor (polls, timers waking, programs removed,
  communications lost and restored, dispatches coming in late, rediscoveries, shutdown), each
  carried through before the next begins, with shutdown alone coming in at its awaits, and
  with no timer waking for a pruned record whose mRID has been stored again: every event
  record keeps its identity (mRID, program, primacy, effective interval), the store stays well
  formed, and the state of the record moves only along the lifecycle: scheduled to active,
  cancelled or superseded; active to completed, cancelled or superseded; never out of a
  terminal state. Handlers that overlap at their awaits are not covered, and the code does let
  them overlap: \<open>overtaken_completion\<close>, below, has a completed event cancelled and superseded.
\<close>

theorem lifecycle_over_runs:
  assumes "(proc_step env)\<^sup>*\<^sup>* s s'" "wf_store (p_store s)" "a < es_next (p_store s)"
  shows "lifecycle_step\<^sup>*\<^sup>* (ev_state (record_of s a)) (ev_state (record_of s' a))
     \<and> same_event (record_of s a) (record_of s' a) \<and> wf_store (p_store s')"
  using run_evolves [OF assms(1,2)] assms(2,3)
  by (simp add: evolves_def wf_kept_def lifecycle_is_closure)

theorem lifecycle_over_runs_witness:
  "2 < es_next (p_store ex_chain) \<and>
   lifecycle_step\<^sup>*\<^sup>* (ev_state (record_of ex_chain 2))
     (ev_state (record_of (enter_comms_loss ex_env None (process_controls ex_env None ''/a'' ex_chain)) 2))"
  using lifecycle_over_runs [OF ex_chain_run wf_ex_chain, of 2] ex_chain_next by simp

text \<open>
  The store has no guard of its own. When the completion of an event fires while another handler
  that has already chosen the event awaits (the loop of rule p awaiting the cancellation of an
  earlier event, or a supersession between telling the devices and ending the event), that handler
  goes on and takes the completed event to cancelled or to superseded.
\<close>

theorem overtaken_completion:
  assumes "stored s a" "ev_state (record_of s a) = ACTIVE"
    and "ev_program_href (record_of s a) = prog" "ev_mrid (record_of s a) \<notin> served" "now < ev_end (record_of s a)"
  shows "ev_state (record_of (on_completion env a s) a) = COMPLETED \<and>
    ev_state (record_of (fst (reconcile_one env cur prog now served a (on_completion env a s))) a) = CANCELLED \<and>
    ev_state (record_of (finish_superseded env cur win a (on_completion env a s)) a) = SUPERSEDED"
proof -
  let ?t = "on_completion env a s"
  note c = completed_stored [OF assms(1,2), of env]
  have "fst (reconcile_one env cur prog now served a ?t) = handle_cancellation env cur a ?t"
    using assms(3-5) by (simp add: reconcile_one_def Let_def c(2) ev_end_def)
  moreover have "record_of (handle_cancellation env cur a ?t) a = record_of (upd_rec a (\<lambda>r. r\<lparr>ev_state := CANCELLED\<rparr>) ?t) a"
    "record_of (finish_superseded env cur win a ?t) a = record_of (upd_rec a (\<lambda>r. r\<lparr>ev_state := SUPERSEDED\<rparr>) ?t) a"
    by (rule record_frame, simp add: handle_cancellation_store [OF c(1)] finish_superseded_store [OF c(1)])+
  ultimately show ?thesis by (simp add: c(2))
qed

theorem overtaken_completion_witness:
  "ev_state (record_of (on_completion ex_env 0 ex_done) 0) = COMPLETED \<and>
   ev_state (record_of (fst (reconcile_one ex_env None ''/a'' 80 {} 0 (on_completion ex_env 0 ex_done))) 0) = CANCELLED"
proof -
  have "ev_program_href (record_of ex_done 0) = ''/a''" "80 < ev_end (record_of ex_done 0)" by code_simp+
  then show ?thesis using overtaken_completion [OF wf_ex_done(2) ex_done_facts(1), of "''/a''" "{}" 80] by simp
qed

text \<open>
  C2. Every response that reaches the network in a run carries a status of the response
  code table, is posted to a non-empty \<open>replyTo\<close> path, and never carries status 251, which
  the 2018 edition does not define, when the server speaks the 2018 edition.
\<close>

theorem posted_statuses_over_runs:
  assumes "(proc_step env)\<^sup>*\<^sup>* s s'" "wf_store (p_store s)"
  shows "\<exists>es. p_trace s' = p_trace s @ es \<and>
     (\<forall>b ok. Posted b ok \<in> set es \<longrightarrow> rb_path b \<noteq> [] \<and>
        (\<exists>c. rb_status b = code_value c) \<and> (is_2018 (env_profile env) \<longrightarrow> rb_status b \<noteq> 251))"
  using run_legal [OF assms] by (fastforce simp: posts_legally_def legal_effect_def legal_status_def)

theorem posted_statuses_over_runs_witness:
  "is_2018 (env_profile ex_env) \<and>
   list_all (\<lambda>e. case e of Posted b _ \<Rightarrow> rb_status b \<noteq> 251 | _ \<Rightarrow> True)
     (p_trace (enter_comms_loss ex_env None (process_controls ex_env None ''/a'' ex_chain)))"
  using posted_statuses_over_runs [OF ex_chain_run wf_ex_chain] ex_env_2018 by (auto intro!: list_all_posted)

text \<open>
  Shutdown is final: once the processor is closed it stays closed over every run, and
  no response is posted any more, whatever polls, timers or losses of communications follow.
\<close>

theorem closed_for_good:
  assumes "(proc_step env)\<^sup>*\<^sup>* (shutdown s) s'" "wf_store (p_store s)"
  shows "p_closed s' \<and> (\<exists>es. p_trace s' = p_trace s @ es \<and> (\<forall>b ok. Posted b ok \<notin> set es))"
  using closed_run [OF assms(1)] assms(2) by (fastforce simp: quiet_def adds_def is_post_def)

theorem closed_for_good_witness:
  "p_closed (enter_comms_loss ex_env None (shutdown ex_chain))"
  using closed_for_good [of ex_env ex_chain "enter_comms_loss ex_env None (shutdown ex_chain)"] wf_ex_chain
    r_into_rtranclp [of "proc_step ex_env", OF proc_step.CommsLost [of ex_env "shutdown ex_chain"]] by simp

section \<open>Defaults and running events\<close>

text \<open>
  C3. When an event ends and its devices fall back to a default control, the default that is
  written never names a mode that another running event holds at a place the write reaches:
  not at the device it is addressed to, nor, under a group lookup, anywhere in the group.
\<close>

theorem fallback_spares_running_events:
  assumes "wf_modes (p_modes s)"
    and "p_trace (apply_dderc_fallback env a cl s) = p_trace s @ es" "ApplyDefault tgt d cs org c oc \<in> set es"
    and "b \<in> set (running_events s)" "ev_mrid (record_of s b) \<noteq> ev_mrid (record_of s a)"
    and "tag tgt \<in> reach_of env (ev_program_href (record_of s b)) (program_devices_list s (ev_program_href (record_of s b)))"
    and "dev \<in> set (program_devices_list s (ev_program_href (record_of s b)))"
      "group_local_lfdis env (ev_program_href (record_of s b)) \<noteq> None \<or> tag tgt = ''href:'' @ dev"
  shows "get_active_mode_names (dderc_base d) \<inter> amt_held (p_modes s) dev (ev_mrid (record_of s b)) = {}"
  by (rule fallback_respects_others [OF assms])

theorem fallback_spares_running_events_witness:
  "get_active_mode_names (dderc_base (default_without ex_default {''op_mod_max_lim_w''})) \<inter>
     amt_held (p_modes ex_pair) ''/edev/1'' [2] = {}"
  using fallback_spares_running_events [OF ex_pair_modes ex_pair_fallback, of "ByHref ''/edev/1''" _ _ _ _ _ 1 "''/edev/1''"]
    ex_pair_facts by (simp add: reach_of_def)

section \<open>Who is told about the end of an event\<close>

text \<open>
  When an event that was dispatched completes, only devices that were running it to the
  end (its dispatch succeeded there and nothing superseded it there) are named in a
  response, and every response says \<open>COMPLETED\<close> (status 3) about that event.
\<close>

theorem completion_audience:
  assumes "stored s a" "ev_state (record_of s a) = ACTIVE"
    and "ev_applied_devices (record_of s a) \<noteq> {} \<or> ev_rejected_devices (record_of s a) \<noteq> {}"
  shows "\<exists>es. p_trace (on_completion env a s) = p_trace s @ es \<and>
    (\<forall>b ok. Posted b ok \<in> set es \<longrightarrow> rb_status b = 3 \<and> rb_subject b = m_rid (ev_derc (record_of s a)) \<and>
       (\<exists>dev \<in> ev_applied_devices (record_of s a) - ev_superseded_devices (record_of s a).
          get_device_lfdi s dev = Some (rb_lfdi b)))"
proof -
  have "code_value RC_COMPLETED = 3" "\<And>rr p c. resolve_wire_code rr RC_COMPLETED p = Some c \<Longrightarrow> c = RC_COMPLETED"
    by (simp_all add: code_value_def code_table_def resolve_wire_code_Some)
  moreover obtain es where "p_trace (on_completion env a s) = p_trace s @ es"
    "\<And>e. e \<in> set es \<Longrightarrow> told env s (record_of s a) RC_COMPLETED e"
    using completion_told [OF assms, of env] by (auto simp: adds_def)
  ultimately show ?thesis
    by (intro exI [of _ es]) (fastforce simp: told_def response_to_def is_post_def)
qed

theorem completion_audience_witness:
  "stored ex_done 0 \<and> list_all (\<lambda>e. case e of Posted b _ \<Rightarrow> rb_lfdi b = [1] | _ \<Rightarrow> True) (p_trace (on_completion ex_env 0 ex_done))"
proof -
  have "p_trace ex_done = []" by code_simp
  then have "rb_lfdi b = [1]" if "Posted b ok \<in> set (p_trace (on_completion ex_env 0 ex_done))" for b ok
    using completion_audience [OF wf_ex_done(2) ex_done_facts(1), of ex_env] ex_done_facts that by fastforce
  then show ?thesis using wf_ex_done(2) by (simp add: list_all_posted)
qed

text \<open>
  C22. And every one of them is told: when the event asks for the response (its
  \<open>responseRequired\<close> has the bit of \<open>COMPLETED\<close> and it has a \<open>replyTo\<close>), every POST succeeds, no
  response is under way when the handler starts and no shutdown comes in while it runs, then after
  the completion handler each device that was running the event to the end and is still known
  with its LFDI has a \<open>COMPLETED\<close> response on record as sent. (A shutdown would cancel the timer
  task the handler runs in, and the devices after it would not be told.)
\<close>

theorem completion_reaches_everyone:
  assumes "stored s a" "ev_state (record_of s a) = ACTIVE"
    and "env_post env = (\<lambda>_. None)" "\<And>t. \<not> env_close env t" "rt_in_flight (p_tracker s) = []"
    and "resolve_wire_code (response_required (ev_derc (record_of s a))) RC_COMPLETED (env_profile env) = Some c"
    and "response_gate (ev_derc (record_of s a)) c = Some path"
    and "dev \<in> ev_applied_devices (record_of s a) - ev_superseded_devices (record_of s a)"
    and "finite (ev_applied_devices (record_of s a))" "get_device_lfdi s dev = Some l"
  shows "already_sent (m_rid (ev_derc (record_of s a)), c, l) (p_tracker (on_completion env a s))"
  using completion_reports [OF assms(1-3,5-10)] by (simp add: already_sent_def)

theorem completion_reaches_everyone_witness:
  "already_sent ([1], RC_COMPLETED, [1]) (p_tracker (on_completion ex_env 0 ex_done))"
  using completion_reaches_everyone [OF wf_ex_done(2) ex_done_facts(1), of ex_env RC_COMPLETED "''/rsp''" "''/edev/1''" "[1]"]
    ex_done_facts by (simp add: ex_env_def)

section \<open>Loss of communications\<close>

text \<open>
  C23. Entering a loss of communications posts nothing and opts every running event out: its
  record stays in the store, active, with every field as it was and the flag \<open>opted_out\<close> set, no
  other record changes, and no event is left running. The resume boundary is raised to at least
  the end of each event opted out.
\<close>

theorem comms_loss_opts_out:
  assumes "s' = enter_comms_loss env cur s"
  shows "posts_nothing s s' \<and> running_events s' = [] \<and> es_events (p_store s') = es_events (p_store s) \<and>
    record_of s' x = (if x \<in> set (running_events s) then (record_of s x)\<lparr>ev_opted_out := True\<rparr> else record_of s x) \<and>
    (\<forall>a \<in> set (running_events s). ev_state (record_of s' a) = ACTIVE \<and> ev_opted_out (record_of s' a) \<and>
       (\<exists>b. p_resume_after s' = Some b \<and> ev_end (record_of s a) \<le> b))"
proof -
  have "ev_state (record_of s a) = ACTIVE" if "a \<in> set (running_events s)" for a
    using that by (auto simp: running_events_def by_state_def record_of_def)
  then show ?thesis unfolding assms using enter_comms_loss_facts [where s = s and env = env and cur = cur] by simp
qed

theorem comms_loss_opts_out_witness:
  "running_events ex_pair = [0, 1] \<and> running_events (enter_comms_loss ex_env None ex_pair) = [] \<and>
   ev_opted_out (record_of (enter_comms_loss ex_env None ex_pair) 1) \<and>
   ev_state (record_of (enter_comms_loss ex_env None ex_pair) 1) = ACTIVE \<and>
   (\<exists>b. p_resume_after (enter_comms_loss ex_env None ex_pair) = Some b \<and> ev_end (record_of ex_pair 1) \<le> b)"
proof -
  have "running_events ex_pair = [0, 1]" by code_simp
  then show ?thesis using comms_loss_opts_out [OF refl, where s = ex_pair and env = ex_env and cur = None and x = 0] by simp
qed

section \<open>Events the server no longer serves\<close>

text \<open>
  C24. Reconciliation with the served list cancels exactly the scheduled and running events of
  the program that the server no longer serves and whose effective period is not over, and
  changes no other record; an incomplete list cancels nothing.
\<close>

theorem removed_events_cancelled:
  assumes "wf_store (p_store s)" "reconcile_removed env cur prog derp now s = (s', False)"
  shows "record_of s' b =
    (if der_controls_complete derp \<and> b \<in> set (all_active_states (p_store s)) \<and> ev_program_href (record_of s b) = prog \<and>
        ev_mrid (record_of s b) \<notin> set (map m_rid (der_controls derp)) \<and> now < ev_end (record_of s b)
     then (record_of s b)\<lparr>ev_state := CANCELLED\<rparr> else record_of s b)"
proof (cases "der_controls_complete derp")
  case True
  then have "for_each (reconcile_one env cur prog now (set (map m_rid (der_controls derp))))
      (all_active_states (p_store s)) s = (s', False)"
    using assms(2) by (simp add: reconcile_removed_def)
  from reconcile_records [OF assms(1) distinct_active [OF assms(1)] active_live [OF assms(1)] this]
  show ?thesis using True by (auto simp: removed_def)
qed (use assms(2) in \<open>auto simp: reconcile_removed_def\<close>)

theorem removed_events_cancelled_witness:
  "ev_state (record_of (fst (reconcile_removed ex_env None ''/b'' (ex_program ''/b'' 1 []) 100 ex_bare)) 1) = CANCELLED
   \<and> ev_state (record_of (fst (reconcile_removed ex_env None ''/b'' (ex_program ''/b'' 1 []) 100 ex_bare)) 0) = SCHEDULED"
proof -
  have "wf_store (p_store ex_bare)" by (simp add: ex_bare_def wf_ex_store ex_proc_def)
  note r = removed_events_cancelled [OF this ex_bare_reconcile]
  show ?thesis using r [of 0] r [of 1] ex_bare_facts by simp
qed

section \<open>Dispatch and timing\<close>

text \<open>
  Dispatching a control to a list of devices answers for each of them separately: the
  outcomes are in the order the dispatches settled, a device whose dispatch succeeded is
  recorded as applied, a device whose dispatch failed as rejected, and no other device is
  recorded either way.
\<close>

theorem dispatch_outcomes:
  "map fst (fst (dispatch_and_report env a cs devs s)) = devs \<and>
   ev_applied_devices (record_of (snd (dispatch_and_report env a cs devs s)) a) =
     ev_applied_devices (record_of s a) \<union> {d. (d, None) \<in> set (fst (dispatch_and_report env a cs devs s))} \<and>
   ev_rejected_devices (record_of (snd (dispatch_and_report env a cs devs s)) a) =
     ev_rejected_devices (record_of s a) \<union> {d. \<exists>x. (d, Some x) \<in> set (fst (dispatch_and_report env a cs devs s))}"
  by (rule report_outcomes) simp

text \<open>
  A device is answered for with the code of its own dispatch: \<open>ACTIVE\<close> when the control
  was applied, and the rejection code of its failure otherwise, each as it goes on the wire
  under the server's edition.
\<close>

theorem dispatch_response_code:
  "\<exists>es. p_trace (respond env a dev failure s) = p_trace s @ es \<and>
     (\<forall>e \<in> set es. \<exists>b ok l c. e = Posted b ok \<and> get_device_lfdi s dev = Some l \<and> rb_lfdi b = l \<and>
        rb_subject b = m_rid (ev_derc (record_of s a)) \<and>
        resolve_wire_code (response_required (ev_derc (record_of s a)))
          (case failure of None \<Rightarrow> RC_ACTIVE | Some exc \<Rightarrow> response_code_for_dispatch_error exc) (env_profile env) = Some c \<and>
        rb_status b = code_value c)"
proof -
  obtain es where es: "p_trace (respond env a dev failure s) = p_trace s @ es"
    "\<And>e. e \<in> set es \<Longrightarrow> \<exists>l. get_device_lfdi s dev = Some l \<and> response_to env (ev_derc (record_of s a))
      (case failure of None \<Rightarrow> RC_ACTIVE | Some exc \<Rightarrow> response_code_for_dispatch_error exc) l e"
    using respond_adds [of s dev env a failure] by (auto simp: adds_def)
  show ?thesis
    by (rule exI [of _ es]) (use es in \<open>auto simp: response_to_def dest!: es(2)\<close>)
qed

theorem dispatch_response_code_witness:
  "list_all (\<lambda>e. \<exists>b ok. e = Posted b ok \<and> rb_lfdi b = [1]) (p_trace (respond ex_env 0 ''/edev/1'' (Some OptOutError) ex_done))"
proof -
  have "p_trace ex_done = []" by code_simp
  then show ?thesis using dispatch_response_code [of ex_env 0 "''/edev/1''" "Some OptOutError" ex_done] ex_done_facts(5)
    by (fastforce simp: list_all_iff)
qed

text \<open>
  A new event that has not started gets a pending activation timer for its effective
  start, on the clock of its program's server, unless the processor was shut down while the
  event was being acknowledged.
\<close>

theorem scheduled_event_has_timer:
  assumes "\<not> p_closed (handle_new_scheduled env a s)"
  shows "\<exists>i. tm_heap (p_timers (handle_new_scheduled env a s)) i =
      \<lparr>tt_mrid = ev_mrid (record_of s a), tt_record = a, tt_target = ev_start (record_of s a),
       tt_callback = OnActivation, tt_clock = now_fn_for s (ev_program_href (record_of s a)), tt_status = Pending\<rparr>
     \<and> pending_task (p_timers (handle_new_scheduled env a s)) i"
  by (rule new_scheduled_timer [OF assms])

theorem scheduled_event_has_timer_witness:
  "\<exists>i. tt_target (tm_heap (p_timers (handle_new_scheduled ex_env 1 ex_bare)) i) = 150
     \<and> pending_task (p_timers (handle_new_scheduled ex_env 1 ex_bare)) i"
proof -
  have "\<not> p_closed (handle_new_scheduled ex_env 1 ex_bare)" "ev_start (record_of ex_bare 1) = 150" by code_simp+
  then obtain i where "tt_target (tm_heap (p_timers (handle_new_scheduled ex_env 1 ex_bare)) i) = 150"
    "pending_task (p_timers (handle_new_scheduled ex_env 1 ex_bare)) i"
    using scheduled_event_has_timer [of ex_env 1 ex_bare] by (metis timer_task.select_convs(3))
  then show ?thesis by blast
qed

text \<open>
  Randomization moves the start and the duration of an event by at most the magnitude the
  server asked for, when the event does not follow another one without a gap.
\<close>

theorem randomization_within_bounds:
  assumes "find_successive_predecessor s prog (interval_start derc) = None" "randint_ok (env_rnd env)"
    and "map_of (rc_cache (p_rand s)) (m_rid derc) = None"
    and "effective_timing env prog derc s = (es, ed, s')"
  shows "\<bar>es - interval_start derc\<bar> \<le> (case randomize_start derc of None \<Rightarrow> 0 | Some v \<Rightarrow> \<bar>v\<bar>)
    \<and> \<bar>ed - interval_duration derc\<bar> \<le> (case randomize_duration derc of None \<Rightarrow> 0 | Some v \<Rightarrow> \<bar>v\<bar>)"
  using effective_timing_random [OF assms] by simp

theorem randomization_within_bounds_witness:
  "randint_ok (env_rnd ex_rnd_env) \<and>
   \<bar>fst (effective_timing ex_rnd_env ''/a'' (ex_derc [7] 500 60 (Some 30)) ex_bare) - 500\<bar> \<le> 30"
proof -
  let ?d = "ex_derc [7] 500 60 (Some 30)"
  have p: "find_successive_predecessor ex_bare ''/a'' (interval_start ?d) = None"
    "map_of (rc_cache (p_rand ex_bare)) (m_rid ?d) = None" "interval_start ?d = 500" "randomize_start ?d = Some 30"
    by code_simp+
  have ok: "randint_ok (env_rnd ex_rnd_env)" by (simp add: ex_rnd_env_def ex_env_def randint_ok_def) presburger
  obtain x y z where "effective_timing ex_rnd_env ''/a'' ?d ex_bare = (x, y, z)" by (metis prod_cases3)
  then show ?thesis using randomization_within_bounds [OF p(1) ok p(2)] p ok by fastforce
qed

text \<open>
  Successive events leave no gap (rule m): an event whose start is the raw end of another
  event of the program starts exactly at the effective end of that one.
\<close>

theorem successive_events_meet:
  assumes "find_successive_predecessor s prog (interval_start derc) = Some b"
  shows "fst (effective_timing env prog derc s) = ev_end (record_of s b)"
  by (rule effective_timing_successive [OF assms])

theorem successive_events_meet_witness:
  "fst (effective_timing ex_env ''/a'' (ex_derc [7] 190 60 (Some 30)) ex_bare) = 190"
proof -
  have "find_successive_predecessor ex_bare ''/a'' (interval_start (ex_derc [7] 190 60 (Some 30))) = Some 0"
    "ev_end (record_of ex_bare 0) = 190" by code_simp+
  then show ?thesis using successive_events_meet [of ex_bare "''/a''" "ex_derc [7] 190 60 (Some 30)" 0 ex_env] by simp
qed

text \<open>
  An event that was answered before, and is over when the server serves it again, is left
  alone: nothing is stored, nothing is posted, nothing is audited.
\<close>

theorem answered_event_not_expired_again:
  assumes "effective_timing env prog derc s = (es, ed, t)" "get_event (p_store t) (m_rid derc) = None"
    and "p_resume_after t = None" "es + ed < now" "has_responded (m_rid derc) (p_tracker t)"
  shows "process_one env cur prog derp now derc s = (t, False) \<and> p_trace t = p_trace s \<and> p_store t = p_store s"
  using expired_answered [OF assms, of cur derp] assms(1)
  by (auto simp: effective_timing_def Let_def case_prod_beta split: option.splits if_splits)

theorem answered_event_not_expired_again_witness:
  "p_trace (fst (process_one ex_env None ''/a'' (ex_program ''/a'' 1 []) 100 (ex_derc [7] 10 60 None) ex_answered)) = []"
proof -
  let ?d = "ex_derc [7] 10 60 None"
  obtain es ed t where t: "effective_timing ex_env ''/a'' ?d ex_answered = (es, ed, t)" by (metis prod_cases3)
  have "fst (effective_timing ex_env ''/a'' ?d ex_answered) = 10"
    "fst (snd (effective_timing ex_env ''/a'' ?d ex_answered)) = 60"
    "get_event (p_store (snd (snd (effective_timing ex_env ''/a'' ?d ex_answered)))) (m_rid ?d) = None"
    "p_resume_after (snd (snd (effective_timing ex_env ''/a'' ?d ex_answered))) = None"
    "has_responded (m_rid ?d) (p_tracker (snd (snd (effective_timing ex_env ''/a'' ?d ex_answered))))"
    "p_trace ex_answered = []"
    by code_simp+
  then show ?thesis
    using answered_event_not_expired_again [OF t, of 100 None "ex_program ''/a'' 1 []"] unfolding t by simp
qed

section \<open>Wind-downs, pruned records, chains of supersession\<close>

text \<open>
  C25. The wind-down after a cancellation never happens. Cancelling a running event whose
  control is randomized puts the fallback to the default on a timer; that timer is pending,
  but in every run that follows, when it wakes it goes back to sleep or ends without running
  the fallback, since its record is cancelled.
\<close>

theorem wind_down_never_runs:
  assumes "wf_store (p_store s)" "stored s a" "ev_state (record_of s a) = ACTIVE"
    and "0 < cancellation_wind_down (record_of s a)"
  shows "\<exists>i. tt_callback (tm_heap (p_timers (handle_cancellation env cur a s)) i) = ApplyDdercFallback
    \<and> tt_record (tm_heap (p_timers (handle_cancellation env cur a s)) i) = a
    \<and> pending_task (p_timers (handle_cancellation env cur a s)) i
    \<and> (\<forall>s'. (proc_step env)\<^sup>*\<^sup>* (handle_cancellation env cur a s) s' \<longrightarrow> tt_record (tm_heap (p_timers s') i) = a \<longrightarrow>
         wake_task env i s' = s' \<or> wake_task env i s' = finish_task i s')"
  using wind_down_task [OF assms(2-4), of env cur] cancelled_timers_idle [OF assms(1,2), of env cur] assms(3)
  by (fastforce simp: terminal_def)

theorem wind_down_never_runs_witness:
  "\<exists>i. pending_task (p_timers (handle_cancellation ex_env None 0 ex_done)) i \<and>
     (let t = handle_cancellation ex_env None 0 ex_done in wake_task ex_env i t = t \<or> wake_task ex_env i t = finish_task i t)"
proof -
  have "0 < cancellation_wind_down (record_of ex_done 0)" by (simp add: ex_done_facts)
  from wind_down_never_runs [OF wf_ex_done ex_done_facts(1) this, of ex_env None]
  show ?thesis unfolding Let_def by blast
qed

text \<open>
  And it blocks the default: as long as the record of such a cancelled event is stored
  with its timer on record, polling the program sends no initial default at all.
\<close>

theorem stale_timer_blocks_default:
  assumes "stored s a" "ev_state (record_of s a) = ACTIVE" "0 < cancellation_wind_down (record_of s a)"
  shows "apply_initial_dderc env (ev_program_href (record_of s a)) (handle_cancellation env cur a s) =
     handle_cancellation env cur a s"
proof (rule initial_blocked)
  let ?t = "handle_cancellation env cur a s"
  have st: "p_store ?t = upd_record a (\<lambda>r. r\<lparr>ev_state := CANCELLED\<rparr>) (p_store s)"
    by (rule handle_cancellation_store [OF assms(1)])
  have r: "record_of ?t a = (record_of s a)\<lparr>ev_state := CANCELLED\<rparr>"
    unfolding record_of_def st by (simp add: upd_record_def)
  show "stored ?t a" using assms(1) unfolding stored_def r by (simp add: st)
  show "ev_state (record_of ?t a) = CANCELLED" "ev_program_href (record_of ?t a) = ev_program_href (record_of s a)"
    by (simp_all add: r)
  show "has_pending (ev_mrid (record_of ?t a)) (p_timers ?t)"
    using wind_down_task [OF assms, of env cur] by (auto simp: r)
qed

theorem stale_timer_blocks_default_witness:
  "apply_initial_dderc ex_env ''/a'' (handle_cancellation ex_env None 0 ex_done) = handle_cancellation ex_env None 0 ex_done"
  using stale_timer_blocks_default [OF wf_ex_done(2) ex_done_facts(1), of ex_env None] ex_done_facts by simp

text \<open>
  A running event whose record has been pruned from the store ends silently: the
  completion handler changes nothing, posts nothing and sends no default.
\<close>

theorem pruned_event_never_completes:
  assumes "wf_store (p_store s)" "ev_end (record_of s a) + grace < now" "stored s a"
  shows "let t = s\<lparr>p_store := snd (prune_expired now grace (p_store s))\<rparr> in on_completion env a t = t"
proof -
  have "store_map (p_store s) (ev_mrid (record_of s a)) = Some (record_of s a)"
    using assms(3) by (simp add: store_map_def stored_def get_event_def record_of_def)
  then have "store_map (snd (prune_expired now grace (p_store s))) (ev_mrid (record_of s a)) = None"
    using assms(2) by (simp add: store_map_prune [OF assms(1)])
  moreover have "es_heap (snd (prune_expired now grace (p_store s))) = es_heap (p_store s)"
    using prune_expired_store(1) [OF assms(1)] by simp
  ultimately show ?thesis
    unfolding Let_def by (intro completion_pruned) (auto simp: store_map_def get_event_def record_of_def)
qed

theorem pruned_event_never_completes_witness:
  "ev_state (record_of ex_done 0) = ACTIVE \<and>
   (let t = ex_done\<lparr>p_store := snd (prune_expired 200 60 (p_store ex_done))\<rparr> in on_completion ex_env 0 t = t)"
proof -
  have "ev_end (record_of ex_done 0) + 60 < 200" by code_simp
  then show ?thesis using pruned_event_never_completes [OF wf_ex_done(1) _ wf_ex_done(2)] ex_done_facts(1) by blast
qed

text \<open>
  Supersession does not ask whether the superseding event is still alive: a running event
  is taken over, on all its devices and for good, by an event that is itself already
  superseded (or otherwise over), also before that event would have started.
\<close>

theorem dead_event_supersedes:
  assumes "get_event (p_store s) (superseded_mrid res) = Some a" "get_event (p_store s) (superseding_mrid res) = Some b"
    and "wf_store (p_store s)" "ev_state (record_of s a) = ACTIVE" "terminal (ev_state (record_of s b))"
    and "devices_of dm (ev_program_href (record_of s a)) \<noteq> {}"
      "devices_of dm (ev_program_href (record_of s a)) \<subseteq> affected_devices res"
  shows "ev_state (record_of (apply_supersession env cur dm res s) a) = SUPERSEDED"
  by (rule apply_supersession_full(1) [OF assms(1-3)]) (use assms in \<open>auto simp: terminal_def\<close>)

theorem dead_event_supersedes_witness:
  "ev_state (record_of ex_chain 2) = ACTIVE \<and> ev_start (record_of ex_chain 1) = 190 \<and> env_now ex_env None 0 = 100 \<and>
   ev_state (record_of ex_chain_step 1) = SUPERSEDED \<and>
   ev_state (record_of (run_supersession ex_env None ex_chain) 2) = SUPERSEDED"
proof -
  have "ev_start (record_of ex_chain 1) = 190" "env_now ex_env None 0 = 100" by code_simp+
  moreover have "ev_state (record_of (run_supersession ex_env None ex_chain) 2) = SUPERSEDED"
    unfolding ex_chain_run_eq
    by (rule dead_event_supersedes [where b = 1])
      (use ex_chain_step_facts ex_chain_states ex_chain_devices wf_ex_chain_step in \<open>simp_all add: terminal_def\<close>)
  ultimately show ?thesis using ex_chain_states ex_chain_step_facts(1) by simp
qed

section \<open>What goes out unchanged, and what may be written first\<close>

text \<open>
  A control is relayed on change only: relaying it as updated right after it was relayed,
  with nothing changed in between, changes nothing and sends nothing.
\<close>

theorem relay_on_change_only:
  "relay_control_event env a ''updated'' (relay_control_event env a tr s) = relay_control_event env a tr s"
  by (rule relay_updated_idle)

text \<open>
  An initial default is only meant for devices no event controls: a device that is chosen
  is under no running event, except one that was superseded or rejected on that very device.
\<close>

theorem initial_default_targets_free:
  assumes "(dev, lfdi) \<in> set (initial_targets s prog derp d)" "b \<in> set (running_events s)"
    and "dev \<in> set (program_devices_list s (ev_program_href (record_of s b)))"
  shows "dev \<in> ev_superseded_devices (record_of s b) \<or> dev \<in> ev_rejected_devices (record_of s b)"
  by (rule initial_targets_free [OF assms])

theorem initial_default_targets_free_witness:
  "''/edev/1'' \<in> ev_superseded_devices (record_of ex_rejected 0) \<or> ''/edev/1'' \<in> ev_rejected_devices (record_of ex_rejected 0)"
proof -
  have "(''/edev/1'', [1]) \<in> set (initial_targets ex_rejected ''/a'' (ex_program ''/a'' 1 []) ex_default)"
    "0 \<in> set (running_events ex_rejected)"
    "''/edev/1'' \<in> set (program_devices_list ex_rejected (ev_program_href (record_of ex_rejected 0)))"
    by code_simp+
  then show ?thesis by (rule initial_default_targets_free)
qed

end
